(* ===== verification/Prelude.thy ===== *)
theory Prelude
  imports Complex_Main "HOL-Library.List_Lexorder" "HOL-Library.Char_ord"
    "HOL-Library.Product_Lexorder"
begin

text \<open>
  The notions every other theory shares.  Results: a Python function that may raise is a HOL
  function into \<open>exn + 'a\<close>, \<open>Inl\<close> being the raised exception.  An exception keeps its
  class, the template of its message (the literal f-string, with \<open>{}\<close> and \<open>{!r}\<close> for its
  holes) and the strings that fill the holes.  Strings: a Python string is its UTF-8 bytes, a
  HOL \<open>string\<close>; comparing bytes orders strings as Python orders their code points.
  Dictionaries: an association list in insertion order.
\<close>

section \<open>Exceptions and results\<close>

text \<open>
  The subclasses of \<open>ValueError\<close> the program defines are constructors of their own, and
  \<open>is_value_error\<close> is what an \<open>except ValueError\<close> clause catches.  \<open>Raised cls text\<close> is an
  exception of a class outside the program, with its name and its text.
\<close>

datatype exn =
    ValueError string "string list"
  | SchemaError string "string list"
  | UnsupportedSchemaError string "string list"
  | GraphError string "string list"
  | NothingSelected string "string list"
  | BaselineError string "string list"
  | PathRefused string "string list"
  | MalformedManifest string "string list"
  | NotPromotable string "string list"
  | DuplicateComparisonLimit string "string list"
  | AnalysisSourceError string string "string list"
  | TypeErr string "string list"
  | KeyErr string
  | OSErr string
  | Raised string string

type_synonym 'a result = "exn + 'a"

fun is_value_error :: "exn \<Rightarrow> bool" where
  "is_value_error (TypeErr _ _) = False"
| "is_value_error (KeyErr _) = False"
| "is_value_error (OSErr _) = False"
| "is_value_error (Raised _ _) = False"
| "is_value_error (NotPromotable _ _) = False"
| "is_value_error _ = True"

fun is_schema_error :: "exn \<Rightarrow> bool" where
  "is_schema_error (SchemaError _ _) = True"
| "is_schema_error (UnsupportedSchemaError _ _) = True"
| "is_schema_error _ = False"

named_theorems result_iff \<open>when a composed computation returns a value\<close>

text \<open>Sequencing: run the first computation and hand its value on, or stop at its exception.\<close>

fun bindr :: "'e + 'a \<Rightarrow> ('a \<Rightarrow> 'e + 'b) \<Rightarrow> 'e + 'b" where
  "bindr (Inl e) k = Inl e"
| "bindr (Inr x) k = k x"

text \<open>\<open>if cond: raise e\<close>, followed by the rest of the function.\<close>

definition raise_if :: "bool \<Rightarrow> 'e \<Rightarrow> 'e + 'a \<Rightarrow> 'e + 'a" where
  "raise_if c e k = (if c then Inl e else k)"

text \<open>A generator expression consumed by \<open>tuple\<close>: elements in order, the first exception wins.\<close>

fun mapr :: "('a \<Rightarrow> 'e + 'b) \<Rightarrow> 'a list \<Rightarrow> 'e + 'b list" where
  "mapr f [] = Inr []"
| "mapr f (x # xs) = bindr (f x) (\<lambda>y. bindr (mapr f xs) (\<lambda>ys. Inr (y # ys)))"

text \<open>A \<open>for\<close> loop whose body only checks.\<close>

fun check_each :: "('a \<Rightarrow> 'e + unit) \<Rightarrow> 'a list \<Rightarrow> 'e + unit" where
  "check_each f [] = Inr ()"
| "check_each f (x # xs) = bindr (f x) (\<lambda>_. check_each f xs)"

text \<open>A computation on an optional value: \<open>None\<close> stays \<open>None\<close>.\<close>

definition optr :: "('a \<Rightarrow> 'e + 'b) \<Rightarrow> 'a option \<Rightarrow> 'e + 'b option" where
  "optr f v = (case v of None \<Rightarrow> Inr None | Some x \<Rightarrow> bindr (f x) (\<lambda>y. Inr (Some y)))"

lemma bindr_Inr [result_iff]: "bindr m k = Inr y \<longleftrightarrow> (\<exists>x. m = Inr x \<and> k x = Inr y)"
  by (cases m) auto

lemma bindr_Inl: "bindr m k = Inl e \<longleftrightarrow> m = Inl e \<or> (\<exists>x. m = Inr x \<and> k x = Inl e)"
  by (cases m) auto

lemma bindr_cong [fundef_cong]:
  "m = m' \<Longrightarrow> (\<And>x. m' = Inr x \<Longrightarrow> k x = k' x) \<Longrightarrow> bindr m k = bindr m' k'"
  by (cases m') auto

lemma raise_if_Inr [result_iff]: "raise_if c e k = Inr y \<longleftrightarrow> \<not> c \<and> k = Inr y"
  by (simp add: raise_if_def)

lemma raise_if_simps [simp]: "raise_if True e k = Inl e" "raise_if False e k = k"
  by (simp_all add: raise_if_def)

lemma mapr_Inr: "mapr f xs = Inr ys \<longleftrightarrow> list_all2 (\<lambda>x y. f x = Inr y) xs ys"
proof (induction xs arbitrary: ys)
  case Nil
  show ?case by auto
next
  case (Cons x xs)
  show ?case by (cases ys) (auto simp: bindr_Inr Cons.IH)
qed

lemma mapr_map: "mapr f (map g xs) = mapr (\<lambda>x. f (g x)) xs"
  by (induction xs) auto

lemma mapr_Inr_self: "(\<And>x. x \<in> set xs \<Longrightarrow> f x = Inr (g x)) \<Longrightarrow> mapr f xs = Inr (map g xs)"
  by (induction xs) auto

lemma mapr_cong [fundef_cong]:
  "xs = ys \<Longrightarrow> (\<And>x. x \<in> set ys \<Longrightarrow> f x = g x) \<Longrightarrow> mapr f xs = mapr g ys"
  by (induction ys arbitrary: xs) auto

text \<open>A pass that only checks: it returns its input exactly when every element is accepted.\<close>

lemma mapr_filter_iff:
  assumes "\<And>x y. f x = Inr y \<longleftrightarrow> P x \<and> y = g x"
  shows "mapr f xs = Inr ys \<longleftrightarrow> (\<forall>x \<in> set xs. P x) \<and> ys = map g xs"
proof (induction xs arbitrary: ys)
  case Nil
  show ?case by auto
next
  case (Cons x xs)
  show ?case by (auto simp: bindr_Inr assms Cons.IH)
qed

lemma check_each_Inr [result_iff]: "check_each f xs = Inr u \<longleftrightarrow> (\<forall>x \<in> set xs. f x = Inr ())"
  by (induction xs) (auto simp: bindr_Inr)

lemma mapr_Inl: "mapr f xs = Inl e \<Longrightarrow> \<exists>x \<in> set xs. f x = Inl e"
  by (induction xs) (auto simp: bindr_Inl)

lemma optr_simps [simp]: "optr f None = Inr None"
  "optr f (Some x) = bindr (f x) (\<lambda>y. Inr (Some y))"
  by (simp_all add: optr_def)

lemma optr_Inr [result_iff]:
  "optr f v = Inr w \<longleftrightarrow>
     (case v of None \<Rightarrow> w = None | Some x \<Rightarrow> \<exists>y. f x = Inr y \<and> w = Some y)"
  by (cases v) (auto simp: bindr_Inr)

lemma catch_Inr [result_iff]: "(case m of Inl e \<Rightarrow> Inl (f e) | Inr x \<Rightarrow> Inr x) = Inr y \<longleftrightarrow> m = Inr y"
  by (cases m) auto

section \<open>Strings\<close>

text \<open>The em dash of the program's messages, in UTF-8.\<close>

definition em_dash :: string where
  "em_dash = [CHR 0xE2, CHR 0x80, CHR 0x94]"

text \<open>\<open>len(s)\<close> counts code points: the bytes that do not continue a UTF-8 sequence.\<close>

definition is_continuation :: "char \<Rightarrow> bool" where
  "is_continuation c = (let n = (of_char c :: nat) in 128 \<le> n \<and> n < 192)"

definition py_len :: "string \<Rightarrow> nat" where
  "py_len s = length (filter (\<lambda>c. \<not> is_continuation c) s)"

text \<open>Iterating over a string yields its code points.\<close>

fun code_points :: "string \<Rightarrow> string list" where
  "code_points [] = []"
| "code_points (c # cs) =
     (case code_points cs of
        [] \<Rightarrow> [[c]]
      | w # ws \<Rightarrow> if is_continuation (hd w) then (c # w) # ws else [c] # w # ws)"

definition is_ascii :: "char \<Rightarrow> bool" where
  "is_ascii c = ((of_char c :: nat) < 128)"

lemma concat_code_points: "concat (code_points s) = s"
  by (induction s) (auto split: list.splits)

lemma code_points_ascii: "list_all is_ascii s \<Longrightarrow> code_points s = map (\<lambda>c. [c]) s"
  by (induction s) (auto simp: is_ascii_def is_continuation_def split: list.splits)

text \<open>
  The code points \<open>str.strip\<close> removes: the white space of Unicode, in UTF-8.
\<close>

definition space_points :: "string list" where
  "space_points = [
     [CHR 0x09], [CHR 0x0A], [CHR 0x0B], [CHR 0x0C], [CHR 0x0D], [CHR 0x1C], [CHR 0x1D],
     [CHR 0x1E], [CHR 0x1F], [CHR 0x20], [CHR 0xC2, CHR 0x85], [CHR 0xC2, CHR 0xA0],
     [CHR 0xE1, CHR 0x9A, CHR 0x80], [CHR 0xE2, CHR 0x80, CHR 0x80],
     [CHR 0xE2, CHR 0x80, CHR 0x81], [CHR 0xE2, CHR 0x80, CHR 0x82],
     [CHR 0xE2, CHR 0x80, CHR 0x83], [CHR 0xE2, CHR 0x80, CHR 0x84],
     [CHR 0xE2, CHR 0x80, CHR 0x85], [CHR 0xE2, CHR 0x80, CHR 0x86],
     [CHR 0xE2, CHR 0x80, CHR 0x87], [CHR 0xE2, CHR 0x80, CHR 0x88],
     [CHR 0xE2, CHR 0x80, CHR 0x89], [CHR 0xE2, CHR 0x80, CHR 0x8A],
     [CHR 0xE2, CHR 0x80, CHR 0xA8], [CHR 0xE2, CHR 0x80, CHR 0xA9],
     [CHR 0xE2, CHR 0x80, CHR 0xAF], [CHR 0xE2, CHR 0x81, CHR 0x9F],
     [CHR 0xE3, CHR 0x80, CHR 0x80]]"

definition is_space :: "string \<Rightarrow> bool" where
  "is_space p = (p \<in> set space_points)"

definition trim :: "('a \<Rightarrow> bool) \<Rightarrow> 'a list \<Rightarrow> 'a list" where
  "trim P xs = rev (dropWhile P (rev (dropWhile P xs)))"

definition strip :: "string \<Rightarrow> string" where
  "strip s = concat (trim is_space (code_points s))"

lemma trim_id: "xs \<noteq> [] \<Longrightarrow> \<not> P (hd xs) \<Longrightarrow> \<not> P (last xs) \<Longrightarrow> trim P xs = xs"
  by (simp add: trim_def dropWhile_eq_self_iff [THEN iffD2] hd_rev)

lemma strip_Nil [simp]: "strip [] = []"
  by (simp add: strip_def trim_def)

lemma strip_ascii:
  assumes "list_all is_ascii s" "s \<noteq> []" "\<not> is_space [hd s]" "\<not> is_space [last s]"
  shows "strip s = s"
proof -
  have "trim is_space (map (\<lambda>c. [c]) s) = map (\<lambda>c. [c]) s"
    by (rule trim_id) (use assms in \<open>auto simp: hd_map last_map\<close>)
  then show ?thesis
    using assms(1) by (simp add: strip_def code_points_ascii)
qed

lemma ascii_space: "is_space [c] \<Longrightarrow> (of_char c :: nat) \<le> 32"
  by (auto simp: is_space_def space_points_def)

text \<open>\<open>sep.join(xs)\<close>, \<open>s.startswith(p)\<close>, \<open>s.endswith(p)\<close>, \<open>s.split(c)\<close> and \<open>str(n)\<close>.\<close>

fun join :: "string \<Rightarrow> string list \<Rightarrow> string" where
  "join sep [] = []"
| "join sep [x] = x"
| "join sep (x # y # ys) = x @ sep @ join sep (y # ys)"

definition startswith :: "string \<Rightarrow> string \<Rightarrow> bool" where
  "startswith s p = (take (length p) s = p)"

definition endswith :: "string \<Rightarrow> string \<Rightarrow> bool" where
  "endswith s p = startswith (rev s) (rev p)"

fun contains :: "string \<Rightarrow> string \<Rightarrow> bool" where
  "contains [] p = (p = [])"
| "contains (c # cs) p = (startswith (c # cs) p \<or> contains cs p)"

fun split_char :: "char \<Rightarrow> string \<Rightarrow> string list" where
  "split_char c [] = [[]]"
| "split_char c (x # xs) =
     (if x = c then [] # split_char c xs
      else (case split_char c xs of [] \<Rightarrow> [[x]] | w # ws \<Rightarrow> (x # w) # ws))"

fun show_nat :: "nat \<Rightarrow> string" where
  "show_nat n = (if n < 10 then [char_of (48 + n)] else show_nat (n div 10) @ [char_of (48 + n mod 10)])"

definition show_int :: "int \<Rightarrow> string" where
  "show_int i = (if i < 0 then ''-'' @ show_nat (nat (- i)) else show_nat (nat i))"

declare show_nat.simps [simp del]

lemma show_nat_small: "n < 10 \<Longrightarrow> show_nat n = [char_of (48 + n)]"
  by (simp add: show_nat.simps)

lemma show_nat_nonempty: "show_nat n \<noteq> []"
  by (subst show_nat.simps) simp

text \<open>
  \<open>type(exc).__name__\<close> and \<open>str(exc)\<close>: the template with its holes filled from left to right.
\<close>

fun fill :: "string \<Rightarrow> string list \<Rightarrow> string" where
  "fill [] args = []"
| "fill (c # cs) [] = c # fill cs []"
| "fill (c # cs) (a # args) =
     (if startswith (c # cs) ''{}'' then a @ fill (drop 1 cs) args
      else if startswith (c # cs) ''{!r}'' then CHR 0x27 # a @ CHR 0x27 # fill (drop 3 cs) args
      else c # fill cs (a # args))"

fun exn_class :: "exn \<Rightarrow> string" where
  "exn_class (ValueError _ _) = ''ValueError''"
| "exn_class (SchemaError _ _) = ''SchemaError''"
| "exn_class (UnsupportedSchemaError _ _) = ''UnsupportedSchemaError''"
| "exn_class (GraphError _ _) = ''GraphError''"
| "exn_class (NothingSelected _ _) = ''NothingSelected''"
| "exn_class (BaselineError _ _) = ''BaselineError''"
| "exn_class (PathRefused _ _) = ''PathRefused''"
| "exn_class (MalformedManifest _ _) = ''MalformedManifest''"
| "exn_class (NotPromotable _ _) = ''NotPromotable''"
| "exn_class (DuplicateComparisonLimit _ _) = ''DuplicateComparisonLimit''"
| "exn_class (AnalysisSourceError _ _ _) = ''AnalysisSourceError''"
| "exn_class (TypeErr _ _) = ''TypeError''"
| "exn_class (KeyErr _) = ''KeyError''"
| "exn_class (OSErr _) = ''OSError''"
| "exn_class (Raised cls _) = cls"

fun exn_text :: "exn \<Rightarrow> string" where
  "exn_text (ValueError t args) = fill t args"
| "exn_text (SchemaError t args) = fill t args"
| "exn_text (UnsupportedSchemaError t args) = fill t args"
| "exn_text (GraphError t args) = fill t args"
| "exn_text (NothingSelected t args) = fill t args"
| "exn_text (BaselineError t args) = fill t args"
| "exn_text (PathRefused t args) = fill t args"
| "exn_text (MalformedManifest t args) = fill t args"
| "exn_text (NotPromotable t args) = fill t args"
| "exn_text (DuplicateComparisonLimit t args) = fill t args"
| "exn_text (AnalysisSourceError code t args) = fill t args"
| "exn_text (TypeErr t args) = fill t args"
| "exn_text (KeyErr k) = CHR 0x27 # k @ [CHR 0x27]"
| "exn_text (OSErr t) = t"
| "exn_text (Raised _ t) = t"

lemma split_char_nonempty: "split_char c s \<noteq> []"
  by (induction s) (auto split: list.splits)

section \<open>Lists and dictionaries\<close>

text \<open>\<open>dict.fromkeys(xs)\<close>: the distinct elements in order of first occurrence.\<close>

fun first_occurrences :: "'a list \<Rightarrow> 'a list" where
  "first_occurrences [] = []"
| "first_occurrences (x # xs) = x # filter (\<lambda>y. y \<noteq> x) (first_occurrences xs)"

lemma set_first_occurrences [simp]: "set (first_occurrences xs) = set xs"
  by (induction xs) auto

lemma distinct_first_occurrences [simp]: "distinct (first_occurrences xs)"
  by (induction xs) auto

lemma first_occurrences_distinct: "distinct xs \<Longrightarrow> first_occurrences xs = xs"
  by (induction xs) (auto simp: filter_id_conv)

text \<open>\<open>next((x for x in xs if p(x)), None)\<close> is \<open>List.find\<close>.\<close>

lemma find_None_set: "List.find P xs = None \<longleftrightarrow> (\<forall>x \<in> set xs. \<not> P x)"
  by (induction xs) auto

lemma find_Some_set: "List.find P xs = Some x \<Longrightarrow> x \<in> set xs \<and> P x"
  by (induction xs) (auto split: if_splits)

text \<open>The first match on a key that identifies its element is that element.\<close>

lemma find_key_iff:
  assumes "distinct (map key xs)"
  shows "List.find (\<lambda>x. key x = k) xs = Some y \<longleftrightarrow> y \<in> set xs \<and> key y = k"
proof
  assume y: "y \<in> set xs \<and> key y = k"
  show "List.find (\<lambda>x. key x = k) xs = Some y"
  proof (cases "List.find (\<lambda>x. key x = k) xs")
    case None
    with y show ?thesis by (auto simp: find_None_set)
  next
    case (Some z)
    then have "z \<in> set xs" "key z = key y" using y by (auto dest: find_Some_set)
    then have "z = y" using assms y by (auto simp: distinct_map dest: inj_onD)
    with Some show ?thesis by simp
  qed
qed (auto dest: find_Some_set)

text \<open>\<open>sorted(set(xs))\<close>.\<close>

definition sorted_set :: "'a::linorder list \<Rightarrow> 'a list" where
  "sorted_set xs = sort (remdups xs)"

lemma set_sorted_set [simp]: "set (sorted_set xs) = set xs"
  by (simp add: sorted_set_def)

lemma sorted_sorted_set [simp]: "sorted (sorted_set xs)"
  by (simp add: sorted_set_def)

lemma distinct_sorted_set [simp]: "distinct (sorted_set xs)"
  by (simp add: sorted_set_def)

text \<open>A dictionary in insertion order: \<open>d[k] = v\<close> keeps the place of an existing key.\<close>

fun dict_set :: "'k \<Rightarrow> 'v \<Rightarrow> ('k \<times> 'v) list \<Rightarrow> ('k \<times> 'v) list" where
  "dict_set k v [] = [(k, v)]"
| "dict_set k v ((k', v') # d) = (if k' = k then (k, v) # d else (k', v') # dict_set k v d)"

lemma map_of_dict_set [simp]: "map_of (dict_set k v d) = (map_of d)(k \<mapsto> v)"
  by (induction d) (auto simp: fun_eq_iff)

lemma keys_dict_set:
  "map fst (dict_set k v d) = (if k \<in> fst ` set d then map fst d else map fst d @ [k])"
  by (induction k v d rule: dict_set.induct) (auto intro: rev_image_eqI)

lemma distinct_dict_set: "distinct (map fst d) \<Longrightarrow> distinct (map fst (dict_set k v d))"
  by (simp add: keys_dict_set)

lemma set_keys_dict_set [simp]: "fst ` set (dict_set k v d) = insert k (fst ` set d)"
  using arg_cong [OF keys_dict_set [of k v d], of set] by (simp split: if_splits) auto

text \<open>\<open>d.setdefault(k, []).append(v)\<close>: the values of each key, keys in order of first use.\<close>

fun dict_append :: "'k \<Rightarrow> 'v \<Rightarrow> ('k \<times> 'v list) list \<Rightarrow> ('k \<times> 'v list) list" where
  "dict_append k v [] = [(k, [v])]"
| "dict_append k v ((k', vs) # d) =
     (if k' = k then (k', vs @ [v]) # d else (k', vs) # dict_append k v d)"

definition dict_values :: "('k \<times> 'v list) list \<Rightarrow> 'k \<Rightarrow> 'v list" where
  "dict_values d k = (case map_of d k of None \<Rightarrow> [] | Some vs \<Rightarrow> vs)"

lemma dict_values_append:
  "dict_values (dict_append k v d) k' = dict_values d k' @ (if k' = k then [v] else [])"
  by (induction d) (auto simp: dict_values_def)

lemma dict_append_keys:
  "map fst (dict_append k v d) = (if k \<in> fst ` set d then map fst d else map fst d @ [k])"
  by (induction k v d rule: dict_append.induct) (auto intro: rev_image_eqI)

lemma set_keys_dict_append [simp]: "fst ` set (dict_append k v d) = insert k (fst ` set d)"
  using arg_cong [OF dict_append_keys [of k v d], of set] by (simp split: if_splits) auto

lemma distinct_dict_append: "distinct (map fst d) \<Longrightarrow> distinct (map fst (dict_append k v d))"
  by (simp add: dict_append_keys)

end
