(* ===== verification/PyValue.thy ===== *)
theory PyValue
  imports Prelude
begin

text \<open>
  The dynamic values the program reads from a document or hands to a constructor before it has
  checked them: what \<open>json.loads\<close> returns (\<open>PNone\<close>, \<open>PBool\<close>, \<open>PInt\<close>, \<open>PFloat\<close>, \<open>PStr\<close>,
  \<open>PList\<close>, \<open>PDict\<close>) and the tuples the code builds from it.  The constructors of the domain
  models take such values, so every \<open>isinstance\<close> check of the source is a branch of the model.
  A float is a finite rational, an infinity or NaN: arithmetic on floats is exact here.
\<close>

datatype pyfloat = Fin rat | PosInf | NegInf | NaN

datatype pyval =
    PNone
  | PBool bool
  | PInt int
  | PFloat pyfloat
  | PStr string
  | PList "pyval list"
  | PTuple "pyval list"
  | PDict "(string \<times> pyval) list"

section \<open>What the language does with them\<close>

text \<open>\<open>type(v).__name__\<close>.\<close>

fun type_name :: "pyval \<Rightarrow> string" where
  "type_name PNone = ''NoneType''"
| "type_name (PBool _) = ''bool''"
| "type_name (PInt _) = ''int''"
| "type_name (PFloat _) = ''float''"
| "type_name (PStr _) = ''str''"
| "type_name (PList _) = ''list''"
| "type_name (PTuple _) = ''tuple''"
| "type_name (PDict _) = ''dict''"

text \<open>\<open>bool(v)\<close>.\<close>

fun truthy :: "pyval \<Rightarrow> bool" where
  "truthy PNone = False"
| "truthy (PBool b) = b"
| "truthy (PInt i) = (i \<noteq> 0)"
| "truthy (PFloat f) = (f \<noteq> Fin 0)"
| "truthy (PStr s) = (s \<noteq> [])"
| "truthy (PList vs) = (vs \<noteq> [])"
| "truthy (PTuple vs) = (vs \<noteq> [])"
| "truthy (PDict kvs) = (kvs \<noteq> [])"

text \<open>\<open>v == n\<close> for an integer literal \<open>n\<close>: booleans and floats compare as numbers.\<close>

fun eq_int :: "pyval \<Rightarrow> int \<Rightarrow> bool" where
  "eq_int (PBool b) n = ((if b then 1 else 0) = n)"
| "eq_int (PInt i) n = (i = n)"
| "eq_int (PFloat (Fin q)) n = (q = of_int n)"
| "eq_int _ n = False"

text \<open>\<open>isinstance(v, str)\<close> and the like; \<open>bool\<close> is a subclass of \<open>int\<close>.\<close>

fun is_str :: "pyval \<Rightarrow> bool" where
  "is_str (PStr _) = True"
| "is_str _ = False"

fun is_bool :: "pyval \<Rightarrow> bool" where
  "is_bool (PBool _) = True"
| "is_bool _ = False"

fun is_tuple :: "pyval \<Rightarrow> bool" where
  "is_tuple (PTuple _) = True"
| "is_tuple _ = False"

text \<open>
  \<open>tuple(v)\<close>: a list, a tuple, the code points of a string, the keys of a dictionary; every
  other value raises \<open>TypeError\<close>.
\<close>

fun py_iter :: "pyval \<Rightarrow> pyval list result" where
  "py_iter (PList vs) = Inr vs"
| "py_iter (PTuple vs) = Inr vs"
| "py_iter (PStr s) = Inr (map PStr (code_points s))"
| "py_iter (PDict kvs) = Inr (map (\<lambda>kv. PStr (fst kv)) kvs)"
| "py_iter v = Inl (TypeErr ''{} object is not iterable'' [type_name v])"

definition py_tuple :: "pyval \<Rightarrow> pyval result" where
  "py_tuple v = bindr (py_iter v) (\<lambda>vs. Inr (PTuple vs))"

lemma py_tuple_simps [simp]:
  "py_tuple (PList vs) = Inr (PTuple vs)"
  "py_tuple (PTuple vs) = Inr (PTuple vs)"
  by (simp_all add: py_tuple_def)

text \<open>\<open>d.get(k, default)\<close> and \<open>d[k]\<close>; \<open>d.get(k)\<close> is the first with default \<open>None\<close>.\<close>

definition py_get_default :: "(string \<times> pyval) list \<Rightarrow> string \<Rightarrow> pyval \<Rightarrow> pyval" where
  "py_get_default d k v = (case map_of d k of None \<Rightarrow> v | Some w \<Rightarrow> w)"

definition py_get :: "(string \<times> pyval) list \<Rightarrow> string \<Rightarrow> pyval" where
  "py_get d k = py_get_default d k PNone"

text \<open>
  Reading a field back from a literal dictionary: the simplifier walks the keys, and walks
  over an optional group of keys that cannot hold the one asked for.
\<close>

named_theorems get_simps \<open>reading the keys of a built dictionary\<close>

lemma py_get_Nil [get_simps]: "py_get_default [] k v = v"
  by (simp add: py_get_default_def)

lemma py_get_Cons [get_simps]:
  "py_get_default ((k', w) # d) k v = (if k' = k then w else py_get_default d k v)"
  by (auto simp: py_get_default_def)

lemma py_get_append_skip [get_simps]:
  "k \<notin> fst ` set d \<Longrightarrow> py_get_default (d @ d') k v = py_get_default d' k v"
  by (simp add: py_get_default_def map_add_def map_of_eq_None_iff [THEN iffD2] split: option.split)

lemma py_get_append:
  "py_get_default (d @ d') k v = py_get_default d k (py_get_default d' k v)"
  by (auto simp: py_get_default_def map_add_def split: option.splits)

text \<open>
  The optional groups the writers emit: a key only when its value is present
  (\<open>opt_field\<close>: not \<open>None\<close>), truthy (\<open>str_field\<close>, \<open>list_field\<close>) or true
  (\<open>flag_field\<close>).
\<close>

definition opt_field :: "string \<Rightarrow> ('a \<Rightarrow> pyval) \<Rightarrow> 'a option \<Rightarrow> (string \<times> pyval) list" where
  "opt_field k f v = (case v of None \<Rightarrow> [] | Some x \<Rightarrow> [(k, f x)])"

definition str_field :: "string \<Rightarrow> string \<Rightarrow> (string \<times> pyval) list" where
  "str_field k s = (if s = [] then [] else [(k, PStr s)])"

definition list_field :: "string \<Rightarrow> ('a \<Rightarrow> pyval) \<Rightarrow> 'a list \<Rightarrow> (string \<times> pyval) list" where
  "list_field k f xs = (if xs = [] then [] else [(k, PList (map f xs))])"

definition flag_field :: "string \<Rightarrow> bool \<Rightarrow> (string \<times> pyval) list" where
  "flag_field k b = (if b then [(k, PBool True)] else [])"

definition opt_val :: "('a \<Rightarrow> pyval) \<Rightarrow> 'a option \<Rightarrow> pyval" where
  "opt_val f v = (case v of None \<Rightarrow> PNone | Some x \<Rightarrow> f x)"

lemma opt_val_simps [simp]: "opt_val f None = PNone" "opt_val f (Some x) = f x"
  by (simp_all add: opt_val_def)

text \<open>
  Each group is read in front of the rest of the dictionary or as its last part; the value that
  comes out is the field with its default (\<open>w\<close>: what the rest of the dictionary holds), in a
  form the readers turn back into the field.
\<close>

definition opt_or :: "pyval \<Rightarrow> ('a \<Rightarrow> pyval) \<Rightarrow> 'a option \<Rightarrow> pyval" where
  "opt_or w f v = (case v of None \<Rightarrow> w | Some x \<Rightarrow> f x)"

definition str_or :: "pyval \<Rightarrow> string \<Rightarrow> pyval" where
  "str_or w s = (if s = [] then w else PStr s)"

definition list_or :: "pyval \<Rightarrow> ('a \<Rightarrow> pyval) \<Rightarrow> 'a list \<Rightarrow> pyval" where
  "list_or w f xs = (if xs = [] then w else PList (map f xs))"

definition flag_or :: "pyval \<Rightarrow> bool \<Rightarrow> pyval" where
  "flag_or w b = (if b then PBool True else w)"

lemma py_get_opt_field:
  "py_get_default (opt_field k' f v @ d) k w =
     (if k' = k then opt_or (py_get_default d k w) f v else py_get_default d k w)"
  by (auto simp: py_get_default_def opt_field_def opt_or_def split: option.splits)

lemma py_get_str_field:
  "py_get_default (str_field k' s @ d) k w =
     (if k' = k then str_or (py_get_default d k w) s else py_get_default d k w)"
  by (auto simp: py_get_default_def str_field_def str_or_def)

lemma py_get_list_field:
  "py_get_default (list_field k' f xs @ d) k w =
     (if k' = k then list_or (py_get_default d k w) f xs else py_get_default d k w)"
  by (auto simp: py_get_default_def list_field_def list_or_def)

lemma py_get_flag_field:
  "py_get_default (flag_field k' b @ d) k w =
     (if k' = k then flag_or (py_get_default d k w) b else py_get_default d k w)"
  by (auto simp: py_get_default_def flag_field_def flag_or_def)

lemmas py_get_fields [get_simps] =
  py_get_opt_field py_get_opt_field [where d = "[]", simplified append_Nil2 py_get_Nil]
  py_get_str_field py_get_str_field [where d = "[]", simplified append_Nil2 py_get_Nil]
  py_get_list_field py_get_list_field [where d = "[]", simplified append_Nil2 py_get_Nil]
  py_get_flag_field py_get_flag_field [where d = "[]", simplified append_Nil2 py_get_Nil]

lemma field_defaults [get_simps]:
  "opt_or PNone f v = opt_val f v"
  "str_or (PStr []) s = PStr s"
  "py_tuple (list_or (PTuple []) f xs) = Inr (PTuple (map f xs))"
  "py_iter (list_or (PTuple []) f xs) = Inr (map f xs)"
  "truthy (flag_or (PBool False) b) = b"
  by (auto simp: opt_or_def opt_val_def str_or_def list_or_def flag_or_def)

end
