(* ===== verification/Validation.thy ===== *)
theory Validation
  imports PyValue "HOL-Library.Multiset"
begin

text \<open>
  The validation primitives of the domain models (src/src/ici/domain/_validation.py): each
  takes a dynamic value and a description, and returns the normalised value or raises
  \<open>ValueError\<close>.  For every primitive there is a predicate on the typed value it accepts, and
  a lemma saying the primitive accepts exactly those values and returns them unchanged.
\<close>

section \<open>Text, identifiers, digests\<close>

fun require_text :: "pyval \<Rightarrow> string \<Rightarrow> string result" where
  "require_text (PStr value) description =
     raise_if (value = [])
       (ValueError ''{} must be a non-empty string'' [description])
    (raise_if (value \<noteq> strip value)
       (ValueError ''{} must not be padded with whitespace: {!r}'' [description, value])
    (Inr value))"
| "require_text value description =
     Inl (ValueError ''{} must be a non-empty string'' [description])"

text \<open>The character classes of the two regular expressions.\<close>

definition is_digit :: "char \<Rightarrow> bool" where
  "is_digit c = (let n = (of_char c :: nat) in 48 \<le> n \<and> n \<le> 57)"

definition is_lower :: "char \<Rightarrow> bool" where
  "is_lower c = (let n = (of_char c :: nat) in 97 \<le> n \<and> n \<le> 122)"

definition is_ident_edge :: "char \<Rightarrow> bool" where
  "is_ident_edge c = (is_lower c \<or> is_digit c)"

definition is_ident_inner :: "char \<Rightarrow> bool" where
  "is_ident_inner c = (is_ident_edge c \<or> c = CHR ''.'' \<or> c = CHR ''_'' \<or> c = CHR ''-'')"

definition is_hex :: "char \<Rightarrow> bool" where
  "is_hex c = (is_digit c \<or> (let n = (of_char c :: nat) in 97 \<le> n \<and> n \<le> 102))"

text \<open>
  \<open>[a-z0-9](?:[a-z0-9._-]*[a-z0-9])?\<close> matched against the whole string: the first and the
  last character are edge characters (they may be the same one) and the rest are inner ones.
\<close>

definition identifier_re :: "string \<Rightarrow> bool" where
  "identifier_re s =
     (s \<noteq> [] \<and> is_ident_edge (hd s) \<and> is_ident_edge (last s) \<and> list_all is_ident_inner s)"

definition digest_re :: "string \<Rightarrow> bool" where
  "digest_re s =
     (startswith s ''sha256:'' \<and> length (drop 7 s) = 64 \<and> list_all is_hex (drop 7 s))"

definition require_identifier :: "pyval \<Rightarrow> string \<Rightarrow> string result" where
  "require_identifier value description =
     bindr (require_text value description) (\<lambda>text.
     raise_if (\<not> identifier_re text)
       (ValueError ''{} must be lowercase alphanumeric with . _ - separators: {!r}''
          [description, text])
    (Inr text))"

definition require_digest :: "pyval \<Rightarrow> string \<Rightarrow> string result" where
  "require_digest value description =
     bindr (require_text value description) (\<lambda>text.
     raise_if (\<not> digest_re text)
       (ValueError ''{} must be a full sha256:<64 hex> digest: {!r}'' [description, text])
    (Inr text))"

section \<open>Relative paths\<close>

text \<open>
  \<open>PurePosixPath(text)\<close>: the components between the separators, without the empty ones and
  without \<open>.\<close>; \<open>as_posix\<close> of a relative path joins them, and is \<open>.\<close> when there is none.
\<close>

definition posix_parts :: "string \<Rightarrow> string list" where
  "posix_parts s = filter (\<lambda>p. p \<noteq> [] \<and> p \<noteq> ''.'') (split_char CHR ''/'' s)"

definition is_absolute :: "string \<Rightarrow> bool" where
  "is_absolute s = startswith s ''/''"

definition as_posix :: "string \<Rightarrow> string" where
  "as_posix s = (if posix_parts s = [] then ''.'' else join ''/'' (posix_parts s))"

definition require_relative_path :: "pyval \<Rightarrow> string \<Rightarrow> bool \<Rightarrow> string result" where
  "require_relative_path value description allow_dot =
     bindr (require_text value description) (\<lambda>text.
     raise_if (list_ex (\<lambda>c. of_char c = (92::nat)) text)
       (ValueError ''{} must use POSIX separators: {!r}'' [description, text])
    (raise_if (is_absolute text \<or> ''..'' \<in> set (posix_parts text))
       (ValueError ''{} must be relative and contained: {!r}'' [description, text])
    (raise_if (as_posix text \<noteq> text)
       (ValueError ''{} must be canonical: {!r}'' [description, text])
    (raise_if (\<not> allow_dot \<and> text = ''.'')
       (ValueError ''{} must name a path below the root'' [description])
    (Inr text)))))"

section \<open>Collections\<close>

text \<open>
  \<open>require_tuple\<close> with the item type given as the \<open>isinstance\<close> test on its items.  Strings and
  mappings are refused before they could be iterated.
\<close>

fun require_tuple :: "pyval \<Rightarrow> (pyval \<Rightarrow> bool) \<Rightarrow> string \<Rightarrow> pyval list result" where
  "require_tuple (PList values) is_item description =
     raise_if (\<not> list_all is_item values)
       (ValueError ''{} must contain only {} values'' [description])
    (Inr values)"
| "require_tuple (PTuple values) is_item description =
     raise_if (\<not> list_all is_item values)
       (ValueError ''{} must contain only {} values'' [description])
    (Inr values)"
| "require_tuple values is_item description =
     Inl (ValueError ''{} must be an iterable collection, not a scalar'' [description])"

text \<open>The duplicates, each named once, in order.\<close>

fun duplicates_of :: "string set \<Rightarrow> string list \<Rightarrow> string list" where
  "duplicates_of seen [] = []"
| "duplicates_of seen (item # rest) =
     (if item \<in> seen then item # duplicates_of (insert item seen) rest
      else duplicates_of (insert item seen) rest)"

definition require_unique_identifiers :: "string list \<Rightarrow> string \<Rightarrow> string list result" where
  "require_unique_identifiers ordered description =
     (let duplicates = duplicates_of {} ordered in
      raise_if (duplicates \<noteq> [])
        (ValueError ''{} contains duplicate ids: {}'' (description # sorted_set duplicates))
     (Inr ordered))"

section \<open>Numbers\<close>

fun require_non_negative :: "pyval \<Rightarrow> string \<Rightarrow> int result" where
  "require_non_negative (PInt value) description =
     raise_if (value < 0) (ValueError ''{} must not be negative: {}'' [description, show_int value])
    (Inr value)"
| "require_non_negative value description =
     Inl (ValueError ''{} must be an integer'' [description])"

text \<open>\<open>float(v)\<close> of a number that is not a bool.\<close>

fun to_float :: "pyval \<Rightarrow> pyfloat option" where
  "to_float (PInt i) = Some (Fin (of_int i))"
| "to_float (PFloat f) = Some f"
| "to_float _ = None"

fun require_positive :: "pyval \<Rightarrow> string \<Rightarrow> pyfloat result" where
  "require_positive value description =
     (case to_float value of
        None \<Rightarrow> Inl (ValueError ''{} must be a number'' [description])
      | Some (Fin q) \<Rightarrow>
          raise_if (q \<le> 0) (ValueError ''{} must be greater than zero: {!r}'' [description])
         (Inr (Fin q))
      | Some _ \<Rightarrow> Inl (ValueError ''{} must be finite: {!r}'' [description]))"

section \<open>Environment overlays\<close>

fun env_pair :: "string \<Rightarrow> pyval \<Rightarrow> (string \<times> string) result" where
  "env_pair description (PTuple [n, v]) =
     bindr (require_text n (description @ '' name'')) (\<lambda>name.
     (case v of PStr s \<Rightarrow> Inr (name, s)
      | _ \<Rightarrow> Inl (ValueError ''{} value for {!r} must be a string'' [description, name])))"
| "env_pair description _ =
     Inl (ValueError ''{} must contain (name, value) pairs'' [description])"

definition require_env_overlay :: "pyval \<Rightarrow> string \<Rightarrow> (string \<times> string) list result" where
  "require_env_overlay value description =
     bindr (case value of
              PDict kvs \<Rightarrow> Inr (map (\<lambda>(k, v). PTuple [PStr k, v]) kvs)
            | _ \<Rightarrow> require_tuple value is_tuple description) (\<lambda>items.
     bindr (mapr (env_pair description) items) (\<lambda>pairs.
     raise_if (\<not> distinct (map fst pairs))
       (ValueError ''{} must not set a variable twice'' [description])
    (Inr (sort pairs))))"

section \<open>What the primitives accept\<close>

definition text_ok :: "string \<Rightarrow> bool" where
  "text_ok s = (s \<noteq> [] \<and> strip s = s)"

definition identifier_ok :: "string \<Rightarrow> bool" where
  "identifier_ok s = identifier_re s"

definition digest_ok :: "string \<Rightarrow> bool" where
  "digest_ok s = digest_re s"

definition path_ok :: "bool \<Rightarrow> string \<Rightarrow> bool" where
  "path_ok allow_dot s =
     (text_ok s \<and> \<not> list_ex (\<lambda>c. of_char c = (92::nat)) s \<and> \<not> is_absolute s
      \<and> ''..'' \<notin> set (posix_parts s) \<and> as_posix s = s \<and> (allow_dot \<or> s \<noteq> ''.''))"

lemma require_text_iff [result_iff]:
  "require_text v d = Inr s \<longleftrightarrow> v = PStr s \<and> text_ok s"
  by (cases v) (auto simp: raise_if_Inr text_ok_def)

text \<open>No edge character is white space, so an identifier is never padded.\<close>

lemma inner_codes: "is_ident_inner c \<Longrightarrow> is_ascii c"
  unfolding is_ident_inner_def is_ident_edge_def is_lower_def is_digit_def is_ascii_def Let_def
  by (elim disjE conjE) simp_all

lemma edge_codes:
  assumes "is_ident_edge c"
  shows "(48 :: nat) \<le> of_char c"
  using assms unfolding is_ident_edge_def is_lower_def is_digit_def Let_def by (elim disjE conjE) simp_all

lemma hex_codes:
  assumes "is_hex c"
  shows "(48 :: nat) \<le> of_char c" "is_ascii c"
  using assms unfolding is_hex_def is_digit_def is_ascii_def Let_def
  by (elim disjE conjE; simp)+

lemma edge_not_space: "is_ident_edge c \<Longrightarrow> \<not> is_space [c]"
  using ascii_space [of c] edge_codes [of c] by fastforce

lemma identifier_text: "identifier_re s \<Longrightarrow> text_ok s"
  by (auto simp: identifier_re_def text_ok_def edge_not_space inner_codes list_all_iff
      intro!: strip_ascii)

lemma hex_not_space: "is_hex c \<Longrightarrow> \<not> is_space [c]"
  using ascii_space [of c] hex_codes [of c] by fastforce

lemma digest_text:
  assumes "digest_re s"
  shows "text_ok s"
proof -
  define body where "body = drop 7 s"
  have "length ''sha256:'' = 7" by simp
  with assms have t: "take 7 s = ''sha256:''"
    unfolding digest_re_def startswith_def by (simp only:)
  from assms have len: "length body = 64" and hex: "list_all is_hex body"
    by (simp_all add: digest_re_def body_def)
  have s: "s = ''sha256:'' @ body" using append_take_drop_id [of 7 s] by (simp only: t body_def)
  from len have ne: "body \<noteq> []" by auto
  then have "is_hex (last s)" using hex by (simp add: s list_all_iff)
  moreover have "\<not> is_space [hd s]" by (simp add: s is_space_def space_points_def)
  moreover have "list_all is_ascii s"
    using hex by (auto simp: s list_all_iff hex_codes) (simp_all add: is_ascii_def)
  moreover have "s \<noteq> []" by (simp add: s)
  ultimately show ?thesis by (simp add: text_ok_def strip_ascii hex_not_space)
qed

lemma require_identifier_iff [result_iff]:
  "require_identifier v d = Inr s \<longleftrightarrow> v = PStr s \<and> identifier_ok s"
  by (auto simp: require_identifier_def result_iff identifier_ok_def intro: identifier_text)

lemma require_digest_iff [result_iff]:
  "require_digest v d = Inr s \<longleftrightarrow> v = PStr s \<and> digest_ok s"
  by (auto simp: require_digest_def result_iff digest_ok_def intro: digest_text)

lemma require_relative_path_iff [result_iff]:
  "require_relative_path v d a = Inr s \<longleftrightarrow> v = PStr s \<and> path_ok a s"
  by (auto simp: require_relative_path_def result_iff path_ok_def)

lemma require_tuple_iff [result_iff]:
  "require_tuple v P d = Inr vs \<longleftrightarrow> (v = PList vs \<or> v = PTuple vs) \<and> list_all P vs"
  by (cases v) (auto simp: raise_if_Inr)

lemma duplicates_of_Nil: "duplicates_of seen xs = [] \<longleftrightarrow> distinct xs \<and> set xs \<inter> seen = {}"
  by (induction xs arbitrary: seen) auto

lemma require_unique_iff [result_iff]:
  "require_unique_identifiers xs d = Inr ys \<longleftrightarrow> ys = xs \<and> distinct xs"
  by (auto simp: require_unique_identifiers_def Let_def raise_if_Inr duplicates_of_Nil)

lemma require_non_negative_iff [result_iff]:
  "require_non_negative v d = Inr i \<longleftrightarrow> v = PInt i \<and> 0 \<le> i"
  by (cases v) (auto simp: raise_if_Inr)

lemma require_positive_iff [result_iff]:
  "require_positive v d = Inr f \<longleftrightarrow> (\<exists>q. to_float v = Some (Fin q) \<and> 0 < q \<and> f = Fin q)"
  by (auto simp: raise_if_Inr split: option.splits pyfloat.splits)

declare require_positive.simps [simp del]

text \<open>The same facts read forwards: on an accepted value the primitive computes to it.\<close>

named_theorems result_eval \<open>evaluating a checked computation on accepted values\<close>

declare require_text.simps [simp del]

lemma require_eval [result_eval]:
  "text_ok s \<Longrightarrow> require_text (PStr s) d = Inr s"
  "identifier_ok s \<Longrightarrow> require_identifier (PStr s) d = Inr s"
  "digest_ok s \<Longrightarrow> require_digest (PStr s) d = Inr s"
  "path_ok a s \<Longrightarrow> require_relative_path (PStr s) d a = Inr s"
  "list_all P vs \<Longrightarrow> require_tuple (PList vs) P d = Inr vs"
  "list_all P vs \<Longrightarrow> require_tuple (PTuple vs) P d = Inr vs"
  "distinct ss \<Longrightarrow> require_unique_identifiers ss d = Inr ss"
  "0 \<le> i \<Longrightarrow> require_non_negative (PInt i) d = Inr i"
  "0 < q \<Longrightarrow> require_positive (PFloat (Fin q)) d = Inr (Fin q)"
  by (simp_all add: result_iff)

text \<open>A tuple of checked strings: the shape \<open>tuple(require_x(item, d) for item in require_tuple(\<dots>))\<close>.\<close>

lemma mapr_PStr_iff:
  assumes "\<And>v s. f v = Inr s \<longleftrightarrow> v = PStr s \<and> P s"
  shows "mapr f vs = Inr ss \<longleftrightarrow> vs = map PStr ss \<and> list_all P ss"
proof (induction vs arbitrary: ss)
  case Nil
  show ?case by auto
next
  case (Cons v vs)
  show ?case by (cases ss) (auto simp: bindr_Inr assms Cons.IH)
qed

lemmas mapr_text_iff [result_iff] = mapr_PStr_iff [OF require_text_iff]
lemmas mapr_identifier_iff [result_iff] = mapr_PStr_iff [OF require_identifier_iff]
lemmas mapr_path_iff [result_iff] = mapr_PStr_iff [OF require_relative_path_iff]

lemma mapr_eval [result_eval]:
  "list_all text_ok ss \<Longrightarrow> mapr (\<lambda>v. require_text v d) (map PStr ss) = Inr ss"
  "list_all identifier_ok ss \<Longrightarrow> mapr (\<lambda>v. require_identifier v d) (map PStr ss) = Inr ss"
  "list_all (path_ok a) ss \<Longrightarrow> mapr (\<lambda>v. require_relative_path v d a) (map PStr ss) = Inr ss"
  by (simp_all add: mapr_text_iff mapr_identifier_iff mapr_path_iff)

lemma is_str_map_PStr [simp]: "list_all is_str (map PStr ss)"
  by (induction ss) auto

lemma env_pair_iff [result_iff]:
  "env_pair d v = Inr (n, s) \<longleftrightarrow> v = PTuple [PStr n, PStr s] \<and> text_ok n"
proof (cases "(d, v)" rule: env_pair.cases)
  case (1 d' n' v')
  then show ?thesis by (cases v') (auto simp: result_iff)
qed auto

section \<open>Overlays are sorted and set each variable once\<close>

lemma require_env_overlay_ok:
  assumes "require_env_overlay v d = Inr ps"
  shows "sorted ps \<and> distinct (map fst ps) \<and> (\<forall>(n, s) \<in> set ps. text_ok n)"
proof -
  from assms obtain items pairs where items: "mapr (env_pair d) items = Inr pairs"
    and dist: "distinct (map fst pairs)" and ps: "ps = sort pairs"
    by (auto simp: require_env_overlay_def result_iff)
  from items have "list_all2 (\<lambda>x y. env_pair d x = Inr y) items pairs" by (simp add: mapr_Inr)
  then have "\<forall>(n, s) \<in> set pairs. text_ok n"
    by (auto simp: list_all2_conv_all_nth in_set_conv_nth) (metis env_pair_iff)
  moreover have "distinct (map fst ps)"
  proof -
    have "mset (map fst ps) = mset (map fst pairs)" by (simp add: ps mset_sort)
    then show ?thesis using dist mset_eq_imp_distinct_iff by blast
  qed
  ultimately show ?thesis by (simp add: ps)
qed

lemma require_env_overlay_idem:
  assumes "sorted ps" "distinct (map fst ps)" "\<forall>(n, s) \<in> set ps. text_ok n"
  shows "require_env_overlay (PTuple (map (\<lambda>(n, s). PTuple [PStr n, PStr s]) ps)) d = Inr ps"
proof -
  have "mapr (env_pair d) (map (\<lambda>(n, s). PTuple [PStr n, PStr s]) ps) = Inr (map id ps)"
    unfolding mapr_map
    by (rule mapr_Inr_self) (use assms(3) in \<open>auto simp: env_pair_iff simp del: env_pair.simps\<close>)
  moreover have "list_all is_tuple (map (\<lambda>(n, s). PTuple [PStr n, PStr s]) ps)"
    by (auto simp: list_all_iff)
  ultimately show ?thesis
    using assms by (simp add: require_env_overlay_def sorted_sort_id)
qed

end
