(* ===== verification/Enums.thy ===== *)
theory Enums
  imports PyValue
begin

text \<open>
  The status axes of the result envelope (src/src/ici/domain/enums.py): one datatype per axis, so
  that no axis can be read as another, with the wire value of each member.  The locale
  \<open>str_enum\<close> is the contract of a \<open>str\<close>-valued \<open>Enum\<close> as the readers use it; every axis is
  an instance, and the codecs rest on the facts of the instances.
\<close>

section \<open>The axes\<close>

datatype scope_kind = FULL | PARTIAL | STANDALONE

datatype gate_verdict = PASS | FAIL | INCOMPLETE | NOT_EVALUATED

datatype check_execution =
  CE_COMPLETED | CE_ERROR | CE_BLOCKED | CE_CANCELLED | CE_NOT_SELECTED | CE_NOT_APPLICABLE

datatype evidence_level = MEASURED | ESTIMATED | EV_NOT_RUN | EV_NOT_APPLICABLE

datatype profile = FAST | STANDARD | DEEP

datatype task_kind = PROBE | PREPARE | ANALYZE | TEST | COLLECT

datatype task_state = READY | RUNNING | SUCCEEDED | FAILED | BLOCKED | CANCELLED

datatype publication_state = PUB_SUCCESS | PUB_FAILED | PUB_NOT_CONFIGURED

datatype baseline_state = COMPARABLE | INCOMPATIBLE

section \<open>Wire values\<close>

fun scope_kind_value :: "scope_kind \<Rightarrow> string" where
  "scope_kind_value FULL = ''full''"
| "scope_kind_value PARTIAL = ''partial''"
| "scope_kind_value STANDALONE = ''standalone''"

fun gate_verdict_value :: "gate_verdict \<Rightarrow> string" where
  "gate_verdict_value PASS = ''PASS''"
| "gate_verdict_value FAIL = ''FAIL''"
| "gate_verdict_value INCOMPLETE = ''INCOMPLETE''"
| "gate_verdict_value NOT_EVALUATED = ''NOT_EVALUATED''"

fun check_execution_value :: "check_execution \<Rightarrow> string" where
  "check_execution_value CE_COMPLETED = ''COMPLETED''"
| "check_execution_value CE_ERROR = ''ERROR''"
| "check_execution_value CE_BLOCKED = ''BLOCKED''"
| "check_execution_value CE_CANCELLED = ''CANCELLED''"
| "check_execution_value CE_NOT_SELECTED = ''NOT_SELECTED''"
| "check_execution_value CE_NOT_APPLICABLE = ''NOT_APPLICABLE''"

fun evidence_level_value :: "evidence_level \<Rightarrow> string" where
  "evidence_level_value MEASURED = ''MEASURED''"
| "evidence_level_value ESTIMATED = ''ESTIMATED''"
| "evidence_level_value EV_NOT_RUN = ''NOT_RUN''"
| "evidence_level_value EV_NOT_APPLICABLE = ''NOT_APPLICABLE''"

fun profile_value :: "profile \<Rightarrow> string" where
  "profile_value FAST = ''fast''"
| "profile_value STANDARD = ''standard''"
| "profile_value DEEP = ''deep''"

fun task_kind_value :: "task_kind \<Rightarrow> string" where
  "task_kind_value PROBE = ''probe''"
| "task_kind_value PREPARE = ''prepare''"
| "task_kind_value ANALYZE = ''analyze''"
| "task_kind_value TEST = ''test''"
| "task_kind_value COLLECT = ''collect''"

fun task_state_value :: "task_state \<Rightarrow> string" where
  "task_state_value READY = ''READY''"
| "task_state_value RUNNING = ''RUNNING''"
| "task_state_value SUCCEEDED = ''SUCCEEDED''"
| "task_state_value FAILED = ''FAILED''"
| "task_state_value BLOCKED = ''BLOCKED''"
| "task_state_value CANCELLED = ''CANCELLED''"

fun publication_state_value :: "publication_state \<Rightarrow> string" where
  "publication_state_value PUB_SUCCESS = ''SUCCESS''"
| "publication_state_value PUB_FAILED = ''FAILED''"
| "publication_state_value PUB_NOT_CONFIGURED = ''NOT_CONFIGURED''"

fun baseline_state_value :: "baseline_state \<Rightarrow> string" where
  "baseline_state_value COMPARABLE = ''comparable''"
| "baseline_state_value INCOMPATIBLE = ''incompatible''"

section \<open>Reading a member\<close>

text \<open>\<open>read_enum\<close> of domain/_codec.py: \<open>enum_type(value)\<close>, or a \<open>SchemaError\<close> naming the members.\<close>

definition read_enum :: "('e \<Rightarrow> string) \<Rightarrow> 'e list \<Rightarrow> pyval \<Rightarrow> string \<Rightarrow> 'e result" where
  "read_enum value_of members value description =
     (let refused = SchemaError ''{} must be one of {}, found {!r}''
                      (description # sort (map value_of members)) in
      (case value of
         PStr s \<Rightarrow>
           (case List.find (\<lambda>e. value_of e = s) members of
              Some e \<Rightarrow> Inr e
            | None \<Rightarrow> Inl refused)
       | _ \<Rightarrow> Inl refused))"

locale str_enum =
  fixes value_of :: "'e \<Rightarrow> string" and members :: "'e list"
  assumes value_inj: "value_of a = value_of b \<Longrightarrow> a = b"
    and listed: "e \<in> set members"
begin

lemma read_value: "read_enum value_of members (PStr (value_of e)) d = Inr e"
proof (cases "List.find (\<lambda>a. value_of a = value_of e) members")
  case None
  then show ?thesis using listed [of e] by (auto simp: find_None_set)
next
  case (Some a)
  then have "value_of a = value_of e" by (auto dest: find_Some_set)
  then have "a = e" by (rule value_inj)
  with Some show ?thesis by (simp add: read_enum_def)
qed

lemma read_iff: "read_enum value_of members v d = Inr e \<longleftrightarrow> v = PStr (value_of e)"
proof
  assume "read_enum value_of members v d = Inr e"
  then show "v = PStr (value_of e)"
    by (auto simp: read_enum_def Let_def split: pyval.splits option.splits dest: find_Some_set)
qed (simp add: read_value)

lemma read_schema_error: "read_enum value_of members v d = Inl x \<Longrightarrow> is_schema_error x"
  by (auto simp: read_enum_def Let_def split: pyval.splits option.splits)

end

abbreviation "scope_kinds \<equiv> [FULL, PARTIAL, STANDALONE]"
abbreviation "gate_verdicts \<equiv> [PASS, FAIL, INCOMPLETE, NOT_EVALUATED]"
abbreviation "evidence_levels \<equiv> [MEASURED, ESTIMATED, EV_NOT_RUN, EV_NOT_APPLICABLE]"
abbreviation "task_states \<equiv> [READY, RUNNING, SUCCEEDED, FAILED, BLOCKED, CANCELLED]"
abbreviation "publication_states \<equiv> [PUB_SUCCESS, PUB_FAILED, PUB_NOT_CONFIGURED]"
abbreviation "baseline_states \<equiv> [COMPARABLE, INCOMPATIBLE]"

interpretation scope_kind_enum: str_enum scope_kind_value scope_kinds
proof
  fix a b :: scope_kind
  show "scope_kind_value a = scope_kind_value b \<Longrightarrow> a = b" by (cases a; cases b) auto
  show "e \<in> set scope_kinds" for e by (cases e) auto
qed

interpretation gate_verdict_enum: str_enum gate_verdict_value gate_verdicts
proof
  fix a b :: gate_verdict
  show "gate_verdict_value a = gate_verdict_value b \<Longrightarrow> a = b" by (cases a; cases b) auto
  show "e \<in> set gate_verdicts" for e by (cases e) auto
qed

interpretation evidence_enum: str_enum evidence_level_value evidence_levels
proof
  fix a b :: evidence_level
  show "evidence_level_value a = evidence_level_value b \<Longrightarrow> a = b" by (cases a; cases b) auto
  show "e \<in> set evidence_levels" for e by (cases e) auto
qed

interpretation task_state_enum: str_enum task_state_value task_states
proof
  fix a b :: task_state
  show "task_state_value a = task_state_value b \<Longrightarrow> a = b" by (cases a; cases b) auto
  show "e \<in> set task_states" for e by (cases e) auto
qed

interpretation publication_enum: str_enum publication_state_value publication_states
proof
  fix a b :: publication_state
  show "publication_state_value a = publication_state_value b \<Longrightarrow> a = b" by (cases a; cases b) auto
  show "e \<in> set publication_states" for e by (cases e) auto
qed

interpretation baseline_enum: str_enum baseline_state_value baseline_states
proof
  fix a b :: baseline_state
  show "baseline_state_value a = baseline_state_value b \<Longrightarrow> a = b" by (cases a; cases b) auto
  show "e \<in> set baseline_states" for e by (cases e) auto
qed

lemmas enum_read_values = scope_kind_enum.read_value gate_verdict_enum.read_value
  evidence_enum.read_value task_state_enum.read_value publication_enum.read_value
  baseline_enum.read_value

lemmas enum_read_iffs [result_iff] = scope_kind_enum.read_iff gate_verdict_enum.read_iff
  evidence_enum.read_iff task_state_enum.read_iff publication_enum.read_iff
  baseline_enum.read_iff

end
