(* ===== verification/Findings.thy ===== *)
theory Findings
  imports Validation Enums
begin

text \<open>
  The canonical finding, its source span and its suppression (src/src/ici/domain/finding.py).  A
  \<open>X_init\<close> function is the dataclass constructor with its \<open>__post_init__\<close>: dynamic values in,
  the frozen record or the \<open>ValueError\<close> out, the checks in the source's order.  \<open>x_ok\<close> is the
  invariant every constructed value has; \<open>x_replace\<close> is \<open>dataclasses.replace\<close>, which runs the
  constructor again on the fields of a record.
\<close>

section \<open>Source spans\<close>

record source_span =
  sp_path :: string
  sp_start_line :: int
  sp_end_line :: "int option"
  sp_start_column :: "int option"
  sp_end_column :: "int option"
  sp_label :: string

text \<open>An optional integer field: \<open>None\<close>, or a checked non-negative integer with a lower bound.\<close>

definition optional_int :: "pyval \<Rightarrow> string \<Rightarrow> int \<Rightarrow> exn \<Rightarrow> int option result" where
  "optional_int value description lower err =
     (if value = PNone then Inr None
      else bindr (require_non_negative value description) (\<lambda>n.
        raise_if (n < lower) err (Inr (Some n))))"

text \<open>\<open>isinstance(value, str)\<close> with the error the field raises otherwise.\<close>

fun string_field :: "pyval \<Rightarrow> exn \<Rightarrow> string result" where
  "string_field (PStr s) err = Inr s"
| "string_field _ err = Inl err"

fun bool_field :: "pyval \<Rightarrow> exn \<Rightarrow> bool result" where
  "bool_field (PBool b) err = Inr b"
| "bool_field _ err = Inl err"

definition SourceSpan_init ::
    "pyval \<Rightarrow> pyval \<Rightarrow> pyval \<Rightarrow> pyval \<Rightarrow> pyval \<Rightarrow> pyval \<Rightarrow> source_span result" where
  "SourceSpan_init path start_line end_line start_column end_column label =
     bindr (require_relative_path path ''span path'' False) (\<lambda>p.
     bindr (require_non_negative start_line ''span start line'') (\<lambda>sl.
     raise_if (sl < 1) (ValueError ''span start line is 1-indexed'' [])
    (bindr (optional_int end_line ''span end line'' sl
              (ValueError ''span end line must not precede its start line'' [])) (\<lambda>el.
     bindr (optional_int start_column ''span start_column'' 1
              (ValueError ''span {} is 1-indexed'' [''start_column''])) (\<lambda>sc.
     bindr (optional_int end_column ''span end_column'' 1
              (ValueError ''span {} is 1-indexed'' [''end_column''])) (\<lambda>ec.
     bindr (string_field label (ValueError ''span label must be a string'' [])) (\<lambda>lb.
     Inr \<lparr>sp_path = p, sp_start_line = sl, sp_end_line = el, sp_start_column = sc,
          sp_end_column = ec, sp_label = lb\<rparr>)))))))"

definition at_least :: "int \<Rightarrow> int option \<Rightarrow> bool" where
  "at_least lower v = (case v of None \<Rightarrow> True | Some n \<Rightarrow> 0 \<le> n \<and> lower \<le> n)"

definition span_ok :: "source_span \<Rightarrow> bool" where
  "span_ok s =
     (path_ok False (sp_path s) \<and> 1 \<le> sp_start_line s
      \<and> at_least (sp_start_line s) (sp_end_line s)
      \<and> at_least 1 (sp_start_column s) \<and> at_least 1 (sp_end_column s))"

lemma optional_int_iff [result_iff]:
  "optional_int v d lo e = Inr n \<longleftrightarrow> v = opt_val PInt n \<and> at_least lo n"
  by (cases n) (auto simp: optional_int_def result_iff at_least_def)

lemma string_field_iff [result_iff]: "string_field v e = Inr s \<longleftrightarrow> v = PStr s"
  by (cases v) auto

lemma bool_field_iff [result_iff]: "bool_field v e = Inr b \<longleftrightarrow> v = PBool b"
  by (cases v) auto

lemma field_eval [result_eval]:
  "at_least lo n \<Longrightarrow> optional_int (opt_val PInt n) d lo e = Inr n"
  "string_field (PStr s) e = Inr s"
  "bool_field (PBool b) e = Inr b"
  by (simp_all add: result_iff)

lemma SourceSpan_init_iff:
  "SourceSpan_init p sl el sc ec lb = Inr s \<longleftrightarrow>
     span_ok s \<and> p = PStr (sp_path s) \<and> sl = PInt (sp_start_line s)
     \<and> el = opt_val PInt (sp_end_line s) \<and> sc = opt_val PInt (sp_start_column s)
     \<and> ec = opt_val PInt (sp_end_column s) \<and> lb = PStr (sp_label s)"
  by (cases s) (auto simp: SourceSpan_init_def span_ok_def result_iff not_less)

section \<open>Suppressions\<close>

record suppression =
  su_suppressed :: bool
  su_kind :: string
  su_reason :: string
  su_origin :: string

definition FindingSuppression_init ::
    "pyval \<Rightarrow> pyval \<Rightarrow> pyval \<Rightarrow> pyval \<Rightarrow> suppression result" where
  "FindingSuppression_init suppressed kind reason origin =
     bindr (bool_field suppressed (ValueError ''suppression flag must be a boolean'' [])) (\<lambda>su.
     bindr (string_field kind (ValueError ''suppression {} must be a string'' [''kind''])) (\<lambda>ki.
     bindr (string_field reason (ValueError ''suppression {} must be a string'' [''reason''])) (\<lambda>re.
     bindr (string_field origin (ValueError ''suppression {} must be a string'' [''origin''])) (\<lambda>ori.
     raise_if (su \<and> re = []) (ValueError ''a suppressed finding must record why'' [])
    (Inr \<lparr>su_suppressed = su, su_kind = ki, su_reason = re, su_origin = ori\<rparr>)))))"

definition no_suppression :: suppression where
  "no_suppression = \<lparr>su_suppressed = False, su_kind = [], su_reason = [], su_origin = []\<rparr>"

definition suppression_ok :: "suppression \<Rightarrow> bool" where
  "suppression_ok s = (su_suppressed s \<longrightarrow> su_reason s \<noteq> [])"

lemma FindingSuppression_init_iff:
  "FindingSuppression_init a k r ori = Inr s \<longleftrightarrow>
     suppression_ok s \<and> a = PBool (su_suppressed s) \<and> k = PStr (su_kind s)
     \<and> r = PStr (su_reason s) \<and> ori = PStr (su_origin s)"
  by (cases s) (auto simp: FindingSuppression_init_def suppression_ok_def result_iff)

lemma no_suppression_ok [simp]: "suppression_ok no_suppression"
  by (simp add: suppression_ok_def no_suppression_def)

section \<open>Findings\<close>

record finding =
  f_fingerprint :: string
  f_rule_id :: string
  f_message :: string
  f_severity :: string
  f_confidence :: string
  f_primary_location :: source_span
  f_provider :: string
  f_native_rule_id :: string
  f_rule_version :: string
  f_category :: string
  f_tags :: "string list"
  f_related_locations :: "source_span list"
  f_component_id :: "string option"
  f_analysis_unit_id :: "string option"
  f_variant :: "string option"
  f_task_id :: "string option"
  f_evidence :: evidence_level
  f_suppression :: suppression
  f_limitations :: "string list"

text \<open>An optional identifier field: \<open>None\<close>, or a checked identifier.\<close>

definition optional_identifier :: "pyval \<Rightarrow> string \<Rightarrow> string option result" where
  "optional_identifier value description =
     (if value = PNone then Inr None
      else bindr (require_identifier value description) (\<lambda>s. Inr (Some s)))"

text \<open>\<open>tuple(require_x(item, d) for item in require_tuple(values, str, ds))\<close>.\<close>

definition text_tuple :: "pyval \<Rightarrow> string \<Rightarrow> string \<Rightarrow> string list result" where
  "text_tuple values each all =
     bindr (require_tuple values is_str all) (mapr (\<lambda>item. require_text item each))"

definition identifier_tuple :: "pyval \<Rightarrow> string \<Rightarrow> string \<Rightarrow> string list result" where
  "identifier_tuple values each all =
     bindr (require_tuple values is_str all) (mapr (\<lambda>item. require_identifier item each))"

definition Finding_init ::
    "pyval \<Rightarrow> pyval \<Rightarrow> pyval \<Rightarrow> pyval \<Rightarrow> pyval \<Rightarrow> source_span \<Rightarrow> pyval \<Rightarrow> pyval \<Rightarrow> pyval \<Rightarrow> pyval
     \<Rightarrow> pyval \<Rightarrow> source_span list \<Rightarrow> pyval \<Rightarrow> pyval \<Rightarrow> pyval \<Rightarrow> pyval \<Rightarrow> evidence_level
     \<Rightarrow> suppression \<Rightarrow> pyval \<Rightarrow> finding result" where
  "Finding_init fingerprint rule_id message severity confidence primary_location provider
       native_rule_id rule_version category tags related_locations component_id
       analysis_unit_id variant task_id evidence suppression limitations =
     bindr (require_text fingerprint ''fingerprint'') (\<lambda>fp.
     bindr (require_text rule_id ''rule id'') (\<lambda>ru.
     bindr (require_text message ''finding message'') (\<lambda>ms.
     bindr (require_identifier severity ''severity'') (\<lambda>se.
     bindr (require_identifier confidence ''confidence'') (\<lambda>co.
     bindr (require_identifier provider ''provider'') (\<lambda>pr.
     bindr (string_field native_rule_id
              (ValueError ''finding {} must be a string'' [''native_rule_id''])) (\<lambda>na.
     bindr (string_field rule_version
              (ValueError ''finding {} must be a string'' [''rule_version''])) (\<lambda>rv.
     bindr (string_field category
              (ValueError ''finding {} must be a string'' [''category''])) (\<lambda>ca.
     bindr (identifier_tuple tags ''finding tag'' ''finding tags'') (\<lambda>ta.
     bindr (optional_identifier component_id ''finding component_id'') (\<lambda>ci.
     bindr (optional_identifier analysis_unit_id ''finding analysis_unit_id'') (\<lambda>ai.
     bindr (optional_identifier variant ''finding variant'') (\<lambda>va.
     bindr (optional_identifier task_id ''finding task_id'') (\<lambda>ti.
     bindr (text_tuple limitations ''finding limitation'' ''finding limitations'') (\<lambda>li.
     Inr \<lparr>f_fingerprint = fp, f_rule_id = ru, f_message = ms, f_severity = se,
          f_confidence = co, f_primary_location = primary_location, f_provider = pr,
          f_native_rule_id = na, f_rule_version = rv, f_category = ca, f_tags = ta,
          f_related_locations = related_locations, f_component_id = ci,
          f_analysis_unit_id = ai, f_variant = va, f_task_id = ti, f_evidence = evidence,
          f_suppression = suppression, f_limitations = li\<rparr>)))))))))))))))"

text \<open>\<open>replace(finding, \<dots>)\<close>: the constructor, run on the fields of the changed record.\<close>

definition strs :: "string list \<Rightarrow> pyval" where
  "strs ss = PTuple (map PStr ss)"

definition Finding_replace :: "finding \<Rightarrow> finding result" where
  "Finding_replace f =
     Finding_init (PStr (f_fingerprint f)) (PStr (f_rule_id f)) (PStr (f_message f))
       (PStr (f_severity f)) (PStr (f_confidence f)) (f_primary_location f)
       (PStr (f_provider f)) (PStr (f_native_rule_id f)) (PStr (f_rule_version f))
       (PStr (f_category f)) (strs (f_tags f)) (f_related_locations f)
       (opt_val PStr (f_component_id f)) (opt_val PStr (f_analysis_unit_id f))
       (opt_val PStr (f_variant f)) (opt_val PStr (f_task_id f)) (f_evidence f)
       (f_suppression f) (strs (f_limitations f))"

text \<open>\<open>Finding.counts_against_gate\<close>.\<close>

definition counts_against_gate :: "finding \<Rightarrow> bool" where
  "counts_against_gate f = (\<not> su_suppressed (f_suppression f) \<and> f_evidence f = MEASURED)"

definition opt_ok :: "('a \<Rightarrow> bool) \<Rightarrow> 'a option \<Rightarrow> bool" where
  "opt_ok P v = (case v of None \<Rightarrow> True | Some x \<Rightarrow> P x)"

text \<open>
  The invariant of the fields the constructor itself checks, and that of the whole finding,
  whose parts were constructed before it.
\<close>

definition finding_fields_ok :: "finding \<Rightarrow> bool" where
  "finding_fields_ok f =
     (text_ok (f_fingerprint f) \<and> text_ok (f_rule_id f) \<and> text_ok (f_message f)
      \<and> identifier_ok (f_severity f) \<and> identifier_ok (f_confidence f)
      \<and> identifier_ok (f_provider f) \<and> list_all identifier_ok (f_tags f)
      \<and> opt_ok identifier_ok (f_component_id f) \<and> opt_ok identifier_ok (f_analysis_unit_id f)
      \<and> opt_ok identifier_ok (f_variant f) \<and> opt_ok identifier_ok (f_task_id f)
      \<and> list_all text_ok (f_limitations f))"

definition finding_ok :: "finding \<Rightarrow> bool" where
  "finding_ok f =
     (finding_fields_ok f \<and> span_ok (f_primary_location f)
      \<and> list_all span_ok (f_related_locations f) \<and> suppression_ok (f_suppression f))"

lemma opt_ok_simps [simp]: "opt_ok P None" "opt_ok P (Some x) = P x"
  by (simp_all add: opt_ok_def)

lemma optional_identifier_iff [result_iff]:
  "optional_identifier v d = Inr n \<longleftrightarrow> v = opt_val PStr n \<and> opt_ok identifier_ok n"
  by (cases n) (auto simp: optional_identifier_def result_iff)

definition str_items :: "pyval \<Rightarrow> string list \<Rightarrow> bool" where
  "str_items v ss = (v = PList (map PStr ss) \<or> v = PTuple (map PStr ss))"

lemma str_items_simps [simp]:
  "str_items (strs ss) ss" "str_items (PTuple (map PStr ss)) ss" "str_items (PList (map PStr ss)) ss"
  by (simp_all add: str_items_def strs_def)

lemma text_tuple_iff [result_iff]:
  "text_tuple v e a = Inr ss \<longleftrightarrow> str_items v ss \<and> list_all text_ok ss"
  by (auto simp: text_tuple_def result_iff str_items_def)

lemma identifier_tuple_iff [result_iff]:
  "identifier_tuple v e a = Inr ss \<longleftrightarrow> str_items v ss \<and> list_all identifier_ok ss"
  by (auto simp: identifier_tuple_def result_iff str_items_def)

lemma strs_inj [simp]: "strs a = strs b \<longleftrightarrow> a = b"
  by (auto simp: strs_def inj_map_eq_map inj_def)

lemma str_items_strs [simp]: "str_items (strs a) b \<longleftrightarrow> a = b"
  by (auto simp: str_items_def strs_def inj_map_eq_map inj_def)

lemma opt_val_inj [simp]: "opt_val PStr a = opt_val PStr b \<longleftrightarrow> a = b"
  by (cases a; cases b) auto

lemma tuple_eval [result_eval]:
  "str_items v ss \<Longrightarrow> list_all text_ok ss \<Longrightarrow> text_tuple v e a = Inr ss"
  "str_items v ss \<Longrightarrow> list_all identifier_ok ss \<Longrightarrow> identifier_tuple v e a = Inr ss"
  "opt_ok identifier_ok n \<Longrightarrow> optional_identifier (opt_val PStr n) d = Inr n"
  by (simp_all add: result_iff)

lemma Finding_init_iff:
  "Finding_init a b c d e loc g h i j k rel l m n p ev su q = Inr f \<longleftrightarrow>
     finding_fields_ok f \<and> a = PStr (f_fingerprint f) \<and> b = PStr (f_rule_id f)
     \<and> c = PStr (f_message f) \<and> d = PStr (f_severity f) \<and> e = PStr (f_confidence f)
     \<and> loc = f_primary_location f \<and> g = PStr (f_provider f) \<and> h = PStr (f_native_rule_id f)
     \<and> i = PStr (f_rule_version f) \<and> j = PStr (f_category f) \<and> str_items k (f_tags f)
     \<and> rel = f_related_locations f \<and> l = opt_val PStr (f_component_id f)
     \<and> m = opt_val PStr (f_analysis_unit_id f) \<and> n = opt_val PStr (f_variant f)
     \<and> p = opt_val PStr (f_task_id f) \<and> ev = f_evidence f \<and> su = f_suppression f
     \<and> str_items q (f_limitations f)"
  by (cases f) (auto simp: Finding_init_def finding_fields_ok_def result_iff)

text \<open>\<open>replace\<close> succeeds exactly when the new fields satisfy the invariant.\<close>

lemma Finding_replace_iff: "Finding_replace f = Inr g \<longleftrightarrow> g = f \<and> finding_fields_ok f"
  by (cases f; cases g) (auto simp: Finding_replace_def Finding_init_iff)

end
