(* ===== verification/Observations.thy ===== *)
theory Observations
  imports Findings
begin

text \<open>
  What a provider saw, before any policy (src/src/ici/domain/observation.py), and the persisted
  scope of one check (src/src/ici/domain/check_record.py).
\<close>

section \<open>Measurements\<close>

record measurement =
  m_name :: string
  m_value :: pyfloat
  m_unit :: string
  m_numerator :: "int option"
  m_denominator :: "int option"
  m_evidence :: evidence_level

definition Measurement_init ::
    "pyval \<Rightarrow> pyval \<Rightarrow> pyval \<Rightarrow> pyval \<Rightarrow> pyval \<Rightarrow> evidence_level \<Rightarrow> measurement result" where
  "Measurement_init name value unit numerator denominator evidence =
     bindr (require_identifier name ''measurement name'') (\<lambda>nm.
     bindr (case to_float value of None \<Rightarrow> Inl (ValueError ''measurement value must be a number'' [])
            | Some x \<Rightarrow> Inr x) (\<lambda>x.
     raise_if (x = NaN) (ValueError ''measurement value must not be NaN'' [])
    (bindr (string_field unit (ValueError ''measurement unit must be a string'' [])) (\<lambda>un.
     bindr (optional_int numerator ''measurement numerator'' 0 (ValueError [] [])) (\<lambda>nu.
     bindr (optional_int denominator ''measurement denominator'' 0 (ValueError [] [])) (\<lambda>de.
     raise_if (de = Some 0 \<and> nu \<noteq> None)
       (ValueError ''measurement denominator must not be zero when a numerator is given'' [])
    (Inr \<lparr>m_name = nm, m_value = x, m_unit = un, m_numerator = nu, m_denominator = de,
          m_evidence = evidence\<rparr>)))))))"

definition measurement_ok :: "measurement \<Rightarrow> bool" where
  "measurement_ok m =
     (identifier_ok (m_name m) \<and> m_value m \<noteq> NaN \<and> at_least 0 (m_numerator m)
      \<and> at_least 0 (m_denominator m)
      \<and> \<not> (m_denominator m = Some 0 \<and> m_numerator m \<noteq> None))"

lemma Measurement_init_iff:
  "Measurement_init a b c d e ev = Inr m \<longleftrightarrow>
     measurement_ok m \<and> a = PStr (m_name m) \<and> to_float b = Some (m_value m)
     \<and> c = PStr (m_unit m) \<and> d = opt_val PInt (m_numerator m)
     \<and> e = opt_val PInt (m_denominator m) \<and> ev = m_evidence m"
  by (cases m) (auto simp: Measurement_init_def measurement_ok_def result_iff split: option.splits)

section \<open>Observations\<close>

record observation =
  ob_task_id :: string
  ob_provider :: string
  ob_state :: task_state
  ob_findings :: "finding list"
  ob_measurements :: "measurement list"
  ob_exit_code :: "int option"
  ob_signal :: "string option"
  ob_timed_out :: bool
  ob_truncated :: bool
  ob_duration_seconds :: "pyfloat option"
  ob_tool_versions :: "(string \<times> string) list"
  ob_limitations :: "string list"

fun exit_code_field :: "pyval \<Rightarrow> int option result" where
  "exit_code_field PNone = Inr None"
| "exit_code_field (PInt i) = Inr (Some i)"
| "exit_code_field _ = Inl (ValueError ''observation exit code must be an integer'' [])"

definition signal_field :: "pyval \<Rightarrow> string option result" where
  "signal_field v =
     (if v = PNone then Inr None
      else bindr (require_text v ''observation signal'') (\<lambda>s. Inr (Some s)))"

text \<open>\<open>value < 0\<close> on floats: false for NaN, which the check therefore lets through.\<close>

fun float_negative :: "pyfloat \<Rightarrow> bool" where
  "float_negative (Fin q) = (q < 0)"
| "float_negative NegInf = True"
| "float_negative _ = False"

definition duration_field :: "pyval \<Rightarrow> pyfloat option result" where
  "duration_field v =
     (if v = PNone then Inr None
      else (case to_float v of
              None \<Rightarrow> Inl (ValueError ''observation duration must be a non-negative number'' [])
            | Some x \<Rightarrow>
                raise_if (float_negative x)
                  (ValueError ''observation duration must be a non-negative number'' [])
               (Inr (Some x))))"

fun version_pair :: "pyval \<Rightarrow> (string \<times> string) result" where
  "version_pair (PTuple [PStr n, PStr v]) = Inr (n, v)"
| "version_pair _ =
     Inl (ValueError ''observation tool versions must be (name, version) string pairs'' [])"

definition Observation_init ::
    "pyval \<Rightarrow> pyval \<Rightarrow> task_state \<Rightarrow> finding list \<Rightarrow> measurement list \<Rightarrow> pyval \<Rightarrow> pyval \<Rightarrow> pyval
     \<Rightarrow> pyval \<Rightarrow> pyval \<Rightarrow> pyval \<Rightarrow> pyval \<Rightarrow> observation result" where
  "Observation_init task_id provider state findings measurements exit_code signal timed_out
       truncated duration_seconds tool_versions limitations =
     bindr (require_identifier task_id ''observation task id'') (\<lambda>ti.
     bindr (require_identifier provider ''observation provider'') (\<lambda>pr.
     bindr (exit_code_field exit_code) (\<lambda>ec.
     bindr (signal_field signal) (\<lambda>sg.
     bindr (bool_field timed_out (ValueError ''observation {} must be a boolean'' [''timed_out''])) (\<lambda>tm.
     bindr (bool_field truncated (ValueError ''observation {} must be a boolean'' [''truncated''])) (\<lambda>tr.
     bindr (duration_field duration_seconds) (\<lambda>du.
     bindr (require_tuple tool_versions is_tuple ''observation tool versions'') (\<lambda>vs.
     bindr (mapr version_pair vs) (\<lambda>tv.
     bindr (text_tuple limitations ''observation limitation'' ''observation limitations'') (\<lambda>li.
     Inr \<lparr>ob_task_id = ti, ob_provider = pr, ob_state = state, ob_findings = findings,
          ob_measurements = measurements, ob_exit_code = ec, ob_signal = sg, ob_timed_out = tm,
          ob_truncated = tr, ob_duration_seconds = du, ob_tool_versions = tv,
          ob_limitations = li\<rparr>))))))))))"

text \<open>\<open>Observation.evidence_is_complete\<close>.\<close>

definition evidence_is_complete :: "observation \<Rightarrow> bool" where
  "evidence_is_complete ob = (ob_state ob = SUCCEEDED \<and> \<not> ob_truncated ob \<and> \<not> ob_timed_out ob)"

definition version_pairs :: "(string \<times> string) list \<Rightarrow> pyval list" where
  "version_pairs vs = map (\<lambda>(n, v). PTuple [PStr n, PStr v]) vs"

definition Observation_replace :: "observation \<Rightarrow> observation result" where
  "Observation_replace ob =
     Observation_init (PStr (ob_task_id ob)) (PStr (ob_provider ob)) (ob_state ob)
       (ob_findings ob) (ob_measurements ob) (opt_val PInt (ob_exit_code ob))
       (opt_val PStr (ob_signal ob)) (PBool (ob_timed_out ob)) (PBool (ob_truncated ob))
       (opt_val PFloat (ob_duration_seconds ob)) (PTuple (version_pairs (ob_tool_versions ob)))
       (strs (ob_limitations ob))"

definition observation_fields_ok :: "observation \<Rightarrow> bool" where
  "observation_fields_ok ob =
     (identifier_ok (ob_task_id ob) \<and> identifier_ok (ob_provider ob)
      \<and> opt_ok text_ok (ob_signal ob) \<and> opt_ok (\<lambda>x. \<not> float_negative x) (ob_duration_seconds ob)
      \<and> list_all text_ok (ob_limitations ob))"

definition observation_ok :: "observation \<Rightarrow> bool" where
  "observation_ok ob =
     (observation_fields_ok ob \<and> list_all finding_ok (ob_findings ob)
      \<and> list_all measurement_ok (ob_measurements ob))"

lemma exit_code_field_iff [result_iff]: "exit_code_field v = Inr n \<longleftrightarrow> v = opt_val PInt n"
  by (cases v; cases n) auto

lemma signal_field_iff [result_iff]:
  "signal_field v = Inr n \<longleftrightarrow> v = opt_val PStr n \<and> opt_ok text_ok n"
  by (cases n) (auto simp: signal_field_def result_iff)

lemma duration_field_iff [result_iff]:
  "duration_field v = Inr n \<longleftrightarrow>
     (case n of None \<Rightarrow> v = PNone | Some x \<Rightarrow> to_float v = Some x \<and> \<not> float_negative x)"
  by (cases n) (auto simp: duration_field_def result_iff split: option.splits)

lemma version_pair_iff [result_iff]:
  "version_pair v = Inr p \<longleftrightarrow> v = PTuple [PStr (fst p), PStr (snd p)]"
  by (cases v rule: version_pair.cases) auto

lemma version_pairs_iff [result_iff]:
  "mapr version_pair vs = Inr ps \<longleftrightarrow> vs = version_pairs ps"
proof (induction vs arbitrary: ps)
  case Nil
  show ?case by (cases ps) (auto simp: version_pairs_def)
next
  case (Cons v vs)
  show ?case
    by (cases ps) (auto simp: bindr_Inr Cons.IH version_pair_iff version_pairs_def simp del: version_pair.simps)
qed

lemma version_pairs_tuples [simp]: "list_all is_tuple (version_pairs ps)"
  by (auto simp: list_all_iff version_pairs_def)

lemma Observation_init_iff:
  "Observation_init a b st fs ms c d e f g h i = Inr ob \<longleftrightarrow>
     observation_fields_ok ob \<and> a = PStr (ob_task_id ob) \<and> b = PStr (ob_provider ob)
     \<and> st = ob_state ob \<and> fs = ob_findings ob \<and> ms = ob_measurements ob
     \<and> c = opt_val PInt (ob_exit_code ob) \<and> d = opt_val PStr (ob_signal ob)
     \<and> e = PBool (ob_timed_out ob) \<and> f = PBool (ob_truncated ob)
     \<and> (case ob_duration_seconds ob of None \<Rightarrow> g = PNone | Some x \<Rightarrow> to_float g = Some x)
     \<and> (h = PList (version_pairs (ob_tool_versions ob))
        \<or> h = PTuple (version_pairs (ob_tool_versions ob)))
     \<and> str_items i (ob_limitations ob)"
  by (cases ob)
    (auto simp: Observation_init_def observation_fields_ok_def result_iff split: option.splits)

lemma version_pairs_inj [simp]: "version_pairs a = version_pairs b \<longleftrightarrow> a = b"
  by (auto simp: version_pairs_def inj_map_eq_map inj_def)

lemma opt_int_inj [simp]: "opt_val PInt a = opt_val PInt b \<longleftrightarrow> a = b"
  by (cases a; cases b) auto

lemma Observation_replace_iff:
  "Observation_replace ob = Inr ob' \<longleftrightarrow> ob' = ob \<and> observation_fields_ok ob"
  by (cases ob; cases ob')
    (auto simp: Observation_replace_def Observation_init_iff opt_val_def split: option.splits)

section \<open>Check records\<close>

record check_record =
  cr_task_id :: string
  cr_check_id :: string
  cr_component_id :: string
  cr_language :: string
  cr_scope_digest :: string
  cr_state :: task_state
  cr_evidence_complete :: bool
  cr_analysis_unit_id :: "string option"
  cr_variant :: "string option"

definition CheckRecord_init ::
    "pyval \<Rightarrow> pyval \<Rightarrow> pyval \<Rightarrow> pyval \<Rightarrow> pyval \<Rightarrow> task_state \<Rightarrow> pyval \<Rightarrow> pyval \<Rightarrow> pyval
     \<Rightarrow> check_record result" where
  "CheckRecord_init task_id check_id component_id language scope_digest state
       evidence_complete analysis_unit_id variant =
     bindr (require_identifier task_id ''task_id'') (\<lambda>ti.
     bindr (require_identifier check_id ''check_id'') (\<lambda>ci.
     bindr (require_identifier component_id ''component_id'') (\<lambda>co.
     bindr (require_identifier language ''language'') (\<lambda>la.
     bindr (optional_identifier analysis_unit_id ''analysis_unit_id'') (\<lambda>au.
     bindr (optional_identifier variant ''variant'') (\<lambda>va.
     bindr (require_digest scope_digest ''check scope'') (\<lambda>di.
     bindr (bool_field evidence_complete
              (ValueError ''check evidence_complete must be a boolean'' [])) (\<lambda>ec.
     raise_if (ec \<and> state \<noteq> SUCCEEDED)
       (ValueError ''only a succeeded check can carry complete evidence'' [])
    (Inr \<lparr>cr_task_id = ti, cr_check_id = ci, cr_component_id = co, cr_language = la,
          cr_scope_digest = di, cr_state = state, cr_evidence_complete = ec,
          cr_analysis_unit_id = au, cr_variant = va\<rparr>)))))))))"

definition comparison_key ::
    "check_record \<Rightarrow> string \<times> string \<times> string \<times> string \<times> string \<times> string option \<times> string option" where
  "comparison_key c =
     (cr_task_id c, cr_check_id c, cr_component_id c, cr_language c, cr_scope_digest c,
      cr_analysis_unit_id c, cr_variant c)"

definition check_record_ok :: "check_record \<Rightarrow> bool" where
  "check_record_ok c =
     (identifier_ok (cr_task_id c) \<and> identifier_ok (cr_check_id c)
      \<and> identifier_ok (cr_component_id c) \<and> identifier_ok (cr_language c)
      \<and> opt_ok identifier_ok (cr_analysis_unit_id c) \<and> opt_ok identifier_ok (cr_variant c)
      \<and> digest_ok (cr_scope_digest c) \<and> (cr_evidence_complete c \<longrightarrow> cr_state c = SUCCEEDED))"

lemma CheckRecord_init_iff:
  "CheckRecord_init a b c d e st f g h = Inr r \<longleftrightarrow>
     check_record_ok r \<and> a = PStr (cr_task_id r) \<and> b = PStr (cr_check_id r)
     \<and> c = PStr (cr_component_id r) \<and> d = PStr (cr_language r)
     \<and> e = PStr (cr_scope_digest r) \<and> st = cr_state r \<and> f = PBool (cr_evidence_complete r)
     \<and> g = opt_val PStr (cr_analysis_unit_id r) \<and> h = opt_val PStr (cr_variant r)"
  by (cases r) (auto simp: CheckRecord_init_def check_record_ok_def result_iff)

end
