(* ===== verification/Results.thy ===== *)
theory Results
  imports Observations
begin

text \<open>
  The run envelope (src/src/ici/domain/result.py) and the source snapshot it identifies
  (SourceSnapshot of src/src/ici/domain/workspace.py): scope, execution, gate, publication and
  baseline as separate records, each with its constructor, its invariant and the lemma that the
  constructor accepts exactly the values with the invariant.
\<close>

section \<open>Producer and identity\<close>

record producer =
  pd_ici_version :: string
  pd_bundle_digest :: "string option"

definition optional_digest :: "pyval \<Rightarrow> string \<Rightarrow> string option result" where
  "optional_digest value description =
     (if value = PNone then Inr None
      else bindr (require_digest value description) (\<lambda>s. Inr (Some s)))"

lemma optional_digest_iff [result_iff]:
  "optional_digest v d = Inr n \<longleftrightarrow> v = opt_val PStr n \<and> opt_ok digest_ok n"
  by (cases n) (auto simp: optional_digest_def result_iff)

definition Producer_init :: "pyval \<Rightarrow> pyval \<Rightarrow> producer result" where
  "Producer_init ici_version bundle_digest =
     bindr (require_text ici_version ''ici version'') (\<lambda>iv.
     bindr (optional_digest bundle_digest ''bundle digest'') (\<lambda>bd.
     Inr \<lparr>pd_ici_version = iv, pd_bundle_digest = bd\<rparr>))"

definition producer_ok :: "producer \<Rightarrow> bool" where
  "producer_ok p = (text_ok (pd_ici_version p) \<and> opt_ok digest_ok (pd_bundle_digest p))"

lemma Producer_init_iff:
  "Producer_init a b = Inr p \<longleftrightarrow>
     producer_ok p \<and> a = PStr (pd_ici_version p) \<and> b = opt_val PStr (pd_bundle_digest p)"
  by (cases p) (auto simp: Producer_init_def producer_ok_def result_iff)

record source_snapshot =
  ss_digest :: string
  ss_files :: "string list"
  ss_generated :: "string list"
  ss_external_inputs :: "string list"
  ss_commit :: "string option"
  ss_dirty :: bool

text \<open>\<open>_relative_paths\<close> of domain/workspace.py, and an optional text field.\<close>

definition relative_paths :: "pyval \<Rightarrow> string \<Rightarrow> string list result" where
  "relative_paths values description =
     bindr (require_tuple values is_str description)
       (mapr (\<lambda>item. require_relative_path item description False))"

definition optional_text :: "pyval \<Rightarrow> string \<Rightarrow> string option result" where
  "optional_text value description =
     (if value = PNone then Inr None
      else bindr (require_text value description) (\<lambda>s. Inr (Some s)))"

lemma relative_paths_iff [result_iff]:
  "relative_paths v d = Inr ss \<longleftrightarrow> str_items v ss \<and> list_all (path_ok False) ss"
  by (auto simp: relative_paths_def result_iff str_items_def)

lemma optional_text_iff [result_iff]:
  "optional_text v d = Inr n \<longleftrightarrow> v = opt_val PStr n \<and> opt_ok text_ok n"
  by (cases n) (auto simp: optional_text_def result_iff)

definition SourceSnapshot_init ::
    "pyval \<Rightarrow> pyval \<Rightarrow> pyval \<Rightarrow> pyval \<Rightarrow> pyval \<Rightarrow> pyval \<Rightarrow> source_snapshot result" where
  "SourceSnapshot_init digest files generated external_inputs commit dirty =
     bindr (require_digest digest ''source snapshot digest'') (\<lambda>di.
     bindr (relative_paths files ''snapshot file'') (\<lambda>fi.
     bindr (relative_paths generated ''generated input'') (\<lambda>ge.
     bindr (text_tuple external_inputs ''external input'' ''external input'') (\<lambda>ex.
     bindr (optional_text commit ''snapshot commit'') (\<lambda>co.
     bindr (bool_field dirty (ValueError ''snapshot dirty must be a boolean'' [])) (\<lambda>dr.
     Inr \<lparr>ss_digest = di, ss_files = fi, ss_generated = ge, ss_external_inputs = ex,
          ss_commit = co, ss_dirty = dr\<rparr>))))))"

definition snapshot_ok :: "source_snapshot \<Rightarrow> bool" where
  "snapshot_ok s =
     (digest_ok (ss_digest s) \<and> list_all (path_ok False) (ss_files s)
      \<and> list_all (path_ok False) (ss_generated s) \<and> list_all text_ok (ss_external_inputs s)
      \<and> opt_ok text_ok (ss_commit s))"

lemma SourceSnapshot_init_iff:
  "SourceSnapshot_init a b c d e f = Inr s \<longleftrightarrow>
     snapshot_ok s \<and> a = PStr (ss_digest s) \<and> str_items b (ss_files s)
     \<and> str_items c (ss_generated s) \<and> str_items d (ss_external_inputs s)
     \<and> e = opt_val PStr (ss_commit s) \<and> f = PBool (ss_dirty s)"
  by (cases s) (auto simp: SourceSnapshot_init_def snapshot_ok_def result_iff)

record run_identity =
  ri_source :: source_snapshot
  ri_policy_digest :: string
  ri_toolchain_digest :: string
  ri_fingerprint_version :: string

definition FINGERPRINT_VERSION :: string where
  "FINGERPRINT_VERSION = ''ici.next.fingerprint.v3''"

definition RunIdentity_init ::
    "source_snapshot \<Rightarrow> pyval \<Rightarrow> pyval \<Rightarrow> pyval \<Rightarrow> run_identity result" where
  "RunIdentity_init source policy_digest toolchain_digest fingerprint_version =
     bindr (require_digest policy_digest ''run policy_digest'') (\<lambda>pd.
     bindr (require_digest toolchain_digest ''run toolchain_digest'') (\<lambda>td.
     bindr (string_field fingerprint_version
              (ValueError ''run fingerprint_version must be a string'' [])) (\<lambda>fv.
     Inr \<lparr>ri_source = source, ri_policy_digest = pd, ri_toolchain_digest = td,
          ri_fingerprint_version = fv\<rparr>)))"

definition identity_fields_ok :: "run_identity \<Rightarrow> bool" where
  "identity_fields_ok r = (digest_ok (ri_policy_digest r) \<and> digest_ok (ri_toolchain_digest r))"

lemma RunIdentity_init_iff:
  "RunIdentity_init s a b c = Inr r \<longleftrightarrow>
     identity_fields_ok r \<and> s = ri_source r \<and> a = PStr (ri_policy_digest r)
     \<and> b = PStr (ri_toolchain_digest r) \<and> c = PStr (ri_fingerprint_version r)"
  by (cases r) (auto simp: RunIdentity_init_def identity_fields_ok_def result_iff)

section \<open>Scope\<close>

record scope_selection =
  sc_kind :: scope_kind
  sc_selected_components :: "string list"
  sc_selected_languages :: "string list"
  sc_required_components :: "string list"
  sc_omitted_components :: "string list"
  sc_full_required_satisfied :: bool

text \<open>A tuple of unique identifiers, in the constructor's own composition.\<close>

definition unique_identifier_tuple :: "pyval \<Rightarrow> string \<Rightarrow> string \<Rightarrow> string list result" where
  "unique_identifier_tuple values each all =
     bindr (identifier_tuple values each all) (\<lambda>ids. require_unique_identifiers ids all)"

definition unique_ids :: "string list \<Rightarrow> bool" where
  "unique_ids ids = (list_all identifier_ok ids \<and> distinct ids)"

lemma unique_identifier_tuple_iff [result_iff]:
  "unique_identifier_tuple v e a = Inr ids \<longleftrightarrow> str_items v ids \<and> unique_ids ids"
  by (auto simp: unique_identifier_tuple_def unique_ids_def result_iff)

text \<open>\<open>ScopeSelection.omitted\<close>: a required component this run did not select.\<close>

definition scope_omits :: "string list \<Rightarrow> string list \<Rightarrow> bool" where
  "scope_omits required selected = (set required - set selected \<noteq> {})"

definition ScopeSelection_init ::
    "scope_kind \<Rightarrow> pyval \<Rightarrow> pyval \<Rightarrow> pyval \<Rightarrow> pyval \<Rightarrow> pyval \<Rightarrow> scope_selection result" where
  "ScopeSelection_init kind selected_components selected_languages required_components
       omitted_components full_required_satisfied =
     bindr (unique_identifier_tuple selected_components
              ''scope selected_components entry'' ''scope selected_components'') (\<lambda>sel.
     bindr (unique_identifier_tuple selected_languages
              ''scope selected_languages entry'' ''scope selected_languages'') (\<lambda>lan.
     bindr (unique_identifier_tuple required_components
              ''scope required_components entry'' ''scope required_components'') (\<lambda>req.
     bindr (unique_identifier_tuple omitted_components
              ''scope omitted_components entry'' ''scope omitted_components'') (\<lambda>omi.
     bindr (bool_field full_required_satisfied
              (ValueError ''scope full_required_satisfied must be a boolean'' [])) (\<lambda>sat.
     raise_if (kind = FULL \<and> \<not> sat)
       (ValueError ''a full scope must satisfy the required components'' [])
    (raise_if (kind \<noteq> FULL \<and> sat \<and> scope_omits req sel)
       (ValueError ''a scope that omits components cannot be fully satisfied'' [])
    (Inr \<lparr>sc_kind = kind, sc_selected_components = sel, sc_selected_languages = lan,
          sc_required_components = req, sc_omitted_components = omi,
          sc_full_required_satisfied = sat\<rparr>)))))))"

definition scope_ok :: "scope_selection \<Rightarrow> bool" where
  "scope_ok s =
     (unique_ids (sc_selected_components s) \<and> unique_ids (sc_selected_languages s)
      \<and> unique_ids (sc_required_components s) \<and> unique_ids (sc_omitted_components s)
      \<and> (sc_kind s = FULL \<longrightarrow> sc_full_required_satisfied s)
      \<and> (sc_kind s \<noteq> FULL \<and> sc_full_required_satisfied s \<longrightarrow>
           \<not> scope_omits (sc_required_components s) (sc_selected_components s)))"

lemma ScopeSelection_init_iff:
  "ScopeSelection_init k a b c d e = Inr s \<longleftrightarrow>
     scope_ok s \<and> k = sc_kind s \<and> str_items a (sc_selected_components s)
     \<and> str_items b (sc_selected_languages s) \<and> str_items c (sc_required_components s)
     \<and> str_items d (sc_omitted_components s) \<and> e = PBool (sc_full_required_satisfied s)"
  by (cases s) (auto simp: ScopeSelection_init_def scope_ok_def result_iff)

section \<open>Execution\<close>

record execution_summary =
  ex_required_complete :: bool
  ex_cancelled :: bool
  ex_blocked_task_ids :: "string list"
  ex_failed_task_ids :: "string list"
  ex_reused_task_ids :: "string list"

definition ExecutionSummary_init ::
    "pyval \<Rightarrow> pyval \<Rightarrow> pyval \<Rightarrow> pyval \<Rightarrow> pyval \<Rightarrow> execution_summary result" where
  "ExecutionSummary_init required_complete cancelled blocked_task_ids failed_task_ids
       reused_task_ids =
     bindr (bool_field required_complete
              (ValueError ''execution {} must be a boolean'' [''required_complete''])) (\<lambda>rc.
     bindr (bool_field cancelled
              (ValueError ''execution {} must be a boolean'' [''cancelled''])) (\<lambda>ca.
     bindr (identifier_tuple blocked_task_ids
              ''execution blocked_task_ids entry'' ''execution blocked_task_ids'') (\<lambda>bl.
     bindr (identifier_tuple failed_task_ids
              ''execution failed_task_ids entry'' ''execution failed_task_ids'') (\<lambda>fa.
     bindr (identifier_tuple reused_task_ids
              ''execution reused_task_ids entry'' ''execution reused_task_ids'') (\<lambda>re.
     raise_if (rc \<and> (bl \<noteq> [] \<or> ca))
       (ValueError ''a run with blocked or cancelled work is not complete'' [])
    (Inr \<lparr>ex_required_complete = rc, ex_cancelled = ca, ex_blocked_task_ids = bl,
          ex_failed_task_ids = fa, ex_reused_task_ids = re\<rparr>))))))"

definition execution_ok :: "execution_summary \<Rightarrow> bool" where
  "execution_ok e =
     (list_all identifier_ok (ex_blocked_task_ids e) \<and> list_all identifier_ok (ex_failed_task_ids e)
      \<and> list_all identifier_ok (ex_reused_task_ids e)
      \<and> (ex_required_complete e \<longrightarrow> ex_blocked_task_ids e = [] \<and> \<not> ex_cancelled e))"

lemma ExecutionSummary_init_iff:
  "ExecutionSummary_init a b c d f = Inr e \<longleftrightarrow>
     execution_ok e \<and> a = PBool (ex_required_complete e) \<and> b = PBool (ex_cancelled e)
     \<and> str_items c (ex_blocked_task_ids e) \<and> str_items d (ex_failed_task_ids e)
     \<and> str_items f (ex_reused_task_ids e)"
  by (cases e) (auto simp: ExecutionSummary_init_def execution_ok_def result_iff)

section \<open>Gate\<close>

record gate_outcome =
  ga_selected :: gate_verdict
  ga_workspace :: gate_verdict
  ga_has_violations :: bool
  ga_reasons :: "string list"

definition GateOutcome_init ::
    "gate_verdict \<Rightarrow> gate_verdict \<Rightarrow> pyval \<Rightarrow> pyval \<Rightarrow> gate_outcome result" where
  "GateOutcome_init selected workspace has_violations reasons =
     bindr (bool_field has_violations
              (ValueError ''gate has_violations must be a boolean'' [])) (\<lambda>hv.
     bindr (text_tuple reasons ''gate reason'' ''gate reasons'') (\<lambda>rs.
     raise_if (selected = PASS \<and> hv)
       (ValueError ''a passing scope cannot also report violations'' [])
    (raise_if (selected \<in> {FAIL, INCOMPLETE} \<and> rs = [])
       (ValueError ''a {} gate must say why'' [gate_verdict_value selected])
    (Inr \<lparr>ga_selected = selected, ga_workspace = workspace, ga_has_violations = hv,
          ga_reasons = rs\<rparr>))))"

definition gate_ok :: "gate_outcome \<Rightarrow> bool" where
  "gate_ok g =
     (list_all text_ok (ga_reasons g) \<and> (ga_selected g = PASS \<longrightarrow> \<not> ga_has_violations g)
      \<and> (ga_selected g \<in> {FAIL, INCOMPLETE} \<longrightarrow> ga_reasons g \<noteq> []))"

lemma GateOutcome_init_iff:
  "GateOutcome_init s w a b = Inr g \<longleftrightarrow>
     gate_ok g \<and> s = ga_selected g \<and> w = ga_workspace g \<and> a = PBool (ga_has_violations g)
     \<and> str_items b (ga_reasons g)"
  by (cases g) (auto simp: GateOutcome_init_def gate_ok_def result_iff)

text \<open>\<open>GateOutcome.exit_code\<close>.\<close>

definition exit_code :: "gate_outcome \<Rightarrow> int" where
  "exit_code g =
     (if ga_selected g = INCOMPLETE then 3 else if ga_selected g = FAIL then 1 else 0)"

section \<open>Publication and baseline\<close>

record publication_outcome =
  pu_state :: publication_state
  pu_detail :: string

definition PublicationOutcome_init ::
    "publication_state \<Rightarrow> pyval \<Rightarrow> publication_outcome result" where
  "PublicationOutcome_init state detail =
     bindr (string_field detail (ValueError ''publication detail must be a string'' [])) (\<lambda>de.
     Inr \<lparr>pu_state = state, pu_detail = de\<rparr>)"

definition no_publication :: publication_outcome where
  "no_publication = \<lparr>pu_state = PUB_NOT_CONFIGURED, pu_detail = []\<rparr>"

lemma PublicationOutcome_init_iff:
  "PublicationOutcome_init s a = Inr p \<longleftrightarrow> s = pu_state p \<and> a = PStr (pu_detail p)"
  by (cases p) (auto simp: PublicationOutcome_init_def result_iff)

record baseline_comparison =
  bc_state :: baseline_state
  bc_origin :: string
  bc_reason :: string
  bc_new :: "string list"
  bc_unchanged :: "string list"
  bc_resolved :: "string list"
  bc_carried :: "string list"

definition BaselineComparison_init ::
    "baseline_state \<Rightarrow> pyval \<Rightarrow> pyval \<Rightarrow> pyval \<Rightarrow> pyval \<Rightarrow> pyval \<Rightarrow> pyval
     \<Rightarrow> baseline_comparison result" where
  "BaselineComparison_init state origin reason new unchanged resolved carried =
     bindr (string_field origin (ValueError ''baseline {} must be a string'' [''origin''])) (\<lambda>ori.
     bindr (string_field reason (ValueError ''baseline {} must be a string'' [''reason''])) (\<lambda>rea.
     bindr (text_tuple new ''baseline new fingerprint'' ''baseline new'') (\<lambda>ne.
     bindr (text_tuple unchanged ''baseline unchanged fingerprint'' ''baseline unchanged'') (\<lambda>un.
     bindr (text_tuple resolved ''baseline resolved fingerprint'' ''baseline resolved'') (\<lambda>re.
     bindr (text_tuple carried ''baseline carried fingerprint'' ''baseline carried'') (\<lambda>ca.
     raise_if (state = INCOMPATIBLE \<and> (ne \<noteq> [] \<or> un \<noteq> [] \<or> re \<noteq> [] \<or> ca \<noteq> []))
       (ValueError ''an incompatible baseline comparison carries no delta'' [])
    (Inr \<lparr>bc_state = state, bc_origin = ori, bc_reason = rea, bc_new = ne, bc_unchanged = un,
          bc_resolved = re, bc_carried = ca\<rparr>)))))))"

definition baseline_ok :: "baseline_comparison \<Rightarrow> bool" where
  "baseline_ok b =
     (list_all text_ok (bc_new b) \<and> list_all text_ok (bc_unchanged b)
      \<and> list_all text_ok (bc_resolved b) \<and> list_all text_ok (bc_carried b)
      \<and> (bc_state b = INCOMPATIBLE \<longrightarrow>
           bc_new b = [] \<and> bc_unchanged b = [] \<and> bc_resolved b = [] \<and> bc_carried b = []))"

lemma BaselineComparison_init_iff:
  "BaselineComparison_init s a b c d e f = Inr r \<longleftrightarrow>
     baseline_ok r \<and> s = bc_state r \<and> a = PStr (bc_origin r) \<and> b = PStr (bc_reason r)
     \<and> str_items c (bc_new r) \<and> str_items d (bc_unchanged r) \<and> str_items e (bc_resolved r)
     \<and> str_items f (bc_carried r)"
  by (cases r) (auto simp: BaselineComparison_init_def baseline_ok_def result_iff)

section \<open>The run result\<close>

definition SCHEMA_ID :: string where
  "SCHEMA_ID = ''ici.next.run''"

definition SCHEMA_VERSION :: int where
  "SCHEMA_VERSION = 2"

record run_result =
  rr_run_id :: string
  rr_producer :: producer
  rr_identity :: run_identity
  rr_scope :: scope_selection
  rr_execution :: execution_summary
  rr_gate :: gate_outcome
  rr_findings :: "finding list"
  rr_metrics :: "measurement list"
  rr_publication :: publication_outcome
  rr_limitations :: "string list"
  rr_baseline :: "baseline_comparison option"
  rr_checks :: "check_record list option"
  rr_schema_id :: string
  rr_schema_version :: int

text \<open>\<open>RunResult.blocking_findings\<close>.\<close>

definition blocking_findings :: "finding list \<Rightarrow> finding list" where
  "blocking_findings findings = filter counts_against_gate findings"

definition RunResult_init ::
    "pyval \<Rightarrow> producer \<Rightarrow> run_identity \<Rightarrow> scope_selection \<Rightarrow> execution_summary \<Rightarrow> gate_outcome
     \<Rightarrow> finding list \<Rightarrow> measurement list \<Rightarrow> publication_outcome \<Rightarrow> pyval
     \<Rightarrow> baseline_comparison option \<Rightarrow> check_record list option \<Rightarrow> string \<Rightarrow> pyval
     \<Rightarrow> run_result result" where
  "RunResult_init run_id producer identity scope execution gate findings metrics publication
       limitations baseline checks schema_id schema_version =
     bindr (require_text run_id ''run id'') (\<lambda>ri.
     bindr (text_tuple limitations ''run limitation'' ''run limitations'') (\<lambda>li.
     raise_if (schema_id \<noteq> SCHEMA_ID)
       (ValueError ''run schema_id must be {!r}, not {!r}'' [SCHEMA_ID, schema_id])
    (bindr (case schema_version of
              PInt v \<Rightarrow>
                raise_if (v \<notin> {1, SCHEMA_VERSION})
                  (ValueError ''run schema_version must be 1 or {}'' [show_int SCHEMA_VERSION])
               (Inr v)
            | _ \<Rightarrow> Inl (ValueError ''run schema_version must be 1 or {}'' [show_int SCHEMA_VERSION]))
       (\<lambda>ver.
     bindr (case checks of
              None \<Rightarrow> Inr ()
            | Some cs \<Rightarrow>
                raise_if (ver = 1) (ValueError ''v1 results cannot carry check scope records'' [])
               (bindr (require_unique_identifiers (map cr_task_id cs) ''run check tasks'')
                  (\<lambda>_. Inr ()))) (\<lambda>_.
     raise_if (ga_has_violations gate \<and> blocking_findings findings = [])
       (ValueError ''gate reports violations but no finding counts against it'' [])
    (raise_if (\<not> ex_required_complete execution \<and> ga_selected gate = PASS)
       (ValueError ''an incomplete run cannot report a passing gate'' [])
    (Inr \<lparr>rr_run_id = ri, rr_producer = producer, rr_identity = identity, rr_scope = scope,
          rr_execution = execution, rr_gate = gate, rr_findings = findings,
          rr_metrics = metrics, rr_publication = publication, rr_limitations = li,
          rr_baseline = baseline, rr_checks = checks, rr_schema_id = schema_id,
          rr_schema_version = ver\<rparr>)))))))"

definition run_fields_ok :: "run_result \<Rightarrow> bool" where
  "run_fields_ok r =
     (text_ok (rr_run_id r) \<and> list_all text_ok (rr_limitations r)
      \<and> rr_schema_id r = SCHEMA_ID \<and> rr_schema_version r \<in> {1, SCHEMA_VERSION}
      \<and> (case rr_checks r of None \<Rightarrow> True
         | Some cs \<Rightarrow> rr_schema_version r \<noteq> 1 \<and> distinct (map cr_task_id cs))
      \<and> (ga_has_violations (rr_gate r) \<longrightarrow> blocking_findings (rr_findings r) \<noteq> [])
      \<and> (\<not> ex_required_complete (rr_execution r) \<longrightarrow> ga_selected (rr_gate r) \<noteq> PASS))"

lemma checks_field_iff [result_iff]:
  "(case checks of None \<Rightarrow> Inr () | Some cs \<Rightarrow>
      raise_if c e (bindr (require_unique_identifiers (f cs) d) (\<lambda>_. Inr ()))) = Inr u \<longleftrightarrow>
   (case checks of None \<Rightarrow> True | Some cs \<Rightarrow> \<not> c \<and> distinct (f cs))"
  by (cases checks) (auto simp: result_iff)

lemma version_field_iff [result_iff]:
  "(case v of PInt n \<Rightarrow> raise_if (n \<notin> S) e (Inr n) | _ \<Rightarrow> Inl e') = Inr m \<longleftrightarrow>
   v = PInt m \<and> m \<in> S"
  by (cases v) (auto simp: result_iff)

lemma RunResult_init_iff:
  "RunResult_init a p i s e g fs ms pu b bl cs sid v = Inr r \<longleftrightarrow>
     run_fields_ok r \<and> a = PStr (rr_run_id r) \<and> p = rr_producer r \<and> i = rr_identity r
     \<and> s = rr_scope r \<and> e = rr_execution r \<and> g = rr_gate r \<and> fs = rr_findings r
     \<and> ms = rr_metrics r \<and> pu = rr_publication r \<and> str_items b (rr_limitations r)
     \<and> bl = rr_baseline r \<and> cs = rr_checks r \<and> sid = rr_schema_id r
     \<and> v = PInt (rr_schema_version r)"
  by (cases r)
    (auto simp: RunResult_init_def run_fields_ok_def result_iff split: option.splits)

text \<open>The invariant of a whole result: of its own fields and of every part.\<close>

definition run_result_ok :: "run_result \<Rightarrow> bool" where
  "run_result_ok r =
     (run_fields_ok r \<and> producer_ok (rr_producer r) \<and> snapshot_ok (ri_source (rr_identity r))
      \<and> identity_fields_ok (rr_identity r) \<and> scope_ok (rr_scope r)
      \<and> execution_ok (rr_execution r) \<and> gate_ok (rr_gate r)
      \<and> list_all finding_ok (rr_findings r) \<and> list_all measurement_ok (rr_metrics r)
      \<and> opt_ok baseline_ok (rr_baseline r) \<and> opt_ok (list_all check_record_ok) (rr_checks r))"

text \<open>
  What the cross-field checks of the envelope add up to: a constructed result that passes
  finished its required work, was not cancelled, blocked nothing, and reports no violation.
\<close>

lemma passing_run_complete:
  assumes "run_result_ok r" "ga_selected (rr_gate r) = PASS"
  shows "ex_required_complete (rr_execution r)" "\<not> ex_cancelled (rr_execution r)"
    "ex_blocked_task_ids (rr_execution r) = []" "\<not> ga_has_violations (rr_gate r)"
  using assms by (auto simp: run_result_ok_def run_fields_ok_def execution_ok_def gate_ok_def)

end
