(* ===== verification/Codec.thy ===== *)
theory Codec
  imports Enums
begin

text \<open>
  The primitives the result and event codecs share (src/src/ici/domain/_codec.py): the mapping and
  envelope checks and the deterministic writer \<open>dumps\<close>, and the interface of a codec.  A codec
  writes a model as a dynamic value and reads it back; the locale \<open>codec\<close> states that reading
  inverts writing on well-formed values, and its facts are what the enclosing codecs use for
  their lists and optional parts.
\<close>

section \<open>Mappings and envelopes\<close>

fun require_mapping :: "pyval \<Rightarrow> string \<Rightarrow> (string \<times> pyval) list result" where
  "require_mapping (PDict d) description = Inr d"
| "require_mapping v description =
     Inl (SchemaError ''{} must be a JSON object, got {}'' [description, type_name v])"

fun check_envelope :: "(string \<times> pyval) list \<Rightarrow> string \<Rightarrow> int \<Rightarrow> unit result" where
  "check_envelope payload schema_id version =
     raise_if (py_get payload ''schema_id'' \<noteq> PStr schema_id)
       (SchemaError ''expected schema_id {!r}, found {!r}'' [schema_id])
    (case py_get payload ''schema_version'' of
       PInt found \<Rightarrow>
         raise_if (found \<noteq> version)
           (UnsupportedSchemaError
              ''{} version {} cannot be read by this build, which implements version {}''
              [schema_id, show_int found, show_int version])
        (Inr ())
     | _ \<Rightarrow> Inl (SchemaError ''schema_version must be an integer, found {!r}'' []))"

lemma require_mapping_iff [result_iff]: "require_mapping v d = Inr m \<longleftrightarrow> v = PDict m"
  by (cases v) auto

lemma check_envelope_iff [result_iff]:
  "check_envelope p sid ver = Inr u \<longleftrightarrow>
     py_get p ''schema_id'' = PStr sid \<and> py_get p ''schema_version'' = PInt ver"
  by (auto simp: result_iff split: pyval.splits)

lemma check_envelope_eval:
  "py_get_default p ''schema_id'' PNone = PStr sid \<Longrightarrow>
     py_get_default p ''schema_version'' PNone = PInt ver \<Longrightarrow> check_envelope p sid ver = Inr ()"
  by (simp add: py_get_def)

declare check_envelope.simps [simp del]

lemma require_mapping_error: "require_mapping v d = Inl x \<Longrightarrow> is_schema_error x"
  by (cases v) auto

lemma check_envelope_error: "check_envelope p sid ver = Inl x \<Longrightarrow> is_schema_error x"
  by (auto simp: check_envelope.simps raise_if_def split: pyval.splits if_splits)

section \<open>Canonical text\<close>

text \<open>
  \<open>json.dumps(sort_keys=True, separators=(",", ":"), ensure_ascii=False, allow_nan=False)\<close>.
  The shortest decimal of a finite float is the interpreter's (\<open>float_repr\<close>).
\<close>

definition hex_digit :: "nat \<Rightarrow> char" where
  "hex_digit n = char_of (if n < 10 then 48 + n else 87 + n)"

definition escape_char :: "char \<Rightarrow> string" where
  "escape_char c =
     (let n = (of_char c :: nat) in
      if n = 34 then [CHR 0x5C, CHR 0x22]
      else if n = 92 then [CHR 0x5C, CHR 0x5C]
      else if n = 10 then CHR 0x5C # ''n''
      else if n = 13 then CHR 0x5C # ''r''
      else if n = 9 then CHR 0x5C # ''t''
      else if n = 8 then CHR 0x5C # ''b''
      else if n = 12 then CHR 0x5C # ''f''
      else if n < 32 then CHR 0x5C # ''u00'' @ [hex_digit (n div 16), hex_digit (n mod 16)]
      else [c])"

definition quote_string :: "string \<Rightarrow> string" where
  "quote_string s = CHR 0x22 # concat (map escape_char s) @ [CHR 0x22]"

fun dumps :: "(rat \<Rightarrow> string) \<Rightarrow> pyval \<Rightarrow> string result" where
  "dumps float_repr PNone = Inr ''null''"
| "dumps float_repr (PBool b) = Inr (if b then ''true'' else ''false'')"
| "dumps float_repr (PInt i) = Inr (show_int i)"
| "dumps float_repr (PFloat (Fin q)) = Inr (float_repr q)"
| "dumps float_repr (PFloat f) =
     Inl (ValueError ''Out of range float values are not JSON compliant'' [])"
| "dumps float_repr (PStr s) = Inr (quote_string s)"
| "dumps float_repr (PList vs) =
     bindr (mapr (dumps float_repr) vs) (\<lambda>ts. Inr (''['' @ join '','' ts @ '']''))"
| "dumps float_repr (PTuple vs) =
     bindr (mapr (dumps float_repr) vs) (\<lambda>ts. Inr (''['' @ join '','' ts @ '']''))"
| "dumps float_repr (PDict kvs) =
     bindr (mapr (\<lambda>kv. bindr (dumps float_repr (snd kv)) (\<lambda>t. Inr (fst kv, t))) kvs) (\<lambda>kts.
     Inr (''{'' @ join '','' (map (\<lambda>(k, t). quote_string k @ '':'' @ t) (sort_key fst kts)) @ ''}''))"

text \<open>
  Only an infinity or NaN is refused, so a value without one always has a text.
\<close>

fun json_finite :: "pyval \<Rightarrow> bool" where
  "json_finite (PFloat f) = (case f of Fin q \<Rightarrow> True | _ \<Rightarrow> False)"
| "json_finite (PList vs) = (\<forall>v \<in> set vs. json_finite v)"
| "json_finite (PTuple vs) = (\<forall>v \<in> set vs. json_finite v)"
| "json_finite (PDict kvs) = (\<forall>kv \<in> set kvs. json_finite (snd kv))"
| "json_finite v = True"

lemma mapr_total: "(\<And>x. x \<in> set xs \<Longrightarrow> \<exists>y. f x = Inr y) \<Longrightarrow> \<exists>ys. mapr f xs = Inr ys"
  by (induction xs) (auto simp: bindr_Inr)

lemma dumps_total: "json_finite v \<Longrightarrow> \<exists>t. dumps fr v = Inr t"
proof (induction fr v rule: dumps.induct)
  case (7 fr vs)
  then have "\<exists>ys. mapr (dumps fr) vs = Inr ys" by (intro mapr_total) auto
  then show ?case by auto
next
  case (8 fr vs)
  then have "\<exists>ys. mapr (dumps fr) vs = Inr ys" by (intro mapr_total) auto
  then show ?case by auto
next
  case (9 fr kvs)
  have "\<exists>ys. mapr (\<lambda>kv. bindr (dumps fr (snd kv)) (\<lambda>t. Inr (fst kv, t))) kvs = Inr ys"
  proof (rule mapr_total)
    fix kv assume kv: "kv \<in> set kvs"
    with 9 have "\<exists>t. dumps fr (snd kv) = Inr t" by (cases kv) force
    then show "\<exists>y. bindr (dumps fr (snd kv)) (\<lambda>t. Inr (fst kv, t)) = Inr y" by auto
  qed
  then show ?case by auto
qed auto

section \<open>The interface of a codec\<close>

text \<open>
  A form may leave part of a value out: \<open>norm\<close> is what it keeps.  Reading what was written gives
  the kept part, everything that is read is well-formed, and the kept part is written like the
  value it comes from.
\<close>

locale wire_codec =
  fixes enc :: "'a \<Rightarrow> pyval" and dec :: "pyval \<Rightarrow> 'a result" and ok :: "'a \<Rightarrow> bool"
    and norm :: "'a \<Rightarrow> 'a"
  assumes dec_enc: "ok x \<Longrightarrow> dec (enc x) = Inr (norm x)"
    and dec_ok: "dec v = Inr x \<Longrightarrow> ok x"
    and enc_norm: "ok x \<Longrightarrow> enc (norm x) = enc x"
begin

lemma norm_ok: "ok x \<Longrightarrow> ok (norm x)"
  using dec_enc dec_ok by blast

lemma norm_idem: "ok x \<Longrightarrow> norm (norm x) = norm x"
  using dec_enc enc_norm norm_ok by (metis Inr_inject)

lemma dec_enc_list: "(\<forall>x \<in> set xs. ok x) \<Longrightarrow> mapr dec (map enc xs) = Inr (map norm xs)"
  by (induction xs) (auto simp: dec_enc)

lemma enc_norm_list: "(\<forall>x \<in> set xs. ok x) \<Longrightarrow> map enc (map norm xs) = map enc xs"
  by (auto simp: enc_norm)

lemma dec_list_ok: "mapr dec vs = Inr xs \<Longrightarrow> \<forall>x \<in> set xs. ok x"
  by (induction vs arbitrary: xs) (auto simp: bindr_Inr dest: dec_ok)

text \<open>The kept part is exactly what the form distinguishes.\<close>

lemma enc_eq_iff: "ok x \<Longrightarrow> ok y \<Longrightarrow> enc x = enc y \<longleftrightarrow> norm x = norm y"
  using dec_enc enc_norm by (metis Inr_inject)

text \<open>What was read, written and read back again: only its kept part is left.\<close>

lemma dec_stable: "dec v = Inr x \<Longrightarrow> dec (enc x) = Inr (norm x)"
  by (blast intro: dec_enc dec_ok)

end

text \<open>A form that keeps everything.\<close>

locale codec =
  fixes enc :: "'a \<Rightarrow> pyval" and dec :: "pyval \<Rightarrow> 'a result" and ok :: "'a \<Rightarrow> bool"
  assumes dec_enc: "ok x \<Longrightarrow> dec (enc x) = Inr x"
    and dec_ok: "dec v = Inr x \<Longrightarrow> ok x"

sublocale codec \<subseteq> wire: wire_codec enc dec ok "\<lambda>x. x"
  by unfold_locales (simp_all add: dec_enc dec_ok)

context codec
begin

lemma dec_enc_list: "(\<forall>x \<in> set xs. ok x) \<Longrightarrow> mapr dec (map enc xs) = Inr xs"
  using wire.dec_enc_list [of xs] by simp

lemma dec_list_ok: "mapr dec vs = Inr xs \<Longrightarrow> \<forall>x \<in> set xs. ok x"
  by (rule wire.dec_list_ok)

lemma enc_inj: "ok x \<Longrightarrow> ok y \<Longrightarrow> enc x = enc y \<Longrightarrow> x = y"
  using wire.enc_eq_iff by simp

end

end
