(* ===== verification/Json.thy ===== *)
theory Json
  imports Codec
begin

text \<open>
  What a document becomes on its way through JSON text.  \<open>canon v\<close> is what parsing the sorted text
  of \<open>v\<close> gives back: objects with their keys in order, tuples as arrays.  The locale
  \<open>transport\<close> collects what the readers rely on, so that every round trip is proved once and
  holds for a document handed over directly and for one that went through a file.
\<close>

section \<open>Canonical documents\<close>

fun canon :: "pyval \<Rightarrow> pyval" where
  "canon (PList vs) = PList (map canon vs)"
| "canon (PTuple vs) = PList (map canon vs)"
| "canon (PDict kvs) = PDict (sort_key fst (map (\<lambda>kv. (fst kv, canon (snd kv))) kvs))"
| "canon v = v"

text \<open>A stable sort commutes with a map that keeps the keys, and keeps every lookup.\<close>

lemma insort_key_map:
  "(\<And>x. key (f x) = key' x) \<Longrightarrow> insort_key key (f x) (map f xs) = map f (insort_key key' x xs)"
  by (induction xs) auto

lemma sort_key_map:
  assumes "\<And>x. key (f x) = key' x"
  shows "sort_key key (map f xs) = map f (sort_key key' xs)"
  by (induction xs) (simp_all add: insort_key_map [of key f key'] assms)

lemma map_of_filter_eq: "map_of d k = map_of (filter (\<lambda>kv. fst kv = k) d) k"
  by (induction d) auto

lemma map_of_sort_key [simp]: "map_of (sort_key fst d) = map_of d"
proof
  fix k
  have "map_of (sort_key fst d) k = map_of (filter (\<lambda>kv. fst kv = k) (sort_key fst d)) k"
    by (rule map_of_filter_eq)
  also have "\<dots> = map_of (filter (\<lambda>kv. fst kv = k) d) k"
    by (simp add: sort_key_stable)
  also have "\<dots> = map_of d k" by (rule map_of_filter_eq [symmetric])
  finally show "map_of (sort_key fst d) k = map_of d k" .
qed

lemma map_of_map_values: "map_of (map (\<lambda>kv. (fst kv, f (snd kv))) d) k = map_option f (map_of d k)"
  by (induction d) auto

lemma sort_key_sorted: "sorted (map key xs) \<Longrightarrow> sort_key key xs = xs"
  by (induction xs) (auto simp: insort_is_Cons)

lemma sort_key_idem [simp]: "sort_key key (sort_key key xs) = sort_key key xs"
  by (simp add: sort_key_sorted)

lemma canon_idem: "canon (canon v) = canon v"
proof (induction v rule: canon.induct)
  case (3 kvs)
  have "map (\<lambda>kv. (fst kv, canon (snd kv))) (sort_key fst (map (\<lambda>kv. (fst kv, canon (snd kv))) kvs))
      = sort_key fst (map (\<lambda>kv. (fst kv, canon (snd kv))) (map (\<lambda>kv. (fst kv, canon (snd kv))) kvs))"
    by (rule sort_key_map [symmetric]) simp
  also have "\<dots> = sort_key fst (map (\<lambda>kv. (fst kv, canon (snd kv))) kvs)"
    using 3 by (auto intro!: arg_cong [of _ _ "sort_key fst"])
  finally show ?case by simp
qed auto

section \<open>The text of a document\<close>

text \<open>The text of a value without infinities and NaN, as a total function.\<close>

fun render :: "(rat \<Rightarrow> string) \<Rightarrow> pyval \<Rightarrow> string" where
  "render fr PNone = ''null''"
| "render fr (PBool b) = (if b then ''true'' else ''false'')"
| "render fr (PInt i) = show_int i"
| "render fr (PFloat f) = (case f of Fin q \<Rightarrow> fr q | _ \<Rightarrow> [])"
| "render fr (PStr s) = quote_string s"
| "render fr (PList vs) = ''['' @ join '','' (map (render fr) vs) @ '']''"
| "render fr (PTuple vs) = ''['' @ join '','' (map (render fr) vs) @ '']''"
| "render fr (PDict kvs) =
     ''{'' @ join '','' (map (\<lambda>(k, t). quote_string k @ '':'' @ t)
       (sort_key fst (map (\<lambda>kv. (fst kv, render fr (snd kv))) kvs))) @ ''}''"

abbreviation not_compliant :: exn where
  "not_compliant \<equiv> ValueError ''Out of range float values are not JSON compliant'' []"

lemma mapr_uniform:
  assumes "\<And>x. x \<in> set xs \<Longrightarrow> f x = (if P x then Inr (g x) else Inl e)"
  shows "mapr f xs = (if list_all P xs then Inr (map g xs) else Inl e)"
  using assms by (induction xs) auto

lemma dumps_render: "dumps fr v = (if json_finite v then Inr (render fr v) else Inl not_compliant)"
proof (induction fr v rule: dumps.induct)
  case (7 fr vs)
  then show ?case
    using mapr_uniform [of vs "dumps fr" json_finite "render fr" not_compliant]
    by (auto simp: list_all_iff)
next
  case (8 fr vs)
  then show ?case
    using mapr_uniform [of vs "dumps fr" json_finite "render fr" not_compliant]
    by (auto simp: list_all_iff)
next
  case (9 fr kvs)
  have "mapr (\<lambda>kv. bindr (dumps fr (snd kv)) (\<lambda>t. Inr (fst kv, t))) kvs
      = (if list_all (\<lambda>kv. json_finite (snd kv)) kvs
         then Inr (map (\<lambda>kv. (fst kv, render fr (snd kv))) kvs) else Inl not_compliant)"
    by (rule mapr_uniform) (use 9 in \<open>auto simp: list_all_iff\<close>)
  then show ?case by (auto simp: list_all_iff)
qed auto

lemma json_finite_canon: "json_finite (canon v) = json_finite v"
  by (induction v rule: canon.induct) auto

lemma render_canon: "render fr (canon v) = render fr v"
proof (induction v rule: canon.induct)
  case (1 vs)
  then show ?case by (simp add: comp_def cong: map_cong)
next
  case (2 vs)
  then show ?case by (simp add: comp_def cong: map_cong)
next
  case (3 kvs)
  have "map (\<lambda>kv. (fst kv, render fr (snd kv))) (sort_key fst (map (\<lambda>kv. (fst kv, canon (snd kv))) kvs))
      = sort_key fst (map (\<lambda>kv. (fst kv, render fr (snd kv))) (map (\<lambda>kv. (fst kv, canon (snd kv))) kvs))"
    by (rule sort_key_map [symmetric]) simp
  also have "\<dots> = sort_key fst (map (\<lambda>kv. (fst kv, render fr (snd kv))) kvs)"
    using 3 by (auto intro!: arg_cong [of _ _ "sort_key fst"])
  finally show ?case by simp
qed auto

text \<open>The text does not depend on the order the keys were inserted in.\<close>

lemma dumps_canon: "dumps fr (canon v) = dumps fr v"
  by (simp add: dumps_render json_finite_canon render_canon)

section \<open>What readers rely on\<close>

locale transport =
  fixes h :: "pyval \<Rightarrow> pyval"
  assumes scalar: "h PNone = PNone" "h (PBool b) = PBool b" "h (PInt i) = PInt i"
      "h (PFloat f) = PFloat f" "h (PStr s) = PStr s"
    and array: "h (PList vs) = PList (map h vs)"
    and empty_tuple: "h (PTuple []) = PTuple [] \<or> h (PTuple []) = PList []"
    and object: "\<exists>d'. h (PDict d) = PDict d' \<and> (\<forall>k. map_of d' k = map_option h (map_of d k))"
begin

definition fields :: "(string \<times> pyval) list \<Rightarrow> (string \<times> pyval) list" where
  "fields d = (case h (PDict d) of PDict d' \<Rightarrow> d' | _ \<Rightarrow> [])"

lemma h_dict: "h (PDict d) = PDict (fields d)"
  using object [of d] by (auto simp: fields_def)

lemma map_of_fields: "map_of (fields d) k = map_option h (map_of d k)"
  using object [of d] by (auto simp: fields_def)

lemma fields_keys: "fst ` set (fields d) = fst ` set d"
proof -
  have "k \<in> fst ` set (fields d) \<longleftrightarrow> k \<in> fst ` set d" for k
    using map_of_fields [of d k] map_of_eq_None_iff [of "fields d" k] map_of_eq_None_iff [of d k]
    by auto
  then show ?thesis by blast
qed

lemma get_fields:
  "py_get_default (fields d) k PNone = h (py_get_default d k PNone)"
  "py_get_default (fields d) k (PStr s) = h (py_get_default d k (PStr s))"
  "py_get_default (fields d) k (PBool b) = h (py_get_default d k (PBool b))"
  "py_tuple (py_get_default (fields d) k (PTuple [])) = py_tuple (h (py_get_default d k (PTuple [])))"
  "py_iter (py_get_default (fields d) k (PTuple [])) = py_iter (h (py_get_default d k (PTuple [])))"
  using empty_tuple
  by (auto simp: py_get_default_def map_of_fields scalar split: option.split)

lemma h_optional: "(\<And>x. h (f x) = f x) \<Longrightarrow> h (opt_val f v) = opt_val f v"
  by (cases v) (simp_all add: scalar)

lemma h_opt_scalar:
  "h (opt_val PStr v) = opt_val PStr v" "h (opt_val PInt w) = opt_val PInt w"
  "h (opt_val PFloat x) = opt_val PFloat x"
  by (rule h_optional, simp add: scalar)+

lemma h_list_or:
  "py_tuple (h (list_or (PTuple []) f xs)) = Inr (PTuple (map (h \<circ> f) xs))"
  "py_iter (h (list_or (PTuple []) f xs)) = Inr (map (h \<circ> f) xs)"
  using empty_tuple by (auto simp: list_or_def array)

lemma h_flag: "truthy (h (flag_or (PBool False) b)) = b"
  by (simp add: flag_or_def scalar)

lemma h_array: "py_tuple (h (PList vs)) = Inr (PTuple (map h vs))" "py_iter (h (PList vs)) = Inr (map h vs)"
  by (simp_all add: array)

lemma h_PStr: "h \<circ> PStr = PStr"
  by (simp add: comp_def scalar)

lemmas h_simps = h_PStr scalar array h_dict get_fields h_opt_scalar h_list_or h_flag h_array

lemma decode_list:
  assumes "\<And>x. ok x \<Longrightarrow> dec (h (enc x)) = Inr (nf x)" and "\<forall>x \<in> set xs. ok x"
  shows "mapr dec (map (h \<circ> enc) xs) = Inr (map nf xs)"
  unfolding mapr_map by (rule mapr_Inr_self) (use assms in auto)

end

interpretation direct: transport "\<lambda>v. v"
  by unfold_locales (auto simp: option.map_ident)

interpretation json: transport canon
  by unfold_locales (auto simp: map_of_map_values)

end
