(* ===== verification/Serialization.thy ===== *)
theory Serialization
  imports Results Json
begin

text \<open>
  The external form of a run result and of an observation (src/src/ici/domain/serialization.py):
  one writer and one reader per model, and the round trips.  A writer leaves out what has its
  default value, so every reader is proved to put it back; the one value the form does not carry
  is the reason of a suppression that is not in force, which \<open>wire_finding\<close> drops.
\<close>

section \<open>Writing\<close>

definition span_to_dict :: "source_span \<Rightarrow> pyval" where
  "span_to_dict sp = PDict
     ([(''path'', PStr (sp_path sp)), (''start_line'', PInt (sp_start_line sp))]
      @ opt_field ''end_line'' PInt (sp_end_line sp)
      @ opt_field ''start_column'' PInt (sp_start_column sp)
      @ opt_field ''end_column'' PInt (sp_end_column sp)
      @ str_field ''label'' (sp_label sp))"

definition suppression_field :: "suppression \<Rightarrow> (string \<times> pyval) list" where
  "suppression_field s =
     (if su_suppressed s
      then [(''suppression'', PDict
              [(''suppressed'', PBool True), (''kind'', PStr (su_kind s)),
               (''reason'', PStr (su_reason s)), (''origin'', PStr (su_origin s))])]
      else [])"

definition finding_to_dict :: "finding \<Rightarrow> pyval" where
  "finding_to_dict f = PDict
     ([(''fingerprint'', PStr (f_fingerprint f)), (''rule_id'', PStr (f_rule_id f)),
       (''message'', PStr (f_message f)), (''severity'', PStr (f_severity f)),
       (''confidence'', PStr (f_confidence f)), (''provider'', PStr (f_provider f)),
       (''evidence'', PStr (evidence_level_value (f_evidence f))),
       (''primary_location'', span_to_dict (f_primary_location f))]
      @ list_field ''related_locations'' span_to_dict (f_related_locations f)
      @ str_field ''native_rule_id'' (f_native_rule_id f)
      @ str_field ''rule_version'' (f_rule_version f)
      @ str_field ''category'' (f_category f)
      @ list_field ''tags'' PStr (f_tags f)
      @ opt_field ''component_id'' PStr (f_component_id f)
      @ opt_field ''analysis_unit_id'' PStr (f_analysis_unit_id f)
      @ opt_field ''variant'' PStr (f_variant f)
      @ opt_field ''task_id'' PStr (f_task_id f)
      @ suppression_field (f_suppression f)
      @ list_field ''limitations'' PStr (f_limitations f))"

definition measurement_to_dict :: "measurement \<Rightarrow> pyval" where
  "measurement_to_dict m = PDict
     ([(''name'', PStr (m_name m)), (''value'', PFloat (m_value m)),
       (''evidence'', PStr (evidence_level_value (m_evidence m)))]
      @ str_field ''unit'' (m_unit m)
      @ opt_field ''numerator'' PInt (m_numerator m)
      @ opt_field ''denominator'' PInt (m_denominator m))"

definition snapshot_to_dict :: "source_snapshot \<Rightarrow> pyval" where
  "snapshot_to_dict s = PDict
     ([(''digest'', PStr (ss_digest s)), (''dirty'', PBool (ss_dirty s))]
      @ list_field ''files'' PStr (ss_files s)
      @ list_field ''generated'' PStr (ss_generated s)
      @ list_field ''external_inputs'' PStr (ss_external_inputs s)
      @ opt_field ''commit'' PStr (ss_commit s))"

definition version_to_list :: "string \<times> string \<Rightarrow> pyval" where
  "version_to_list p = PList [PStr (fst p), PStr (snd p)]"

definition observation_to_dict :: "observation \<Rightarrow> pyval" where
  "observation_to_dict ob = PDict
     ([(''task_id'', PStr (ob_task_id ob)), (''provider'', PStr (ob_provider ob)),
       (''state'', PStr (task_state_value (ob_state ob)))]
      @ list_field ''findings'' finding_to_dict (ob_findings ob)
      @ list_field ''measurements'' measurement_to_dict (ob_measurements ob)
      @ opt_field ''exit_code'' PInt (ob_exit_code ob)
      @ opt_field ''signal'' PStr (ob_signal ob)
      @ opt_field ''duration_seconds'' PFloat (ob_duration_seconds ob)
      @ flag_field ''timed_out'' (ob_timed_out ob)
      @ flag_field ''truncated'' (ob_truncated ob)
      @ list_field ''tool_versions'' version_to_list (ob_tool_versions ob)
      @ list_field ''limitations'' PStr (ob_limitations ob))"

definition str_list :: "string list \<Rightarrow> pyval" where
  "str_list ss = PList (map PStr ss)"

definition baseline_to_dict :: "baseline_comparison \<Rightarrow> pyval" where
  "baseline_to_dict b = PDict
     [(''state'', PStr (baseline_state_value (bc_state b))), (''origin'', PStr (bc_origin b)),
      (''reason'', PStr (bc_reason b)), (''new'', str_list (bc_new b)),
      (''unchanged'', str_list (bc_unchanged b)), (''resolved'', str_list (bc_resolved b)),
      (''carried'', str_list (bc_carried b))]"

text \<open>\<open>{**vars(item), "state": item.state.value}\<close>: every field, absent ones as null.\<close>

definition check_to_dict :: "check_record \<Rightarrow> pyval" where
  "check_to_dict c = PDict
     [(''task_id'', PStr (cr_task_id c)), (''check_id'', PStr (cr_check_id c)),
      (''component_id'', PStr (cr_component_id c)), (''language'', PStr (cr_language c)),
      (''scope_digest'', PStr (cr_scope_digest c)),
      (''state'', PStr (task_state_value (cr_state c))),
      (''evidence_complete'', PBool (cr_evidence_complete c)),
      (''analysis_unit_id'', opt_val PStr (cr_analysis_unit_id c)),
      (''variant'', opt_val PStr (cr_variant c))]"

definition producer_to_dict :: "producer \<Rightarrow> pyval" where
  "producer_to_dict p = PDict
     ([(''ici_version'', PStr (pd_ici_version p))]
      @ opt_field ''bundle_digest'' PStr (pd_bundle_digest p))"

definition identity_to_dict :: "run_identity \<Rightarrow> pyval" where
  "identity_to_dict i = PDict
     [(''source'', snapshot_to_dict (ri_source i)),
      (''policy_digest'', PStr (ri_policy_digest i)),
      (''toolchain_digest'', PStr (ri_toolchain_digest i)),
      (''fingerprint_version'', PStr (ri_fingerprint_version i))]"

definition scope_to_dict :: "scope_selection \<Rightarrow> pyval" where
  "scope_to_dict s = PDict
     [(''kind'', PStr (scope_kind_value (sc_kind s))),
      (''selected_components'', str_list (sc_selected_components s)),
      (''selected_languages'', str_list (sc_selected_languages s)),
      (''required_components'', str_list (sc_required_components s)),
      (''omitted_components'', str_list (sc_omitted_components s)),
      (''full_required_satisfied'', PBool (sc_full_required_satisfied s))]"

definition execution_to_dict :: "execution_summary \<Rightarrow> pyval" where
  "execution_to_dict e = PDict
     [(''required_complete'', PBool (ex_required_complete e)),
      (''cancelled'', PBool (ex_cancelled e)),
      (''blocked_task_ids'', str_list (ex_blocked_task_ids e)),
      (''failed_task_ids'', str_list (ex_failed_task_ids e)),
      (''reused_task_ids'', str_list (ex_reused_task_ids e))]"

definition gate_to_dict :: "gate_outcome \<Rightarrow> pyval" where
  "gate_to_dict g = PDict
     [(''selected'', PStr (gate_verdict_value (ga_selected g))),
      (''workspace'', PStr (gate_verdict_value (ga_workspace g))),
      (''has_violations'', PBool (ga_has_violations g)),
      (''reasons'', str_list (ga_reasons g))]"

definition publication_to_dict :: "publication_outcome \<Rightarrow> pyval" where
  "publication_to_dict p = PDict
     [(''state'', PStr (publication_state_value (pu_state p))), (''detail'', PStr (pu_detail p))]"

definition checks_field :: "int \<Rightarrow> check_record list option \<Rightarrow> (string \<times> pyval) list" where
  "checks_field version checks =
     (if 2 \<le> version
      then [(''checks'', case checks of None \<Rightarrow> PNone | Some cs \<Rightarrow> PList (map check_to_dict cs))]
      else [])"

definition run_result_to_dict :: "run_result \<Rightarrow> pyval" where
  "run_result_to_dict r = PDict
     ([(''schema_id'', PStr (rr_schema_id r)), (''schema_version'', PInt (rr_schema_version r)),
       (''run_id'', PStr (rr_run_id r)), (''producer'', producer_to_dict (rr_producer r)),
       (''identity'', identity_to_dict (rr_identity r)), (''scope'', scope_to_dict (rr_scope r)),
       (''execution'', execution_to_dict (rr_execution r)), (''gate'', gate_to_dict (rr_gate r)),
       (''publication'', publication_to_dict (rr_publication r)),
       (''findings'', PList (map finding_to_dict (rr_findings r))),
       (''metrics'', PList (map measurement_to_dict (rr_metrics r))),
       (''limitations'', str_list (rr_limitations r))]
      @ checks_field (rr_schema_version r) (rr_checks r)
      @ opt_field ''baseline'' baseline_to_dict (rr_baseline r))"

section \<open>Reading\<close>

text \<open>\<open>tuple(data.get(key, ()))\<close>.\<close>

definition get_tuple :: "(string \<times> pyval) list \<Rightarrow> string \<Rightarrow> pyval result" where
  "get_tuple data key = py_tuple (py_get_default data key (PTuple []))"

text \<open>\<open>tuple(read(item) for item in data.get(key, ()))\<close>.\<close>

definition get_each :: "(pyval \<Rightarrow> 'a result) \<Rightarrow> (string \<times> pyval) list \<Rightarrow> string \<Rightarrow> 'a list result" where
  "get_each read data key = bindr (py_iter (py_get_default data key (PTuple []))) (mapr read)"

definition get_text :: "(string \<times> pyval) list \<Rightarrow> string \<Rightarrow> pyval" where
  "get_text data key = py_get_default data key (PStr [])"

definition get_bool :: "(string \<times> pyval) list \<Rightarrow> string \<Rightarrow> pyval" where
  "get_bool data key = PBool (truthy (py_get_default data key (PBool False)))"

definition span_from_dict :: "pyval \<Rightarrow> source_span result" where
  "span_from_dict payload =
     bindr (require_mapping payload ''location'') (\<lambda>data.
     SourceSpan_init (py_get data ''path'') (py_get data ''start_line'')
       (py_get data ''end_line'') (py_get data ''start_column'') (py_get data ''end_column'')
       (get_text data ''label''))"

definition suppression_from_dict :: "pyval \<Rightarrow> suppression result" where
  "suppression_from_dict payload =
     (if payload = PNone then Inr no_suppression
      else bindr (require_mapping payload ''finding suppression'') (\<lambda>raw.
        FindingSuppression_init (get_bool raw ''suppressed'') (get_text raw ''kind'')
          (get_text raw ''reason'') (get_text raw ''origin'')))"

definition finding_from_dict :: "pyval \<Rightarrow> finding result" where
  "finding_from_dict payload =
     bindr (require_mapping payload ''finding'') (\<lambda>data.
     bindr (span_from_dict (py_get data ''primary_location'')) (\<lambda>loc.
     bindr (get_tuple data ''tags'') (\<lambda>tags.
     bindr (get_each span_from_dict data ''related_locations'') (\<lambda>rel.
     bindr (read_enum evidence_level_value evidence_levels
              (py_get_default data ''evidence'' (PStr ''MEASURED'')) ''finding evidence'') (\<lambda>ev.
     bindr (suppression_from_dict (py_get data ''suppression'')) (\<lambda>su.
     bindr (get_tuple data ''limitations'') (\<lambda>li.
     Finding_init (py_get data ''fingerprint'') (py_get data ''rule_id'') (py_get data ''message'')
       (py_get data ''severity'') (py_get data ''confidence'') loc (py_get data ''provider'')
       (get_text data ''native_rule_id'') (get_text data ''rule_version'')
       (get_text data ''category'') tags rel (py_get data ''component_id'')
       (py_get data ''analysis_unit_id'') (py_get data ''variant'') (py_get data ''task_id'')
       ev su li)))))))"

definition measurement_from_dict :: "pyval \<Rightarrow> measurement result" where
  "measurement_from_dict payload =
     bindr (require_mapping payload ''metric'') (\<lambda>data.
     bindr (read_enum evidence_level_value evidence_levels
              (py_get_default data ''evidence'' (PStr ''MEASURED'')) ''metric evidence'') (\<lambda>ev.
     Measurement_init (py_get data ''name'') (py_get data ''value'') (get_text data ''unit'')
       (py_get data ''numerator'') (py_get data ''denominator'') ev))"

definition observation_from_dict :: "pyval \<Rightarrow> observation result" where
  "observation_from_dict payload =
     bindr (require_mapping payload ''observation'') (\<lambda>data.
     bindr (read_enum task_state_value task_states (py_get data ''state'') ''observation state'') (\<lambda>st.
     bindr (get_each finding_from_dict data ''findings'') (\<lambda>fs.
     bindr (get_each measurement_from_dict data ''measurements'') (\<lambda>ms.
     bindr (get_each py_tuple data ''tool_versions'') (\<lambda>vs.
     bindr (get_tuple data ''limitations'') (\<lambda>li.
     Observation_init (py_get data ''task_id'') (py_get data ''provider'') st fs ms
       (py_get data ''exit_code'') (py_get data ''signal'') (get_bool data ''timed_out'')
       (get_bool data ''truncated'') (py_get data ''duration_seconds'') (PTuple vs) li))))))"

definition identity_from_dict :: "pyval \<Rightarrow> run_identity result" where
  "identity_from_dict payload =
     bindr (require_mapping payload ''run identity'') (\<lambda>data.
     bindr (require_mapping (py_get data ''source'') ''source snapshot'') (\<lambda>snapshot.
     bindr (get_tuple snapshot ''files'') (\<lambda>fi.
     bindr (get_tuple snapshot ''generated'') (\<lambda>ge.
     bindr (get_tuple snapshot ''external_inputs'') (\<lambda>ex.
     bindr (SourceSnapshot_init (py_get snapshot ''digest'') fi ge ex
              (py_get snapshot ''commit'') (get_bool snapshot ''dirty'')) (\<lambda>source.
     let version = py_get data ''fingerprint_version'' in
     RunIdentity_init source (py_get data ''policy_digest'') (py_get data ''toolchain_digest'')
       (if truthy version then version else PStr [])))))))"

definition scope_from_dict :: "pyval \<Rightarrow> scope_selection result" where
  "scope_from_dict payload =
     bindr (require_mapping payload ''scope'') (\<lambda>data.
     bindr (read_enum scope_kind_value scope_kinds (py_get data ''kind'') ''scope kind'') (\<lambda>kind.
     bindr (get_tuple data ''selected_components'') (\<lambda>sel.
     bindr (get_tuple data ''selected_languages'') (\<lambda>lan.
     bindr (get_tuple data ''required_components'') (\<lambda>req.
     bindr (get_tuple data ''omitted_components'') (\<lambda>omi.
     ScopeSelection_init kind sel lan req omi (get_bool data ''full_required_satisfied'')))))))"

definition execution_from_dict :: "(string \<times> pyval) list \<Rightarrow> execution_summary result" where
  "execution_from_dict execution =
     bindr (get_tuple execution ''blocked_task_ids'') (\<lambda>bl.
     bindr (get_tuple execution ''failed_task_ids'') (\<lambda>fa.
     bindr (get_tuple execution ''reused_task_ids'') (\<lambda>re.
     ExecutionSummary_init (get_bool execution ''required_complete'')
       (get_bool execution ''cancelled'') bl fa re)))"

definition gate_from_dict :: "pyval \<Rightarrow> gate_outcome result" where
  "gate_from_dict payload =
     bindr (require_mapping payload ''gate'') (\<lambda>data.
     bindr (read_enum gate_verdict_value gate_verdicts (py_get data ''selected'')
              ''selected gate'') (\<lambda>sel.
     bindr (read_enum gate_verdict_value gate_verdicts
              (py_get_default data ''workspace'' (PStr ''NOT_EVALUATED'')) ''workspace gate'') (\<lambda>wsp.
     bindr (get_tuple data ''reasons'') (\<lambda>rs.
     GateOutcome_init sel wsp (get_bool data ''has_violations'') rs))))"

definition publication_from_dict :: "pyval \<Rightarrow> publication_outcome result" where
  "publication_from_dict payload =
     (if payload = PNone then Inr no_publication
      else bindr (require_mapping payload ''publication'') (\<lambda>data.
        bindr (read_enum publication_state_value publication_states
                 (py_get_default data ''state'' (PStr ''NOT_CONFIGURED'')) ''publication state'') (\<lambda>st.
        PublicationOutcome_init st (get_text data ''detail''))))"

definition baseline_from_dict :: "pyval \<Rightarrow> baseline_comparison option result" where
  "baseline_from_dict payload =
     (if payload = PNone then Inr None
      else bindr (require_mapping payload ''baseline'') (\<lambda>data.
        bindr (read_enum baseline_state_value baseline_states (py_get data ''state'')
                 ''baseline state'') (\<lambda>st.
        bindr (get_tuple data ''new'') (\<lambda>ne.
        bindr (get_tuple data ''unchanged'') (\<lambda>un.
        bindr (get_tuple data ''resolved'') (\<lambda>re.
        bindr (get_tuple data ''carried'') (\<lambda>ca.
        bindr (BaselineComparison_init st (get_text data ''origin'') (get_text data ''reason'')
                 ne un re ca) (\<lambda>b. Inr (Some b)))))))))"

text \<open>
  \<open>CheckRecord(**data)\<close>: a key that is not a field, or a field without a key, is a
  \<open>TypeError\<close>; it and the constructor's \<open>ValueError\<close> come out as a \<open>SchemaError\<close>.
\<close>

definition check_fields :: "string list" where
  "check_fields = [''task_id'', ''check_id'', ''component_id'', ''language'', ''scope_digest'',
     ''evidence_complete'', ''analysis_unit_id'', ''variant'']"

definition check_from_dict :: "pyval \<Rightarrow> check_record result" where
  "check_from_dict item =
     bindr (require_mapping item ''check record'') (\<lambda>data.
     raise_if (\<not> {''analysis_unit_id'', ''variant''} \<subseteq> fst ` set data)
       (SchemaError ''check record requires explicit analysis_unit_id and variant'' [])
    (let made =
       bindr (read_enum task_state_value task_states (py_get data ''state'') ''check state'') (\<lambda>st.
       raise_if (fst ` set data - {''state''} \<noteq> set check_fields)
         (TypeErr ''CheckRecord() got unexpected or missing arguments'' [])
      (CheckRecord_init (py_get data ''task_id'') (py_get data ''check_id'')
         (py_get data ''component_id'') (py_get data ''language'') (py_get data ''scope_digest'')
         st (py_get data ''evidence_complete'') (py_get data ''analysis_unit_id'')
         (py_get data ''variant'')))
     in (case made of
           Inl e \<Rightarrow> Inl (SchemaError ''check record is not valid: {}'' [])
         | Inr c \<Rightarrow> Inr c)))"

fun checks_from_dict :: "pyval \<Rightarrow> check_record list option result" where
  "checks_from_dict PNone = Inr None"
| "checks_from_dict (PList items) = bindr (mapr check_from_dict items) (\<lambda>cs. Inr (Some cs))"
| "checks_from_dict _ = Inl (SchemaError ''checks must be an array or null'' [])"

text \<open>The \<open>try\<close> block of the reader: \<open>SchemaError\<close> as it is, any other \<open>ValueError\<close> wrapped.\<close>

fun wrap_value_error :: "'a result \<Rightarrow> 'a result" where
  "wrap_value_error (Inr x) = Inr x"
| "wrap_value_error (Inl e) =
     (if is_schema_error e then Inl e
      else if is_value_error e then Inl (SchemaError ''result is not valid: {}'' [])
      else Inl e)"

definition producer_from_dict :: "(string \<times> pyval) list \<Rightarrow> producer result" where
  "producer_from_dict producer =
     Producer_init (py_get producer ''ici_version'') (py_get producer ''bundle_digest'')"

definition run_result_from_dict :: "pyval \<Rightarrow> run_result result" where
  "run_result_from_dict payload =
     bindr (require_mapping payload ''run result'') (\<lambda>data.
     let version = py_get data ''schema_version'' in
     bindr (check_envelope data SCHEMA_ID (if eq_int version 1 then 1 else SCHEMA_VERSION)) (\<lambda>_.
     raise_if (eq_int version 1 \<and> ''checks'' \<in> fst ` set data)
       (SchemaError ''v1 results cannot carry check scope records'' [])
    (raise_if (eq_int version 2 \<and> ''checks'' \<notin> fst ` set data)
       (SchemaError ''v2 results require checks (null means unknown evidence scope)'' [])
    (bindr (require_mapping (py_get data ''execution'') ''execution'') (\<lambda>execution.
     bindr (require_mapping (py_get data ''producer'') ''producer'') (\<lambda>producer.
     wrap_value_error
      (bindr (producer_from_dict producer) (\<lambda>pr.
       bindr (identity_from_dict (py_get data ''identity'')) (\<lambda>ident.
       bindr (scope_from_dict (py_get data ''scope'')) (\<lambda>sc.
       bindr (execution_from_dict execution) (\<lambda>ex.
       bindr (gate_from_dict (py_get data ''gate'')) (\<lambda>ga.
       bindr (get_each finding_from_dict data ''findings'') (\<lambda>fs.
       bindr (get_each measurement_from_dict data ''metrics'') (\<lambda>ms.
       bindr (publication_from_dict (py_get data ''publication'')) (\<lambda>pu.
       bindr (get_tuple data ''limitations'') (\<lambda>li.
       bindr (baseline_from_dict (py_get data ''baseline'')) (\<lambda>ba.
       bindr (checks_from_dict (py_get data ''checks'')) (\<lambda>cs.
       RunResult_init (py_get data ''run_id'') pr ident sc ex ga fs ms pu li ba cs
         SCHEMA_ID version))))))))))))))))))"

section \<open>What was read is well-formed\<close>

lemmas read_defs = py_get_def get_text_def get_bool_def get_tuple_def get_each_def

lemma mapr_read_ok:
  "(\<And>v x. dec v = Inr x \<Longrightarrow> ok x) \<Longrightarrow> mapr dec vs = Inr xs \<Longrightarrow> \<forall>x \<in> set xs. ok x"
  by (induction vs arbitrary: xs) (auto simp: bindr_Inr)

lemma span_read_ok: "span_from_dict v = Inr s \<Longrightarrow> span_ok s"
  by (auto simp: span_from_dict_def result_iff SourceSpan_init_iff)

lemma spans_read_ok: "mapr span_from_dict vs = Inr xs \<Longrightarrow> \<forall>x \<in> set xs. span_ok x"
  by (rule mapr_read_ok) (rule span_read_ok)

lemma measurement_read_ok: "measurement_from_dict v = Inr m \<Longrightarrow> measurement_ok m"
  by (auto simp: measurement_from_dict_def result_iff Measurement_init_iff)

lemma measurements_read_ok: "mapr measurement_from_dict vs = Inr xs \<Longrightarrow> \<forall>x \<in> set xs. measurement_ok x"
  by (rule mapr_read_ok) (rule measurement_read_ok)

lemma suppression_read_ok: "suppression_from_dict v = Inr s \<Longrightarrow> suppression_ok s"
  by (auto simp: suppression_from_dict_def result_iff FindingSuppression_init_iff split: if_splits)

lemma finding_read_ok: "finding_from_dict v = Inr f \<Longrightarrow> finding_ok f"
  by (auto simp: finding_from_dict_def result_iff Finding_init_iff finding_ok_def get_each_def
      list_all_iff dest: span_read_ok suppression_read_ok spans_read_ok)

lemma findings_read_ok: "mapr finding_from_dict vs = Inr xs \<Longrightarrow> \<forall>x \<in> set xs. finding_ok x"
  by (rule mapr_read_ok) (rule finding_read_ok)

lemma observation_read_ok: "observation_from_dict v = Inr ob \<Longrightarrow> observation_ok ob"
  by (auto simp: observation_from_dict_def result_iff Observation_init_iff observation_ok_def
      get_each_def list_all_iff dest: findings_read_ok measurements_read_ok)

lemma baseline_read_ok: "baseline_from_dict v = Inr b \<Longrightarrow> opt_ok baseline_ok b"
  by (auto simp: baseline_from_dict_def result_iff BaselineComparison_init_iff split: if_splits)

lemma identity_read_ok:
  "identity_from_dict v = Inr i \<Longrightarrow> snapshot_ok (ri_source i) \<and> identity_fields_ok i"
  by (auto simp: identity_from_dict_def result_iff Let_def SourceSnapshot_init_iff
      RunIdentity_init_iff)

lemma scope_read_ok: "scope_from_dict v = Inr s \<Longrightarrow> scope_ok s"
  by (auto simp: scope_from_dict_def result_iff ScopeSelection_init_iff)

lemma gate_read_ok: "gate_from_dict v = Inr g \<Longrightarrow> gate_ok g"
  by (auto simp: gate_from_dict_def result_iff GateOutcome_init_iff)

lemma check_read_ok: "check_from_dict v = Inr c \<Longrightarrow> check_record_ok c"
  by (auto simp: check_from_dict_def Let_def result_iff CheckRecord_init_iff)

lemma check_list_read_ok: "mapr check_from_dict vs = Inr xs \<Longrightarrow> \<forall>x \<in> set xs. check_record_ok x"
  by (rule mapr_read_ok) (rule check_read_ok)

lemma checks_read_ok: "checks_from_dict v = Inr cs \<Longrightarrow> opt_ok (list_all check_record_ok) cs"
  by (cases v) (auto simp: result_iff list_all_iff dest: check_list_read_ok)

lemma wrap_value_error_Inr [result_iff]: "wrap_value_error m = Inr x \<longleftrightarrow> m = Inr x"
  by (cases m) auto

lemma run_result_read_ok:
  assumes "run_result_from_dict v = Inr r"
  shows "run_result_ok r"
  using assms
  by (auto simp: run_result_from_dict_def Let_def result_iff RunResult_init_iff run_result_ok_def
      producer_from_dict_def Producer_init_iff execution_from_dict_def ExecutionSummary_init_iff
      get_each_def list_all_iff
      dest: identity_read_ok scope_read_ok gate_read_ok findings_read_ok
        measurements_read_ok baseline_read_ok checks_read_ok)

section \<open>What the form carries\<close>

text \<open>Of a suppression: all of it when it is in force, nothing otherwise.\<close>

definition wire_suppression :: "suppression \<Rightarrow> suppression" where
  "wire_suppression s = (if su_suppressed s then s else no_suppression)"

definition wire_finding :: "finding \<Rightarrow> finding" where
  "wire_finding f = f\<lparr>f_suppression := wire_suppression (f_suppression f)\<rparr>"

definition wire_observation :: "observation \<Rightarrow> observation" where
  "wire_observation ob = ob\<lparr>ob_findings := map wire_finding (ob_findings ob)\<rparr>"

definition wire_run_result :: "run_result \<Rightarrow> run_result" where
  "wire_run_result r = r\<lparr>rr_findings := map wire_finding (rr_findings r)\<rparr>"

lemma wire_suppression_idem [simp]: "wire_suppression (wire_suppression s) = wire_suppression s"
  by (simp add: wire_suppression_def no_suppression_def)

lemma suppression_field_wire [simp]: "suppression_field (wire_suppression s) = suppression_field s"
  by (simp add: wire_suppression_def suppression_field_def no_suppression_def)

lemma wire_finding_write [simp]: "finding_to_dict (wire_finding f) = finding_to_dict f"
  by (simp add: finding_to_dict_def wire_finding_def)

lemma wire_observation_write: "observation_to_dict (wire_observation ob) = observation_to_dict ob"
  by (simp add: observation_to_dict_def wire_observation_def list_field_def)

lemma wire_run_result_write: "run_result_to_dict (wire_run_result r) = run_result_to_dict r"
  by (simp add: run_result_to_dict_def wire_run_result_def)

text \<open>The gate cannot tell a finding from what the form carries of it.\<close>

lemma counts_against_gate_wire [simp]: "counts_against_gate (wire_finding f) = counts_against_gate f"
  by (auto simp: counts_against_gate_def wire_finding_def wire_suppression_def no_suppression_def)

lemma blocking_wire:
  "blocking_findings (map wire_finding fs) = map wire_finding (blocking_findings fs)"
  by (induction fs) (auto simp: blocking_findings_def)

end
