(* ===== verification/Round_Trips.thy ===== *)
theory Round_Trips
  imports Serialization
begin

text \<open>
  Reading what was written, model by model (src/src/ici/domain/serialization.py), for every
  transport of the document: handed over directly, or through its JSON text.  The collection
  \<open>get_simps\<close> reads each key out of the written dictionary, \<open>h_simps\<close> carries the value
  through the transport, and the constructor accepts the fields by its characterisation.
\<close>

section \<open>Reading the written fields\<close>

text \<open>The groups of keys that are special to one form.\<close>

definition suppression_value :: "pyval \<Rightarrow> suppression \<Rightarrow> pyval" where
  "suppression_value w s =
     (if su_suppressed s
      then PDict [(''suppressed'', PBool True), (''kind'', PStr (su_kind s)),
                  (''reason'', PStr (su_reason s)), (''origin'', PStr (su_origin s))]
      else w)"

lemma py_get_suppression [get_simps]:
  "py_get_default (suppression_field s @ d) k w =
     (if k = ''suppression'' then suppression_value (py_get_default d k w) s
      else py_get_default d k w)"
  by (auto simp: py_get_default_def suppression_field_def suppression_value_def)

definition checks_value :: "check_record list option \<Rightarrow> pyval" where
  "checks_value cs = (case cs of None \<Rightarrow> PNone | Some xs \<Rightarrow> PList (map check_to_dict xs))"

lemma py_get_checks [get_simps]:
  "py_get_default (checks_field n cs @ d) k w =
     (if k = ''checks'' \<and> 2 \<le> n then checks_value cs else py_get_default d k w)"
  by (auto simp: py_get_default_def checks_field_def checks_value_def)

lemma checks_field_keys: "fst ` set (checks_field n cs) = (if 2 \<le> n then {''checks''} else {})"
  by (simp add: checks_field_def)

lemma opt_field_keys: "fst ` set (opt_field k f v) = (if v = None then {} else {k})"
  by (auto simp: opt_field_def split: option.splits)

section \<open>Through any transport\<close>

context transport
begin

lemma span_round: "span_ok s \<Longrightarrow> span_from_dict (h (span_to_dict s)) = Inr s"
  by (simp add: span_from_dict_def span_to_dict_def read_defs get_simps h_simps SourceSpan_init_iff)

lemma spans_round:
  "\<forall>s \<in> set ss. span_ok s \<Longrightarrow> mapr span_from_dict (map (h \<circ> span_to_dict) ss) = Inr ss"
  using decode_list [of span_ok span_from_dict span_to_dict "\<lambda>s. s"] by (simp add: span_round)

lemma measurement_round:
  "measurement_ok m \<Longrightarrow> measurement_from_dict (h (measurement_to_dict m)) = Inr m"
  by (simp add: measurement_from_dict_def measurement_to_dict_def read_defs get_simps h_simps
      enum_read_values Measurement_init_iff)

lemma measurements_round:
  "\<forall>m \<in> set ms. measurement_ok m \<Longrightarrow>
     mapr measurement_from_dict (map (h \<circ> measurement_to_dict) ms) = Inr ms"
  using decode_list [of measurement_ok measurement_from_dict measurement_to_dict "\<lambda>m. m"]
  by (simp add: measurement_round)

lemma suppression_round:
  "suppression_ok s \<Longrightarrow>
     suppression_from_dict (h (suppression_value PNone s)) = Inr (wire_suppression s)"
  by (simp add: suppression_from_dict_def suppression_value_def read_defs get_simps h_simps
      FindingSuppression_init_iff wire_suppression_def)

lemma finding_round:
  assumes "finding_ok f"
  shows "finding_from_dict (h (finding_to_dict f)) = Inr (wire_finding f)"
proof -
  have ok: "finding_fields_ok f" "span_ok (f_primary_location f)"
    "\<forall>s \<in> set (f_related_locations f). span_ok s" "suppression_ok (f_suppression f)"
    using assms by (simp_all add: finding_ok_def list_all_iff)
  show ?thesis
    using ok
    by (simp add: finding_from_dict_def finding_to_dict_def read_defs get_simps h_simps
        suppression_round span_round spans_round enum_read_values Finding_init_iff
        wire_finding_def finding_fields_ok_def)
qed

lemma findings_round:
  "\<forall>f \<in> set fs. finding_ok f \<Longrightarrow>
     mapr finding_from_dict (map (h \<circ> finding_to_dict) fs) = Inr (map wire_finding fs)"
  using decode_list [of finding_ok finding_from_dict finding_to_dict wire_finding]
  by (simp add: finding_round)

lemma versions_round:
  "mapr py_tuple (map (h \<circ> version_to_list) vs) = Inr (version_pairs vs)"
  by (induction vs) (auto simp: version_to_list_def version_pairs_def h_simps)

lemma observation_round:
  assumes "observation_ok ob"
  shows "observation_from_dict (h (observation_to_dict ob)) = Inr (wire_observation ob)"
proof -
  have ok: "observation_fields_ok ob" "\<forall>f \<in> set (ob_findings ob). finding_ok f"
    "\<forall>m \<in> set (ob_measurements ob). measurement_ok m"
    using assms by (simp_all add: observation_ok_def list_all_iff)
  show ?thesis
    using ok
    by (simp add: observation_from_dict_def observation_to_dict_def read_defs get_simps h_simps
        enum_read_values findings_round measurements_round versions_round
        Observation_init_iff wire_observation_def observation_fields_ok_def opt_val_def
        split: option.split)
qed

lemma h_str_list: "py_tuple (h (str_list ss)) = Inr (PTuple (map PStr ss))"
  by (simp add: str_list_def h_simps)

lemma baseline_round:
  "opt_ok baseline_ok b \<Longrightarrow> baseline_from_dict (h (opt_val baseline_to_dict b)) = Inr b"
  by (cases b) (simp_all add: baseline_from_dict_def baseline_to_dict_def read_defs get_simps h_simps
      h_str_list enum_read_values BaselineComparison_init_iff bindr_Inr)

lemma producer_round:
  "producer_ok p \<Longrightarrow>
     bindr (require_mapping (h (producer_to_dict p)) ''producer'') producer_from_dict = Inr p"
  by (simp add: producer_from_dict_def producer_to_dict_def read_defs get_simps h_simps
      Producer_init_iff)

lemma identity_round:
  assumes "snapshot_ok (ri_source i)" "identity_fields_ok i"
  shows "identity_from_dict (h (identity_to_dict i)) = Inr i"
proof -
  have "SourceSnapshot_init (PStr (ss_digest s)) (PTuple (map PStr (ss_files s)))
      (PTuple (map PStr (ss_generated s))) (PTuple (map PStr (ss_external_inputs s)))
      (opt_val PStr (ss_commit s)) (PBool (ss_dirty s)) = Inr s" if "s = ri_source i" for s
    using assms(1) that by (simp add: SourceSnapshot_init_iff)
  then show ?thesis
    using assms(2)
    by (simp add: identity_from_dict_def identity_to_dict_def snapshot_to_dict_def read_defs
        get_simps h_simps RunIdentity_init_iff)
qed

lemma scope_round: "scope_ok s \<Longrightarrow> scope_from_dict (h (scope_to_dict s)) = Inr s"
  by (simp add: scope_from_dict_def scope_to_dict_def read_defs get_simps h_simps h_str_list
      enum_read_values ScopeSelection_init_iff)

lemma execution_round:
  "execution_ok e \<Longrightarrow>
     bindr (require_mapping (h (execution_to_dict e)) ''execution'') execution_from_dict = Inr e"
  by (simp add: execution_from_dict_def execution_to_dict_def read_defs get_simps h_simps h_str_list
      ExecutionSummary_init_iff)

lemma gate_round: "gate_ok g \<Longrightarrow> gate_from_dict (h (gate_to_dict g)) = Inr g"
  by (simp add: gate_from_dict_def gate_to_dict_def read_defs get_simps h_simps h_str_list
      enum_read_values GateOutcome_init_iff)

lemma publication_round: "publication_from_dict (h (publication_to_dict p)) = Inr p"
  by (simp add: publication_from_dict_def publication_to_dict_def read_defs get_simps h_simps
      enum_read_values PublicationOutcome_init_iff)

lemma check_round: "check_record_ok c \<Longrightarrow> check_from_dict (h (check_to_dict c)) = Inr c"
proof -
  assume ok: "check_record_ok c"
  have "CheckRecord_init (PStr (cr_task_id c)) (PStr (cr_check_id c)) (PStr (cr_component_id c))
      (PStr (cr_language c)) (PStr (cr_scope_digest c)) (cr_state c)
      (PBool (cr_evidence_complete c)) (opt_val PStr (cr_analysis_unit_id c))
      (opt_val PStr (cr_variant c)) = Inr c"
    using ok by (simp add: CheckRecord_init_iff)
  then show ?thesis
    by (simp add: check_from_dict_def check_to_dict_def read_defs get_simps h_simps fields_keys
        enum_read_values check_fields_def insert_Diff_if)
qed

lemma checks_round:
  "opt_ok (list_all check_record_ok) cs \<Longrightarrow> checks_from_dict (h (checks_value cs)) = Inr cs"
  using decode_list [of check_record_ok check_from_dict check_to_dict "\<lambda>c. c"]
  by (cases cs) (simp_all add: checks_value_def h_simps check_round list_all_iff)

lemma run_result_round:
  assumes "run_result_ok r"
  shows "run_result_from_dict (h (run_result_to_dict r)) = Inr (wire_run_result r)"
proof -
  have parts: "producer_ok (rr_producer r)" "snapshot_ok (ri_source (rr_identity r))"
    "identity_fields_ok (rr_identity r)" "scope_ok (rr_scope r)" "execution_ok (rr_execution r)"
    "gate_ok (rr_gate r)" "\<forall>f \<in> set (rr_findings r). finding_ok f"
    "\<forall>m \<in> set (rr_metrics r). measurement_ok m" "opt_ok baseline_ok (rr_baseline r)"
    "opt_ok (list_all check_record_ok) (rr_checks r)" and fields: "run_fields_ok r"
    using assms by (simp_all add: run_result_ok_def list_all_iff)
  obtain pd where pd: "h (producer_to_dict (rr_producer r)) = PDict pd"
      "producer_from_dict pd = Inr (rr_producer r)"
    using producer_round [OF parts(1)] by (auto simp: producer_to_dict_def h_dict)
  obtain xd where xd: "h (execution_to_dict (rr_execution r)) = PDict xd"
      "execution_from_dict xd = Inr (rr_execution r)"
    using execution_round [OF parts(5)] by (auto simp: execution_to_dict_def h_dict)
  have ver: "rr_schema_version r = 1 \<and> rr_checks r = None \<or> rr_schema_version r = 2"
    using fields by (auto simp: run_fields_ok_def SCHEMA_VERSION_def split: option.splits)
  have wire: "run_fields_ok (wire_run_result r)"
    using fields
    by (auto simp: run_fields_ok_def wire_run_result_def blocking_wire split: option.splits)
  have checks: "checks_from_dict (h (checks_value (rr_checks r))) = Inr (rr_checks r)"
    by (rule checks_round [OF parts(10)])
  have none: "checks_from_dict PNone = Inr None" by simp
  have schema: "rr_schema_id r = SCHEMA_ID"
    using fields by (simp add: run_fields_ok_def)
  from ver wire fields checks show ?thesis
    by (elim disjE)
      (auto simp: run_result_from_dict_def run_result_to_dict_def read_defs get_simps h_simps pd xd
        schema Let_def check_envelope_eval SCHEMA_VERSION_def checks_field_keys opt_field_keys
        fields_keys h_str_list identity_round parts scope_round gate_round findings_round
        measurements_round publication_round baseline_round none
        RunResult_init_iff wire_run_result_def image_Un raise_if_Inr wrap_value_error_Inr)
qed

end

section \<open>The codecs\<close>

text \<open>Handed over directly, and through JSON text.\<close>

interpretation finding_codec: wire_codec finding_to_dict finding_from_dict finding_ok wire_finding
  by unfold_locales (simp_all add: direct.finding_round finding_read_ok)

interpretation observation_codec:
  wire_codec observation_to_dict observation_from_dict observation_ok wire_observation
  by unfold_locales
    (simp_all add: direct.observation_round observation_read_ok wire_observation_write)

interpretation run_result_codec:
  wire_codec run_result_to_dict run_result_from_dict run_result_ok wire_run_result
  by unfold_locales
    (simp_all add: direct.run_result_round run_result_read_ok wire_run_result_write)

interpretation stored_result_codec:
  wire_codec "\<lambda>r. canon (run_result_to_dict r)" run_result_from_dict run_result_ok wire_run_result
  by unfold_locales
    (simp_all add: json.run_result_round run_result_read_ok wire_run_result_write)

interpretation stored_observation_codec:
  wire_codec "\<lambda>ob. canon (observation_to_dict ob)" observation_from_dict observation_ok wire_observation
  by unfold_locales
    (simp_all add: json.observation_round observation_read_ok wire_observation_write)

interpretation span_codec: codec span_to_dict span_from_dict span_ok
  by unfold_locales (simp_all add: direct.span_round span_read_ok)

interpretation measurement_codec: codec measurement_to_dict measurement_from_dict measurement_ok
  by unfold_locales (simp_all add: direct.measurement_round measurement_read_ok)

interpretation scope_codec: codec scope_to_dict scope_from_dict scope_ok
  by unfold_locales (simp_all add: direct.scope_round scope_read_ok)

interpretation gate_codec: codec gate_to_dict gate_from_dict gate_ok
  by unfold_locales (simp_all add: direct.gate_round gate_read_ok)

interpretation check_codec: codec check_to_dict check_from_dict check_record_ok
  by unfold_locales (simp_all add: direct.check_round check_read_ok)

end
