(* ===== verification/Events.thy ===== *)
theory Events
  imports Codec Findings
begin

text \<open>
  The event stream (src/src/ici/domain/events.py, src/src/ici/domain/eventstream.py): one progress
  record, its object form and its JSONL form.  A stream is read line by line; a line that is not
  JSON and an event of an unknown kind are skipped with a note, and a break of the sequence
  numbers is noted.  \<open>loads\<close> is the JSON reader.
\<close>

section \<open>Events\<close>

datatype event_type =
  RUN_STARTED | PLAN_READY | TASK_STARTED | TASK_PROGRESS | TASK_COMPLETED | DIAGNOSTIC
  | RUN_COMPLETED

fun event_type_value :: "event_type \<Rightarrow> string" where
  "event_type_value RUN_STARTED = ''run.started''"
| "event_type_value PLAN_READY = ''plan.ready''"
| "event_type_value TASK_STARTED = ''task.started''"
| "event_type_value TASK_PROGRESS = ''task.progress''"
| "event_type_value TASK_COMPLETED = ''task.completed''"
| "event_type_value DIAGNOSTIC = ''diagnostic''"
| "event_type_value RUN_COMPLETED = ''run.completed''"

abbreviation "event_types \<equiv> [RUN_STARTED, PLAN_READY, TASK_STARTED, TASK_PROGRESS,
  TASK_COMPLETED, DIAGNOSTIC, RUN_COMPLETED]"

interpretation event_type_enum: str_enum event_type_value event_types
proof
  fix a b :: event_type
  show "event_type_value a = event_type_value b \<Longrightarrow> a = b" by (cases a; cases b) auto
  show "e \<in> set event_types" for e by (cases e) auto
qed

record run_event =
  ev_run_id :: string
  ev_seq :: int
  ev_event_type :: event_type
  ev_timestamp :: string
  ev_task_id :: "string option"
  ev_component_id :: "string option"
  ev_message :: string
  ev_schema_id :: string
  ev_schema_version :: int

definition EVENT_SCHEMA_ID :: string where
  "EVENT_SCHEMA_ID = ''ici.next.event''"

definition EVENT_SCHEMA_VERSION :: int where
  "EVENT_SCHEMA_VERSION = 1"

definition MAX_PAYLOAD_CHARS :: nat where
  "MAX_PAYLOAD_CHARS = 4096"

definition task_scoped :: "event_type \<Rightarrow> bool" where
  "task_scoped t = (t \<in> {TASK_STARTED, TASK_PROGRESS, TASK_COMPLETED})"

definition RunEvent_init ::
    "pyval \<Rightarrow> pyval \<Rightarrow> event_type \<Rightarrow> pyval \<Rightarrow> pyval \<Rightarrow> pyval \<Rightarrow> pyval \<Rightarrow> string \<Rightarrow> int
     \<Rightarrow> run_event result" where
  "RunEvent_init run_id seq event_type timestamp task_id component_id message schema_id
       schema_version =
     bindr (require_text run_id ''event run id'') (\<lambda>ri.
     bindr (require_non_negative seq ''event seq'') (\<lambda>sq.
     bindr (require_text timestamp ''event timestamp'') (\<lambda>ts.
     bindr (optional_identifier task_id ''event task_id'') (\<lambda>ti.
     bindr (optional_identifier component_id ''event component_id'') (\<lambda>ci.
     bindr (string_field message (ValueError ''event message must be a string'' [])) (\<lambda>ms.
     raise_if (MAX_PAYLOAD_CHARS < py_len ms)
       (ValueError ''event message exceeds {} characters; bound tool output where it is produced, not in the event stream''
          [show_nat MAX_PAYLOAD_CHARS])
    (raise_if (schema_id \<noteq> EVENT_SCHEMA_ID)
       (ValueError ''event schema_id must be {!r}'' [EVENT_SCHEMA_ID])
    (raise_if (schema_version \<noteq> EVENT_SCHEMA_VERSION)
       (ValueError ''event schema_version must be {}'' [show_int EVENT_SCHEMA_VERSION])
    (raise_if (task_scoped event_type \<and> ti = None)
       (ValueError ''{} must name the task it is about'' [event_type_value event_type])
    (Inr \<lparr>ev_run_id = ri, ev_seq = sq, ev_event_type = event_type, ev_timestamp = ts,
          ev_task_id = ti, ev_component_id = ci, ev_message = ms, ev_schema_id = schema_id,
          ev_schema_version = schema_version\<rparr>))))))))))"

definition event_ok :: "run_event \<Rightarrow> bool" where
  "event_ok e =
     (text_ok (ev_run_id e) \<and> 0 \<le> ev_seq e \<and> text_ok (ev_timestamp e)
      \<and> opt_ok identifier_ok (ev_task_id e) \<and> opt_ok identifier_ok (ev_component_id e)
      \<and> py_len (ev_message e) \<le> MAX_PAYLOAD_CHARS \<and> ev_schema_id e = EVENT_SCHEMA_ID
      \<and> ev_schema_version e = EVENT_SCHEMA_VERSION
      \<and> (task_scoped (ev_event_type e) \<longrightarrow> ev_task_id e \<noteq> None))"

lemma RunEvent_init_iff:
  "RunEvent_init a b t c d f g sid ver = Inr e \<longleftrightarrow>
     event_ok e \<and> a = PStr (ev_run_id e) \<and> b = PInt (ev_seq e) \<and> t = ev_event_type e
     \<and> c = PStr (ev_timestamp e) \<and> d = opt_val PStr (ev_task_id e)
     \<and> f = opt_val PStr (ev_component_id e) \<and> g = PStr (ev_message e)
     \<and> sid = ev_schema_id e \<and> ver = ev_schema_version e"
  by (cases e) (auto simp: RunEvent_init_def event_ok_def result_iff)

section \<open>The object form\<close>

definition event_to_dict :: "run_event \<Rightarrow> pyval" where
  "event_to_dict e = PDict
     ([(''schema_id'', PStr (ev_schema_id e)), (''schema_version'', PInt (ev_schema_version e)),
       (''run_id'', PStr (ev_run_id e)), (''seq'', PInt (ev_seq e)),
       (''event_type'', PStr (event_type_value (ev_event_type e))),
       (''timestamp'', PStr (ev_timestamp e))]
      @ opt_field ''task_id'' PStr (ev_task_id e)
      @ opt_field ''component_id'' PStr (ev_component_id e)
      @ str_field ''message'' (ev_message e))"

text \<open>An unknown kind is \<open>None\<close>; a bad field or a wrong schema is a \<open>SchemaError\<close>.\<close>

definition event_from_dict :: "pyval \<Rightarrow> run_event option result" where
  "event_from_dict payload =
     bindr (require_mapping payload ''event'') (\<lambda>data.
     bindr (check_envelope data EVENT_SCHEMA_ID EVENT_SCHEMA_VERSION) (\<lambda>_.
     (case read_enum event_type_value event_types (py_get data ''event_type'') [] of
        Inl e \<Rightarrow> Inr None
      | Inr t \<Rightarrow>
          (case RunEvent_init (py_get data ''run_id'') (py_get data ''seq'') t
                  (py_get data ''timestamp'') (py_get data ''task_id'')
                  (py_get data ''component_id'') (py_get_default data ''message'' (PStr []))
                  EVENT_SCHEMA_ID EVENT_SCHEMA_VERSION of
             Inl e \<Rightarrow> Inl (SchemaError ''event is not valid: {}'' [])
           | Inr e \<Rightarrow> Inr (Some e)))))"

lemma event_round: "event_ok e \<Longrightarrow> event_from_dict (event_to_dict e) = Inr (Some e)"
proof -
  assume ok: "event_ok e"
  then have "ev_schema_id e = EVENT_SCHEMA_ID" "ev_schema_version e = EVENT_SCHEMA_VERSION"
    by (simp_all add: event_ok_def)
  moreover from this ok have "RunEvent_init (PStr (ev_run_id e)) (PInt (ev_seq e)) (ev_event_type e)
      (PStr (ev_timestamp e)) (opt_val PStr (ev_task_id e)) (opt_val PStr (ev_component_id e))
      (PStr (ev_message e)) EVENT_SCHEMA_ID EVENT_SCHEMA_VERSION = Inr e"
    by (simp add: RunEvent_init_iff)
  ultimately show ?thesis
    by (simp add: event_from_dict_def event_to_dict_def py_get_def get_simps check_envelope_eval
        event_type_enum.read_value)
qed

lemma event_read_ok: "event_from_dict v = Inr (Some e) \<Longrightarrow> event_ok e"
  by (clarsimp simp: event_from_dict_def result_iff)
    (auto simp: RunEvent_init_iff split: sum.split_asm)

lemma event_read_error: "event_from_dict v = Inl x \<Longrightarrow> is_schema_error x"
  by (auto simp: event_from_dict_def bindr_Inl dest: require_mapping_error check_envelope_error)
    (auto split: sum.split_asm)

section \<open>The JSONL form\<close>

definition newline :: string where
  "newline = [CHR 0x0A]"

definition events_to_jsonl :: "(rat \<Rightarrow> string) \<Rightarrow> run_event list \<Rightarrow> string result" where
  "events_to_jsonl float_repr events =
     bindr (mapr (\<lambda>e. bindr (dumps float_repr (event_to_dict e)) (\<lambda>line. Inr (line @ newline))) events)
       (\<lambda>lines. Inr (concat lines))"

text \<open>
  \<open>str.splitlines\<close>: the length of the line break a string starts with, in UTF-8 bytes, and the
  lines, the last one without a break included when it is not empty.
\<close>

definition line_breaks :: "string list" where
  "line_breaks =
     [[CHR 0x0D, CHR 0x0A], [CHR 0x0A], [CHR 0x0B], [CHR 0x0C], [CHR 0x0D], [CHR 0x1C], [CHR 0x1D],
      [CHR 0x1E], [CHR 0xC2, CHR 0x85], [CHR 0xE2, CHR 0x80, CHR 0xA8], [CHR 0xE2, CHR 0x80, CHR 0xA9]]"

definition break_length :: "string \<Rightarrow> nat" where
  "break_length s = (case List.find (startswith s) line_breaks of None \<Rightarrow> 0 | Some b \<Rightarrow> length b)"

function lines_from :: "string \<Rightarrow> string \<Rightarrow> string list" where
  "lines_from cur [] = (if cur = [] then [] else [cur])"
| "lines_from cur (c # cs) =
     (if break_length (c # cs) = 0 then lines_from (cur @ [c]) cs
      else cur # lines_from [] (drop (break_length (c # cs) - 1) cs))"
  by pat_completeness auto
termination by (relation "measure (\<lambda>(cur, s). length s)") auto

definition splitlines :: "string \<Rightarrow> string list" where
  "splitlines s = lines_from [] s"

definition seq_note :: "int option \<Rightarrow> int \<Rightarrow> nat \<Rightarrow> string option" where
  "seq_note previous current line_number =
     (case previous of
        None \<Rightarrow> None
      | Some p \<Rightarrow>
          if current = p + 1 then None
          else if current = p
          then Some (''line '' @ show_nat line_number @ '': duplicate seq '' @ show_int current)
          else Some (''line '' @ show_nat line_number @ '': seq jumped from '' @ show_int p
                     @ '' to '' @ show_int current))"

text \<open>The loop of the reader over the numbered lines; \<open>prev\<close> is \<open>last_seq\<close>.\<close>

fun read_lines ::
    "(string \<Rightarrow> pyval result) \<Rightarrow> int option \<Rightarrow> nat \<Rightarrow> string list
     \<Rightarrow> (run_event list \<times> string list) result" where
  "read_lines loads prev number [] = Inr ([], [])"
| "read_lines loads prev number (line # rest) =
     (if strip line = [] then read_lines loads prev (number + 1) rest
      else
        (case loads line of
           Inl e \<Rightarrow>
             bindr (read_lines loads prev (number + 1) rest) (\<lambda>(es, ns).
             Inr (es, (''line '' @ show_nat number @ '': not valid JSON (truncated stream?)'') # ns))
         | Inr payload \<Rightarrow>
             bindr (event_from_dict payload) (\<lambda>event.
             (case event of
                None \<Rightarrow>
                  bindr (read_lines loads prev (number + 1) rest) (\<lambda>(es, ns).
                  Inr (es, (''line '' @ show_nat number @ '': unknown event_type, ignored'') # ns))
              | Some e \<Rightarrow>
                  bindr (read_lines loads (Some (ev_seq e)) (number + 1) rest) (\<lambda>(es, ns).
                  Inr (e # es,
                       (case seq_note prev (ev_seq e) number of None \<Rightarrow> ns | Some n \<Rightarrow> n # ns)))))))"

definition events_from_jsonl ::
    "(string \<Rightarrow> pyval result) \<Rightarrow> string \<Rightarrow> (run_event list \<times> string list) result" where
  "events_from_jsonl loads text = read_lines loads None 1 (splitlines text)"

section \<open>What a reader learns\<close>

text \<open>The sequence numbers continue from the previous one.\<close>

fun consecutive :: "int option \<Rightarrow> int list \<Rightarrow> bool" where
  "consecutive prev [] = True"
| "consecutive prev (s # ss) =
     ((case prev of None \<Rightarrow> True | Some p \<Rightarrow> s = p + 1) \<and> consecutive (Some s) ss)"

lemma seq_note_None: "seq_note prev s n = None \<longleftrightarrow> (case prev of None \<Rightarrow> True | Some p \<Rightarrow> s = p + 1)"
  by (auto simp: seq_note_def split: option.splits)

lemma read_lines_clean:
  "read_lines loads prev n ls = Inr (es, []) \<Longrightarrow> consecutive prev (map ev_seq es)"
proof (induction ls arbitrary: prev n es)
  case (Cons line rest)
  from Cons.prems show ?case
    by (auto simp: bindr_Inr split: if_split_asm sum.split_asm intro: Cons.IH)
      (auto simp: bindr_Inr seq_note_None intro: Cons.IH split: option.split_asm)
qed simp

lemma read_lines_ok: "read_lines loads prev n ls = Inr (es, ns) \<Longrightarrow> list_all event_ok es"
proof (induction ls arbitrary: prev n es ns)
  case (Cons line rest)
  from Cons.prems show ?case
    by (auto simp: bindr_Inr split: if_split_asm sum.split_asm intro: Cons.IH)
      (force simp: bindr_Inr dest: Cons.IH event_read_ok split: option.split_asm)+
qed simp

lemma read_lines_error: "read_lines loads prev n ls = Inl x \<Longrightarrow> is_schema_error x"
proof (induction ls arbitrary: prev n)
  case (Cons line rest)
  from Cons.prems show ?case
    by (auto simp: bindr_Inl split: if_split_asm sum.split_asm intro: Cons.IH event_read_error)
      (auto simp: bindr_Inl intro: Cons.IH split: option.split_asm)
qed simp

lemma consecutive_range:
  "consecutive prev ss \<Longrightarrow> i < length ss \<Longrightarrow> ss ! i = hd ss + int i"
proof (induction ss arbitrary: prev i)
  case (Cons s ss)
  show ?case
  proof (cases i)
    case (Suc j)
    with Cons.prems have c: "consecutive (Some s) ss" and j: "j < length ss" by auto
    then have "hd ss = s + 1" by (cases ss) auto
    with Cons.IH [OF c j] Suc show ?thesis by simp
  qed simp
qed simp

end
