(* ===== verification/Tasks.thy ===== *)
theory Tasks
  imports Results
begin

text \<open>
  One execution of one provider, described before it runs (src/src/ici/domain/tasks.py): the task
  specification with its constructor, and the key under which two tasks share one execution.
\<close>

record task_spec =
  ts_id :: string
  ts_kind :: task_kind
  ts_provider :: string
  ts_argv :: "string list"
  ts_cwd :: string
  ts_analysis_unit_ids :: "string list"
  ts_env_overlay :: "(string \<times> string) list"
  ts_input_refs :: "string list"
  ts_output_specs :: "string list"
  ts_depends_on :: "string list"
  ts_resource_keys :: "string list"
  ts_work_dirs :: "string list"
  ts_requires :: "string list"
  ts_timeout_seconds :: "pyfloat option"
  ts_output_limit_bytes :: "int option"
  ts_tool_digest :: "string option"
  ts_cacheable :: bool
  ts_variant :: "string option"

text \<open>\<open>TaskSpec.mutating\<close>: only a prepare task writes outside the run directory.\<close>

definition kind_mutating :: "task_kind \<Rightarrow> bool" where
  "kind_mutating k = (k = PREPARE)"

definition mutating :: "task_spec \<Rightarrow> bool" where
  "mutating t = kind_mutating (ts_kind t)"

text \<open>The checks of \<open>__post_init__\<close> that are shared by several fields.\<close>

definition timeout_field :: "pyval \<Rightarrow> pyfloat option result" where
  "timeout_field v =
     (if v = PNone then Inr None
      else bindr (require_positive v ''task timeout'') (\<lambda>x. Inr (Some x)))"

definition limit_field :: "pyval \<Rightarrow> int option result" where
  "limit_field v =
     (if v = PNone then Inr None
      else bindr (require_non_negative v ''task output limit'') (\<lambda>x. Inr (Some x)))"

definition TaskSpec_init ::
    "pyval \<Rightarrow> task_kind \<Rightarrow> pyval \<Rightarrow> pyval \<Rightarrow> pyval \<Rightarrow> pyval \<Rightarrow> pyval \<Rightarrow> pyval \<Rightarrow> pyval \<Rightarrow> pyval
     \<Rightarrow> pyval \<Rightarrow> pyval \<Rightarrow> pyval \<Rightarrow> pyval \<Rightarrow> pyval \<Rightarrow> pyval \<Rightarrow> pyval \<Rightarrow> pyval
     \<Rightarrow> task_spec result" where
  "TaskSpec_init id0 kind provider argv cwd analysis_unit_ids env_overlay input_refs output_specs
       depends_on resource_keys work_dirs requires timeout_seconds output_limit_bytes
       tool_digest cacheable variant =
     bindr (require_identifier id0 ''task id'') (\<lambda>i.
     bindr (require_identifier provider ''task provider'') (\<lambda>pr.
     bindr (text_tuple argv ''task argv entry'' ''task argv'') (\<lambda>av.
     raise_if (av = []) (ValueError ''task {} must declare a non-empty argv'' [i])
    (bindr (require_text cwd ''task cwd'') (\<lambda>cw.
     bindr (unique_identifier_tuple analysis_unit_ids ''task analysis unit id''
              ''task analysis units'') (\<lambda>au.
     bindr (require_env_overlay env_overlay ''task env overlay'') (\<lambda>eo.
     bindr (text_tuple input_refs ''task input_refs entry'' ''task input_refs'') (\<lambda>ir.
     bindr (text_tuple output_specs ''task output_specs entry'' ''task output_specs'') (\<lambda>os.
     bindr (text_tuple resource_keys ''task resource_keys entry'' ''task resource_keys'') (\<lambda>rk.
     bindr (text_tuple requires ''task requires entry'' ''task requires'') (\<lambda>rq.
     bindr (text_tuple work_dirs ''task work_dirs entry'' ''task work_dirs'') (\<lambda>wd.
     bindr (unique_identifier_tuple depends_on ''task dependency'' ''task dependencies'') (\<lambda>dp.
     raise_if (i \<in> set dp) (ValueError ''task {} cannot depend on itself'' [i])
    (bindr (timeout_field timeout_seconds) (\<lambda>tm.
     bindr (limit_field output_limit_bytes) (\<lambda>li.
     bindr (optional_digest tool_digest ''task tool digest'') (\<lambda>td.
     bindr (optional_identifier variant ''task variant'') (\<lambda>va.
     bindr (bool_field cacheable (ValueError ''task cacheable must be a boolean'' [])) (\<lambda>ca.
     raise_if (kind_mutating kind \<and> ca)
       (ValueError ''task {} prepares a build directory and must not be marked cacheable'' [i])
    (Inr \<lparr>ts_id = i, ts_kind = kind, ts_provider = pr, ts_argv = av, ts_cwd = cw,
          ts_analysis_unit_ids = au, ts_env_overlay = eo, ts_input_refs = ir,
          ts_output_specs = os, ts_depends_on = dp, ts_resource_keys = rk, ts_work_dirs = wd,
          ts_requires = rq, ts_timeout_seconds = tm, ts_output_limit_bytes = li,
          ts_tool_digest = td, ts_cacheable = ca, ts_variant = va\<rparr>))))))))))))))))))))"

definition env_ok :: "(string \<times> string) list \<Rightarrow> bool" where
  "env_ok ps = (sorted ps \<and> distinct (map fst ps) \<and> (\<forall>(n, s) \<in> set ps. text_ok n))"

definition timeout_ok :: "pyfloat \<Rightarrow> bool" where
  "timeout_ok f = (case f of Fin q \<Rightarrow> 0 < q | _ \<Rightarrow> False)"

definition task_ok :: "task_spec \<Rightarrow> bool" where
  "task_ok t =
     (identifier_ok (ts_id t) \<and> identifier_ok (ts_provider t)
      \<and> ts_argv t \<noteq> [] \<and> list_all text_ok (ts_argv t) \<and> text_ok (ts_cwd t)
      \<and> unique_ids (ts_analysis_unit_ids t) \<and> env_ok (ts_env_overlay t)
      \<and> list_all text_ok (ts_input_refs t) \<and> list_all text_ok (ts_output_specs t)
      \<and> list_all text_ok (ts_resource_keys t) \<and> list_all text_ok (ts_requires t)
      \<and> list_all text_ok (ts_work_dirs t) \<and> unique_ids (ts_depends_on t)
      \<and> ts_id t \<notin> set (ts_depends_on t) \<and> opt_ok timeout_ok (ts_timeout_seconds t)
      \<and> opt_ok (\<lambda>n. 0 \<le> n) (ts_output_limit_bytes t) \<and> opt_ok digest_ok (ts_tool_digest t)
      \<and> opt_ok identifier_ok (ts_variant t) \<and> \<not> (mutating t \<and> ts_cacheable t))"

lemma timeout_field_ok: "timeout_field v = Inr x \<Longrightarrow> opt_ok timeout_ok x"
  by (auto simp: timeout_field_def result_iff timeout_ok_def split: if_splits)

lemma limit_field_ok: "limit_field v = Inr x \<Longrightarrow> opt_ok (\<lambda>n. 0 \<le> n) x"
  by (auto simp: limit_field_def result_iff split: if_splits)

lemma env_overlay_ok: "require_env_overlay v d = Inr ps \<Longrightarrow> env_ok ps"
  by (simp add: env_ok_def require_env_overlay_ok)

lemma TaskSpec_init_ok:
  assumes "TaskSpec_init a k b c d e f g h i j l m n p q r s = Inr t"
  shows "task_ok t" "ts_kind t = k"
  using assms
  by (auto simp: TaskSpec_init_def task_ok_def mutating_def result_iff
      dest: env_overlay_ok timeout_field_ok limit_field_ok)

text \<open>\<open>replace(task, \<dots>)\<close>: the constructor on the fields of the changed record.\<close>

definition TaskSpec_replace :: "task_spec \<Rightarrow> task_spec result" where
  "TaskSpec_replace t =
     TaskSpec_init (PStr (ts_id t)) (ts_kind t) (PStr (ts_provider t)) (strs (ts_argv t))
       (PStr (ts_cwd t)) (strs (ts_analysis_unit_ids t))
       (PTuple (map (\<lambda>(n, s). PTuple [PStr n, PStr s]) (ts_env_overlay t)))
       (strs (ts_input_refs t)) (strs (ts_output_specs t)) (strs (ts_depends_on t))
       (strs (ts_resource_keys t)) (strs (ts_work_dirs t)) (strs (ts_requires t))
       (opt_val PFloat (ts_timeout_seconds t)) (opt_val PInt (ts_output_limit_bytes t))
       (opt_val PStr (ts_tool_digest t)) (PBool (ts_cacheable t)) (opt_val PStr (ts_variant t))"

lemma timeout_field_eval: "opt_ok timeout_ok x \<Longrightarrow> timeout_field (opt_val PFloat x) = Inr x"
  by (cases x) (auto simp: timeout_field_def timeout_ok_def result_eval split: pyfloat.splits)

lemma limit_field_eval: "opt_ok (\<lambda>n. 0 \<le> n) x \<Longrightarrow> limit_field (opt_val PInt x) = Inr x"
  by (cases x) (auto simp: limit_field_def result_eval)

lemma unique_tuple_eval [result_eval]:
  "unique_ids ids \<Longrightarrow> unique_identifier_tuple (strs ids) e a = Inr ids"
  by (simp add: unique_identifier_tuple_iff)

lemma optional_digest_eval [result_eval]:
  "opt_ok digest_ok n \<Longrightarrow> optional_digest (opt_val PStr n) d = Inr n"
  by (simp add: optional_digest_iff)

lemma env_overlay_eval:
  "env_ok ps \<Longrightarrow> require_env_overlay (PTuple (map (\<lambda>(n, s). PTuple [PStr n, PStr s]) ps)) d = Inr ps"
  unfolding env_ok_def by (elim conjE) (rule require_env_overlay_idem)

text \<open>Constructing again from the fields of a constructed task changes nothing.\<close>

lemma TaskSpec_replace_ok: "task_ok t \<Longrightarrow> TaskSpec_replace t = Inr t"
  by (cases t)
    (simp add: TaskSpec_replace_def TaskSpec_init_def task_ok_def mutating_def result_eval
      timeout_field_eval limit_field_eval env_overlay_eval raise_if_def)

section \<open>Sharing\<close>

text \<open>\<open>TaskSpec.share_key\<close>: two tasks with equal keys are one execution.\<close>

type_synonym share_key =
  "string \<times> string \<times> string list \<times> string \<times> (string \<times> string) list \<times> string list
   \<times> string option \<times> string list"

definition share_key :: "task_spec \<Rightarrow> share_key" where
  "share_key t =
     (ts_provider t, task_kind_value (ts_kind t), ts_argv t, ts_cwd t, ts_env_overlay t,
      ts_input_refs t, ts_tool_digest t, ts_requires t)"

lemma task_kind_value_inj: "task_kind_value a = task_kind_value b \<Longrightarrow> a = b"
  by (cases a; cases b) auto

text \<open>Two tasks that share are the same command: same kind, so both or neither mutate.\<close>

lemma share_key_same:
  assumes "share_key a = share_key b"
  shows "ts_argv a = ts_argv b" "ts_cwd a = ts_cwd b" "ts_env_overlay a = ts_env_overlay b"
    "ts_tool_digest a = ts_tool_digest b" "mutating a = mutating b"
  using assms by (auto simp: share_key_def mutating_def dest: task_kind_value_inj)

end
