(* ===== verification/Cycles.thy ===== *)
theory Cycles
  imports Prelude
begin

text \<open>
  The depth-first search for a dependency cycle (\<open>_component_cycle\<close> of
  src/src/ici/domain/workspace.py), with its two lists of state: the nodes being visited, in the
  order they were entered, and the settled ones.  A reported cycle is one, and no report means
  the relation is acyclic.
\<close>

section \<open>The search\<close>

type_synonym adjacency = "(string \<times> string list) list"

text \<open>
  The inner function \<open>visit\<close>: \<open>Inl c\<close> is a found cycle, \<open>Inr settled\<close> the settled nodes
  after the visit.  \<open>visit_each\<close> is its loop over the edges of a node.  The edges were
  restricted to known ids, so \<open>edges[node]\<close> never misses; the third branch only keeps the
  function total.
\<close>

function visit :: "adjacency \<Rightarrow> string list \<Rightarrow> string set \<Rightarrow> string \<Rightarrow> string list + string set"
  and visit_each :: "adjacency \<Rightarrow> string list \<Rightarrow> string set \<Rightarrow> string list \<Rightarrow> string list + string set"
  where
  "visit edges visiting settled node =
     (if node \<in> settled then Inr settled
      else if node \<in> set visiting then Inl (dropWhile (\<lambda>n. n \<noteq> node) visiting)
      else if node \<notin> fst ` set edges then Inr settled
      else bindr (visit_each edges (visiting @ [node]) settled (dict_values edges node)) (\<lambda>done.
        Inr (insert node done)))"
| "visit_each edges visiting settled [] = Inr settled"
| "visit_each edges visiting settled (follow # rest) =
     bindr (visit edges visiting settled follow) (\<lambda>done. visit_each edges visiting done rest)"
  by pat_completeness auto
termination
proof (relation "measures
    [\<lambda>x. case x of Inl (e, v, s, n) \<Rightarrow> card (fst ` set e - set v)
                 | Inr (e, v, s, fs) \<Rightarrow> card (fst ` set e - set v),
     \<lambda>x. case x of Inl (e, v, s, n) \<Rightarrow> 0 | Inr (e, v, s, fs) \<Rightarrow> Suc (length fs)]", goal_cases)
  case (2 edges visiting settled node)
  then have "fst ` set edges - set (visiting @ [node]) \<subset> fst ` set edges - set visiting" by auto
  then have "card (fst ` set edges - set (visiting @ [node])) < card (fst ` set edges - set visiting)"
    by (intro psubset_card_mono) auto
  then show ?case by simp
qed auto

text \<open>The outer loop: start a visit from every node in turn.\<close>

definition find_cycle :: "adjacency \<Rightarrow> string list" where
  "find_cycle edges =
     (case visit_each edges [] {} (map fst edges) of Inl c \<Rightarrow> c | Inr settled \<Rightarrow> [])"

declare visit.simps [simp del] visit_each.simps [simp del]
lemmas visit_simps = visit.simps visit_each.simps

section \<open>What it decides\<close>

definition edge_rel :: "adjacency \<Rightarrow> (string \<times> string) set" where
  "edge_rel edges = {(a, b). a \<in> fst ` set edges \<and> b \<in> set (dict_values edges a)}"

text \<open>Every entry is a node: the edges were restricted to known ids.\<close>

definition edges_closed :: "adjacency \<Rightarrow> bool" where
  "edges_closed edges =
     list_all (\<lambda>(n, fs). list_all (\<lambda>f. f \<in> fst ` set edges) fs) edges"

text \<open>A path through consecutive nodes, and a closed one.\<close>

fun path_in :: "('a \<times> 'a) set \<Rightarrow> 'a list \<Rightarrow> bool" where
  "path_in r [] = True"
| "path_in r [x] = True"
| "path_in r (x # y # zs) = ((x, y) \<in> r \<and> path_in r (y # zs))"

definition cycle_in :: "('a \<times> 'a) set \<Rightarrow> 'a list \<Rightarrow> bool" where
  "cycle_in r c = (c \<noteq> [] \<and> path_in r c \<and> (last c, hd c) \<in> r)"

lemma path_in_append:
  "path_in r (xs @ ys) \<longleftrightarrow>
     path_in r xs \<and> path_in r ys \<and> (xs \<noteq> [] \<longrightarrow> ys \<noteq> [] \<longrightarrow> (last xs, hd ys) \<in> r)"
proof (induction r xs rule: path_in.induct)
  case (2 r x)
  show ?case by (cases ys) auto
qed auto

lemma path_in_dropWhile: "path_in r xs \<Longrightarrow> path_in r (dropWhile P xs)"
  by (metis path_in_append takeWhile_dropWhile_id)

lemma path_in_trancl: "path_in r (x # xs) \<Longrightarrow> xs \<noteq> [] \<Longrightarrow> (x, last xs) \<in> r\<^sup>+"
proof (induction xs arbitrary: x)
  case (Cons y ys)
  show ?case
  proof (cases "ys = []")
    case True
    with Cons.prems show ?thesis by auto
  next
    case False
    with Cons have "(y, last ys) \<in> r\<^sup>+" "(x, y) \<in> r" by auto
    with False show ?thesis by (simp add: trancl_into_trancl2)
  qed
qed simp

lemma cycle_in_trancl: "cycle_in r c \<Longrightarrow> (hd c, hd c) \<in> r\<^sup>+"
proof (cases c)
  case (Cons x xs)
  assume "cycle_in r c"
  with Cons show ?thesis
    by (cases "xs = []") (auto simp: cycle_in_def dest: path_in_trancl intro: trancl_into_trancl)
qed (simp add: cycle_in_def)

lemma cycle_not_acyclic: "cycle_in r c \<Longrightarrow> \<not> acyclic r"
  using cycle_in_trancl by (metis acyclic_def)

subsection \<open>A report is a cycle\<close>

text \<open>
  The visited nodes form a path; a node met again closes it.  The statement follows the two
  mutually recursive functions.
\<close>

lemma visit_sound:
  "visit edges visiting settled node = Inl c \<Longrightarrow>
     path_in (edge_rel edges) visiting \<Longrightarrow>
     (visiting \<noteq> [] \<longrightarrow> (last visiting, node) \<in> edge_rel edges) \<Longrightarrow> cycle_in (edge_rel edges) c"
  "visit_each edges visiting settled fs = Inl c \<Longrightarrow>
     path_in (edge_rel edges) visiting \<Longrightarrow>
     (visiting \<noteq> [] \<longrightarrow> (\<forall>f \<in> set fs. (last visiting, f) \<in> edge_rel edges)) \<Longrightarrow>
     cycle_in (edge_rel edges) c"
proof (induction edges visiting settled node and edges visiting settled fs
    arbitrary: c and c rule: visit_visit_each.induct)
  case (1 edges visiting settled node)
  show ?case
  proof (cases "node \<in> set visiting")
    case True
    with 1 have c: "c = dropWhile (\<lambda>n. n \<noteq> node) visiting"
      by (auto simp: visit.simps split: if_splits)
    from True have ne: "c \<noteq> []" and hd: "hd c = node"
      unfolding c using hd_dropWhile [of "\<lambda>n. n \<noteq> node" visiting] by auto
    have "last c = last visiting"
      using ne unfolding c by (metis last_appendR takeWhile_dropWhile_id)
    moreover from True have "visiting \<noteq> []" by auto
    ultimately show ?thesis
      using 1 ne hd by (simp add: cycle_in_def c path_in_dropWhile)
  next
    case False
    with 1 show ?thesis
      by (auto simp: visit.simps [of _ _ _ node] bindr_Inl path_in_append edge_rel_def split: if_splits)
  qed
next
  case (3 edges visiting settled follow rest)
  then show ?case by (auto simp: visit_each.simps bindr_Inl)
qed (simp add: visit_each.simps)

subsection \<open>No report means acyclic\<close>

text \<open>
  The settled nodes stay closed under the edges and free of cycles, and disjoint from the nodes
  being visited.
\<close>

definition settled_ok :: "adjacency \<Rightarrow> string set \<Rightarrow> bool" where
  "settled_ok edges s =
     (edge_rel edges `` s \<subseteq> s \<and> acyclic (edge_rel edges \<inter> s \<times> s))"

lemma settled_insert:
  assumes ok: "settled_ok edges s" and n: "n \<notin> s" and succ: "edge_rel edges `` {n} \<subseteq> s"
  shows "settled_ok edges (insert n s)"
proof -
  let ?E = "edge_rel edges"
  let ?r = "?E \<inter> s \<times> s" and ?r' = "?E \<inter> insert n s \<times> insert n s"
  have closed: "?E `` s \<subseteq> s" and acyc: "acyclic ?r"
    using ok by (auto simp: settled_ok_def)
  have "(a, b) \<in> ?r'\<^sup>+ \<Longrightarrow> b \<in> s \<and> (a \<in> s \<longrightarrow> (a, b) \<in> ?r\<^sup>+)" for a b
  proof (induction rule: trancl_induct)
    case (base y)
    then show ?case using closed succ by blast
  next
    case (step y z)
    then have "y \<in> s" "(y, z) \<in> ?E" by auto
    with closed have "z \<in> s" "(y, z) \<in> ?r" by auto
    with step show ?case by (auto intro: trancl_into_trancl)
  qed
  then have "acyclic ?r'"
    using acyc n unfolding acyclic_def by blast
  moreover have "?E `` insert n s \<subseteq> insert n s" using closed succ by blast
  ultimately show ?thesis by (simp add: settled_ok_def)
qed

lemma edges_closed_values:
  assumes "edges_closed edges" "f \<in> set (dict_values edges n)"
  shows "f \<in> fst ` set edges"
proof -
  from assms(2) obtain fs where "map_of edges n = Some fs" and f: "f \<in> set fs"
    by (cases "map_of edges n") (auto simp: dict_values_def)
  then have "(n, fs) \<in> set edges" by (simp add: map_of_SomeD)
  with assms(1) f show ?thesis unfolding edges_closed_def list_all_iff by blast
qed

lemma visit_complete:
  "visit edges visiting settled node = Inr done \<Longrightarrow> node \<in> fst ` set edges \<Longrightarrow>
     edges_closed edges \<Longrightarrow> settled_ok edges settled \<Longrightarrow> settled \<inter> set visiting = {} \<Longrightarrow>
     settled_ok edges done \<and> settled \<subseteq> done \<and> node \<in> done \<and> done \<inter> set visiting = {}"
  "visit_each edges visiting settled fs = Inr done \<Longrightarrow> set fs \<subseteq> fst ` set edges \<Longrightarrow>
     edges_closed edges \<Longrightarrow> settled_ok edges settled \<Longrightarrow> settled \<inter> set visiting = {} \<Longrightarrow>
     settled_ok edges done \<and> settled \<subseteq> done \<and> set fs \<subseteq> done \<and> done \<inter> set visiting = {}"
proof (induction edges visiting settled node and edges visiting settled fs
    arbitrary: "done" and "done" rule: visit_visit_each.induct)
  case (1 edges visiting settled node)
  show ?case
  proof (cases "node \<in> settled")
    case True
    with 1 show ?thesis by (auto simp: visit.simps)
  next
    case False
    with "1.prems" have nv: "node \<notin> set visiting" by (auto simp: visit.simps split: if_splits)
    from False nv "1.prems" obtain inner where
      each: "visit_each edges (visiting @ [node]) settled (dict_values edges node) = Inr inner"
      and d: "done = insert node inner"
      by (auto simp: visit.simps [of _ _ _ node] bindr_Inr)
    have sub: "set (dict_values edges node) \<subseteq> fst ` set edges"
      using edges_closed_values [OF "1.prems"(3)] by blast
    have "settled \<inter> set (visiting @ [node]) = {}" using False "1.prems"(5) by auto
    from "1.IH" [OF False nv _ each sub "1.prems"(3,4) this] "1.prems"(2)
    have ih: "settled_ok edges inner" "settled \<subseteq> inner" "set (dict_values edges node) \<subseteq> inner"
      "inner \<inter> set (visiting @ [node]) = {}" by auto
    moreover have "edge_rel edges `` {node} \<subseteq> inner" using ih(3) by (auto simp: edge_rel_def)
    ultimately have "settled_ok edges (insert node inner)" by (intro settled_insert) auto
    with ih d nv show ?thesis by auto
  qed
next
  case (3 edges visiting settled follow rest)
  then obtain mid where mid: "visit edges visiting settled follow = Inr mid"
    and rest: "visit_each edges visiting mid rest = Inr done"
    by (auto simp: visit_each.simps bindr_Inr)
  from "3.IH"(1) [OF mid] "3.prems"
  have m: "settled_ok edges mid" "settled \<subseteq> mid" "follow \<in> mid" "mid \<inter> set visiting = {}" by auto
  from "3.IH"(2) [OF mid rest _ _ m(1,4)] "3.prems" m show ?case by auto
qed (simp add: visit_each.simps)

theorem find_cycle_report: "find_cycle edges \<noteq> [] \<Longrightarrow> cycle_in (edge_rel edges) (find_cycle edges)"
  by (auto simp: find_cycle_def split: sum.splits intro: visit_sound(2))

theorem find_cycle_none:
  assumes "find_cycle edges = []" "edges_closed edges"
  shows "acyclic (edge_rel edges)"
proof (cases "visit_each edges [] {} (map fst edges)")
  case (Inl c)
  then have "cycle_in (edge_rel edges) c" by (auto intro: visit_sound(2))
  with Inl assms show ?thesis by (simp add: find_cycle_def cycle_in_def)
next
  case (Inr s)
  have "settled_ok edges {}" by (simp add: settled_ok_def acyclic_def)
  with visit_complete(2) [OF Inr] assms(2)
  have "settled_ok edges s" "fst ` set edges \<subseteq> s" by auto
  moreover have "edge_rel edges \<subseteq> s \<times> s"
    using calculation by (auto simp: edge_rel_def settled_ok_def)
  ultimately show ?thesis by (simp add: settled_ok_def inf_absorb1)
qed

lemma find_cycle_iff:
  "edges_closed edges \<Longrightarrow> find_cycle edges = [] \<longleftrightarrow> acyclic (edge_rel edges)"
  using find_cycle_none find_cycle_report cycle_not_acyclic by blast

end
