(* ===== verification/Workspaces.thy ===== *)
theory Workspaces
  imports Results Cycles
begin

text \<open>
  Workspace, component, build unit and analysis unit (src/src/ici/domain/workspace.py).  The
  constructor of a workspace checks every cross reference and refuses a dependency cycle; a
  scoped workspace is the view of a run that selected some components.
\<close>

section \<open>Build units\<close>

record build_unit =
  bu_id :: string
  bu_system :: string
  bu_variant :: string
  bu_directory :: string
  bu_definition :: "string option"
  bu_prepare_argv :: "string list"
  bu_artifacts :: "string list"

definition optional_path :: "pyval \<Rightarrow> string \<Rightarrow> string option result" where
  "optional_path value description =
     (if value = PNone then Inr None
      else bindr (require_relative_path value description False) (\<lambda>s. Inr (Some s)))"

lemma optional_path_iff [result_iff]:
  "optional_path v d = Inr n \<longleftrightarrow> v = opt_val PStr n \<and> opt_ok (path_ok False) n"
  by (cases n) (auto simp: optional_path_def result_iff)

text \<open>Artifact globs: each item and the collection carry descriptions of their own.\<close>

definition path_tuple :: "pyval \<Rightarrow> string \<Rightarrow> string \<Rightarrow> string list result" where
  "path_tuple values each all =
     bindr (require_tuple values is_str all) (mapr (\<lambda>item. require_relative_path item each False))"

lemma path_tuple_iff [result_iff]:
  "path_tuple v e a = Inr ss \<longleftrightarrow> str_items v ss \<and> list_all (path_ok False) ss"
  by (auto simp: path_tuple_def result_iff str_items_def)

definition BuildUnit_init ::
    "pyval \<Rightarrow> pyval \<Rightarrow> pyval \<Rightarrow> pyval \<Rightarrow> pyval \<Rightarrow> pyval \<Rightarrow> pyval \<Rightarrow> build_unit result" where
  "BuildUnit_init id0 system variant directory def_path prepare_argv artifacts =
     bindr (require_identifier id0 ''build unit id'') (\<lambda>i.
     bindr (require_identifier system ''build system'') (\<lambda>sy.
     bindr (require_identifier variant ''build variant'') (\<lambda>va.
     bindr (require_relative_path directory ''build directory'' False) (\<lambda>di.
     bindr (optional_path def_path ''build definition'') (\<lambda>de.
     bindr (text_tuple prepare_argv ''prepare argv entry'' ''prepare argv'') (\<lambda>pa.
     bindr (path_tuple artifacts ''artifact glob'' ''artifact globs'') (\<lambda>ar.
     Inr \<lparr>bu_id = i, bu_system = sy, bu_variant = va, bu_directory = di, bu_definition = de,
          bu_prepare_argv = pa, bu_artifacts = ar\<rparr>)))))))"

definition build_ok :: "build_unit \<Rightarrow> bool" where
  "build_ok b =
     (identifier_ok (bu_id b) \<and> identifier_ok (bu_system b) \<and> identifier_ok (bu_variant b)
      \<and> path_ok False (bu_directory b) \<and> opt_ok (path_ok False) (bu_definition b)
      \<and> list_all text_ok (bu_prepare_argv b) \<and> list_all (path_ok False) (bu_artifacts b))"

lemma BuildUnit_init_iff:
  "BuildUnit_init a b c d e f g = Inr u \<longleftrightarrow>
     build_ok u \<and> a = PStr (bu_id u) \<and> b = PStr (bu_system u) \<and> c = PStr (bu_variant u)
     \<and> d = PStr (bu_directory u) \<and> e = opt_val PStr (bu_definition u)
     \<and> str_items f (bu_prepare_argv u) \<and> str_items g (bu_artifacts u)"
  by (cases u) (auto simp: BuildUnit_init_def build_ok_def result_iff)

definition build_mutating :: "build_unit \<Rightarrow> bool" where
  "build_mutating b = (bu_prepare_argv b \<noteq> [])"

section \<open>Components\<close>

record component =
  cp_id :: string
  cp_root :: string
  cp_languages :: "string list"
  cp_sources :: "string list"
  cp_build_ids :: "string list"
  cp_test_paths :: "string list"
  cp_needs :: "string list"
  cp_include :: "string list"
  cp_exclude :: "string list"
  cp_vendor :: "string list"
  cp_external :: "string list"

text \<open>\<open>_identifiers\<close>: unique identifiers, order preserved.\<close>

definition identifiers :: "pyval \<Rightarrow> string \<Rightarrow> string list result" where
  "identifiers values description = unique_identifier_tuple values description description"

lemma identifiers_iff [result_iff]: "identifiers v d = Inr ids \<longleftrightarrow> str_items v ids \<and> unique_ids ids"
  by (simp add: identifiers_def result_iff)

definition Component_init ::
    "pyval \<Rightarrow> pyval \<Rightarrow> pyval \<Rightarrow> pyval \<Rightarrow> pyval \<Rightarrow> pyval \<Rightarrow> pyval \<Rightarrow> pyval \<Rightarrow> pyval \<Rightarrow> pyval
     \<Rightarrow> pyval \<Rightarrow> component result" where
  "Component_init id0 root_dir languages sources build_ids test_paths needs incl excl vendor external =
     bindr (require_identifier id0 ''component id'') (\<lambda>i.
     bindr (require_relative_path root_dir ''component root'' True) (\<lambda>ro.
     bindr (identifiers languages ''component language'') (\<lambda>la.
     raise_if (la = []) (ValueError ''component {} must declare at least one language'' [i])
    (bindr (relative_paths sources ''component source'') (\<lambda>so.
     bindr (identifiers build_ids ''component build id'') (\<lambda>bi.
     bindr (relative_paths test_paths ''component test path'') (\<lambda>tp.
     bindr (identifiers needs ''component needs'') (\<lambda>ne.
     raise_if (i \<in> set ne) (ValueError ''component {} cannot need itself'' [i])
    (bindr (relative_paths incl ''component include pattern'') (\<lambda>inc.
     bindr (relative_paths excl ''component exclude pattern'') (\<lambda>exc.
     bindr (relative_paths vendor ''component vendor pattern'') (\<lambda>ve.
     bindr (text_tuple external ''external input'' ''external inputs'') (\<lambda>ex.
     Inr \<lparr>cp_id = i, cp_root = ro, cp_languages = la, cp_sources = so, cp_build_ids = bi,
          cp_test_paths = tp, cp_needs = ne, cp_include = inc, cp_exclude = exc, cp_vendor = ve,
          cp_external = ex\<rparr>)))))))))))))"

definition component_ok :: "component \<Rightarrow> bool" where
  "component_ok c =
     (identifier_ok (cp_id c) \<and> path_ok True (cp_root c)
      \<and> unique_ids (cp_languages c) \<and> cp_languages c \<noteq> []
      \<and> list_all (path_ok False) (cp_sources c) \<and> unique_ids (cp_build_ids c)
      \<and> list_all (path_ok False) (cp_test_paths c)
      \<and> unique_ids (cp_needs c) \<and> cp_id c \<notin> set (cp_needs c)
      \<and> list_all (path_ok False) (cp_include c) \<and> list_all (path_ok False) (cp_exclude c)
      \<and> list_all (path_ok False) (cp_vendor c) \<and> list_all text_ok (cp_external c))"

lemma Component_init_iff:
  "Component_init a b c d e f g h i j k = Inr u \<longleftrightarrow>
     component_ok u \<and> a = PStr (cp_id u) \<and> b = PStr (cp_root u) \<and> str_items c (cp_languages u)
     \<and> str_items d (cp_sources u) \<and> str_items e (cp_build_ids u)
     \<and> str_items f (cp_test_paths u) \<and> str_items g (cp_needs u) \<and> str_items h (cp_include u)
     \<and> str_items i (cp_exclude u) \<and> str_items j (cp_vendor u) \<and> str_items k (cp_external u)"
  by (cases u) (auto simp: Component_init_def component_ok_def result_iff)

section \<open>Analysis units\<close>

record analysis_unit =
  au_id :: string
  au_component_id :: string
  au_language :: string
  au_sources :: "string list"
  au_variant :: "string option"
  au_runtime :: "string option"
  au_build_id :: "string option"

definition AnalysisUnit_init ::
    "pyval \<Rightarrow> pyval \<Rightarrow> pyval \<Rightarrow> pyval \<Rightarrow> pyval \<Rightarrow> pyval \<Rightarrow> pyval \<Rightarrow> analysis_unit result" where
  "AnalysisUnit_init id0 component_id language sources variant runtime build_id =
     bindr (require_identifier id0 ''analysis unit id'') (\<lambda>i.
     bindr (require_identifier component_id ''analysis unit component'') (\<lambda>ci.
     bindr (require_identifier language ''analysis unit language'') (\<lambda>la.
     bindr (relative_paths sources ''analysis unit source'') (\<lambda>so.
     bindr (optional_identifier variant ''analysis unit variant'') (\<lambda>va.
     bindr (optional_text runtime ''analysis unit runtime'') (\<lambda>ru.
     bindr (optional_identifier build_id ''analysis unit build id'') (\<lambda>bi.
     Inr \<lparr>au_id = i, au_component_id = ci, au_language = la, au_sources = so, au_variant = va,
          au_runtime = ru, au_build_id = bi\<rparr>)))))))"

definition unit_ok :: "analysis_unit \<Rightarrow> bool" where
  "unit_ok u =
     (identifier_ok (au_id u) \<and> identifier_ok (au_component_id u) \<and> identifier_ok (au_language u)
      \<and> list_all (path_ok False) (au_sources u) \<and> opt_ok identifier_ok (au_variant u)
      \<and> opt_ok text_ok (au_runtime u) \<and> opt_ok identifier_ok (au_build_id u))"

lemma AnalysisUnit_init_iff:
  "AnalysisUnit_init a b c d e f g = Inr u \<longleftrightarrow>
     unit_ok u \<and> a = PStr (au_id u) \<and> b = PStr (au_component_id u) \<and> c = PStr (au_language u)
     \<and> str_items d (au_sources u) \<and> e = opt_val PStr (au_variant u)
     \<and> f = opt_val PStr (au_runtime u) \<and> g = opt_val PStr (au_build_id u)"
  by (cases u) (auto simp: AnalysisUnit_init_def unit_ok_def result_iff)

section \<open>Workspaces\<close>

record workspace =
  ws_id :: string
  ws_name :: string
  ws_components :: "component list"
  ws_builds :: "build_unit list"
  ws_analysis_units :: "analysis_unit list"
  ws_required_component_ids :: "string list"
  ws_policy_digest :: "string option"
  ws_limitations :: "string list"

abbreviation component_ids :: "component list \<Rightarrow> string list" where
  "component_ids cs \<equiv> map cp_id cs"

abbreviation build_ids_of :: "build_unit list \<Rightarrow> string list" where
  "build_ids_of bs \<equiv> map bu_id bs"

text \<open>The loops of the constructor, one check per item.\<close>

definition check_unit :: "string list \<Rightarrow> string list \<Rightarrow> analysis_unit \<Rightarrow> unit result" where
  "check_unit known builds u =
     raise_if (au_component_id u \<notin> set known)
       (ValueError ''analysis unit {} belongs to unregistered component {}''
          [au_id u, au_component_id u])
    (case au_build_id u of
       None \<Rightarrow> Inr ()
     | Some b \<Rightarrow>
         raise_if (b \<notin> set builds)
           (ValueError ''analysis unit {} references unknown build {}'' [au_id u, b])
        (Inr ()))"

fun claim_directories :: "(string \<times> string) list \<Rightarrow> build_unit list \<Rightarrow> unit result" where
  "claim_directories directories [] = Inr ()"
| "claim_directories directories (b # bs) =
     (case map_of directories (bu_directory b) of
        None \<Rightarrow> claim_directories (directories @ [(bu_directory b, bu_id b)]) bs
      | Some owner \<Rightarrow>
          raise_if (owner \<noteq> bu_id b)
            (ValueError ''build units {} and {} share directory {}'' [owner, bu_id b, bu_directory b])
         (claim_directories directories bs))"

definition check_need :: "string list \<Rightarrow> string list \<Rightarrow> string \<Rightarrow> string \<Rightarrow> unit result" where
  "check_need known builds i need =
     raise_if (need \<in> set known \<and> need \<in> set builds)
       (ValueError ''component {} needs {!r}, which names both a component and a build unit; the edge is ambiguous''
          [i, need])
    (raise_if (need \<notin> set known \<and> need \<notin> set builds)
       (ValueError ''component {} needs {!r}, which is neither a registered component nor a declared build''
          [i, need])
    (Inr ()))"

definition check_component :: "string list \<Rightarrow> string list \<Rightarrow> component \<Rightarrow> unit result" where
  "check_component known builds c =
     (let missing = filter (\<lambda>ref. ref \<notin> set builds) (cp_build_ids c) in
      raise_if (missing \<noteq> [])
        (ValueError ''component {} references undefined build units: {}'' (cp_id c # sort missing))
     (check_each (check_need known builds (cp_id c)) (cp_needs c)))"

text \<open>The edges \<open>_component_cycle\<close> searches: needs that name a component.\<close>

definition needs_edges :: "component list \<Rightarrow> adjacency" where
  "needs_edges components =
     map (\<lambda>c. (cp_id c, filter (\<lambda>n. n \<in> set (component_ids components)) (cp_needs c))) components"

definition component_cycle :: "component list \<Rightarrow> string list" where
  "component_cycle components = find_cycle (needs_edges components)"

definition Workspace_init ::
    "pyval \<Rightarrow> pyval \<Rightarrow> component list \<Rightarrow> build_unit list \<Rightarrow> analysis_unit list \<Rightarrow> pyval \<Rightarrow> pyval
     \<Rightarrow> pyval \<Rightarrow> workspace result" where
  "Workspace_init id0 name components builds analysis_units required_component_ids policy_digest
       limitations =
     bindr (require_identifier id0 ''workspace id'') (\<lambda>i.
     bindr (require_text name ''workspace name'') (\<lambda>na.
     bindr (require_unique_identifiers (component_ids components) ''workspace components'') (\<lambda>known.
     bindr (require_unique_identifiers (build_ids_of builds) ''workspace builds'') (\<lambda>build_ids.
     bindr (require_unique_identifiers (map au_id analysis_units) ''analysis units'') (\<lambda>_.
     bindr (check_each (check_unit known build_ids) analysis_units) (\<lambda>_.
     bindr (claim_directories [] builds) (\<lambda>_.
     bindr (check_each (check_component known build_ids) components) (\<lambda>_.
     let cycle = component_cycle components in
     raise_if (cycle \<noteq> [])
       (ValueError ''component dependency cycle: {}'' [join '' -> '' (cycle @ [hd cycle])])
    (bindr (identifiers required_component_ids ''required component id'') (\<lambda>required.
     let unknown = filter (\<lambda>ref. ref \<notin> set known) required in
     raise_if (unknown \<noteq> [])
       (ValueError ''required components are not registered: {}'' (sort unknown))
    (bindr (optional_digest policy_digest ''policy digest'') (\<lambda>pd.
     bindr (text_tuple limitations ''workspace limitation'' ''workspace limitations'') (\<lambda>li.
     Inr \<lparr>ws_id = i, ws_name = na, ws_components = components, ws_builds = builds,
          ws_analysis_units = analysis_units, ws_required_component_ids = required,
          ws_policy_digest = pd, ws_limitations = li\<rparr>)))))))))))))"

section \<open>The invariant of a workspace\<close>

definition unit_refs_ok :: "string list \<Rightarrow> string list \<Rightarrow> analysis_unit \<Rightarrow> bool" where
  "unit_refs_ok known builds u =
     (au_component_id u \<in> set known \<and> opt_ok (\<lambda>b. b \<in> set builds) (au_build_id u))"

definition component_refs_ok :: "string list \<Rightarrow> string list \<Rightarrow> component \<Rightarrow> bool" where
  "component_refs_ok known builds c =
     (set (cp_build_ids c) \<subseteq> set builds
      \<and> list_all (\<lambda>n. (n \<in> set known) \<noteq> (n \<in> set builds)) (cp_needs c))"

lemma check_unit_iff: "check_unit k b u = Inr () \<longleftrightarrow> unit_refs_ok k b u"
  by (auto simp: check_unit_def unit_refs_ok_def result_iff split: option.splits)

lemma check_need_iff: "check_need k b i n = Inr () \<longleftrightarrow> (n \<in> set k) \<noteq> (n \<in> set b)"
  by (auto simp: check_need_def result_iff)

lemma check_component_iff: "check_component k b c = Inr () \<longleftrightarrow> component_refs_ok k b c"
  by (auto simp: check_component_def Let_def result_iff component_refs_ok_def check_need_iff
      list_all_iff filter_empty_conv)

lemma claim_directories_iff:
  "distinct (map bu_id bs) \<Longrightarrow> snd ` set ds \<inter> bu_id ` set bs = {} \<Longrightarrow>
     claim_directories ds bs = Inr u \<longleftrightarrow>
     distinct (map bu_directory bs) \<and> fst ` set ds \<inter> bu_directory ` set bs = {}"
proof (induction ds bs rule: claim_directories.induct)
  case (2 ds b bs)
  show ?case
  proof (cases "map_of ds (bu_directory b)")
    case None
    then have "bu_directory b \<notin> fst ` set ds" by (simp add: map_of_eq_None_iff)
    with None 2 show ?thesis by auto
  next
    case (Some owner)
    then have m: "(bu_directory b, owner) \<in> set ds" by (rule map_of_SomeD)
    then have "owner \<in> snd ` set ds" by force
    moreover have "bu_id b \<notin> snd ` set ds" using "2.prems"(2) by auto
    ultimately have "owner \<noteq> bu_id b" by metis
    moreover from m have "bu_directory b \<in> fst ` set ds" by force
    ultimately show ?thesis using Some by auto
  qed
qed simp

lemma claim_directories_Nil:
  "distinct (map bu_id bs) \<Longrightarrow> claim_directories [] bs = Inr u \<longleftrightarrow> distinct (map bu_directory bs)"
  using claim_directories_iff [of bs "[]"] by simp

text \<open>What the constructor has checked before it reads its last three arguments.\<close>

definition references_ok :: "component list \<Rightarrow> build_unit list \<Rightarrow> analysis_unit list \<Rightarrow> bool" where
  "references_ok cs bs us =
     (distinct (component_ids cs) \<and> distinct (build_ids_of bs) \<and> distinct (map au_id us)
      \<and> list_all (unit_refs_ok (component_ids cs) (build_ids_of bs)) us
      \<and> distinct (map bu_directory bs)
      \<and> list_all (component_refs_ok (component_ids cs) (build_ids_of bs)) cs)"

definition workspace_ok :: "workspace \<Rightarrow> bool" where
  "workspace_ok w =
     (identifier_ok (ws_id w) \<and> text_ok (ws_name w)
      \<and> references_ok (ws_components w) (ws_builds w) (ws_analysis_units w)
      \<and> component_cycle (ws_components w) = []
      \<and> unique_ids (ws_required_component_ids w)
      \<and> set (ws_required_component_ids w) \<subseteq> set (component_ids (ws_components w))
      \<and> opt_ok digest_ok (ws_policy_digest w) \<and> list_all text_ok (ws_limitations w))"

lemma references_iff:
  "distinct (component_ids cs) \<and> distinct (build_ids_of bs) \<and> distinct (map au_id us)
   \<and> (\<forall>x \<in> set us. check_unit (component_ids cs) (build_ids_of bs) x = Inr ())
   \<and> claim_directories [] bs = Inr ()
   \<and> (\<forall>x \<in> set cs. check_component (component_ids cs) (build_ids_of bs) x = Inr ())
   \<longleftrightarrow> references_ok cs bs us"
  by (cases "distinct (build_ids_of bs)")
    (simp_all add: references_ok_def check_unit_iff check_component_iff list_all_iff
      claim_directories_Nil)

lemma Workspace_init_iff:
  "Workspace_init a b cs bs us r p l = Inr w \<longleftrightarrow>
     workspace_ok w \<and> a = PStr (ws_id w) \<and> b = PStr (ws_name w) \<and> cs = ws_components w
     \<and> bs = ws_builds w \<and> us = ws_analysis_units w
     \<and> str_items r (ws_required_component_ids w) \<and> p = opt_val PStr (ws_policy_digest w)
     \<and> str_items l (ws_limitations w)"
proof -
  have sub: "filter (\<lambda>x. x \<notin> A) xs = [] \<longleftrightarrow> set xs \<subseteq> A" for A and xs :: "string list"
    by (auto simp: filter_empty_conv)
  show ?thesis
    unfolding workspace_ok_def references_iff [symmetric]
    by (cases w) (auto simp: Workspace_init_def Let_def result_iff sub simp del: set_map)
qed

text \<open>The needs between registered components, as a relation.\<close>

definition needs_rel :: "component list \<Rightarrow> (string \<times> string) set" where
  "needs_rel cs =
     {(cp_id c, n) | c n. c \<in> set cs \<and> n \<in> set (cp_needs c) \<and> n \<in> cp_id ` set cs}"

lemma needs_edges_keys [simp]: "fst ` set (needs_edges cs) = cp_id ` set cs"
  by (force simp: needs_edges_def)

lemma needs_edges_closed: "edges_closed (needs_edges cs)"
  by (auto simp: edges_closed_def list_all_iff) (auto simp: needs_edges_def)

lemma dict_values_needs:
  "distinct (component_ids cs) \<Longrightarrow> c \<in> set cs \<Longrightarrow>
     dict_values (needs_edges cs) (cp_id c) = filter (\<lambda>n. n \<in> cp_id ` set cs) (cp_needs c)"
proof -
  assume "distinct (component_ids cs)" "c \<in> set cs"
  then have "map_of (needs_edges cs) (cp_id c) = Some (filter (\<lambda>n. n \<in> set (component_ids cs)) (cp_needs c))"
    by (intro map_of_is_SomeI) (auto simp: needs_edges_def comp_def)
  then show ?thesis by (simp add: dict_values_def)
qed

lemma edge_rel_needs:
  assumes "distinct (component_ids cs)"
  shows "edge_rel (needs_edges cs) = needs_rel cs"
  using dict_values_needs [OF assms] by (auto simp: edge_rel_def needs_rel_def)

lemma component_cycle_iff:
  "distinct (component_ids cs) \<Longrightarrow> component_cycle cs = [] \<longleftrightarrow> acyclic (needs_rel cs)"
  by (simp add: component_cycle_def find_cycle_iff needs_edges_closed edge_rel_needs)

section \<open>Lookups and views\<close>

definition find_component :: "workspace \<Rightarrow> string \<Rightarrow> component result" where
  "find_component w component_id =
     (case List.find (\<lambda>c. cp_id c = component_id) (ws_components w) of
        Some c \<Rightarrow> Inr c | None \<Rightarrow> Inl (KeyErr component_id))"

definition find_build :: "workspace \<Rightarrow> string \<Rightarrow> build_unit result" where
  "find_build w build_id =
     (case List.find (\<lambda>b. bu_id b = build_id) (ws_builds w) of
        Some b \<Rightarrow> Inr b | None \<Rightarrow> Inl (KeyErr build_id))"

definition component_needs :: "workspace \<Rightarrow> string \<Rightarrow> string list result" where
  "component_needs w component_id =
     bindr (find_component w component_id) (\<lambda>c.
     Inr (filter (\<lambda>n. n \<in> set (component_ids (ws_components w))) (cp_needs c)))"

definition build_needs :: "workspace \<Rightarrow> string \<Rightarrow> string list result" where
  "build_needs w component_id =
     bindr (find_component w component_id) (\<lambda>c.
     Inr (filter (\<lambda>n. n \<notin> set (component_ids (ws_components w))) (cp_needs c)))"

definition scoped :: "workspace \<Rightarrow> string list \<Rightarrow> workspace result" where
  "scoped w wanted_ids =
     (let selected = first_occurrences wanted_ids;
          unknown = filter (\<lambda>i. i \<notin> set (component_ids (ws_components w))) selected in
      raise_if (unknown \<noteq> [])
        (ValueError ''cannot scope to unregistered components: {}'' (sort unknown))
     (Workspace_init (PStr (ws_id w)) (PStr (ws_name w))
        (filter (\<lambda>c. cp_id c \<in> set selected) (ws_components w)) (ws_builds w)
        (filter (\<lambda>u. au_component_id u \<in> set selected) (ws_analysis_units w))
        (strs (filter (\<lambda>i. i \<in> set selected) (ws_required_component_ids w)))
        (opt_val PStr (ws_policy_digest w)) (strs (ws_limitations w))))"

text \<open>The view itself, and when the constructor accepts it.\<close>

definition scoped_view :: "workspace \<Rightarrow> string list \<Rightarrow> workspace" where
  "scoped_view w ids = w\<lparr>
     ws_components := filter (\<lambda>c. cp_id c \<in> set ids) (ws_components w),
     ws_analysis_units := filter (\<lambda>u. au_component_id u \<in> set ids) (ws_analysis_units w),
     ws_required_component_ids := filter (\<lambda>i. i \<in> set ids) (ws_required_component_ids w)\<rparr>"

definition needs_closed :: "workspace \<Rightarrow> string list \<Rightarrow> bool" where
  "needs_closed w ids =
     list_all (\<lambda>c. cp_id c \<in> set ids \<longrightarrow>
       list_all (\<lambda>n. n \<in> cp_id ` set (ws_components w) \<longrightarrow> n \<in> set ids) (cp_needs c))
     (ws_components w)"

lemma find_component_iff:
  "distinct (component_ids (ws_components w)) \<Longrightarrow>
     find_component w i = Inr c \<longleftrightarrow> c \<in> set (ws_components w) \<and> cp_id c = i"
  by (auto simp: find_component_def find_key_iff [symmetric] split: option.splits)

lemma needs_rel_filter: "needs_rel (filter P cs) \<subseteq> needs_rel cs"
  by (auto simp: needs_rel_def)

lemma component_refs_restrict:
  assumes "component_refs_ok known builds c" "set sub = S" "S \<subseteq> set known"
  shows "component_refs_ok sub builds c \<longleftrightarrow> list_all (\<lambda>n. n \<in> set known \<longrightarrow> n \<in> S) (cp_needs c)"
  using assms unfolding component_refs_ok_def list_all_iff by blast

lemma scoped_view_ok:
  assumes ok: "workspace_ok w" and sub: "set ids \<subseteq> set (component_ids (ws_components w))"
  shows "workspace_ok (scoped_view w ids) \<longleftrightarrow> needs_closed w ids"
proof -
  let ?cs = "filter (\<lambda>c. cp_id c \<in> set ids) (ws_components w)"
  have dist: "distinct (component_ids (ws_components w))"
    using ok by (simp add: workspace_ok_def references_ok_def)
  have "acyclic (needs_rel (ws_components w))"
    using ok component_cycle_iff [OF dist] by (simp add: workspace_ok_def)
  then have "acyclic (needs_rel ?cs)" by (rule acyclic_subset) (rule needs_rel_filter)
  then have acyc: "component_cycle ?cs = []"
    using component_cycle_iff [OF distinct_map_filter [OF dist]] by simp
  have ids: "set (component_ids ?cs) = set ids" using sub by auto
  have orig: "list_all (component_refs_ok (component_ids (ws_components w)) (build_ids_of (ws_builds w)))
      (ws_components w)"
    using ok by (simp add: workspace_ok_def references_ok_def)
  have each: "component_refs_ok (component_ids ?cs) (build_ids_of (ws_builds w)) c \<longleftrightarrow>
      list_all (\<lambda>n. n \<in> set (component_ids (ws_components w)) \<longrightarrow> n \<in> set ids) (cp_needs c)"
    if "c \<in> set (ws_components w)" for c
    using orig that by (intro component_refs_restrict [OF _ ids sub]) (simp add: list_all_iff)
  have refs: "list_all (component_refs_ok (component_ids ?cs) (build_ids_of (ws_builds w))) ?cs
      \<longleftrightarrow> needs_closed w ids"
    unfolding list_all_iff [of _ ?cs] needs_closed_def list_all_iff [of _ "ws_components w"]
    using each by auto
  have "references_ok ?cs (ws_builds w) (filter (\<lambda>u. au_component_id u \<in> set ids) (ws_analysis_units w))
      \<longleftrightarrow> needs_closed w ids"
    using ok refs ids dist
    by (auto simp: workspace_ok_def references_ok_def distinct_map_filter unit_refs_ok_def list_all_iff)
  then show ?thesis
    using ok acyc ids by (auto simp: workspace_ok_def scoped_view_def unique_ids_def list_all_iff)
qed

lemma scoped_iff:
  assumes "workspace_ok w"
  shows "scoped w ids = Inr v \<longleftrightarrow>
    set ids \<subseteq> set (component_ids (ws_components w)) \<and> needs_closed w ids \<and> v = scoped_view w ids"
proof -
  have view: "ws_id v = ws_id w \<and> ws_name v = ws_name w
      \<and> ws_components v = filter (\<lambda>c. cp_id c \<in> set ids) (ws_components w)
      \<and> ws_builds v = ws_builds w
      \<and> ws_analysis_units v = filter (\<lambda>u. au_component_id u \<in> set ids) (ws_analysis_units w)
      \<and> ws_required_component_ids v = filter (\<lambda>i. i \<in> set ids) (ws_required_component_ids w)
      \<and> ws_policy_digest v = ws_policy_digest w \<and> ws_limitations v = ws_limitations w
      \<longleftrightarrow> v = scoped_view w ids"
    by (cases v; cases w) (auto simp: scoped_view_def)
  show ?thesis
    using scoped_view_ok [OF assms, of ids] view
    by (auto simp: scoped_def Let_def result_iff Workspace_init_iff filter_empty_conv)
qed

end
