(* ===== verification/Samples.thy ===== *)
theory Samples
  imports Round_Trips Events Tasks Workspaces
begin

text \<open>
  Concrete values for the instances of the properties: one of each record, small but with every
  kind of field filled in, and the evaluation of their invariants.
\<close>

lemmas text_eval = text_ok_def identifier_ok_def path_ok_def identifier_re_def
  is_ident_edge_def is_ident_inner_def is_lower_def is_digit_def is_hex_def
  startswith_def strip_def trim_def is_space_def space_points_def is_continuation_def
  posix_parts_def as_posix_def is_absolute_def

definition sample_digest :: string where
  "sample_digest = ''sha256:'' @ replicate 64 CHR ''a''"

lemma sample_digest_ok [simp]: "digest_ok sample_digest"
  by (simp add: sample_digest_def digest_ok_def digest_re_def startswith_def list_all_iff
      is_hex_def Let_def)

definition sample_span :: source_span where
  "sample_span = \<lparr>sp_path = ''src/a.py'', sp_start_line = 3, sp_end_line = Some 4,
     sp_start_column = None, sp_end_column = Some 1, sp_label = []\<rparr>"

definition sample_finding :: finding where
  "sample_finding = \<lparr>f_fingerprint = ''f1'', f_rule_id = ''py.lint.e501'', f_message = ''too long'',
     f_severity = ''error'', f_confidence = ''high'', f_primary_location = sample_span,
     f_provider = ''ruff'', f_native_rule_id = ''E501'', f_rule_version = [], f_category = [],
     f_tags = [''style''], f_related_locations = [], f_component_id = Some ''app'',
     f_analysis_unit_id = None, f_variant = None, f_task_id = Some ''app.lint'',
     f_evidence = MEASURED,
     f_suppression = \<lparr>su_suppressed = False, su_kind = ''inline'', su_reason = [], su_origin = []\<rparr>,
     f_limitations = []\<rparr>"

lemma sample_span_ok [simp]: "span_ok sample_span"
  by (simp add: span_ok_def sample_span_def at_least_def text_eval Let_def)

lemma sample_finding_ok [simp]: "finding_ok sample_finding"
  by (simp add: finding_ok_def finding_fields_ok_def sample_finding_def suppression_ok_def
      text_eval Let_def)

definition sample_run :: run_result where
  "sample_run = \<lparr>rr_run_id = ''run-1'',
     rr_producer = \<lparr>pd_ici_version = ''1.0'', pd_bundle_digest = None\<rparr>,
     rr_identity = \<lparr>ri_source = \<lparr>ss_digest = sample_digest, ss_files = [''src/a.py''],
       ss_generated = [], ss_external_inputs = [], ss_commit = None, ss_dirty = True\<rparr>,
       ri_policy_digest = sample_digest, ri_toolchain_digest = sample_digest,
       ri_fingerprint_version = FINGERPRINT_VERSION\<rparr>,
     rr_scope = \<lparr>sc_kind = PARTIAL, sc_selected_components = [''app''],
       sc_selected_languages = [''python''], sc_required_components = [''app''],
       sc_omitted_components = [], sc_full_required_satisfied = False\<rparr>,
     rr_execution = \<lparr>ex_required_complete = True, ex_cancelled = False, ex_blocked_task_ids = [],
       ex_failed_task_ids = [], ex_reused_task_ids = []\<rparr>,
     rr_gate = \<lparr>ga_selected = FAIL, ga_workspace = NOT_EVALUATED, ga_has_violations = True,
       ga_reasons = [''1 violation'']\<rparr>,
     rr_findings = [sample_finding], rr_metrics = [], rr_publication = no_publication,
     rr_limitations = [], rr_baseline = None,
     rr_checks = Some [\<lparr>cr_task_id = ''app.lint'', cr_check_id = ''lint'', cr_component_id = ''app'',
       cr_language = ''python'', cr_scope_digest = sample_digest, cr_state = SUCCEEDED,
       cr_evidence_complete = True, cr_analysis_unit_id = None, cr_variant = None\<rparr>],
     rr_schema_id = SCHEMA_ID, rr_schema_version = SCHEMA_VERSION\<rparr>"

lemma sample_counts [simp]: "counts_against_gate sample_finding"
  by (simp add: counts_against_gate_def sample_finding_def)

lemma sample_run_ok [simp]: "run_result_ok sample_run"
  by (simp add: run_result_ok_def run_fields_ok_def sample_run_def producer_ok_def snapshot_ok_def
      identity_fields_ok_def scope_ok_def scope_omits_def execution_ok_def gate_ok_def check_record_ok_def
      blocking_findings_def unique_ids_def SCHEMA_VERSION_def text_eval Let_def)

end
