(* ===== verification/Domain_Properties.thy ===== *)
theory Domain_Properties
  imports Samples
begin

text \<open>
  The properties of the domain model: event streams, task specifications and workspaces, with
  their witnesses.
\<close>

section \<open>Documents\<close>

text \<open>Every valid run result survives being stored: the reader accepts what the writer wrote,
  after a passage through JSON text, and returns the same result up to the details of
  suppressions that are not in force.\<close>

theorem stored_result_roundtrip:
  assumes "run_result_ok r"
  shows "run_result_from_dict (canon (run_result_to_dict r)) = Inr (wire_run_result r)"
  using assms by (rule stored_result_codec.dec_enc)

theorem stored_result_roundtrip_witness:
  "run_result_from_dict (canon (run_result_to_dict sample_run)) = Inr (wire_run_result sample_run)"
  by (rule stored_result_roundtrip) simp

section \<open>Event streams\<close>

text \<open>Every valid event is read back from its document as itself, and whatever document an event
  is read from, it is a valid one.\<close>

theorem event_roundtrip:
  assumes "event_ok e"
  shows "event_from_dict (event_to_dict e) = Inr (Some e)
    \<and> (\<forall>v x. event_from_dict v = Inr (Some x) \<longrightarrow> event_ok x)"
  using assms event_round event_read_ok by blast

definition sample_event :: "int \<Rightarrow> run_event" where
  "sample_event n = \<lparr>ev_run_id = ''run-1'', ev_seq = n, ev_event_type = hd event_types,
     ev_timestamp = ''2024-01-01'', ev_task_id = Some ''app.lint'', ev_component_id = None,
     ev_message = ''ok'', ev_schema_id = EVENT_SCHEMA_ID, ev_schema_version = EVENT_SCHEMA_VERSION\<rparr>"

lemma sample_event_ok: "event_ok (sample_event 3)" "event_ok (sample_event 4)"
  by code_simp+

theorem event_roundtrip_witness:
  "event_from_dict (event_to_dict (sample_event 3)) = Inr (Some (sample_event 3))"
  using event_roundtrip [OF sample_event_ok(1)] by blast

text \<open>A stream read without a note has no gap: when the reader reports nothing, every event is
  valid and the sequence numbers count up from the first without a hole or a duplicate.\<close>

theorem clean_stream_is_gapless:
  assumes "events_from_jsonl loads text = Inr (es, [])"
  shows "list_all event_ok es \<and> (\<forall>i < length es. ev_seq (es ! i) = ev_seq (hd es) + int i)"
proof -
  have run: "read_lines loads None 1 (splitlines text) = Inr (es, [])"
    using assms by (simp add: events_from_jsonl_def)
  have con: "consecutive None (map ev_seq es)" by (rule read_lines_clean [OF run])
  have "ev_seq (es ! i) = ev_seq (hd es) + int i" if "i < length es" for i
  proof -
    have "map ev_seq es ! i = hd (map ev_seq es) + int i"
      using consecutive_range [OF con] that by simp
    moreover have "es \<noteq> []" using that by auto
    ultimately show ?thesis using that by (simp add: hd_map)
  qed
  with read_lines_ok [OF run] show ?thesis by blast
qed

definition two_lines :: "string \<Rightarrow> pyval result" where
  "two_lines line =
     (if line = ''one'' then Inr (event_to_dict (sample_event 3)) else Inr (event_to_dict (sample_event 4)))"

lemma two_lines_read:
  "events_from_jsonl two_lines (''one'' @ newline @ ''two'' @ newline)
     = Inr ([sample_event 3, sample_event 4], [])"
proof -
  have "splitlines (''one'' @ newline @ ''two'' @ newline) = [''one'', ''two'']"
    "strip ''one'' = ''one''" "strip ''two'' = ''two''"
    by code_simp+
  then show ?thesis
    by (simp add: events_from_jsonl_def two_lines_def event_round sample_event_ok seq_note_def)
      (simp add: sample_event_def)
qed

theorem clean_stream_is_gapless_witness:
  "ev_seq ([sample_event 3, sample_event 4] ! 1) = 4"
  using clean_stream_is_gapless [OF two_lines_read] by (simp add: sample_event_def)

section \<open>Task specifications\<close>

text \<open>C0: A constructed task is sound and stays so: it has a command, does not depend on itself, is
  not both mutating and cacheable, its limits are positive, and constructing it again from its own
  fields (as \<open>replace\<close> does) gives it back unchanged.\<close>

theorem constructed_task_sound:
  assumes "TaskSpec_init a k b c d e f g h i j l m n p q r s = Inr t"
  shows "task_ok t \<and> TaskSpec_replace t = Inr t \<and> ts_argv t \<noteq> []
    \<and> ts_id t \<notin> set (ts_depends_on t) \<and> \<not> (mutating t \<and> ts_cacheable t)"
  using TaskSpec_init_ok [OF assms] TaskSpec_replace_ok by (auto simp: task_ok_def)

definition sample_task :: task_spec where
  "sample_task = \<lparr>ts_id = ''app.lint'', ts_kind = ANALYZE, ts_provider = ''ruff'',
     ts_argv = [''ruff'', ''check''], ts_cwd = ''.'', ts_analysis_unit_ids = [], ts_env_overlay = [],
     ts_input_refs = [], ts_output_specs = [], ts_depends_on = [''app.prepare''],
     ts_resource_keys = [''build'', ''build''], ts_work_dirs = [], ts_requires = [],
     ts_timeout_seconds = None, ts_output_limit_bytes = None, ts_tool_digest = None,
     ts_cacheable = True, ts_variant = None\<rparr>"

lemma sample_task_constructed: "TaskSpec_replace sample_task = Inr sample_task"
  by (rule TaskSpec_replace_ok) code_simp

theorem constructed_task_sound_witness: "task_ok sample_task \<and> \<not> mutating sample_task"
  using constructed_task_sound [OF sample_task_constructed [unfolded TaskSpec_replace_def]]
  by (simp add: sample_task_def)

section \<open>Workspaces\<close>

text \<open>The cycle search decides: on a relation whose entries are all nodes it reports nothing
  exactly when the relation is acyclic, and what it reports is a cycle of the relation.\<close>

theorem cycle_search_decides:
  assumes "edges_closed edges"
  shows "(find_cycle edges = [] \<longleftrightarrow> acyclic (edge_rel edges))
    \<and> (find_cycle edges \<noteq> [] \<longrightarrow> cycle_in (edge_rel edges) (find_cycle edges))"
  using find_cycle_iff [OF assms] find_cycle_report by blast

theorem cycle_search_decides_witness:
  "cycle_in (edge_rel [(''a'', [''b'']), (''b'', [''a''])])
    (find_cycle [(''a'', [''b'']), (''b'', [''a''])])"
proof -
  have "edges_closed [(''a'', [''b'']), (''b'', [''a''])]" by code_simp
  moreover have "find_cycle [(''a'', [''b'']), (''b'', [''a''])] \<noteq> []" by code_simp
  ultimately show ?thesis using cycle_search_decides by blast
qed

text \<open>A constructed workspace is well formed: component ids are distinct, the needs between its
  components have no cycle, no two builds share a directory, and every unit belongs to a
  registered component and build.\<close>

theorem constructed_workspace_sound:
  assumes "Workspace_init a b cs bs us r p l = Inr w"
  shows "distinct (component_ids (ws_components w)) \<and> acyclic (needs_rel (ws_components w))
    \<and> distinct (map bu_directory (ws_builds w))
    \<and> (\<forall>u \<in> set (ws_analysis_units w). au_component_id u \<in> set (component_ids (ws_components w))
        \<and> (\<forall>i. au_build_id u = Some i \<longrightarrow> i \<in> set (build_ids_of (ws_builds w))))"
proof -
  have ok: "workspace_ok w" using assms by (simp add: Workspace_init_iff)
  then have refs: "references_ok (ws_components w) (ws_builds w) (ws_analysis_units w)"
    by (simp add: workspace_ok_def)
  then have dist: "distinct (component_ids (ws_components w))" by (simp add: references_ok_def)
  have "acyclic (needs_rel (ws_components w))"
    using ok component_cycle_iff [OF dist] by (simp add: workspace_ok_def)
  with dist refs show ?thesis
    by (auto simp: references_ok_def unit_refs_ok_def list_all_iff)
qed

definition sample_component :: "string \<Rightarrow> string list \<Rightarrow> component" where
  "sample_component i needs = \<lparr>cp_id = i, cp_root = ''.'', cp_languages = [''python''], cp_sources = [],
     cp_build_ids = [], cp_test_paths = [], cp_needs = needs, cp_include = [], cp_exclude = [],
     cp_vendor = [], cp_external = []\<rparr>"

definition sample_workspace :: workspace where
  "sample_workspace = \<lparr>ws_id = ''ws'', ws_name = ''ws'',
     ws_components = [sample_component ''app'' [''lib''], sample_component ''lib'' []],
     ws_builds = [], ws_analysis_units = [], ws_required_component_ids = [''app''],
     ws_policy_digest = None, ws_limitations = []\<rparr>"

lemma sample_workspace_built:
  "Workspace_init (PStr ''ws'') (PStr ''ws'') (ws_components sample_workspace) [] [] (strs [''app''])
     PNone (strs []) = Inr sample_workspace"
  by code_simp

theorem constructed_workspace_sound_witness:
  "acyclic (needs_rel (ws_components sample_workspace))"
  using constructed_workspace_sound [OF sample_workspace_built] by blast

text \<open>A scoped view exists exactly when the wanted components are registered and every component
  they need is wanted too; it keeps the wanted components and is a valid workspace.  In
  particular selecting a component without the registered component it needs is refused.\<close>

theorem scoped_view_exists:
  assumes "workspace_ok w"
  shows "scoped w ids = Inr v \<longleftrightarrow>
    set ids \<subseteq> set (component_ids (ws_components w)) \<and> needs_closed w ids \<and> v = scoped_view w ids"
  using assms by (rule scoped_iff)

lemma sample_workspace_ok: "workspace_ok sample_workspace"
  using sample_workspace_built by (simp add: Workspace_init_iff)

theorem scoped_view_exists_witness:
  "scoped sample_workspace [''app''] \<noteq> Inr (scoped_view sample_workspace [''app''])"
  using scoped_view_exists [OF sample_workspace_ok, of "[''app'']"]
  by (simp add: needs_closed_def sample_workspace_def sample_component_def)

end
