(* ===== verification/Config.thy ===== *)
theory Config
  imports PyValue
begin

text \<open>
  Layered configuration: origins, layers and how one layer replaces another
  (src/src/ici/config/origin.py, layers.py, errors.py), the local overlay (overlay.py), and the
  composition of a component's checks with its workspace's (composition.py, documents.py).  A
  problem list is the list the composition appends to; the values are composed all the same.
\<close>

section \<open>Origins and problems\<close>

record origin =
  og_file :: string
  og_key :: string

definition origin_child :: "origin \<Rightarrow> string \<Rightarrow> origin" where
  "origin_child og key =
     \<lparr>og_file = og_file og, og_key = (if og_key og = [] then key else og_key og @ ''.'' @ key)\<rparr>"

definition origin_item :: "origin \<Rightarrow> nat \<Rightarrow> origin" where
  "origin_item og index =
     \<lparr>og_file = og_file og, og_key = og_key og @ ''['' @ show_nat index @ '']''\<rparr>"

definition origin_str :: "origin \<Rightarrow> string" where
  "origin_str og = (if og_key og = [] then og_file og else og_file og @ '': '' @ og_key og)"

record 'a sourced =
  so_value :: 'a
  so_origin :: origin

record config_problem =
  cf_message :: string
  cf_origin :: origin
  cf_hint :: "string option"

section \<open>Layers\<close>

datatype layer = L_DEFAULTS | L_ROOT | L_COMPONENT | L_LOCAL | L_CLI

fun layer_rank :: "layer \<Rightarrow> nat" where
  "layer_rank L_DEFAULTS = 0"
| "layer_rank L_ROOT = 1"
| "layer_rank L_COMPONENT = 2"
| "layer_rank L_LOCAL = 3"
| "layer_rank L_CLI = 4"

lemma layer_rank_inj [simp]: "layer_rank a = layer_rank b \<longleftrightarrow> a = b"
  by (cases a; cases b) auto

instantiation layer :: linorder
begin

definition less_eq_layer :: "layer \<Rightarrow> layer \<Rightarrow> bool" where
  "a \<le> b \<longleftrightarrow> layer_rank a \<le> layer_rank b"

definition less_layer :: "layer \<Rightarrow> layer \<Rightarrow> bool" where
  "a < b \<longleftrightarrow> layer_rank a < layer_rank b"

instance
  by standard (auto simp: less_eq_layer_def less_layer_def)

end

definition beats :: "layer \<Rightarrow> layer \<Rightarrow> bool" where
  "beats a b = (layer_rank b \<le> layer_rank a)"

lemma beats_le: "beats a b \<longleftrightarrow> b \<le> a"
  by (simp add: beats_def less_eq_layer_def)

record 'a decided =
  dc_value :: 'a
  dc_origin :: origin
  dc_layer :: layer

definition decide :: "'a decided option \<Rightarrow> 'a sourced option \<Rightarrow> layer \<Rightarrow> 'a decided option" where
  "decide current candidate layer =
     (case candidate of
        None \<Rightarrow> current
      | Some c \<Rightarrow>
          (case current of
             Some d \<Rightarrow>
               if \<not> beats layer (dc_layer d) then current
               else Some \<lparr>dc_value = so_value c, dc_origin = so_origin c, dc_layer = layer\<rparr>
           | None \<Rightarrow> Some \<lparr>dc_value = so_value c, dc_origin = so_origin c, dc_layer = layer\<rparr>))"

text \<open>A value that is already decided stays decided: the first overload of \<open>_decide\<close>.\<close>

definition decide_from :: "'a decided \<Rightarrow> 'a sourced option \<Rightarrow> layer \<Rightarrow> 'a decided" where
  "decide_from current candidate layer =
     (case decide (Some current) candidate layer of Some d \<Rightarrow> d | None \<Rightarrow> current)"

text \<open>Deciding along a list of layers that each may have spoken.\<close>

definition decide_all :: "(layer \<times> 'a sourced option) list \<Rightarrow> 'a decided option" where
  "decide_all opinions = fold (\<lambda>(l, c) d. decide d c l) opinions None"

definition spoken :: "(layer \<times> 'a sourced option) list \<Rightarrow> layer \<Rightarrow> 'a sourced \<Rightarrow> bool" where
  "spoken opinions l c \<longleftrightarrow> (l, Some c) \<in> set opinions"

lemma decide_fold:
  assumes "distinct (map fst opinions)" "fold (\<lambda>(l, c) d. decide d c l) opinions d0 = Some d"
    and "\<forall>x. d0 = Some x \<longrightarrow> dc_layer x \<notin> fst ` set opinions"
  shows "(d0 = Some d \<or> (\<exists>c. (dc_layer d, Some c) \<in> set opinions \<and> dc_value d = so_value c
            \<and> dc_origin d = so_origin c))
    \<and> (\<forall>l c. (l, Some c) \<in> set opinions \<longrightarrow> l \<le> dc_layer d)
    \<and> (\<forall>x. d0 = Some x \<longrightarrow> dc_layer x \<le> dc_layer d)"
  using assms
proof (induction opinions arbitrary: d0)
  case (Cons op ops)
  obtain l c where op: "op = (l, c)" by (cases op)
  let ?d1 = "decide d0 c l"
  have fresh: "\<forall>x. ?d1 = Some x \<longrightarrow> dc_layer x \<notin> fst ` set ops"
    using Cons.prems(1,3) by (auto simp: op decide_def split: option.splits if_splits)
  have ih: "(?d1 = Some d \<or> (\<exists>c. (dc_layer d, Some c) \<in> set ops \<and> dc_value d = so_value c
            \<and> dc_origin d = so_origin c))
    \<and> (\<forall>l c. (l, Some c) \<in> set ops \<longrightarrow> l \<le> dc_layer d)
    \<and> (\<forall>x. ?d1 = Some x \<longrightarrow> dc_layer x \<le> dc_layer d)"
    using Cons.prems by (intro Cons.IH fresh) (auto simp: op)
  show ?case
  proof (cases c)
    case None
    then show ?thesis using ih by (auto simp: op decide_def)
  next
    case (Some s)
    have top: "l \<le> dc_layer d \<and> (\<forall>x. d0 = Some x \<longrightarrow> dc_layer x \<le> dc_layer d)"
      using ih Some by (auto simp: decide_def beats_le split: option.splits if_splits)
    have "d0 = Some d \<or> (\<exists>c. (dc_layer d, Some c) \<in> set (op # ops) \<and> dc_value d = so_value c
            \<and> dc_origin d = so_origin c)"
      using ih Some by (auto simp: op decide_def split: option.splits if_splits)
    with top ih show ?thesis by (auto simp: op Some)
  qed
qed auto

lemma decide_None: "decide d c l = None \<longleftrightarrow> d = None \<and> c = None"
  by (auto simp: decide_def split: option.splits)

lemma decide_fold_None: "fold (\<lambda>(l, c) d. decide d c l) opinions d0 = None \<longleftrightarrow>
   d0 = None \<and> (\<forall>l c. (l, Some c) \<notin> set opinions)"
proof (induction opinions arbitrary: d0)
  case (Cons op ops)
  show ?case by (cases op; cases "snd op") (auto simp: Cons.IH decide_None)
qed simp

lemma decide_all_None: "decide_all opinions = None \<longleftrightarrow> (\<forall>l c. \<not> spoken opinions l c)"
  by (simp add: decide_all_def decide_fold_None spoken_def)

lemma decide_all_Some:
  assumes "distinct (map fst opinions)" "decide_all opinions = Some d"
  shows "\<exists>c. spoken opinions (dc_layer d) c \<and> dc_value d = so_value c \<and> dc_origin d = so_origin c"
    and "spoken opinions l c \<Longrightarrow> l \<le> dc_layer d"
  using decide_fold [OF assms(1), of None d] assms(2) by (auto simp: decide_all_def spoken_def)

text \<open>So the order in which the layers are read does not matter.\<close>

lemma decide_all_unique:
  assumes dist: "distinct (map fst xs)" and same: "set ys = set xs" "distinct (map fst ys)"
  shows "decide_all ys = decide_all xs"
proof (cases "decide_all xs")
  case None
  then have "decide_all ys = None"
    using same(1) by (simp add: decide_all_None spoken_def)
  with None show ?thesis by simp
next
  case (Some d)
  then have "decide_all ys \<noteq> None"
    using same(1) decide_all_None [of xs] decide_all_None [of ys] by (auto simp: spoken_def)
  then obtain e where e: "decide_all ys = Some e" by auto
  obtain c where c: "spoken xs (dc_layer d) c" "dc_value d = so_value c" "dc_origin d = so_origin c"
    using decide_all_Some(1) [OF dist Some] by auto
  obtain b where b: "spoken ys (dc_layer e) b" "dc_value e = so_value b" "dc_origin e = so_origin b"
    using decide_all_Some(1) [OF same(2) e] by auto
  have "dc_layer e \<le> dc_layer d"
    using decide_all_Some(2) [OF dist Some] b(1) same(1) by (simp add: spoken_def)
  moreover have "dc_layer d \<le> dc_layer e"
    using decide_all_Some(2) [OF same(2) e] c(1) same(1) by (simp add: spoken_def)
  ultimately have l: "dc_layer d = dc_layer e" by simp
  then have "Some c = Some b"
    using b(1) c(1) same(1) dist eq_key_imp_eq_value [of xs "dc_layer d" "Some c" "Some b"]
    by (simp add: spoken_def)
  with b c l Some e show ?thesis by (cases d; cases e) simp
qed


section \<open>The local overlay\<close>

text \<open>Every scalar of a document with its dotted key; a list counts as one.\<close>

definition dotted :: "string \<Rightarrow> string \<Rightarrow> string" where
  "dotted prefix key = (if prefix = [] then key else prefix @ ''.'' @ key)"

fun leaves :: "string \<Rightarrow> (string \<times> pyval) \<Rightarrow> (string \<times> pyval) list" where
  "leaves prefix (key, PDict kvs) = concat (map (\<lambda>kv. leaves (dotted prefix key) kv) kvs)"
| "leaves prefix (key, v) = [(dotted prefix key, v)]"

definition document_leaves :: "(string \<times> pyval) list \<Rightarrow> (string \<times> pyval) list" where
  "document_leaves document = concat (map (leaves []) document)"

definition LOCAL_OVERLAY_ALLOWLIST :: "string list" where
  "LOCAL_OVERLAY_ALLOWLIST =
     [''builds.*.directory'', ''builds.*.project'', ''components.*.python.executable'',
      ''output'', ''cache'', ''tools.*.path'']"

text \<open>
  The pattern of an entry: literal text, and one non-empty key without a dot for each wildcard.
\<close>

definition entry_matches :: "string \<Rightarrow> string \<Rightarrow> bool" where
  "entry_matches entry key =
     list_all2 (\<lambda>e k. if e = ''*'' then k \<noteq> [] else e = k)
       (split_char CHR ''.'' entry) (split_char CHR ''.'' key)"

definition overlay_allowed :: "string \<Rightarrow> bool" where
  "overlay_allowed key = list_ex (\<lambda>entry. entry_matches entry key) LOCAL_OVERLAY_ALLOWLIST"

text \<open>\<open>read_local\<close> of the parsed document: the problems, or the flat map of values.\<close>

definition overlay_step ::
    "string \<Rightarrow> string \<times> pyval \<Rightarrow> config_problem list \<times> (string \<times> string sourced) list
     \<Rightarrow> config_problem list \<times> (string \<times> string sourced) list" where
  "overlay_step path kv acc =
     (let key = fst kv; og = \<lparr>og_file = path, og_key = key\<rparr> in
      if \<not> overlay_allowed key
      then (fst acc @ [\<lparr>cf_message = ''a local overlay may only adjust paths'', cf_origin = og,
              cf_hint = Some (''allowed: '' @ join '', '' (sort LOCAL_OVERLAY_ALLOWLIST))\<rparr>], snd acc)
      else
        (case snd kv of
           PStr s \<Rightarrow> (fst acc, dict_set key \<lparr>so_value = s, so_origin = og\<rparr> (snd acc))
         | v \<Rightarrow> (fst acc @ [\<lparr>cf_message = key @ '' must be a path, not '' @ type_name v,
                  cf_origin = og, cf_hint = None\<rparr>], snd acc)))"

definition read_local ::
    "string \<Rightarrow> (string \<times> pyval) list \<Rightarrow> config_problem list + (string \<times> string sourced) list" where
  "read_local path document =
     (let (problems, values) = fold (overlay_step path) (document_leaves document) ([], []) in
      if problems \<noteq> [] then Inl problems else Inr values)"

definition overlay_leaf_ok :: "string \<times> pyval \<Rightarrow> bool" where
  "overlay_leaf_ok kv = (overlay_allowed (fst kv) \<and> is_str (snd kv))"

lemma overlay_step_problems:
  "fst (overlay_step path kv acc) = [] \<longleftrightarrow> fst acc = [] \<and> overlay_leaf_ok kv"
  by (cases "snd kv") (auto simp: overlay_step_def overlay_leaf_ok_def Let_def)

lemma overlay_step_keys:
  "fst ` set (snd (overlay_step path kv acc)) \<subseteq> insert (fst kv) (fst ` set (snd acc))"
  by (cases "snd kv") (auto simp: overlay_step_def Let_def)

lemma overlay_fold_problems:
  "fst (fold (overlay_step path) kvs acc) = [] \<longleftrightarrow> fst acc = [] \<and> list_all overlay_leaf_ok kvs"
  by (induction kvs arbitrary: acc) (auto simp: overlay_step_problems)

lemma overlay_fold_keys:
  "fst ` set (snd (fold (overlay_step path) kvs acc)) \<subseteq> fst ` set kvs \<union> fst ` set (snd acc)"
proof (induction kvs arbitrary: acc)
  case (Cons kv kvs)
  show ?case using Cons.IH [of "overlay_step path kv acc"] overlay_step_keys [of path kv acc] by auto
qed simp

lemma read_local_ok:
  assumes "read_local path document = Inr values"
  shows "list_all overlay_leaf_ok (document_leaves document)"
    and "k \<in> fst ` set values \<Longrightarrow> overlay_allowed k"
proof -
  let ?r = "fold (overlay_step path) (document_leaves document) ([], [])"
  have r: "fst ?r = []" "values = snd ?r"
    using assms by (auto simp: read_local_def split: prod.splits if_splits)
  show all: "list_all overlay_leaf_ok (document_leaves document)"
    using r(1) overlay_fold_problems [of path "document_leaves document" "([], [])"] by simp
  show "overlay_allowed k" if "k \<in> fst ` set values"
  proof -
    have "k \<in> fst ` set (document_leaves document)"
      using that overlay_fold_keys [of path "document_leaves document" "([], [])"]
      unfolding r(2) by auto
    then show ?thesis using all unfolding list_all_iff overlay_leaf_ok_def by fastforce
  qed
qed

text \<open>An allowed key moves a path: its first segment is one of five, never \<open>checks\<close>.\<close>

lemma overlay_allowed_head:
  assumes "overlay_allowed key"
  shows "hd (split_char CHR ''.'' key) \<in>
    {''builds'', ''components'', ''output'', ''cache'', ''tools''}"
proof -
  obtain entry where e: "entry \<in> set LOCAL_OVERLAY_ALLOWLIST" "entry_matches entry key"
    using assms by (auto simp: overlay_allowed_def list_ex_iff)
  from e(2) obtain x xs k ks where "split_char CHR ''.'' entry = x # xs"
    "split_char CHR ''.'' key = k # ks" "x = ''*'' \<or> x = k"
    by (cases "split_char CHR ''.'' entry"; cases "split_char CHR ''.'' key")
      (auto simp: entry_matches_def split_char_nonempty split: if_splits)
  with e(1) show ?thesis
    by (auto simp: LOCAL_OVERLAY_ALLOWLIST_def split: if_splits)
qed

section \<open>Checks of a component\<close>

record exemption =
  xm_component_id :: string
  xm_reason :: "string sourced"
  xm_origin :: origin

record check_setting =
  st_id :: string
  st_enabled :: "bool sourced option"
  st_required :: "bool sourced option"
  st_origin :: origin
  st_exemptions :: "exemption list"

definition exemption_for :: "check_setting \<Rightarrow> string \<Rightarrow> exemption option" where
  "exemption_for st component_id =
     List.find (\<lambda>x. xm_component_id x = component_id) (st_exemptions st)"

record effective_check =
  ef_id :: string
  ef_enabled :: "bool decided"
  ef_required :: "bool decided"
  ef_exempted_reason :: "string sourced option"

definition DEFAULTS_ORIGIN :: origin where
  "DEFAULTS_ORIGIN = \<lparr>og_file = ''<built-in defaults>'', og_key = []\<rparr>"

definition default_enabled :: "bool decided" where
  "default_enabled = \<lparr>dc_value = True, dc_origin = DEFAULTS_ORIGIN, dc_layer = L_DEFAULTS\<rparr>"

definition default_required :: "bool decided" where
  "default_required = \<lparr>dc_value = False, dc_origin = DEFAULTS_ORIGIN, dc_layer = L_DEFAULTS\<rparr>"

definition workspace_check :: "check_setting \<Rightarrow> effective_check" where
  "workspace_check st =
     \<lparr>ef_id = st_id st, ef_enabled = decide_from default_enabled (st_enabled st) L_ROOT,
      ef_required = decide_from default_required (st_required st) L_ROOT,
      ef_exempted_reason = None\<rparr>"

text \<open>\<open>_adjust\<close>: the adjusted check and the problems it adds.\<close>

definition adjust ::
    "string \<Rightarrow> effective_check \<Rightarrow> check_setting \<Rightarrow> check_setting option
     \<Rightarrow> effective_check \<times> config_problem list" where
  "adjust component_id base adjustment root_setting =
     (let enabled = decide_from (ef_enabled base) (st_enabled adjustment) L_COMPONENT;
          lowering =
            (case st_required adjustment of
               None \<Rightarrow> False
             | Some r \<Rightarrow> dc_value (ef_required base) \<and> \<not> so_value r);
          exempt =
            (case root_setting of None \<Rightarrow> None | Some st \<Rightarrow> exemption_for st component_id) in
      if lowering \<and> exempt = None
      then (\<lparr>ef_id = ef_id base, ef_enabled = enabled, ef_required = ef_required base,
             ef_exempted_reason = None\<rparr>,
            [\<lparr>cf_message = component_id @ '' cannot make '' @ st_id adjustment
                @ '' optional; the root requires it at '' @ origin_str (dc_origin (ef_required base)),
              cf_origin = (case st_required adjustment of Some r \<Rightarrow> so_origin r
                           | None \<Rightarrow> st_origin adjustment),
              cf_hint = Some (''if this is intended, the root grants it: [checks.'' @ st_id adjustment
                @ ''.exemptions.'' @ component_id @ ''] reason = '' @ CHR 0x22 # ''...'' @ [CHR 0x22])\<rparr>])
      else (\<lparr>ef_id = ef_id base, ef_enabled = enabled,
             ef_required = decide_from (ef_required base) (st_required adjustment) L_COMPONENT,
             ef_exempted_reason =
               (if lowering then map_option xm_reason exempt else None)\<rparr>, []))"

text \<open>\<open>{item.id: item for item in items}\<close>: a later item replaces an earlier one.\<close>

definition dict_of :: "('a \<Rightarrow> string) \<Rightarrow> 'a list \<Rightarrow> (string \<times> 'a) list" where
  "dict_of key xs = fold (\<lambda>x d. dict_set (key x) x d) xs []"

definition fresh_check :: "string \<Rightarrow> effective_check" where
  "fresh_check i =
     \<lparr>ef_id = i, ef_enabled = default_enabled, ef_required = default_required,
      ef_exempted_reason = None\<rparr>"

fun adjust_all ::
    "string \<Rightarrow> (string \<times> check_setting) list \<Rightarrow> check_setting list
     \<Rightarrow> (string \<times> effective_check) list \<times> config_problem list
     \<Rightarrow> (string \<times> effective_check) list \<times> config_problem list" where
  "adjust_all component_id settings [] acc = acc"
| "adjust_all component_id settings (a # rest) (composed, problems) =
     (let base = (case map_of composed (st_id a) of Some c \<Rightarrow> c | None \<Rightarrow> fresh_check (st_id a));
          (c, ps) = adjust component_id base a (map_of settings (st_id a)) in
      adjust_all component_id settings rest (dict_set (st_id a) c composed, problems @ ps))"

definition component_checks ::
    "string \<Rightarrow> check_setting list \<Rightarrow> check_setting list \<Rightarrow> effective_check list
     \<Rightarrow> effective_check list \<times> config_problem list" where
  "component_checks component_id body_checks root_settings workspace_checks =
     (let (composed, problems) =
        adjust_all component_id (dict_of st_id root_settings) body_checks
          (dict_of ef_id workspace_checks, []) in
      (map (\<lambda>k. the (map_of composed k)) (sort (map fst composed)), problems))"

text \<open>
  The invariant of the loop: without a problem, a check the workspace requires stays required,
  or the root exempted this component.
\<close>

definition kept ::
    "string \<Rightarrow> (string \<times> check_setting) list \<Rightarrow> (string \<times> effective_check) list
     \<Rightarrow> (string \<times> effective_check) list \<Rightarrow> bool" where
  "kept component_id settings base composed =
     (\<forall>k c. map_of base k = Some c \<longrightarrow> dc_value (ef_required c) \<longrightarrow>
        (\<exists>c'. map_of composed k = Some c' \<and>
          (dc_value (ef_required c') \<or>
           (\<exists>st x. map_of settings k = Some st \<and> exemption_for st component_id = Some x))))"

lemma decide_from_value:
  "dc_value (decide_from d c l) =
     (case c of None \<Rightarrow> dc_value d | Some s \<Rightarrow> if beats l (dc_layer d) then so_value s else dc_value d)"
  by (auto simp: decide_from_def decide_def split: option.splits)

lemma adjust_required:
  assumes "adjust cid base a rs = (c, [])"
  shows "dc_value (ef_required base) \<Longrightarrow>
    dc_value (ef_required c) \<or> (\<exists>st x. rs = Some st \<and> exemption_for st cid = Some x)"
  using assms
  by (auto simp: adjust_def Let_def decide_from_value split: if_splits option.splits)

lemma adjust_all_problems:
  "snd (adjust_all cid settings as (composed, problems)) = [] \<Longrightarrow> problems = []"
proof (induction as arbitrary: composed problems)
  case (Cons a as)
  then show ?case by (auto simp: Let_def split: prod.splits)
qed simp

lemma adjust_all_kept:
  "snd (adjust_all cid settings as (composed, [])) = [] \<Longrightarrow> kept cid settings base composed \<Longrightarrow>
     kept cid settings base (fst (adjust_all cid settings as (composed, [])))"
proof (induction as arbitrary: composed)
  case (Cons a as)
  let ?b = "case map_of composed (st_id a) of Some c \<Rightarrow> c | None \<Rightarrow> fresh_check (st_id a)"
  obtain c ps where c: "adjust cid ?b a (map_of settings (st_id a)) = (c, ps)" by force
  have ps: "ps = []"
    using adjust_all_problems [of cid settings as "dict_set (st_id a) c composed" ps] Cons.prems(1)
    by (simp add: c Let_def)
  have "kept cid settings base (dict_set (st_id a) c composed)"
    unfolding kept_def
  proof (intro allI impI)
    fix k d assume d: "map_of base k = Some d" "dc_value (ef_required d)"
    then obtain c' where c': "map_of composed k = Some c'" "dc_value (ef_required c') \<or>
        (\<exists>st x. map_of settings k = Some st \<and> exemption_for st cid = Some x)"
      using Cons.prems(2) unfolding kept_def by blast
    show "\<exists>c'. map_of (dict_set (st_id a) c composed) k = Some c' \<and> (dc_value (ef_required c') \<or>
        (\<exists>st x. map_of settings k = Some st \<and> exemption_for st cid = Some x))"
      using c' adjust_required [OF c [unfolded ps]] by (cases "k = st_id a") auto
  qed
  then show ?case
    using Cons.IH [of "dict_set (st_id a) c composed"] Cons.prems(1) by (simp add: c ps Let_def)
qed simp

lemma kept_refl: "kept cid settings base base"
  by (auto simp: kept_def)

lemma adjust_all_id:
  "(\<forall>k c. map_of composed k = Some c \<longrightarrow> ef_id c = k) \<Longrightarrow>
     map_of (fst (adjust_all cid settings as (composed, ps))) k = Some c \<Longrightarrow> ef_id c = k"
proof (induction as arbitrary: composed ps)
  case (Cons a as)
  let ?b = "case map_of composed (st_id a) of Some c \<Rightarrow> c | None \<Rightarrow> fresh_check (st_id a)"
  obtain d qs where d: "adjust cid ?b a (map_of settings (st_id a)) = (d, qs)" by force
  have "ef_id d = st_id a"
    using d Cons.prems(1)
    by (auto simp: adjust_def Let_def fresh_check_def split: if_splits option.splits)
  then have "map_of (dict_set (st_id a) d composed) k = Some c \<longrightarrow> ef_id c = k" for k c
    using Cons.prems(1) by (cases "k = st_id a") auto
  then have ids: "\<forall>k c. map_of (dict_set (st_id a) d composed) k = Some c \<longrightarrow> ef_id c = k"
    by blast
  have "map_of (fst (adjust_all cid settings as (dict_set (st_id a) d composed, ps @ qs))) k = Some c"
    using Cons.prems(2) by (simp only: adjust_all.simps Let_def d prod.case)
  with ids show ?case by (rule Cons.IH)
qed simp

lemma dict_of_fold:
  "map_of (fold (\<lambda>x d. dict_set (key x) x d) xs d) k = Some x \<Longrightarrow>
     map_of d k = Some x \<or> (x \<in> set xs \<and> key x = k)"
proof (induction xs arbitrary: d)
  case (Cons y ys)
  from Cons.IH [of "dict_set (key y) y d"] Cons.prems show ?case
    by (auto split: if_split_asm)
qed simp

lemma dict_of_some: "map_of (dict_of key xs) k = Some x \<Longrightarrow> x \<in> set xs \<and> key x = k"
  using dict_of_fold [of key xs "[]" k x] by (simp add: dict_of_def)

lemma dict_of_keep:
  "k \<notin> key ` set xs \<Longrightarrow> map_of (fold (\<lambda>x d. dict_set (key x) x d) xs d) k = map_of d k"
  by (induction xs arbitrary: d) auto

lemma dict_of_unique_fold:
  "distinct (map key xs) \<Longrightarrow> x \<in> set xs \<Longrightarrow>
     map_of (fold (\<lambda>x d. dict_set (key x) x d) xs d) (key x) = Some x"
  by (induction xs arbitrary: d) (auto simp: dict_of_keep)

lemma dict_of_unique:
  "distinct (map key xs) \<Longrightarrow> x \<in> set xs \<Longrightarrow> map_of (dict_of key xs) (key x) = Some x"
  by (simp add: dict_of_def dict_of_unique_fold)

text \<open>Composition without a problem relaxes no requirement the root did not exempt.\<close>

lemma component_checks_required:
  assumes comp: "component_checks cid body roots (map workspace_check roots) = (checks, [])"
    and dist: "distinct (map st_id roots)" and st: "st \<in> set roots"
    and req: "dc_value (ef_required (workspace_check st))"
  shows "\<exists>c \<in> set checks. ef_id c = st_id st \<and>
    (dc_value (ef_required c) \<or> exemption_for st cid \<noteq> None)"
proof -
  let ?ws = "dict_of ef_id (map workspace_check roots)" and ?set = "dict_of st_id roots"
  have ids: "map ef_id (map workspace_check roots) = map st_id roots"
    by (simp add: workspace_check_def)
  have base: "map_of ?ws (st_id st) = Some (workspace_check st)"
  proof -
    have "distinct (map ef_id (map workspace_check roots))" using dist ids by metis
    moreover have "workspace_check st \<in> set (map workspace_check roots)" using st by simp
    moreover have "ef_id (workspace_check st) = st_id st" by (simp add: workspace_check_def)
    ultimately show ?thesis using dict_of_unique by metis
  qed
  obtain composed where run: "adjust_all cid ?set body (?ws, []) = (composed, [])"
    and checks: "checks = map (\<lambda>k. the (map_of composed k)) (sort (map fst composed))"
    using comp by (auto simp: component_checks_def Let_def split: prod.splits)
  have "kept cid ?set ?ws composed"
    using adjust_all_kept [of cid ?set body ?ws ?ws] run kept_refl by simp
  then obtain c where c: "map_of composed (st_id st) = Some c" "dc_value (ef_required c) \<or>
      (\<exists>s x. map_of ?set (st_id st) = Some s \<and> exemption_for s cid = Some x)"
    using base req unfolding kept_def by blast
  have "st_id st \<in> set (map fst composed)" using c(1) by (force dest: map_of_SomeD)
  then have "c \<in> set checks" using c(1) unfolding checks by force
  moreover have "\<forall>k d. map_of ?ws k = Some d \<longrightarrow> ef_id d = k" using dict_of_some by metis
  then have "ef_id c = st_id st" using adjust_all_id [of ?ws cid ?set body "[]" "st_id st" c] run c(1) by simp
  moreover have "map_of ?set (st_id st) = Some st" using dict_of_unique [OF dist st] .
  ultimately show ?thesis using c(2) by auto
qed

end
