(* ===== verification/Process.thy ===== *)
theory Process
  imports Tasks
begin

text \<open>
  Running one task and reading what it meant (src/src/ici/execution/process.py,
  src/src/ici/execution/cancellation.py, src/src/ici/adapters/providers/base.py).  An outcome is a
  reason, the exit code is data inside it, and the provider's contract says which exit codes are
  answers.  What the operating system does is an argument: \<open>spawn\<close> gives the process result and
  what the watchdog did, or the exception that kept the process from starting.
\<close>

section \<open>Cancellation\<close>

record cancellation =
  cn_requested :: bool
  cn_reason :: string

definition new_cancellation :: cancellation where
  "new_cancellation = \<lparr>cn_requested = False, cn_reason = []\<rparr>"

definition cancel :: "string \<Rightarrow> cancellation \<Rightarrow> cancellation" where
  "cancel reason c = (if cn_requested c then c else \<lparr>cn_requested = True, cn_reason = reason\<rparr>)"

text \<open>However many requests follow, the first one stands.\<close>

lemma cancel_first: "fold cancel reasons (cancel r new_cancellation) = cancel r new_cancellation"
  by (induction reasons) (auto simp: cancel_def new_cancellation_def)

section \<open>Outcomes\<close>

datatype outcome =
  FINISHED | TIMED_OUT | SIGNALLED | OUTPUT_TRUNCATED | START_FAILED | OUT_CANCELLED

fun outcome_value :: "outcome \<Rightarrow> string" where
  "outcome_value FINISHED = ''finished''"
| "outcome_value TIMED_OUT = ''timed-out''"
| "outcome_value SIGNALLED = ''signalled''"
| "outcome_value OUTPUT_TRUNCATED = ''output-truncated''"
| "outcome_value START_FAILED = ''start-failed''"
| "outcome_value OUT_CANCELLED = ''cancelled''"

definition ran_to_completion :: "outcome \<Rightarrow> bool" where
  "ran_to_completion oc = (oc = FINISHED)"

datatype interpretation_of_run = IN_SUCCEEDED | FOUND_FINDINGS | IN_FAILED | DID_NOT_RUN

definition is_an_answer :: "interpretation_of_run \<Rightarrow> bool" where
  "is_an_answer i = (i \<in> {IN_SUCCEEDED, FOUND_FINDINGS})"

record exit_contract =
  ec_success :: "int list"
  ec_findings :: "int list"

definition ExitContract_init :: "int list \<Rightarrow> int list \<Rightarrow> exit_contract result" where
  "ExitContract_init success findings =
     (let overlap = filter (\<lambda>n. n \<in> set findings) success in
      raise_if (overlap \<noteq> [])
        (ValueError ''exit code {} cannot mean two things at once'' (map show_int (sorted_set overlap)))
     (Inr \<lparr>ec_success = success, ec_findings = findings\<rparr>))"

definition STRICT :: exit_contract where
  "STRICT = \<lparr>ec_success = [0], ec_findings = []\<rparr>"

definition contract_ok :: "exit_contract \<Rightarrow> bool" where
  "contract_ok c = (set (ec_success c) \<inter> set (ec_findings c) = {})"

lemma ExitContract_init_iff:
  "ExitContract_init s f = Inr c \<longleftrightarrow> contract_ok c \<and> s = ec_success c \<and> f = ec_findings c"
  by (cases c) (auto simp: ExitContract_init_def Let_def result_iff contract_ok_def filter_empty_conv)

section \<open>Processes\<close>

record process_spec =
  ps_argv :: "string list"
  ps_name :: string
  ps_cwd :: "string option"
  ps_environment :: "(string \<times> string) list"
  ps_timeout :: rat
  ps_output_limit :: int
  ps_work_dirs :: "string list"
  ps_grace :: rat

definition DEFAULT_OUTPUT_LIMIT :: int where
  "DEFAULT_OUTPUT_LIMIT = 1000000"

definition DEFAULT_GRACE :: rat where
  "DEFAULT_GRACE = 2"

text \<open>\<open>Path(argv[0]).name\<close>.\<close>

definition path_name :: "string \<Rightarrow> string" where
  "path_name s = (if posix_parts s = [] then [] else last (posix_parts s))"

definition ProcessSpec_init ::
    "string list \<Rightarrow> string \<Rightarrow> string option \<Rightarrow> (string \<times> string) list \<Rightarrow> rat \<Rightarrow> int
     \<Rightarrow> string list \<Rightarrow> rat \<Rightarrow> process_spec result" where
  "ProcessSpec_init argv name cwd environment timeout output_limit work_dirs grace =
     raise_if (argv = []) (ValueError ''a task must have a command'' [])
    (raise_if (timeout \<le> 0) (ValueError ''a task timeout must be positive'' [])
    (raise_if (grace < 0) (ValueError ''a task grace period cannot be negative'' [])
    (Inr \<lparr>ps_argv = argv, ps_name = (if name = [] then path_name (hd argv) else name),
          ps_cwd = cwd, ps_environment = environment, ps_timeout = timeout,
          ps_output_limit = output_limit, ps_work_dirs = work_dirs, ps_grace = grace\<rparr>)))"

text \<open>
  \<open>Cleanup\<close> (execution/tree.py) with the fields read here, and the watchdog at the end of a run:
  \<open>wd_cancelled\<close> is \<open>trigger == Trigger.CANCELLED\<close>.
\<close>

record cleanup =
  cl_reason :: string
  cl_interrupted :: bool
  cl_survivors :: "int list option"

definition is_clean :: "cleanup \<Rightarrow> bool" where
  "is_clean c = (cl_survivors c = Some [])"

record watchdog =
  wd_cleanup :: "cleanup option"
  wd_cancelled :: bool

text \<open>\<open>ProcessResult\<close> of the bounded runner (core/runner.py).\<close>

record process_result =
  pr_returncode :: int
  pr_stdout :: string
  pr_stderr :: string
  pr_duration :: pyfloat
  pr_timed_out :: bool
  pr_truncated :: bool

record task_outcome =
  to_spec :: process_spec
  to_outcome :: outcome
  to_exit_code :: int
  to_stdout :: string
  to_stderr :: string
  to_duration :: pyfloat
  to_detail :: string
  to_truncated :: bool
  to_cleanup :: "cleanup option"

definition outcome_signal :: "task_outcome \<Rightarrow> int option" where
  "outcome_signal r = (if to_exit_code r < 0 then Some (- to_exit_code r) else None)"

definition outcome_log :: "task_outcome \<Rightarrow> string" where
  "outcome_log r =
     (let body = to_stdout r @ to_stderr r in
      if \<not> to_truncated r then body
      else body @ CHR 0x0A # ''[ici: capture stopped at '' @ show_int (ps_output_limit (to_spec r))
        @ '' characters per stream; the rest of this log was never read]'' @ [CHR 0x0A])"

definition cleaned_up :: "task_outcome \<Rightarrow> bool" where
  "cleaned_up r = (case to_cleanup r of None \<Rightarrow> False | Some c \<Rightarrow> is_clean c)"

definition parseable :: "task_outcome \<Rightarrow> string" where
  "parseable r = (if ran_to_completion (to_outcome r) then to_stdout r else [])"

definition read_contract :: "exit_contract \<Rightarrow> task_outcome \<Rightarrow> interpretation_of_run" where
  "read_contract c r =
     (if \<not> ran_to_completion (to_outcome r) then DID_NOT_RUN
      else if to_exit_code r \<in> set (ec_success c) then IN_SUCCEEDED
      else if to_exit_code r \<in> set (ec_findings c) then FOUND_FINDINGS
      else IN_FAILED)"

section \<open>Running and classifying\<close>

definition interruption :: "watchdog \<Rightarrow> (outcome \<times> string) option" where
  "interruption w =
     (case wd_cleanup w of
        None \<Rightarrow> None
      | Some c \<Rightarrow>
          if \<not> cl_interrupted c then None
          else if wd_cancelled w
          then Some (OUT_CANCELLED, if cl_reason c = [] then ''cancelled'' else cl_reason c)
          else Some (TIMED_OUT, if cl_reason c = [] then ''stopped by the watchdog'' else cl_reason c))"

text \<open>\<open>show_g\<close> is the format \<open>:g\<close> of a float.\<close>

definition run_reason ::
    "(rat \<Rightarrow> string) \<Rightarrow> process_spec \<Rightarrow> process_result \<Rightarrow> watchdog \<Rightarrow> outcome \<times> string" where
  "run_reason show_g spec r w =
     (case interruption w of
        Some i \<Rightarrow> i
      | None \<Rightarrow>
          if pr_timed_out r then (TIMED_OUT, ''no answer within '' @ show_g (ps_timeout spec) @ ''s'')
          else if pr_returncode r < 0
          then (SIGNALLED, ''killed by signal '' @ show_int (- pr_returncode r))
          else if pr_truncated r
          then (OUTPUT_TRUNCATED,
                ''more than '' @ show_int (ps_output_limit spec) @ '' characters of output'')
          else (FINISHED, []))"

definition classify ::
    "(rat \<Rightarrow> string) \<Rightarrow> process_spec \<Rightarrow> process_result \<Rightarrow> watchdog \<Rightarrow> task_outcome" where
  "classify show_g spec r w =
     (let (oc, detail) = run_reason show_g spec r w in
      \<lparr>to_spec = spec, to_outcome = oc, to_exit_code = pr_returncode r, to_stdout = pr_stdout r,
       to_stderr = pr_stderr r, to_duration = pr_duration r, to_detail = detail,
       to_truncated = pr_truncated r, to_cleanup = wd_cleanup w\<rparr>)"

text \<open>
  \<open>run_task\<close>: \<open>elapsed\<close> is the clock when starting failed.  Only \<open>OSError\<close> and \<open>ValueError\<close> are
  caught.
\<close>

definition is_os_error :: "exn \<Rightarrow> bool" where
  "is_os_error e = (case e of OSErr _ \<Rightarrow> True | _ \<Rightarrow> False)"

definition run_spawned ::
    "(rat \<Rightarrow> string) \<Rightarrow> (process_spec \<Rightarrow> (process_result \<times> watchdog) result) \<Rightarrow> pyfloat
     \<Rightarrow> process_spec \<Rightarrow> task_outcome result" where
  "run_spawned show_g spawn elapsed spec =
     (case spawn spec of
        Inl e \<Rightarrow>
          if is_os_error e \<or> is_value_error e
          then Inr \<lparr>to_spec = spec, to_outcome = START_FAILED, to_exit_code = - 1, to_stdout = [],
                 to_stderr = [], to_duration = elapsed, to_detail = exn_text e,
                 to_truncated = False, to_cleanup = None\<rparr>
          else Inl e
      | Inr (r, w) \<Rightarrow> Inr (classify show_g spec r w))"

definition run_task ::
    "(rat \<Rightarrow> string) \<Rightarrow> (process_spec \<Rightarrow> (process_result \<times> watchdog) result) \<Rightarrow> pyfloat
     \<Rightarrow> process_spec \<Rightarrow> cancellation option \<Rightarrow> task_outcome result" where
  "run_task show_g spawn elapsed spec cancellation =
     (case cancellation of
        Some c \<Rightarrow>
          if cn_requested c
          then Inr \<lparr>to_spec = spec, to_outcome = OUT_CANCELLED, to_exit_code = - 1, to_stdout = [],
                 to_stderr = [], to_duration = Fin 0,
                 to_detail = (if cn_reason c = [] then ''cancelled before it started'' else cn_reason c),
                 to_truncated = False,
                 to_cleanup = Some \<lparr>cl_reason = ''nothing was started'', cl_interrupted = False,
                   cl_survivors = Some []\<rparr>\<rparr>
          else run_spawned show_g spawn elapsed spec
      | None \<Rightarrow> run_spawned show_g spawn elapsed spec)"

section \<open>Observing\<close>

record provider_plan =
  pp_task :: task_spec
  pp_contract :: exit_contract

record parsed_output =
  po_findings :: "finding list"
  po_measurements :: "measurement list"
  po_limitations :: "string list"
  po_failed_to_parse :: string

definition is_readable :: "parsed_output \<Rightarrow> bool" where
  "is_readable p = (po_failed_to_parse p = [])"

text \<open>A provider: its name and its parser, which may raise.\<close>

record provider =
  pv_name :: string
  pv_parse :: "task_outcome \<Rightarrow> parsed_output result"

definition state_for :: "task_outcome \<Rightarrow> task_state" where
  "state_for r =
     (if to_outcome r = OUT_CANCELLED then CANCELLED
      else if to_outcome r = START_FAILED then BLOCKED
      else FAILED)"

definition limitation :: "task_outcome \<Rightarrow> interpretation_of_run \<Rightarrow> string" where
  "limitation r i =
     (if i = IN_FAILED
      then ps_name (to_spec r) @ '' failed with exit code '' @ show_int (to_exit_code r)
      else ps_name (to_spec r) @ '' '' @ outcome_value (to_outcome r)
           @ (if to_detail r = [] then [] else '': '' @ to_detail r))"

definition observe ::
    "provider \<Rightarrow> provider_plan \<Rightarrow> task_outcome \<Rightarrow> parsed_output option \<Rightarrow> observation result" where
  "observe p plan r parsed =
     (let i = read_contract (pp_contract plan) r; tid = PStr (ts_id (pp_task plan));
          timed_out = PBool (to_outcome r = TIMED_OUT) in
      if \<not> is_an_answer i
      then Observation_init tid (PStr (pv_name p)) (state_for r) [] [] (PInt (to_exit_code r))
             (opt_val (\<lambda>n. PStr (show_int n)) (outcome_signal r)) timed_out
             (PBool (to_truncated r)) (PFloat (to_duration r)) (PTuple []) (strs [limitation r i])
      else
        bindr (case parsed of Some x \<Rightarrow> Inr x | None \<Rightarrow> pv_parse p r) (\<lambda>read.
        if \<not> is_readable read
        then Observation_init tid (PStr (pv_name p)) FAILED [] [] (PInt (to_exit_code r)) PNone
               timed_out (PBool (to_truncated r)) (PFloat (to_duration r)) (PTuple [])
               (strs [po_failed_to_parse read])
        else Observation_init tid (PStr (pv_name p)) SUCCEEDED (po_findings read)
               (po_measurements read) (PInt (to_exit_code r)) PNone timed_out
               (PBool (to_truncated r)) (PFloat (to_duration r)) (PTuple [])
               (strs (po_limitations read))))"

definition unavailable :: "string \<Rightarrow> string \<Rightarrow> string \<Rightarrow> task_state \<Rightarrow> observation result" where
  "unavailable provider_name task_id reason state =
     Observation_init (PStr task_id) (PStr provider_name) state [] [] PNone PNone (PBool False)
       (PBool False) PNone (PTuple []) (strs [reason])"

section \<open>What a run can become\<close>

lemma read_contract_answer:
  "is_an_answer (read_contract c r) \<longleftrightarrow>
     to_outcome r = FINISHED \<and> to_exit_code r \<in> set (ec_success c) \<union> set (ec_findings c)"
  by (auto simp: read_contract_def is_an_answer_def ran_to_completion_def)

text \<open>A run is read as finished exactly when nothing cut it short.\<close>

lemma classify_finished:
  "to_outcome (classify g spec r w) = FINISHED \<longleftrightarrow>
     interruption w = None \<and> \<not> pr_timed_out r \<and> 0 \<le> pr_returncode r \<and> \<not> pr_truncated r"
  by (auto simp: classify_def run_reason_def interruption_def not_less
      split: option.splits prod.splits)

lemma classify_fields:
  "to_exit_code (classify g spec r w) = pr_returncode r"
  "to_truncated (classify g spec r w) = pr_truncated r"
  "to_stdout (classify g spec r w) = pr_stdout r"
  by (simp_all add: classify_def split: prod.splits)

lemma interruption_reason:
  "interruption w = Some i \<Longrightarrow> to_outcome (classify g spec r w) = fst i"
  by (simp add: classify_def run_reason_def split: prod.splits)

lemma observe_no_answer:
  assumes "\<not> is_an_answer (read_contract (pp_contract plan) r)"
    and "observe p plan r parsed = Inr ob"
  shows "ob_state ob = state_for r" "ob_findings ob = []" "ob_measurements ob = []"
    "ob_limitations ob = [limitation r (read_contract (pp_contract plan) r)]"
  using assms by (auto simp: observe_def Let_def Observation_init_iff)

lemma observe_state:
  assumes "observe p plan r None = Inr ob"
  shows "ob_state ob = SUCCEEDED \<longleftrightarrow>
    is_an_answer (read_contract (pp_contract plan) r) \<and> (\<exists>q. pv_parse p r = Inr q \<and> is_readable q)"
  using assms
  by (auto simp: observe_def Let_def Observation_init_iff result_iff state_for_def split: if_splits)

lemma observe_succeeded:
  assumes "observe p plan r None = Inr ob" "ob_state ob = SUCCEEDED"
  obtains q where "pv_parse p r = Inr q" "is_readable q" "ob_findings ob = po_findings q"
    "ob_measurements ob = po_measurements q" "ob_limitations ob = po_limitations q"
    "to_outcome r = FINISHED"
  using assms read_contract_answer [of "pp_contract plan" r]
  by (auto simp: observe_def Let_def Observation_init_iff result_iff state_for_def split: if_splits)

lemma observe_flags:
  assumes "observe p plan r parsed = Inr ob"
  shows "ob_truncated ob = to_truncated r" "ob_timed_out ob = (to_outcome r = TIMED_OUT)"
    "ob_exit_code ob = Some (to_exit_code r)" "ob_task_id ob = ts_id (pp_task plan)"
    "ob_provider ob = pv_name p"
  using assms
  by (auto simp: observe_def Let_def Observation_init_iff result_iff opt_val_def
      split: if_splits option.splits)

lemma unavailable_iff:
  "unavailable pn tid reason st = Inr ob \<longleftrightarrow>
     identifier_ok tid \<and> identifier_ok pn \<and> text_ok reason \<and>
     ob = \<lparr>ob_task_id = tid, ob_provider = pn, ob_state = st, ob_findings = [],
       ob_measurements = [], ob_exit_code = None, ob_signal = None, ob_timed_out = False,
       ob_truncated = False, ob_duration_seconds = None, ob_tool_versions = [],
       ob_limitations = [reason]\<rparr>"
  by (cases ob)
    (auto simp: unavailable_def Observation_init_iff observation_fields_ok_def opt_val_def
      version_pairs_def split: option.splits)

lemma unavailable_no_evidence:
  "unavailable pn tid reason st = Inr ob \<Longrightarrow> st \<noteq> SUCCEEDED \<Longrightarrow> \<not> evidence_is_complete ob"
  by (simp add: unavailable_iff evidence_is_complete_def)

end
