(* ===== verification/Selection.thy ===== *)
theory Selection
  imports Config Process
begin

text \<open>
  From a component's declared checks to the plan of a run: the check definition
  (src/src/ici/languages/checks.py), the planned check and the plan
  (src/src/ici/application/plan.py), and the selection that builds them
  (src/src/ici/application/selection.py).  Where a tool is and which work a provider plans for a
  check are arguments, as they are in the code.
\<close>

section \<open>Check definitions\<close>

record check_definition =
  ck_id :: string
  ck_title :: string
  ck_language :: string
  ck_tool :: "string option"
  ck_required :: bool
  ck_profiles :: "profile set"
  ck_needs :: "string list"
  ck_provides :: "string list"
  ck_static :: bool

definition CheckDefinition_init :: "check_definition \<Rightarrow> check_definition result" where
  "CheckDefinition_init c =
     raise_if (ck_id c = []) (ValueError ''a check must have an id'' [])
    (raise_if (ck_profiles c = {})
       (ValueError ''check {} must belong to at least one profile'' [ck_id c])
    (raise_if (list_ex (\<lambda>n. n \<in> set (ck_provides c)) (ck_needs c))
       (ValueError ''check {} cannot produce an input it consumes'' [ck_id c])
    (Inr c)))"

definition check_ok :: "check_definition \<Rightarrow> bool" where
  "check_ok c =
     (ck_id c \<noteq> [] \<and> ck_profiles c \<noteq> {} \<and> set (ck_needs c) \<inter> set (ck_provides c) = {})"

lemma CheckDefinition_init_iff [result_iff]: "CheckDefinition_init c = Inr d \<longleftrightarrow> check_ok c \<and> d = c"
  by (auto simp: CheckDefinition_init_def result_iff check_ok_def list_ex_iff)

section \<open>Plans\<close>

record planned_check =
  pc_check :: check_definition
  pc_task :: "provider_plan option"
  pc_blocked :: string
  pc_task_id :: string

definition PlannedCheck_init ::
    "check_definition \<Rightarrow> provider_plan option \<Rightarrow> string \<Rightarrow> string \<Rightarrow> planned_check result" where
  "PlannedCheck_init check task blocked task_id =
     raise_if (task \<noteq> None \<and> blocked \<noteq> [])
       (ValueError ''{} cannot be both planned and blocked'' [ck_id check])
    (if task_id = []
     then Inr \<lparr>pc_check = check, pc_task = task, pc_blocked = blocked,
                pc_task_id = (case task of Some t \<Rightarrow> ts_id (pp_task t) | None \<Rightarrow> ck_id check)\<rparr>
     else
       raise_if (case task of Some t \<Rightarrow> ts_id (pp_task t) \<noteq> task_id | None \<Rightarrow> False)
         (ValueError ''{} task id {!r} disagrees with its task {!r}''
            [ck_id check, task_id,
             (case task of Some t \<Rightarrow> ts_id (pp_task t) | None \<Rightarrow> [])])
      (Inr \<lparr>pc_check = check, pc_task = task, pc_blocked = blocked, pc_task_id = task_id\<rparr>))"

definition will_run :: "planned_check \<Rightarrow> bool" where
  "will_run p = (pc_blocked p = [])"

definition is_internal :: "planned_check \<Rightarrow> bool" where
  "is_internal p = (will_run p \<and> pc_task p = None)"

definition planned_ok :: "planned_check \<Rightarrow> bool" where
  "planned_ok p =
     (case pc_task p of None \<Rightarrow> True
      | Some t \<Rightarrow> pc_blocked p = [] \<and> ts_id (pp_task t) = pc_task_id p)"

lemma PlannedCheck_init_iff [result_iff]:
  "task_id \<noteq> [] \<Longrightarrow> PlannedCheck_init check task blocked task_id = Inr p \<longleftrightarrow>
     planned_ok p \<and>
     p = \<lparr>pc_check = check, pc_task = task, pc_blocked = blocked, pc_task_id = task_id\<rparr>"
  by (cases task) (auto simp: PlannedCheck_init_def result_iff planned_ok_def)

lemma PlannedCheck_init_ok: "PlannedCheck_init check task blocked task_id = Inr p \<Longrightarrow> planned_ok p"
  by (cases task) (auto simp: PlannedCheck_init_def result_iff planned_ok_def split: if_splits)

record plan =
  pl_checks :: "planned_check list"

text \<open>The loop of \<open>Plan.__post_init__\<close>, with the ids seen so far.\<close>

fun check_plan :: "string list \<Rightarrow> planned_check list \<Rightarrow> unit result" where
  "check_plan seen [] = Inr ()"
| "check_plan seen (p # ps) =
     raise_if (pc_task_id p \<in> set seen) (ValueError ''{} was selected twice'' [pc_task_id p])
    (raise_if (case pc_task p of Some t \<Rightarrow> ts_depends_on (pp_task t) \<noteq> [] | None \<Rightarrow> False)
       (ValueError ''{} declares dependencies, which this plan cannot order'' [ck_id (pc_check p)])
    (check_plan (pc_task_id p # seen) ps))"

definition Plan_init :: "planned_check list \<Rightarrow> plan result" where
  "Plan_init checks =
     raise_if (checks = []) (NothingSelected ''no check was selected'' [])
    (bindr (check_plan [] checks) (\<lambda>_. Inr \<lparr>pl_checks = checks\<rparr>))"

definition plan_blocked :: "plan \<Rightarrow> planned_check list" where
  "plan_blocked p = filter (\<lambda>c. \<not> will_run c) (pl_checks p)"

definition required_blocked :: "plan \<Rightarrow> planned_check list" where
  "required_blocked p = filter (\<lambda>c. ck_required (pc_check c)) (plan_blocked p)"

definition plan_line :: "planned_check \<Rightarrow> string" where
  "plan_line p =
     (if pc_blocked p \<noteq> []
      then ''  '' @ ck_id (pc_check p) @ '': blocked '' @ em_dash @ '' '' @ pc_blocked p
      else
        (case pc_task p of
           None \<Rightarrow> ''  '' @ ck_id (pc_check p) @ '': '' @ ck_title (pc_check p) @ '' (ici)''
         | Some t \<Rightarrow> ''  '' @ ck_id (pc_check p) @ '': '' @ join '' '' (ts_argv (pp_task t))))"

definition plan_str :: "plan \<Rightarrow> string" where
  "plan_str p = join [CHR 0x0A] (map plan_line (pl_checks p))"

definition orders_nothing :: "planned_check \<Rightarrow> bool" where
  "orders_nothing p = (case pc_task p of Some t \<Rightarrow> ts_depends_on (pp_task t) = [] | None \<Rightarrow> True)"

lemma check_plan_iff [result_iff]:
  "check_plan seen ps = Inr u \<longleftrightarrow>
     distinct (map pc_task_id ps) \<and> set (map pc_task_id ps) \<inter> set seen = {}
     \<and> list_all orders_nothing ps"
  by (induction ps arbitrary: seen)
    (auto simp: result_iff orders_nothing_def split: option.splits)

lemma Plan_init_iff [result_iff]:
  "Plan_init checks = Inr p \<longleftrightarrow>
     checks \<noteq> [] \<and> distinct (map pc_task_id checks) \<and> list_all orders_nothing checks
     \<and> p = \<lparr>pl_checks = checks\<rparr>"
  by (auto simp: Plan_init_def result_iff)

section \<open>Which checks a component runs\<close>

record omitted =
  om_check :: check_definition
  om_reason :: string

record check_selection =
  cs_selected :: "check_definition list"
  cs_omitted :: "omitted list"

text \<open>\<open>_with_required\<close> and \<open>_with_scope\<close> construct the check again.\<close>

definition with_required :: "check_definition \<Rightarrow> bool \<Rightarrow> check_definition result" where
  "with_required check required = CheckDefinition_init (check\<lparr>ck_required := required\<rparr>)"

definition scoped_name :: "string \<Rightarrow> string \<Rightarrow> string" where
  "scoped_name prefix name = prefix @ ''.'' @ name"

definition with_scope :: "check_definition \<Rightarrow> string \<Rightarrow> check_definition result" where
  "with_scope check prefix =
     (if ck_needs check = [] \<and> ck_provides check = [] then Inr check
      else CheckDefinition_init
        (check\<lparr>ck_needs := map (scoped_name prefix) (ck_needs check),
               ck_provides := map (scoped_name prefix) (ck_provides check)\<rparr>))"

definition not_in_profile :: "check_definition \<Rightarrow> profile \<Rightarrow> omitted" where
  "not_in_profile check pf =
     \<lparr>om_check = check,
       om_reason = ''not in profile '' @ [CHR 0x27] @ profile_value pf @ [CHR 0x27]\<rparr>"

definition is_disabled :: "check_definition \<Rightarrow> omitted" where
  "is_disabled check = \<lparr>om_check = check, om_reason = ''disabled''\<rparr>"

text \<open>
  The two loops, over the checks the registry has: the first over a component document's own
  settings, the second over the composed checks.
\<close>

fun choose_checks ::
    "(string \<times> check_setting) list \<Rightarrow> profile \<Rightarrow> check_definition list
     \<Rightarrow> check_definition list \<Rightarrow> omitted list \<Rightarrow> check_selection result" where
  "choose_checks settings pf [] chosen om = Inr \<lparr>cs_selected = chosen, cs_omitted = om\<rparr>"
| "choose_checks settings pf (check # rest) chosen om =
     (if pf \<notin> ck_profiles check
      then choose_checks settings pf rest chosen (om @ [not_in_profile check pf])
      else
        (let setting = map_of settings (ck_id check) in
         if (case setting of None \<Rightarrow> False
             | Some s \<Rightarrow> (case st_enabled s of None \<Rightarrow> False | Some v \<Rightarrow> \<not> so_value v))
         then choose_checks settings pf rest chosen (om @ [is_disabled check])
         else
           (let required =
              (case setting of None \<Rightarrow> ck_required check
               | Some s \<Rightarrow> (case st_required s of None \<Rightarrow> ck_required check | Some v \<Rightarrow> so_value v)) in
            bindr (if required = ck_required check then Inr check else with_required check required)
              (\<lambda>c. choose_checks settings pf rest (chosen @ [c]) om))))"

definition selected_checks ::
    "check_setting list \<Rightarrow> check_definition list \<Rightarrow> profile \<Rightarrow> check_selection result" where
  "selected_checks settings available pf =
     choose_checks (dict_of st_id settings) pf available [] []"

fun choose_effective ::
    "(string \<times> effective_check) list \<Rightarrow> profile \<Rightarrow> check_definition list
     \<Rightarrow> check_definition list \<Rightarrow> omitted list \<Rightarrow> check_selection result" where
  "choose_effective settings pf [] chosen om = Inr \<lparr>cs_selected = chosen, cs_omitted = om\<rparr>"
| "choose_effective settings pf (check # rest) chosen om =
     (if pf \<notin> ck_profiles check
      then choose_effective settings pf rest chosen (om @ [not_in_profile check pf])
      else
        (let decided = map_of settings (ck_id check) in
         if (case decided of None \<Rightarrow> False | Some d \<Rightarrow> \<not> dc_value (ef_enabled d))
         then choose_effective settings pf rest chosen (om @ [is_disabled check])
         else
           (let required =
              (case decided of None \<Rightarrow> ck_required check | Some d \<Rightarrow> dc_value (ef_required d)) in
            bindr (if required = ck_required check then Inr check else with_required check required)
              (\<lambda>c. choose_effective settings pf rest (chosen @ [c]) om))))"

definition selected_effective_checks ::
    "effective_check list \<Rightarrow> check_definition list \<Rightarrow> profile \<Rightarrow> check_selection result" where
  "selected_effective_checks checks available pf =
     choose_effective (dict_of ef_id checks) pf available [] []"

section \<open>The plan of one component\<close>

type_synonym planner = "check_definition \<Rightarrow> string \<Rightarrow> string \<Rightarrow> provider_plan result"

definition needs_a_tool :: "check_definition \<Rightarrow> bool" where
  "needs_a_tool c = (ck_tool c \<noteq> None)"

text \<open>
  The body of the loop of \<open>_plan_for\<close>: the check under its scoped names, then what will happen
  to it.
\<close>

definition scoped_id :: "string \<Rightarrow> check_definition \<Rightarrow> string" where
  "scoped_id prefix c = (if prefix = [] then ck_id c else scoped_name prefix (ck_id c))"

definition scoped_check :: "string \<Rightarrow> check_definition \<Rightarrow> check_definition result" where
  "scoped_check prefix c = (if prefix = [] then Inr c else with_scope c prefix)"

definition plan_scoped ::
    "(string \<Rightarrow> string option) \<Rightarrow> planner \<Rightarrow> profile \<Rightarrow> (check_definition \<Rightarrow> bool) option
     \<Rightarrow> string \<Rightarrow> check_definition \<Rightarrow> planned_check result" where
  "plan_scoped locate plan_work pf in_scope task_id check =
     (if (case in_scope of None \<Rightarrow> False | Some p \<Rightarrow> \<not> p check)
      then PlannedCheck_init check None (''no sources in scope for '' @ ck_language check) task_id
      else
        (case ck_tool check of
           None \<Rightarrow> PlannedCheck_init check None [] task_id
         | Some tool \<Rightarrow>
             (case locate tool of
                None \<Rightarrow> PlannedCheck_init check None (tool @ '' is not available'') task_id
              | Some executable \<Rightarrow>
                  bindr (plan_work check executable task_id) (\<lambda>work.
                  if pf = FAST \<and> mutating (pp_task work)
                  then PlannedCheck_init check None
                    (''profile '' @ [CHR 0x27] @ ''fast'' @ [CHR 0x27] @ '' does not run prepare tasks'')
                    task_id
                  else PlannedCheck_init check (Some work) [] task_id))))"

definition plan_check ::
    "(string \<Rightarrow> string option) \<Rightarrow> planner \<Rightarrow> string \<Rightarrow> profile
     \<Rightarrow> (check_definition \<Rightarrow> bool) option \<Rightarrow> check_definition \<Rightarrow> planned_check result" where
  "plan_check locate plan_work prefix pf in_scope check =
     bindr (scoped_check prefix check)
       (plan_scoped locate plan_work pf in_scope (scoped_id prefix check))"

definition plan_for ::
    "check_definition list \<Rightarrow> (string \<Rightarrow> string option) \<Rightarrow> planner \<Rightarrow> string \<Rightarrow> string \<Rightarrow> profile
     \<Rightarrow> (check_definition \<Rightarrow> bool) option \<Rightarrow> plan result" where
  "plan_for checks locate plan_work who task_prefix pf in_scope =
     raise_if (checks = [])
       (NothingSelected ''{} selected no check; a run that checks nothing cannot pass'' [who])
    (bindr (mapr (plan_check locate plan_work task_prefix pf in_scope) checks) Plan_init)"

definition select ::
    "check_setting list \<Rightarrow> (string \<Rightarrow> string option) \<Rightarrow> planner \<Rightarrow> check_definition list \<Rightarrow> string
     \<Rightarrow> profile \<Rightarrow> (check_definition \<Rightarrow> bool) option \<Rightarrow> plan result" where
  "select settings locate plan_work available task_prefix pf in_scope =
     bindr (selected_checks settings available pf) (\<lambda>s.
     plan_for (cs_selected s) locate plan_work ''this component'' task_prefix pf in_scope)"

definition select_effective ::
    "string \<Rightarrow> effective_check list \<Rightarrow> (string \<Rightarrow> string option) \<Rightarrow> planner \<Rightarrow> check_definition list
     \<Rightarrow> string \<Rightarrow> profile \<Rightarrow> (check_definition \<Rightarrow> bool) option \<Rightarrow> plan result" where
  "select_effective component_id checks locate plan_work available task_prefix pf in_scope =
     bindr (selected_effective_checks checks available pf) (\<lambda>s.
     plan_for (cs_selected s) locate plan_work component_id task_prefix pf in_scope)"

section \<open>What is selected\<close>

text \<open>A check is asked for when the profile has it and no layer disabled it.\<close>

definition asked_for :: "(string \<times> effective_check) list \<Rightarrow> profile \<Rightarrow> check_definition \<Rightarrow> bool" where
  "asked_for settings pf c \<longleftrightarrow> pf \<in> ck_profiles c \<and>
     (case map_of settings (ck_id c) of None \<Rightarrow> True | Some d \<Rightarrow> dc_value (ef_enabled d))"

definition decided_required :: "(string \<times> effective_check) list \<Rightarrow> check_definition \<Rightarrow> bool" where
  "decided_required settings c =
     (case map_of settings (ck_id c) of None \<Rightarrow> ck_required c | Some d \<Rightarrow> dc_value (ef_required d))"

definition omission :: "profile \<Rightarrow> check_definition \<Rightarrow> omitted" where
  "omission pf c = (if pf \<notin> ck_profiles c then not_in_profile c pf else is_disabled c)"

lemma with_required_eval: "check_ok c \<Longrightarrow> with_required c r = Inr (c\<lparr>ck_required := r\<rparr>)"
  by (simp add: with_required_def CheckDefinition_init_iff check_ok_def)

lemma choose_effective_eq:
  "list_all check_ok available \<Longrightarrow>
     choose_effective settings pf available chosen om = Inr
       \<lparr>cs_selected = chosen @ map (\<lambda>c. c\<lparr>ck_required := decided_required settings c\<rparr>)
          (filter (asked_for settings pf) available),
        cs_omitted = om @ map (omission pf) (filter (\<lambda>c. \<not> asked_for settings pf c) available)\<rparr>"
proof (induction available arbitrary: chosen om)
  case (Cons c cs)
  have ok: "check_ok c" and rest: "list_all check_ok cs" using Cons.prems by auto
  have keep: "c\<lparr>ck_required := r\<rparr> = c" if "r = ck_required c" for r using that by simp
  show ?case
    using keep
    by (auto simp: Let_def Cons.IH [OF rest] with_required_eval [OF ok] asked_for_def
        decided_required_def omission_def split: option.splits)
qed simp

lemma selected_effective_eq:
  assumes "list_all check_ok available"
  shows "selected_effective_checks checks available pf = Inr
    \<lparr>cs_selected = map (\<lambda>c. c\<lparr>ck_required := decided_required (dict_of ef_id checks) c\<rparr>)
       (filter (asked_for (dict_of ef_id checks) pf) available),
     cs_omitted = map (omission pf)
       (filter (\<lambda>c. \<not> asked_for (dict_of ef_id checks) pf c) available)\<rparr>"
  using choose_effective_eq [OF assms, of "dict_of ef_id checks" pf "[]" "[]"]
  by (simp add: selected_effective_checks_def)

section \<open>What a plan holds\<close>

lemma scoped_check_same:
  assumes "scoped_check p c = Inr d"
  shows "ck_id d = ck_id c" "ck_tool d = ck_tool c" "ck_required d = ck_required c"
    "ck_language d = ck_language c" "ck_profiles d = ck_profiles c"
  using assms by (auto simp: scoped_check_def with_scope_def result_iff split: if_splits)

lemma scoped_id_nonempty: "ck_id c \<noteq> [] \<Longrightarrow> scoped_id p c \<noteq> []"
  by (simp add: scoped_id_def scoped_name_def)

lemma plan_scoped_fields:
  assumes "plan_scoped locate plan_work pf in_scope i c = Inr p" "i \<noteq> []"
  shows "planned_ok p" "pc_task_id p = i" "pc_check p = c"
  using assms
  by (auto simp: plan_scoped_def result_iff PlannedCheck_init_iff [OF assms(2)]
      split: if_splits option.splits)

lemma plan_scoped_fast:
  assumes "plan_scoped locate plan_work FAST in_scope i c = Inr p" "i \<noteq> []" "pc_task p = Some t"
  shows "\<not> mutating (pp_task t)"
  using assms
  by (auto simp: plan_scoped_def result_iff PlannedCheck_init_iff [OF assms(2)]
      split: if_splits option.splits)

lemma plan_scoped_runs:
  assumes "plan_scoped locate plan_work pf in_scope i c = Inr p" "i \<noteq> []" "will_run p"
  shows "case in_scope of None \<Rightarrow> True | Some ok \<Rightarrow> ok c"
    "case ck_tool c of None \<Rightarrow> is_internal p
     | Some tool \<Rightarrow> \<exists>exe w. locate tool = Some exe \<and>
         plan_work c exe i = Inr w \<and> pc_task p = Some w"
  using assms
  by (auto simp: plan_scoped_def result_iff PlannedCheck_init_iff [OF assms(2)] will_run_def
      is_internal_def split: if_splits option.splits)

lemma plan_check_fields:
  assumes "plan_check locate plan_work prefix pf in_scope c = Inr p" "ck_id c \<noteq> []"
  shows "planned_ok p" "pc_task_id p = scoped_id prefix c" "ck_id (pc_check p) = ck_id c"
    "ck_required (pc_check p) = ck_required c" "ck_tool (pc_check p) = ck_tool c"
proof -
  obtain d where d: "scoped_check prefix c = Inr d"
    "plan_scoped locate plan_work pf in_scope (scoped_id prefix c) d = Inr p"
    using assms(1) by (auto simp: plan_check_def bindr_Inr)
  note f = plan_scoped_fields [OF d(2) scoped_id_nonempty [OF assms(2)]]
  show "planned_ok p" "pc_task_id p = scoped_id prefix c" "ck_id (pc_check p) = ck_id c"
    "ck_required (pc_check p) = ck_required c" "ck_tool (pc_check p) = ck_tool c"
    using f scoped_check_same [OF d(1)] by simp_all
qed

lemma plan_check_fast:
  assumes "plan_check locate plan_work prefix FAST in_scope c = Inr p" "ck_id c \<noteq> []"
    "pc_task p = Some t"
  shows "\<not> mutating (pp_task t)"
  using assms plan_scoped_fast [OF _ scoped_id_nonempty [OF assms(2)]]
  by (auto simp: plan_check_def bindr_Inr)

text \<open>A check that will run is in scope, and its tool was found.\<close>

lemma plan_check_runs:
  assumes "plan_check locate plan_work prefix pf in_scope c = Inr p" "ck_id c \<noteq> []" "will_run p"
  shows "case in_scope of None \<Rightarrow> True | Some ok \<Rightarrow> ok (pc_check p)"
    "case ck_tool c of None \<Rightarrow> is_internal p
     | Some tool \<Rightarrow> \<exists>exe w. locate tool = Some exe \<and>
         plan_work (pc_check p) exe (pc_task_id p) = Inr w \<and> pc_task p = Some w"
proof -
  note i = scoped_id_nonempty [OF assms(2)]
  obtain d where d: "scoped_check prefix c = Inr d"
    "plan_scoped locate plan_work pf in_scope (scoped_id prefix c) d = Inr p"
    using assms(1) by (auto simp: plan_check_def bindr_Inr)
  note f = plan_scoped_fields [OF d(2) i] and r = plan_scoped_runs [OF d(2) i assms(3)]
  show "case in_scope of None \<Rightarrow> True | Some ok \<Rightarrow> ok (pc_check p)"
    unfolding f(3) by (rule r(1))
  show "case ck_tool c of None \<Rightarrow> is_internal p
     | Some tool \<Rightarrow> \<exists>exe w. locate tool = Some exe \<and>
         plan_work (pc_check p) exe (pc_task_id p) = Inr w \<and> pc_task p = Some w"
    unfolding f(2) f(3) using r(2) scoped_check_same(2) [OF d(1)] by argo
qed

lemma plan_for_fields:
  assumes "plan_for checks locate plan_work who prefix pf in_scope = Inr p"
  shows "checks \<noteq> []" "distinct (map pc_task_id (pl_checks p))"
    "list_all orders_nothing (pl_checks p)"
    "list_all2 (\<lambda>c q. plan_check locate plan_work prefix pf in_scope c = Inr q) checks (pl_checks p)"
  using assms by (auto simp: plan_for_def result_iff mapr_Inr)

text \<open>Every selected check is in the plan, in order, under the id it was selected with.\<close>

lemma plan_for_complete:
  assumes "plan_for checks locate plan_work who prefix pf in_scope = Inr p"
    and "list_all (\<lambda>c. ck_id c \<noteq> []) checks"
  shows "map pc_task_id (pl_checks p) = map (scoped_id prefix) checks"
    "map (\<lambda>q. ck_required (pc_check q)) (pl_checks p) = map ck_required checks"
proof -
  have "pc_task_id (pl_checks p ! i) = scoped_id prefix (checks ! i) \<and>
      ck_required (pc_check (pl_checks p ! i)) = ck_required (checks ! i)"
    if "i < length checks" for i
  proof -
    have p: "plan_check locate plan_work prefix pf in_scope (checks ! i) = Inr (pl_checks p ! i)"
      using plan_for_fields(4) [OF assms(1)] that by (simp add: list_all2_conv_all_nth)
    have i: "ck_id (checks ! i) \<noteq> []" using assms(2) that by (simp add: list_all_length)
    show ?thesis using plan_check_fields(2) [OF p i] plan_check_fields(4) [OF p i] by simp
  qed
  then have "list_all2 (\<lambda>c q. pc_task_id q = scoped_id prefix c
      \<and> ck_required (pc_check q) = ck_required c) checks (pl_checks p)"
    using plan_for_fields(4) [OF assms(1)] by (simp add: list_all2_conv_all_nth)
  then show "map pc_task_id (pl_checks p) = map (scoped_id prefix) checks"
    "map (\<lambda>q. ck_required (pc_check q)) (pl_checks p) = map ck_required checks"
    by (induction rule: list_all2_induct) auto
qed

lemma plan_for_member:
  assumes "plan_for checks locate plan_work who prefix pf in_scope = Inr p" "q \<in> set (pl_checks p)"
  shows "\<exists>c \<in> set checks. plan_check locate plan_work prefix pf in_scope c = Inr q"
  using plan_for_fields(4) [OF assms(1)] assms(2)
  by (auto simp: list_all2_conv_all_nth set_conv_nth)

end
