(* ===== verification/Graph.thy ===== *)
theory Graph
  imports Selection
begin

text \<open>
  The task graph a plan becomes (src/src/ici/application/graph.py): the producers of each logical
  input, the edges and refusals they give, the spreading of refusals along the edges, the folding
  of checks that plan the same command into one unit, and the validation that the units can run.
\<close>

section \<open>Units\<close>

record work_unit =
  wu_id :: string
  wu_consumers :: "string list"
  wu_source :: planned_check
  wu_depends_on :: "string list"

definition WorkUnit_init ::
    "string \<Rightarrow> string list \<Rightarrow> planned_check \<Rightarrow> string list \<Rightarrow> work_unit result" where
  "WorkUnit_init i consumers source depends_on =
     raise_if (i = []) (ValueError ''a work unit must have an id'' [])
    (raise_if (consumers = []) (ValueError ''work unit {} serves no check'' [i])
    (raise_if (i \<in> set depends_on) (ValueError ''work unit {} cannot depend on itself'' [i])
    (Inr \<lparr>wu_id = i, wu_consumers = consumers, wu_source = source, wu_depends_on = depends_on\<rparr>)))"

definition wu_plan :: "work_unit \<Rightarrow> provider_plan option" where
  "wu_plan u = pc_task (wu_source u)"

definition wu_internal :: "work_unit \<Rightarrow> bool" where
  "wu_internal u = is_internal (wu_source u)"

definition wu_mutating :: "work_unit \<Rightarrow> bool" where
  "wu_mutating u = (case wu_plan u of None \<Rightarrow> False | Some p \<Rightarrow> mutating (pp_task p))"

record blocked_check =
  bl_check :: planned_check
  bl_reason :: string

record task_graph =
  tg_units :: "work_unit list"
  tg_blocked :: "blocked_check list"

definition unit_of :: "task_graph \<Rightarrow> string \<Rightarrow> work_unit option" where
  "unit_of g check_task_id = List.find (\<lambda>u. check_task_id \<in> set (wu_consumers u)) (tg_units g)"

text \<open>
  Kahn's pass: repeatedly take out the units whose dependencies are done.  \<open>Inl\<close> holds the units
  that are stuck.  \<open>_validate\<close> and \<open>TaskGraph.layers\<close> both run it.
\<close>

function kahn :: "string set \<Rightarrow> work_unit list \<Rightarrow> work_unit list + work_unit list list" where
  "kahn settled remaining =
     (if remaining = [] then Inr []
      else
        (let ready = filter (\<lambda>u. set (wu_depends_on u) \<subseteq> settled) remaining in
         if ready = [] then Inl remaining
         else bindr (kahn (settled \<union> wu_id ` set ready)
                      (filter (\<lambda>u. \<not> set (wu_depends_on u) \<subseteq> settled) remaining))
                (\<lambda>layers. Inr (ready # layers))))"
  by pat_completeness auto
termination
  by (relation "measure (\<lambda>(d, r). length r)") (auto simp: filter_empty_conv intro: length_filter_less)

declare kahn.simps [simp del]

definition graph_layers :: "task_graph \<Rightarrow> work_unit list list result" where
  "graph_layers g =
     (case kahn {} (tg_units g) of
        Inl stuck \<Rightarrow> Inl (GraphError ''the task graph contains a cycle'' [])
      | Inr ls \<Rightarrow> Inr ls)"

section \<open>Producers and edges\<close>

fun claim_inputs ::
    "planned_check \<Rightarrow> string list \<Rightarrow> (string \<times> planned_check) list
     \<Rightarrow> (string \<times> planned_check) list result" where
  "claim_inputs p [] found = Inr found"
| "claim_inputs p (name # names) found =
     (case map_of found name of
        Some previous \<Rightarrow>
          Inl (GraphError ''input {!r} is produced by both {} and {}''
                 [name, ck_id (pc_check previous), ck_id (pc_check p)])
      | None \<Rightarrow> claim_inputs p names (dict_set name p found))"

fun collect_producers ::
    "planned_check list \<Rightarrow> (string \<times> planned_check) list
     \<Rightarrow> (string \<times> planned_check) list result" where
  "collect_producers [] found = Inr found"
| "collect_producers (p # ps) found =
     bindr (claim_inputs p (ck_provides (pc_check p)) found) (collect_producers ps)"

definition producers :: "planned_check list \<Rightarrow> (string \<times> planned_check) list result" where
  "producers checks = collect_producers checks []"

text \<open>\<open>found.setdefault(name, check)\<close>: the first check that provides an input keeps it.\<close>

definition catalog_producers :: "check_definition list \<Rightarrow> (string \<times> check_definition) list" where
  "catalog_producers catalog =
     fold (\<lambda>check found.
         fold (\<lambda>name d. if map_of d name = None then dict_set name check d else d)
           (ck_provides check) found)
       catalog []"

type_synonym edges = "(string \<times> string list) list"

text \<open>\<open>_wire\<close>: the loop over the needs of one check, with its reasons and the edges.\<close>

fun wire_needs ::
    "planned_check \<Rightarrow> (string \<times> planned_check) list \<Rightarrow> (string \<times> check_definition) list
     \<Rightarrow> string list \<Rightarrow> string list \<Rightarrow> edges \<Rightarrow> (string list \<times> edges) result" where
  "wire_needs p prods available [] reasons es = Inr (reasons, es)"
| "wire_needs p prods available (need # rest) reasons es =
     (case map_of prods need of
        None \<Rightarrow>
          (case map_of available need of
             Some supplier \<Rightarrow>
               wire_needs p prods available rest
                 (reasons @ [''needs '' @ need @ '', which '' @ ck_id supplier
                    @ '' was not selected to produce'']) es
           | None \<Rightarrow>
               wire_needs p prods available rest
                 (reasons @ [''needs '' @ need @ '', which no selected check produces'']) es)
      | Some q \<Rightarrow>
          raise_if (pc_task_id q = pc_task_id p)
            (GraphError ''check {} cannot consume its own {}'' [ck_id (pc_check p), need])
            (wire_needs p prods available rest reasons
               (dict_append (pc_task_id p) (pc_task_id q) es)))"

fun wire_all ::
    "(string \<times> planned_check) list \<Rightarrow> (string \<times> check_definition) list \<Rightarrow> planned_check list
     \<Rightarrow> blocked_check list \<Rightarrow> planned_check list \<Rightarrow> edges
     \<Rightarrow> (blocked_check list \<times> planned_check list \<times> edges) result" where
  "wire_all prods available [] blocked runnable es = Inr (blocked, runnable, es)"
| "wire_all prods available (p # ps) blocked runnable es =
     (if pc_blocked p \<noteq> []
      then wire_all prods available ps
             (blocked @ [\<lparr>bl_check = p, bl_reason = pc_blocked p\<rparr>]) runnable es
      else
        bindr (wire_needs p prods available (ck_needs (pc_check p)) [] es) (\<lambda>(reasons, es').
        if reasons \<noteq> []
        then wire_all prods available ps
               (blocked @ [\<lparr>bl_check = p, bl_reason = join ''; '' reasons\<rparr>]) runnable es'
        else wire_all prods available ps blocked (runnable @ [p]) es'))"

section \<open>Spreading refusals\<close>

definition blocked_ids :: "blocked_check list \<Rightarrow> string set" where
  "blocked_ids blocked = (\<lambda>b. pc_task_id (bl_check b)) ` set blocked"

definition prerequisite :: "edges \<Rightarrow> string set \<Rightarrow> planned_check \<Rightarrow> string option" where
  "prerequisite es ids p = List.find (\<lambda>d. d \<in> ids) (dict_values es (pc_task_id p))"

definition refuse :: "edges \<Rightarrow> string set \<Rightarrow> planned_check \<Rightarrow> blocked_check" where
  "refuse es ids p =
     \<lparr>bl_check = p,
      bl_reason = ''prerequisite '' @ the (prerequisite es ids p) @ '' did not run''\<rparr>"

text \<open>The \<open>while moved\<close> loop: one pass refuses every check a refused one feeds.\<close>

function block_all ::
    "edges \<Rightarrow> blocked_check list \<Rightarrow> planned_check list
     \<Rightarrow> blocked_check list \<times> planned_check list" where
  "block_all es blocked runnable =
     (let ids = blocked_ids blocked;
          hit = filter (\<lambda>p. prerequisite es ids p \<noteq> None) runnable;
          still = filter (\<lambda>p. prerequisite es ids p = None) runnable in
      if hit = [] then (blocked, still)
      else block_all es (blocked @ map (refuse es ids) hit) still)"
  by pat_completeness auto
termination
  by (relation "measure (\<lambda>(e, b, r). length r)") (auto simp: filter_empty_conv intro: length_filter_less)

declare block_all.simps [simp del]

section \<open>Folding checks into units\<close>

datatype group_key = Internal string | Shared share_key

definition group_key_of :: "planned_check \<Rightarrow> group_key" where
  "group_key_of p =
     (case pc_task p of None \<Rightarrow> Internal (pc_task_id p) | Some t \<Rightarrow> Shared (share_key (pp_task t)))"

type_synonym groups = "(group_key \<times> planned_check list) list"

definition fold_groups :: "planned_check list \<Rightarrow> groups" where
  "fold_groups runnable = fold (\<lambda>p d. dict_append (group_key_of p) p d) runnable []"

definition group_map :: "groups \<Rightarrow> (string \<times> group_key) list" where
  "group_map gs =
     fold (\<lambda>(key, members) d. fold (\<lambda>m d. dict_set (pc_task_id m) key d) members d) gs []"

text \<open>\<open>group_of[producer]\<close>.\<close>

definition find_group :: "(string \<times> group_key) list \<Rightarrow> string \<Rightarrow> group_key result" where
  "find_group group_of producer =
     (case map_of group_of producer of None \<Rightarrow> Inl (KeyErr producer) | Some g \<Rightarrow> Inr g)"

definition unit_of_group ::
    "edges \<Rightarrow> groups \<Rightarrow> (string \<times> group_key) list \<Rightarrow> group_key \<times> planned_check list
     \<Rightarrow> work_unit result" where
  "unit_of_group es gs group_of km =
     bindr (mapr (find_group group_of)
              (concat (map (\<lambda>m. dict_values es (pc_task_id m)) (snd km)))) (\<lambda>found.
     WorkUnit_init (pc_task_id (hd (snd km))) (map pc_task_id (snd km)) (hd (snd km))
       (sorted_set (map (\<lambda>g. pc_task_id (hd (dict_values gs g))) (filter (\<lambda>g. g \<noteq> fst km) found))))"

section \<open>Validation\<close>

fun claim_outputs ::
    "work_unit \<Rightarrow> string list \<Rightarrow> (string \<times> string) list \<Rightarrow> (string \<times> string) list result" where
  "claim_outputs u [] owners = Inr owners"
| "claim_outputs u (output # rest) owners =
     (case map_of owners output of
        Some previous \<Rightarrow>
          Inl (GraphError ''output {!r} is claimed by both {} and {}'' [output, previous, wu_id u])
      | None \<Rightarrow> claim_outputs u rest (dict_set output (wu_id u) owners))"

fun collect_outputs ::
    "work_unit list \<Rightarrow> (string \<times> string) list \<Rightarrow> (string \<times> string) list result" where
  "collect_outputs [] owners = Inr owners"
| "collect_outputs (u # us) owners =
     (case wu_plan u of
        None \<Rightarrow> collect_outputs us owners
      | Some p \<Rightarrow>
          bindr (claim_outputs u (ts_output_specs (pp_task p)) owners) (collect_outputs us))"

text \<open>The text of a list of ids inside a message.\<close>

definition list_repr :: "string list \<Rightarrow> string" where
  "list_repr xs = ''['' @ join '', '' (map (\<lambda>x. [CHR 0x27] @ x @ [CHR 0x27]) xs) @ '']''"

definition check_known :: "string set \<Rightarrow> work_unit \<Rightarrow> unit result" where
  "check_known ids u =
     (let unknown = filter (\<lambda>d. d \<notin> ids) (wu_depends_on u) in
      raise_if (unknown \<noteq> [])
        (GraphError ''task {} depends on {}, which are not in the plan''
           [wu_id u, list_repr (sort unknown)])
        (Inr ()))"

definition validate_units :: "work_unit list \<Rightarrow> unit result" where
  "validate_units us =
     raise_if (\<not> distinct (map wu_id us))
       (GraphError ''the task graph contains duplicate unit ids'' [])
    (bindr (check_each (check_known (wu_id ` set us)) us) (\<lambda>_.
     bindr (collect_outputs us []) (\<lambda>_.
     (case kahn {} us of
        Inl stuck \<Rightarrow>
          Inl (GraphError ''the task graph contains a cycle: {}''
                 [join '', '' (sort (map wu_id stuck))])
      | Inr _ \<Rightarrow> Inr ()))))"

definition graph_units :: "planned_check list \<Rightarrow> edges \<Rightarrow> work_unit list result" where
  "graph_units runnable es =
     (let gs = fold_groups runnable; group_of = group_map gs in
      bindr (mapr (unit_of_group es gs group_of) gs) (\<lambda>us.
      bindr (validate_units us) (\<lambda>_. Inr us)))"

text \<open>An omitted catalog is the empty one: \<open>for check in catalog or ()\<close>.\<close>

definition build_graph :: "planned_check list \<Rightarrow> check_definition list \<Rightarrow> task_graph result" where
  "build_graph checks catalog =
     bindr (producers checks) (\<lambda>prods.
     bindr (wire_all prods (catalog_producers catalog) checks [] [] []) (\<lambda>(blocked, runnable, es).
     (let (blocked', runnable') = block_all es blocked runnable in
      bindr (graph_units runnable' es) (\<lambda>us. Inr \<lparr>tg_units = us, tg_blocked = blocked'\<rparr>))))"

end
