(* ===== verification/Graph_Facts.thy ===== *)
theory Graph_Facts
  imports Graph "HOL-Library.Multiset"
begin

text \<open>
  What the task graph guarantees: the layers run every unit once and after what it depends on,
  the pass that finds them fails exactly on a cycle, every planned check is refused or served by
  exactly one unit, and exactly those are refused that must be.
\<close>

lemma mset_filter_compl: "mset (filter P xs) + mset (filter (\<lambda>x. \<not> P x) xs) = mset xs"
  by (induction xs) auto

section \<open>Layers\<close>

fun layered :: "string set \<Rightarrow> work_unit list list \<Rightarrow> bool" where
  "layered settled [] = True"
| "layered settled (l # ls) =
     ((\<forall>u \<in> set l. set (wu_depends_on u) \<subseteq> settled) \<and> layered (settled \<union> wu_id ` set l) ls)"

lemma kahn_layers:
  "kahn settled us = Inr ls \<Longrightarrow>
     mset (concat ls) = mset us \<and> [] \<notin> set ls \<and> layered settled ls"
proof (induction settled us arbitrary: ls rule: kahn.induct)
  case (1 settled us)
  let ?ready = "filter (\<lambda>u. set (wu_depends_on u) \<subseteq> settled) us"
  let ?rest = "filter (\<lambda>u. \<not> set (wu_depends_on u) \<subseteq> settled) us"
  show ?case
  proof (cases "us = []")
    case True
    with 1 show ?thesis by (simp add: kahn.simps)
  next
    case False
    with 1(2) obtain ks where ready: "?ready \<noteq> []" and ls: "ls = ?ready # ks"
      and ks: "kahn (settled \<union> wu_id ` set ?ready) ?rest = Inr ks"
      by (subst (asm) kahn.simps) (auto simp: Let_def bindr_Inr split: if_splits)
    have ih: "mset (concat ks) = mset ?rest \<and> [] \<notin> set ks \<and> layered (settled \<union> wu_id ` set ?ready) ks"
      using 1(1) [OF False refl ready ks] .
    have "mset ?ready + mset ?rest = mset us" by (rule mset_filter_compl)
    with ih ready show ?thesis by (auto simp: ls)
  qed
qed

lemma layered_index:
  "layered settled ls \<Longrightarrow> i < length ls \<Longrightarrow> u \<in> set (ls ! i) \<Longrightarrow> d \<in> set (wu_depends_on u) \<Longrightarrow>
     d \<in> settled \<or> (\<exists>j < i. d \<in> wu_id ` set (ls ! j))"
proof (induction settled ls arbitrary: i rule: layered.induct)
  case (2 settled l ls)
  show ?case
  proof (cases i)
    case 0
    with 2 show ?thesis by auto
  next
    case (Suc k)
    then have "d \<in> settled \<union> wu_id ` set l \<or> (\<exists>j < k. d \<in> wu_id ` set (ls ! j))"
      using 2 by auto
    then show ?thesis
    proof
      assume "d \<in> settled \<union> wu_id ` set l"
      then show ?thesis using Suc by (metis Un_iff nth_Cons_0 zero_less_Suc)
    next
      assume "\<exists>j < k. d \<in> wu_id ` set (ls ! j)"
      then show ?thesis using Suc by (metis Suc_less_eq nth_Cons_Suc)
    qed
  qed
qed simp

definition dep_rel :: "work_unit list \<Rightarrow> (string \<times> string) set" where
  "dep_rel us = {(d, i). \<exists>u \<in> set us. wu_id u = i \<and> d \<in> set (wu_depends_on u)}"

lemma kahn_stuck:
  "kahn settled us = Inl st \<Longrightarrow> st \<noteq> [] \<and> set st \<subseteq> set us \<and>
     (\<forall>u \<in> set st. \<not> set (wu_depends_on u) \<subseteq> settled \<union> wu_id ` (set us - set st))"
proof (induction settled us arbitrary: st rule: kahn.induct)
  case (1 settled us)
  let ?ready = "filter (\<lambda>u. set (wu_depends_on u) \<subseteq> settled) us"
  let ?rest = "filter (\<lambda>u. \<not> set (wu_depends_on u) \<subseteq> settled) us"
  have ne: "us \<noteq> []" using 1(2) by (auto simp: kahn.simps)
  show ?case
  proof (cases "?ready = []")
    case True
    with 1(2) ne have "st = us" by (subst (asm) kahn.simps) (simp add: Let_def)
    with ne True show ?thesis by (auto simp: filter_empty_conv)
  next
    case False
    then have k: "kahn (settled \<union> wu_id ` set ?ready) ?rest = Inl st"
      using 1(2) ne by (subst (asm) kahn.simps) (simp add: Let_def bindr_Inl)
    note ih = 1(1) [OF ne refl False k]
    have "set us - set st = set ?ready \<union> (set ?rest - set st)" using ih by auto
    with ih show ?thesis by (auto simp: image_Un Un_assoc)
  qed
qed

definition deps_known :: "work_unit list \<Rightarrow> bool" where
  "deps_known us \<longleftrightarrow> (\<forall>u \<in> set us. set (wu_depends_on u) \<subseteq> wu_id ` set us)"

lemma kahn_acyclic:
  assumes run: "kahn {} us = Inr ls" and dist: "distinct (map wu_id us)"
  shows "wf (dep_rel us)"
  unfolding wf_eq_minimal
proof (intro allI impI)
  fix Q :: "string set" and x
  assume x: "x \<in> Q"
  have all: "set (concat ls) = set us" and lay: "layered {} ls"
    using kahn_layers [OF run] mset_eq_setD by blast+
  show "\<exists>z \<in> Q. \<forall>y. (y, z) \<in> dep_rel us \<longrightarrow> y \<notin> Q"
  proof (cases "\<exists>k < length ls. Q \<inter> wu_id ` set (ls ! k) \<noteq> {}")
    case False
    have "x \<notin> wu_id ` set us"
    proof
      assume "x \<in> wu_id ` set us"
      then obtain l where l: "l \<in> set ls" "x \<in> wu_id ` set l" unfolding all [symmetric] by auto
      then obtain k where "k < length ls" "ls ! k = l" unfolding in_set_conv_nth by blast
      with l(2) x False show False by blast
    qed
    then have "\<forall>y. (y, x) \<notin> dep_rel us" by (auto simp: dep_rel_def)
    with x show ?thesis by blast
  next
    case True
    define k where "k = (LEAST k. k < length ls \<and> Q \<inter> wu_id ` set (ls ! k) \<noteq> {})"
    have k: "k < length ls \<and> Q \<inter> wu_id ` set (ls ! k) \<noteq> {}"
      using True unfolding k_def by (rule LeastI_ex)
    have least: "Q \<inter> wu_id ` set (ls ! j) = {}" if "j < k" for j
      using not_less_Least [of j "\<lambda>k. k < length ls \<and> Q \<inter> wu_id ` set (ls ! k) \<noteq> {}"] that k
      unfolding k_def by auto
    obtain u where u: "u \<in> set (ls ! k)" "wu_id u \<in> Q" using k by auto
    have "y \<notin> Q" if y: "(y, wu_id u) \<in> dep_rel us" for y
    proof -
      obtain v where v: "v \<in> set us" "wu_id v = wu_id u" "y \<in> set (wu_depends_on v)"
        using y by (auto simp: dep_rel_def)
      have "u \<in> set us" using u k all by (metis nth_mem UN_I set_concat)
      then have "v = u" using dist v by (auto simp: distinct_map dest: inj_onD)
      then obtain j where "j < k" "y \<in> wu_id ` set (ls ! j)"
        using layered_index [OF lay conjunct1 [OF k] u(1)] v(3) by blast
      with least show ?thesis by blast
    qed
    with u(2) show ?thesis by blast
  qed
qed

lemma kahn_cyclic:
  assumes "kahn {} us = Inl st" "distinct (map wu_id us)" "deps_known us"
  shows "\<not> wf (dep_rel us)"
proof
  assume wf: "wf (dep_rel us)"
  have st: "st \<noteq> []" "set st \<subseteq> set us"
    "\<forall>u \<in> set st. \<not> set (wu_depends_on u) \<subseteq> wu_id ` (set us - set st)"
    using kahn_stuck [OF assms(1)] by auto
  obtain s where "s \<in> set st" using st(1) by (cases st) auto
  then have "wu_id s \<in> wu_id ` set st" by simp
  then obtain z where z: "z \<in> wu_id ` set st" "\<forall>y. (y, z) \<in> dep_rel us \<longrightarrow> y \<notin> wu_id ` set st"
    using wf unfolding wf_eq_minimal by meson
  then obtain u where u: "u \<in> set st" "z = wu_id u" by auto
  then obtain d where d: "d \<in> set (wu_depends_on u)" "d \<notin> wu_id ` (set us - set st)"
    using st(3) by auto
  then have "d \<in> wu_id ` set st"
    using assms(3) u st(2) unfolding deps_known_def by blast
  moreover have "(d, z) \<in> dep_rel us" using u d st(2) by (auto simp: dep_rel_def)
  ultimately show False using z(2) by blast
qed

lemma kahn_iff:
  assumes "distinct (map wu_id us)" "deps_known us"
  shows "(\<exists>ls. kahn {} us = Inr ls) \<longleftrightarrow> acyclic (dep_rel us)"
proof -
  have "finite (dep_rel us)"
  proof (rule finite_subset)
    show "dep_rel us \<subseteq> (\<Union>u \<in> set us. set (wu_depends_on u) \<times> {wu_id u})"
      by (auto simp: dep_rel_def)
  qed auto
  then have "wf (dep_rel us) \<longleftrightarrow> acyclic (dep_rel us)"
    using finite_acyclic_wf wf_acyclic by blast
  then show ?thesis
    using kahn_acyclic kahn_cyclic assms by (metis old.sum.exhaust)
qed

section \<open>Producers and edges\<close>

lemma claim_inputs_map:
  "claim_inputs p names found = Inr d \<Longrightarrow>
     map_of d n = (if n \<in> set names then Some p else map_of found n)
     \<and> (n \<in> set names \<longrightarrow> map_of found n = None)"
  by (induction p names found rule: claim_inputs.induct) (auto split: option.splits if_splits)

lemma collect_producers_map:
  "collect_producers ps found = Inr d \<Longrightarrow>
     map_of d n = Some q \<longleftrightarrow>
       map_of found n = Some q \<or> (q \<in> set ps \<and> n \<in> set (ck_provides (pc_check q)))"
proof (induction ps arbitrary: found)
  case (Cons p ps)
  then obtain e where e: "claim_inputs p (ck_provides (pc_check p)) found = Inr e"
    "collect_producers ps e = Inr d" by (auto simp: bindr_Inr)
  show ?case using Cons.IH [OF e(2)] claim_inputs_map [OF e(1), of n] by (auto split: if_splits)
qed simp

lemma producers_map:
  "producers checks = Inr d \<Longrightarrow>
     map_of d n = Some q \<longleftrightarrow> q \<in> set checks \<and> n \<in> set (ck_provides (pc_check q))"
  by (simp add: producers_def collect_producers_map)

text \<open>What a check waits for, and whether every input it needs has a producer.\<close>

definition feeders :: "(string \<times> planned_check) list \<Rightarrow> string list \<Rightarrow> string list" where
  "feeders prods needs =
     map (\<lambda>n. pc_task_id (the (map_of prods n))) (filter (\<lambda>n. map_of prods n \<noteq> None) needs)"

definition fed :: "(string \<times> planned_check) list \<Rightarrow> planned_check \<Rightarrow> bool" where
  "fed prods p \<longleftrightarrow> pc_blocked p = [] \<and>
     (\<forall>n \<in> set (ck_needs (pc_check p)). map_of prods n \<noteq> None)"

lemma wire_needs_Inr:
  "wire_needs p prods available needs reasons es = Inr (r, es') \<Longrightarrow>
     dict_values es' k = dict_values es k @ (if k = pc_task_id p then feeders prods needs else [])
     \<and> (r = [] \<longleftrightarrow> reasons = [] \<and> (\<forall>n \<in> set needs. map_of prods n \<noteq> None))
     \<and> pc_task_id p \<notin> set (feeders prods needs)"
proof (induction p prods available needs reasons es rule: wire_needs.induct)
  case (1 p prods available reasons es)
  then show ?case by (simp add: feeders_def)
next
  case (2 p prods available need rest reasons es)
  show ?case
  proof (cases "map_of prods need")
    case None
    then show ?thesis using 2 by (cases "map_of available need") (auto simp: feeders_def)
  next
    case (Some q)
    then show ?thesis using 2 by (auto simp: feeders_def raise_if_Inr dict_values_append)
  qed
qed

lemma wire_all_Inr:
  "wire_all prods available ps b r es = Inr (b', r', es') \<Longrightarrow> distinct (map pc_task_id ps) \<Longrightarrow>
     map bl_check b' = map bl_check b @ filter (\<lambda>p. \<not> fed prods p) ps
     \<and> r' = r @ filter (fed prods) ps
     \<and> (\<forall>k. k \<notin> pc_task_id ` set ps \<longrightarrow> dict_values es' k = dict_values es k)
     \<and> (\<forall>p \<in> set ps. pc_blocked p = [] \<longrightarrow>
          dict_values es' (pc_task_id p)
            = dict_values es (pc_task_id p) @ feeders prods (ck_needs (pc_check p))
          \<and> pc_task_id p \<notin> set (feeders prods (ck_needs (pc_check p))))"
proof (induction ps arbitrary: b r es)
  case (Cons p ps)
  show ?case
  proof (cases "pc_blocked p = []")
    case False
    then show ?thesis using Cons by (auto simp: fed_def image_iff)
  next
    case True
    with Cons.prems(1) obtain reasons es1 where
      w: "wire_needs p prods available (ck_needs (pc_check p)) [] es = Inr (reasons, es1)"
      and rest: "wire_all prods available ps
          (if reasons \<noteq> [] then b @ [\<lparr>bl_check = p, bl_reason = join ''; '' reasons\<rparr>] else b)
          (if reasons \<noteq> [] then r else r @ [p]) es1 = Inr (b', r', es')"
      by (auto simp: bindr_Inr split: if_splits)
    have fed: "fed prods p \<longleftrightarrow> reasons = []"
      using wire_needs_Inr [OF w, of undefined] True by (simp add: fed_def)
    have new: "pc_task_id p \<notin> pc_task_id ` set ps" and dist: "distinct (map pc_task_id ps)"
      using Cons.prems(2) by auto
    note ih = Cons.IH [OF rest dist]
    have own: "dict_values es1 k = dict_values es k @
        (if k = pc_task_id p then feeders prods (ck_needs (pc_check p)) else [])" for k
      using wire_needs_Inr [OF w] by blast
    have other: "pc_task_id q \<noteq> pc_task_id p" if "q \<in> set ps" for q
      using new that by (auto simp: image_iff)
    have ih1: "map bl_check b' = map bl_check (if reasons \<noteq> []
          then b @ [\<lparr>bl_check = p, bl_reason = join ''; '' reasons\<rparr>] else b)
        @ filter (\<lambda>p. \<not> fed prods p) ps"
      and ih2: "r' = (if reasons \<noteq> [] then r else r @ [p]) @ filter (fed prods) ps"
      and ih3: "\<And>k. k \<notin> pc_task_id ` set ps \<Longrightarrow> dict_values es' k = dict_values es1 k"
      and ih4: "\<And>q. q \<in> set ps \<Longrightarrow> pc_blocked q = [] \<Longrightarrow>
          dict_values es' (pc_task_id q)
            = dict_values es1 (pc_task_id q) @ feeders prods (ck_needs (pc_check q))
          \<and> pc_task_id q \<notin> set (feeders prods (ck_needs (pc_check q)))"
      using ih by blast+
    show ?thesis
    proof (intro conjI)
      show "map bl_check b' = map bl_check b @ filter (\<lambda>p. \<not> fed prods p) (p # ps)"
        unfolding ih1 using fed by (cases "reasons = []") simp_all
      show "r' = r @ filter (fed prods) (p # ps)"
        unfolding ih2 using fed by (cases "reasons = []") simp_all
      show "\<forall>k. k \<notin> pc_task_id ` set (p # ps) \<longrightarrow> dict_values es' k = dict_values es k"
        using ih3 own by simp
      show "\<forall>q \<in> set (p # ps). pc_blocked q = [] \<longrightarrow>
          dict_values es' (pc_task_id q)
            = dict_values es (pc_task_id q) @ feeders prods (ck_needs (pc_check q))
          \<and> pc_task_id q \<notin> set (feeders prods (ck_needs (pc_check q)))"
        using ih3 [OF new] ih4 own other wire_needs_Inr [OF w, of "pc_task_id p"] by simp
    qed
  qed
qed simp

section \<open>Refusals\<close>

lemma block_all_props:
  "block_all es b r = (b', r') \<Longrightarrow>
     mset (map bl_check b') + mset r' = mset (map bl_check b) + mset r
     \<and> (\<exists>P. r' = filter P r)
     \<and> set b \<subseteq> set b'
     \<and> (\<forall>p \<in> set r'. set (dict_values es (pc_task_id p)) \<inter> blocked_ids b' = {})"
proof (induction es b r rule: block_all.induct)
  case (1 es b r)
  let ?ids = "blocked_ids b"
  let ?hit = "filter (\<lambda>p. prerequisite es ?ids p \<noteq> None) r"
  let ?still = "filter (\<lambda>p. prerequisite es ?ids p = None) r"
  have split: "mset ?hit + mset ?still = mset r"
    using mset_filter_compl [of "\<lambda>p. prerequisite es ?ids p \<noteq> None" r] by simp
  show ?case
  proof (cases "?hit = []")
    case True
    then have eq: "b' = b" "r' = ?still"
      using 1(2) by (auto simp add: block_all.simps [of es b r] Let_def)
    have "set (dict_values es (pc_task_id p)) \<inter> ?ids = {}" if "p \<in> set ?still" for p
      using that by (auto simp: prerequisite_def find_None_set)
    moreover have "\<exists>P. r' = filter P r" unfolding eq by blast
    ultimately show ?thesis using True split unfolding eq by simp
  next
    case False
    then have "block_all es (b @ map (refuse es ?ids) ?hit) ?still = (b', r')"
      using 1(2) by (simp add: block_all.simps [of es b r] Let_def)
    note ih = 1(1) [OF refl refl refl False this]
    have "map bl_check (map (refuse es ?ids) ?hit) = ?hit" by (simp add: refuse_def comp_def)
    then have m: "mset (map bl_check (b @ map (refuse es ?ids) ?hit)) + mset ?still
        = mset (map bl_check b) + mset r"
      using split by (metis add.assoc map_append mset_append)
    obtain P where "r' = filter P ?still" using ih by blast
    then have "r' = filter (\<lambda>p. prerequisite es ?ids p = None \<and> P p) r" by simp
    with ih m show ?thesis by auto
  qed
qed

lemma block_all_sound:
  "block_all es b r = (b', r') \<Longrightarrow> \<forall>x \<in> set b. Q (bl_check x) \<Longrightarrow>
     (\<And>p x. p \<in> set r \<Longrightarrow> Q x \<Longrightarrow> pc_task_id x \<in> set (dict_values es (pc_task_id p)) \<Longrightarrow> Q p) \<Longrightarrow>
     \<forall>x \<in> set b'. Q (bl_check x)"
proof (induction es b r rule: block_all.induct)
  case (1 es b r)
  let ?ids = "blocked_ids b"
  let ?hit = "filter (\<lambda>p. prerequisite es ?ids p \<noteq> None) r"
  let ?still = "filter (\<lambda>p. prerequisite es ?ids p = None) r"
  show ?case
  proof (cases "?hit = []")
    case True
    then show ?thesis using 1(2,3) by (simp add: block_all.simps [of es b r] Let_def)
  next
    case False
    then have run: "block_all es (b @ map (refuse es ?ids) ?hit) ?still = (b', r')"
      using 1(2) by (simp add: block_all.simps [of es b r] Let_def)
    have "Q p" if p: "p \<in> set ?hit" for p
    proof -
      from p obtain d where "prerequisite es ?ids p = Some d" by auto
      then have "d \<in> set (dict_values es (pc_task_id p))" "d \<in> ?ids"
        by (auto simp: prerequisite_def dest: find_Some_set)
      then obtain x where "x \<in> set b" "pc_task_id (bl_check x) \<in> set (dict_values es (pc_task_id p))"
        by (auto simp: blocked_ids_def)
      with p 1(3,4) show ?thesis by auto
    qed
    then have "\<forall>x \<in> set (b @ map (refuse es ?ids) ?hit). Q (bl_check x)"
      using 1(3) by (auto simp: refuse_def)
    then show ?thesis
      using 1(1) [OF refl refl refl False run] 1(4) by auto
  qed
qed

text \<open>
  The refused checks, defined without the program's dictionaries: refused when planned, waiting
  for an input nothing produces, or for one a refused check produces.
\<close>

inductive must_block :: "planned_check list \<Rightarrow> planned_check \<Rightarrow> bool" for checks where
  declared: "p \<in> set checks \<Longrightarrow> pc_blocked p \<noteq> [] \<Longrightarrow> must_block checks p"
| unfed: "p \<in> set checks \<Longrightarrow> n \<in> set (ck_needs (pc_check p)) \<Longrightarrow>
    \<forall>q \<in> set checks. n \<notin> set (ck_provides (pc_check q)) \<Longrightarrow> must_block checks p"
| starved: "p \<in> set checks \<Longrightarrow> n \<in> set (ck_needs (pc_check p)) \<Longrightarrow> must_block checks q \<Longrightarrow>
    n \<in> set (ck_provides (pc_check q)) \<Longrightarrow> must_block checks p"

lemma must_block_member: "must_block checks p \<Longrightarrow> p \<in> set checks"
  by (auto elim: must_block.cases)

lemma build_graph_runs:
  assumes "build_graph checks catalog = Inr g" and dist: "distinct (map pc_task_id checks)"
  obtains prods es r where "producers checks = Inr prods"
    and "mset (map bl_check (tg_blocked g)) + mset r = mset checks"
    and "\<forall>p \<in> set r. fed prods p \<and> dict_values es (pc_task_id p) = feeders prods (ck_needs (pc_check p))
      \<and> pc_task_id p \<notin> set (feeders prods (ck_needs (pc_check p)))
      \<and> set (feeders prods (ck_needs (pc_check p))) \<inter> blocked_ids (tg_blocked g) = {}"
    and "\<forall>b \<in> set (tg_blocked g). must_block checks (bl_check b)"
    and "graph_units r es = Inr (tg_units g)" "\<exists>P. r = filter P checks"
proof -
  obtain prods b r0 es r where p: "producers checks = Inr prods"
    and w: "wire_all prods (catalog_producers catalog) checks [] [] [] = Inr (b, r0, es)"
    and bl: "block_all es b r0 = (tg_blocked g, r)" and u: "graph_units r es = Inr (tg_units g)"
  proof -
    from assms(1) obtain prods b r0 es where 1: "producers checks = Inr prods"
      "wire_all prods (catalog_producers catalog) checks [] [] [] = Inr (b, r0, es)"
      and rest: "(let (blocked', runnable') = block_all es b r0 in
        bindr (graph_units runnable' es) (\<lambda>us. Inr \<lparr>tg_units = us, tg_blocked = blocked'\<rparr>)) = Inr g"
      by (auto simp: build_graph_def bindr_Inr)
    obtain b' r' where 2: "block_all es b r0 = (b', r')" by force
    with rest have "graph_units r' es = Inr (tg_units g)" "b' = tg_blocked g"
      by (auto simp: bindr_Inr)
    with 1 2 show ?thesis by (auto intro: that)
  qed
  note w' = wire_all_Inr [OF w dist]
  have b: "map bl_check b = filter (\<lambda>p. \<not> fed prods p) checks"
    and r0: "r0 = filter (fed prods) checks"
    and es: "\<And>p. p \<in> set checks \<Longrightarrow> pc_blocked p = [] \<Longrightarrow>
      dict_values es (pc_task_id p) = feeders prods (ck_needs (pc_check p))
      \<and> pc_task_id p \<notin> set (feeders prods (ck_needs (pc_check p)))"
    using w' by (auto simp: dict_values_def)
  note props = block_all_props [OF bl]
  have part: "mset (map bl_check (tg_blocked g)) + mset r = mset checks"
    using props mset_filter_compl [of "\<lambda>p. \<not> fed prods p" checks] by (simp add: b r0)
  obtain P where P: "r = filter P r0" using props by blast
  then have sub: "\<exists>P. r = filter P checks" by (auto simp: r0)
  have fed: "p \<in> set checks \<and> fed prods p" if "p \<in> set r" for p using that P r0 by auto
  have run: "\<forall>p \<in> set r. fed prods p
      \<and> dict_values es (pc_task_id p) = feeders prods (ck_needs (pc_check p))
      \<and> pc_task_id p \<notin> set (feeders prods (ck_needs (pc_check p)))
      \<and> set (feeders prods (ck_needs (pc_check p))) \<inter> blocked_ids (tg_blocked g) = {}"
  proof
    fix p assume p: "p \<in> set r"
    from fed [OF this] have f: "p \<in> set checks" "fed prods p" "pc_blocked p = []"
      by (auto simp: fed_def)
    then show "fed prods p \<and> dict_values es (pc_task_id p) = feeders prods (ck_needs (pc_check p))
      \<and> pc_task_id p \<notin> set (feeders prods (ck_needs (pc_check p)))
      \<and> set (feeders prods (ck_needs (pc_check p))) \<inter> blocked_ids (tg_blocked g) = {}"
      using es [OF f(1,3)] props p by metis
  qed
  have must: "\<forall>b \<in> set (tg_blocked g). must_block checks (bl_check b)"
  proof (rule block_all_sound [OF bl])
    show "\<forall>x \<in> set b. must_block checks (bl_check x)"
    proof
      fix x assume "x \<in> set b"
      then have "bl_check x \<in> set (map bl_check b)" by simp
      then have x: "bl_check x \<in> set checks" "\<not> fed prods (bl_check x)" unfolding b by auto
      show "must_block checks (bl_check x)"
      proof (cases "pc_blocked (bl_check x) = []")
        case False
        with x show ?thesis by (auto intro: declared)
      next
        case True
        with x obtain n where n: "n \<in> set (ck_needs (pc_check (bl_check x)))" "map_of prods n = None"
          by (auto simp: fed_def)
        then have "\<forall>q \<in> set checks. n \<notin> set (ck_provides (pc_check q))"
          using producers_map [OF p, of n] by auto
        with x n show ?thesis by (auto intro: unfed)
      qed
    qed
  next
    fix q x assume q: "q \<in> set r0" and x: "must_block checks x"
      and d: "pc_task_id x \<in> set (dict_values es (pc_task_id q))"
    have qc: "q \<in> set checks" "pc_blocked q = []" using q by (auto simp: r0 fed_def)
    then obtain n y where n: "n \<in> set (ck_needs (pc_check q))" "map_of prods n = Some y"
      "pc_task_id y = pc_task_id x"
      using d es by (fastforce simp: feeders_def)
    have y: "y \<in> set checks" "n \<in> set (ck_provides (pc_check y))"
      using producers_map [OF p] n(2) by auto
    moreover have "y = x"
      using dist y(1) must_block_member [OF x] n(3) by (auto simp: distinct_map dest: inj_onD)
    ultimately show "must_block checks q" using starved [OF qc(1) n(1) x] by simp
  qed
  show thesis by (rule that [OF p part run must u sub])
qed

lemma blocked_iff:
  assumes build: "build_graph checks catalog = Inr g" and dist: "distinct (map pc_task_id checks)"
  shows "p \<in> bl_check ` set (tg_blocked g) \<longleftrightarrow> must_block checks p"
proof -
  obtain prods es r where p: "producers checks = Inr prods"
    and part: "mset (map bl_check (tg_blocked g)) + mset r = mset checks"
    and run: "\<forall>p \<in> set r. fed prods p \<and> dict_values es (pc_task_id p) = feeders prods (ck_needs (pc_check p))
      \<and> pc_task_id p \<notin> set (feeders prods (ck_needs (pc_check p)))
      \<and> set (feeders prods (ck_needs (pc_check p))) \<inter> blocked_ids (tg_blocked g) = {}"
    and must: "\<forall>b \<in> set (tg_blocked g). must_block checks (bl_check b)"
    by (rule build_graph_runs [OF build dist])
  have all: "set checks = bl_check ` set (tg_blocked g) \<union> set r"
    using arg_cong [OF part, of set_mset] by auto
  have "must_block checks p \<Longrightarrow> p \<in> bl_check ` set (tg_blocked g)" for p
  proof (induction rule: must_block.induct)
    case (declared p)
    then show ?case using all run by (auto simp: fed_def)
  next
    case (unfed p n)
    then have none: "map_of prods n = None" using producers_map [OF p] by (cases "map_of prods n") auto
    have "p \<notin> set r"
    proof
      assume "p \<in> set r"
      with run have "fed prods p" by blast
      with none unfed(2) show False unfolding fed_def by blast
    qed
    with unfed(1) all show ?case by blast
  next
    case (starved p n q)
    have "q \<in> set checks" using starved must_block_member by auto
    then have q: "map_of prods n = Some q" using producers_map [OF p] starved by simp
    have "p \<notin> set r"
    proof
      assume "p \<in> set r"
      with run have "set (feeders prods (ck_needs (pc_check p))) \<inter> blocked_ids (tg_blocked g) = {}"
        by blast
      moreover have "pc_task_id q \<in> set (feeders prods (ck_needs (pc_check p)))"
        using q starved by (force simp: feeders_def)
      moreover have "pc_task_id q \<in> blocked_ids (tg_blocked g)"
        using starved by (auto simp: blocked_ids_def)
      ultimately show False by blast
    qed
    with starved all show ?case by auto
  qed
  with must show ?thesis by blast
qed

section \<open>Groups\<close>

text \<open>Grouping by a key, one appended element at a time.\<close>

lemma fold_append_values:
  "dict_values (fold (\<lambda>p d. dict_append (f p) p d) xs d) k
     = dict_values d k @ filter (\<lambda>p. f p = k) xs"
  by (induction xs arbitrary: d) (auto simp: dict_values_append)

lemma fold_append_keys:
  "fst ` set (fold (\<lambda>p d. dict_append (f p) p d) xs d) = f ` set xs \<union> fst ` set d"
  by (induction xs arbitrary: d) auto

lemma fold_append_distinct:
  "distinct (map fst d) \<Longrightarrow> distinct (map fst (fold (\<lambda>p d. dict_append (f p) p d) xs d))"
  by (induction xs arbitrary: d) (auto simp: distinct_dict_append)

lemma dict_append_mset:
  "mset (concat (map snd (dict_append k v d))) = add_mset v (mset (concat (map snd d)))"
  by (induction k v d rule: dict_append.induct) auto

lemma fold_append_mset:
  "mset (concat (map snd (fold (\<lambda>p d. dict_append (f p) p d) xs d)))
     = mset xs + mset (concat (map snd d))"
  by (induction xs arbitrary: d) (auto simp: dict_append_mset)

abbreviation group_members :: "planned_check list \<Rightarrow> group_key \<Rightarrow> planned_check list" where
  "group_members r k \<equiv> filter (\<lambda>p. group_key_of p = k) r"

lemma fold_groups_values: "dict_values (fold_groups r) k = group_members r k"
  unfolding fold_groups_def fold_append_values by (simp add: dict_values_def)

lemma fold_groups_entry:
  assumes "(k, ms) \<in> set (fold_groups r)"
  shows "ms = group_members r k" "ms \<noteq> []"
proof -
  have "distinct (map fst (fold_groups r))"
    unfolding fold_groups_def by (rule fold_append_distinct) simp
  then have "map_of (fold_groups r) k = Some ms" using assms by simp
  then show ms: "ms = group_members r k"
    using fold_groups_values [of r k] by (simp add: dict_values_def)
  have "k \<in> group_key_of ` set r"
    using assms fold_append_keys [of group_key_of r "[]"] unfolding fold_groups_def by force
  then show "ms \<noteq> []" unfolding ms by (auto simp: filter_empty_conv)
qed

lemma fold_groups_key: "p \<in> set r \<Longrightarrow> \<exists>ms. (group_key_of p, ms) \<in> set (fold_groups r)"
  using fold_append_keys [of group_key_of r "[]"] unfolding fold_groups_def by force

lemma fold_set_map:
  "map_of (fold (\<lambda>m d. dict_set (f m) k d) ms d) i = (if i \<in> f ` set ms then Some k else map_of d i)"
  by (induction ms arbitrary: d) auto

lemma fold_groups_map:
  "\<forall>(k, ms) \<in> set gs. \<forall>m \<in> set ms. key_of (f m) = k \<Longrightarrow>
     map_of (fold (\<lambda>(k, ms) d. fold (\<lambda>m d. dict_set (f m) k d) ms d) gs d) i
       = (if \<exists>g \<in> set gs. i \<in> f ` set (snd g) then Some (key_of i) else map_of d i)"
proof (induction gs arbitrary: d)
  case (Cons g gs)
  obtain k ms where g: "g = (k, ms)" by force
  from Cons.prems have rest: "\<forall>(k, ms) \<in> set gs. \<forall>m \<in> set ms. key_of (f m) = k"
    and own: "\<And>m. m \<in> set ms \<Longrightarrow> key_of (f m) = k" by (auto simp: g)
  show ?case
    using own by (auto simp: g Cons.IH [OF rest] fold_set_map)
qed simp

lemma group_map_iff:
  assumes dist: "distinct (map pc_task_id r)"
  shows "map_of (group_map (fold_groups r)) i = Some k \<longleftrightarrow>
    (\<exists>p \<in> set r. pc_task_id p = i \<and> group_key_of p = k)"
proof -
  define key_of where "key_of i = group_key_of (the (List.find (\<lambda>p. pc_task_id p = i) r))" for i
  have key: "key_of (pc_task_id p) = group_key_of p" if "p \<in> set r" for p
    using find_key_iff [OF dist, of "pc_task_id p" p] that by (simp add: key_of_def)
  have con: "\<forall>(k, ms) \<in> set (fold_groups r). \<forall>m \<in> set ms. key_of (pc_task_id m) = k"
    using fold_groups_entry(1) key by fastforce
  have "(\<exists>g \<in> set (fold_groups r). i \<in> pc_task_id ` set (snd g)) \<longleftrightarrow> i \<in> pc_task_id ` set r"
  proof
    assume "\<exists>g \<in> set (fold_groups r). i \<in> pc_task_id ` set (snd g)"
    then obtain k ms where "(k, ms) \<in> set (fold_groups r)" "i \<in> pc_task_id ` set ms" by auto
    then show "i \<in> pc_task_id ` set r" using fold_groups_entry(1) by fastforce
  next
    assume "i \<in> pc_task_id ` set r"
    then obtain p where p: "p \<in> set r" "pc_task_id p = i" by auto
    then obtain ms where ms: "(group_key_of p, ms) \<in> set (fold_groups r)"
      using fold_groups_key by blast
    then have "p \<in> set ms" using fold_groups_entry(1) [OF ms] p by simp
    with ms p(2) show "\<exists>g \<in> set (fold_groups r). i \<in> pc_task_id ` set (snd g)" by force
  qed
  then have "map_of (group_map (fold_groups r)) i
      = (if i \<in> pc_task_id ` set r then Some (key_of i) else None)"
    unfolding group_map_def using fold_groups_map [where key_of = key_of and f = pc_task_id, OF con, of "[]" i]
    by simp
  then show ?thesis using key by (auto simp del: set_map) (metis imageI key)+
qed

section \<open>Units\<close>

definition unit_serves :: "planned_check list \<Rightarrow> edges \<Rightarrow> group_key \<Rightarrow> work_unit \<Rightarrow> bool" where
  "unit_serves r es k u \<longleftrightarrow>
     group_members r k \<noteq> [] \<and> wu_id u = pc_task_id (hd (group_members r k))
     \<and> wu_consumers u = map pc_task_id (group_members r k)
     \<and> wu_source u = hd (group_members r k)
     \<and> set (wu_depends_on u) =
         {pc_task_id (hd (group_members r (group_key_of q))) |m q.
            m \<in> set (group_members r k) \<and> q \<in> set r
            \<and> pc_task_id q \<in> set (dict_values es (pc_task_id m)) \<and> group_key_of q \<noteq> k}"

text \<open>Every edge leads to a check that runs.\<close>

definition edges_within :: "planned_check list \<Rightarrow> edges \<Rightarrow> bool" where
  "edges_within r es \<longleftrightarrow>
     (\<forall>p \<in> set r. set (dict_values es (pc_task_id p)) \<subseteq> pc_task_id ` set r)"

lemma find_group_within:
  assumes "distinct (map pc_task_id r)" "set xs \<subseteq> pc_task_id ` set r"
  shows "\<exists>found. mapr (find_group (group_map (fold_groups r))) xs = Inr found
    \<and> set found = {group_key_of q |q. q \<in> set r \<and> pc_task_id q \<in> set xs}"
  using assms(2)
proof (induction xs)
  case (Cons x xs)
  then obtain found where found: "mapr (find_group (group_map (fold_groups r))) xs = Inr found"
    "set found = {group_key_of q |q. q \<in> set r \<and> pc_task_id q \<in> set xs}" by auto
  obtain p where p: "p \<in> set r" "x = pc_task_id p" using Cons.prems by auto
  then have "map_of (group_map (fold_groups r)) x = Some (group_key_of p)"
    using group_map_iff [OF assms(1)] by blast
  then have run: "mapr (find_group (group_map (fold_groups r))) (x # xs)
      = Inr (group_key_of p # found)"
    by (simp add: find_group_def found)
  have "q = p" if "q \<in> set r" "pc_task_id q = x" for q
    using that p assms(1) by (auto simp: distinct_map dest: inj_onD)
  then have "set (group_key_of p # found)
      = {group_key_of q |q. q \<in> set r \<and> pc_task_id q \<in> set (x # xs)}"
    using p found(2) by auto
  with run show ?case by blast
qed simp

text \<open>Under these conditions the folding itself raises nothing.\<close>

lemma unit_of_group_Inr:
  assumes dist: "distinct (map pc_task_id r)" and within: "edges_within r es"
    and ids: "\<forall>p \<in> set r. pc_task_id p \<noteq> []" and km: "km \<in> set (fold_groups r)"
  shows "\<exists>u. unit_of_group es (fold_groups r) (group_map (fold_groups r)) km = Inr u
    \<and> unit_serves r es (fst km) u"
proof -
  obtain k ms where [simp]: "km = (k, ms)" by force
  have ms: "ms = group_members r k" "ms \<noteq> []" using fold_groups_entry [of k ms r] km by auto
  let ?xs = "concat (map (\<lambda>m. dict_values es (pc_task_id m)) ms)"
  have "set ?xs \<subseteq> pc_task_id ` set r" using within ms by (auto simp: edges_within_def)
  then obtain found where found: "mapr (find_group (group_map (fold_groups r))) ?xs = Inr found"
    "set found = {group_key_of q |q. q \<in> set r \<and> pc_task_id q \<in> set ?xs}"
    using find_group_within [OF dist] by blast
  let ?deps = "sorted_set (map (\<lambda>g. pc_task_id (hd (group_members r g))) (filter (\<lambda>g. g \<noteq> k) found))"
  have hd: "hd (group_members r g) \<in> set r \<and> group_key_of (hd (group_members r g)) = g"
    if "group_members r g \<noteq> []" for g
    using hd_in_set [OF that] by auto
  have own: "hd ms \<in> set r" "group_key_of (hd ms) = k" using hd [of k] ms by auto
  have deps: "set ?deps = {pc_task_id (hd (group_members r (group_key_of q))) |m q.
      m \<in> set ms \<and> q \<in> set r \<and> pc_task_id q \<in> set (dict_values es (pc_task_id m))
      \<and> group_key_of q \<noteq> k}"
    using found(2) by auto
  have "pc_task_id (hd ms) \<notin> set ?deps"
  proof
    assume "pc_task_id (hd ms) \<in> set ?deps"
    then obtain q where q: "q \<in> set r" "group_key_of q \<noteq> k"
      "pc_task_id (hd ms) = pc_task_id (hd (group_members r (group_key_of q)))"
      unfolding deps by auto
    have "group_members r (group_key_of q) \<noteq> []" using q(1) by (auto simp: filter_empty_conv)
    note h = hd [OF this]
    then have "hd ms = hd (group_members r (group_key_of q))"
      using q(3) own(1) dist by (auto simp: distinct_map dest: inj_onD)
    with h own(2) q(2) show False by simp
  qed
  then have "unit_of_group es (fold_groups r) (group_map (fold_groups r)) km
      = Inr \<lparr>wu_id = pc_task_id (hd ms), wu_consumers = map pc_task_id ms, wu_source = hd ms,
             wu_depends_on = ?deps\<rparr>"
    using ids own(1) ms(2)
    by (simp add: unit_of_group_def found(1) fold_groups_values WorkUnit_init_def)
  then show ?thesis using ms deps by (auto simp: unit_serves_def)
qed

definition group_units_ok :: "planned_check list \<Rightarrow> edges \<Rightarrow> work_unit list \<Rightarrow> bool" where
  "group_units_ok r es us \<longleftrightarrow>
     list_all2 (\<lambda>km u. unit_serves r es (fst km) u) (fold_groups r) us"

lemma fold_units_Inr:
  assumes "distinct (map pc_task_id r)" "edges_within r es" "\<forall>p \<in> set r. pc_task_id p \<noteq> []"
  shows "\<exists>us. mapr (unit_of_group es (fold_groups r) (group_map (fold_groups r))) (fold_groups r) = Inr us
    \<and> group_units_ok r es us"
proof -
  have "\<exists>us. mapr (unit_of_group es (fold_groups r) (group_map (fold_groups r))) xs = Inr us
      \<and> list_all2 (\<lambda>km u. unit_serves r es (fst km) u) xs us" if "set xs \<subseteq> set (fold_groups r)" for xs
    using that
  proof (induction xs)
    case (Cons km xs)
    then obtain us where us: "mapr (unit_of_group es (fold_groups r) (group_map (fold_groups r))) xs = Inr us"
      "list_all2 (\<lambda>km u. unit_serves r es (fst km) u) xs us" by auto
    moreover obtain u where "unit_of_group es (fold_groups r) (group_map (fold_groups r)) km = Inr u"
      "unit_serves r es (fst km) u"
      using unit_of_group_Inr [OF assms, of km] Cons.prems by auto
    ultimately show ?case by simp
  qed simp
  then show ?thesis unfolding group_units_ok_def by blast
qed

lemma group_units_consumers:
  assumes "group_units_ok r es us"
  shows "mset (concat (map wu_consumers us)) = mset (map pc_task_id r)"
proof -
  have "concat (map wu_consumers us) = map pc_task_id (concat (map snd gs))"
    if "list_all2 (\<lambda>km u. unit_serves r es (fst km) u) gs us" "set gs \<subseteq> set (fold_groups r)" for gs
    using that
  proof (induction gs us rule: list_all2_induct)
    case (Cons km gs u us)
    then show ?case using fold_groups_entry(1) [of "fst km" "snd km" r]
      by (auto simp: unit_serves_def)
  qed simp
  then have "concat (map wu_consumers us) = map pc_task_id (concat (map snd (fold_groups r)))"
    using assms unfolding group_units_ok_def by blast
  moreover have "mset (concat (map snd (fold_groups r))) = mset r"
    using fold_append_mset [of group_key_of r "[]"] by (simp add: fold_groups_def)
  ultimately show ?thesis by (metis mset_map)
qed

lemma group_units_key:
  assumes "group_units_ok r es us" "u \<in> set us"
  shows "\<exists>k. unit_serves r es k u"
  using assms unfolding group_units_ok_def by (auto simp: list_all2_conv_all_nth in_set_conv_nth)

lemma group_units_serve:
  assumes "group_units_ok r es us" "p \<in> set r"
  shows "\<exists>u \<in> set us. unit_serves r es (group_key_of p) u"
proof -
  obtain ms where "(group_key_of p, ms) \<in> set (fold_groups r)" using fold_groups_key [OF assms(2)] ..
  then obtain i where "i < length (fold_groups r)" "fold_groups r ! i = (group_key_of p, ms)"
    by (auto simp: in_set_conv_nth)
  then show ?thesis
    using assms(1) unfolding group_units_ok_def list_all2_conv_all_nth
    by (metis fst_conv nth_mem)
qed

lemma distinct_pick:
  "distinct (concat (map g us)) \<Longrightarrow> \<forall>u \<in> set us. f u \<in> set (g u) \<Longrightarrow> distinct (map f us)"
proof (induction us)
  case (Cons u us)
  have "f u \<noteq> f v" if "v \<in> set us" for v
  proof
    assume "f u = f v"
    then have "f u \<in> set (g u) \<inter> set (g v)" using Cons.prems(2) that by auto
    with Cons.prems(1) that show False by auto
  qed
  moreover have "distinct (map f us)" using Cons by simp
  ultimately show ?case by force
qed simp

lemma group_units_ids:
  assumes ok: "group_units_ok r es us" and dist: "distinct (map pc_task_id r)"
  shows "distinct (map wu_id us)"
proof -
  have cons: "distinct (concat (map wu_consumers us))"
    using group_units_consumers [OF ok] dist by (metis mset_eq_imp_distinct_iff)
  have "wu_id u \<in> set (wu_consumers u)" if u: "u \<in> set us" for u
  proof -
    obtain k where ne: "group_members r k \<noteq> []"
      and k: "wu_id u = pc_task_id (hd (group_members r k))"
        "wu_consumers u = map pc_task_id (group_members r k)"
      using group_units_key [OF ok u] unfolding unit_serves_def by blast
    show ?thesis unfolding k set_map using ne by (intro imageI hd_in_set)
  qed
  then show ?thesis by (intro distinct_pick [OF cons]) blast
qed

lemma group_units_known:
  assumes ok: "group_units_ok r es us"
  shows "deps_known us"
  unfolding deps_known_def
proof (intro ballI subsetI)
  fix u d assume "u \<in> set us" "d \<in> set (wu_depends_on u)"
  moreover obtain k where "unit_serves r es k u" using group_units_key [OF ok \<open>u \<in> set us\<close>] ..
  ultimately obtain q where "q \<in> set r" "d = pc_task_id (hd (group_members r (group_key_of q)))"
    by (auto simp: unit_serves_def)
  with group_units_serve [OF ok] show "d \<in> wu_id ` set us" by (force simp: unit_serves_def)
qed

section \<open>The graph\<close>

definition graph_input_ok :: "planned_check list \<Rightarrow> bool" where
  "graph_input_ok checks \<longleftrightarrow>
     distinct (map pc_task_id checks) \<and> (\<forall>p \<in> set checks. pc_task_id p \<noteq> [])"

text \<open>The checks that run, with their edges, as one statement about a built graph.\<close>

lemma build_graph_units:
  assumes build: "build_graph checks catalog = Inr g" and input: "graph_input_ok checks"
  obtains r es where
    "mset (map bl_check (tg_blocked g)) + mset r = mset checks"
    "distinct (map pc_task_id r)" "set r = {p \<in> set checks. \<not> must_block checks p}"
    "group_units_ok r es (tg_units g)" "validate_units (tg_units g) = Inr ()"
    "\<forall>p \<in> set r. \<forall>q \<in> set checks. \<forall>n \<in> set (ck_needs (pc_check p)).
       n \<in> set (ck_provides (pc_check q)) \<longrightarrow>
       q \<in> set r \<and> pc_task_id q \<in> set (dict_values es (pc_task_id p))"
proof -
  have dist: "distinct (map pc_task_id checks)" and ids: "\<forall>p \<in> set checks. pc_task_id p \<noteq> []"
    using input by (auto simp: graph_input_ok_def)
  obtain prods es r where p: "producers checks = Inr prods"
    and part: "mset (map bl_check (tg_blocked g)) + mset r = mset checks"
    and run: "\<forall>p \<in> set r. fed prods p \<and> dict_values es (pc_task_id p) = feeders prods (ck_needs (pc_check p))
      \<and> pc_task_id p \<notin> set (feeders prods (ck_needs (pc_check p)))
      \<and> set (feeders prods (ck_needs (pc_check p))) \<inter> blocked_ids (tg_blocked g) = {}"
    and units: "graph_units r es = Inr (tg_units g)" and sub: "\<exists>P. r = filter P checks"
    by (rule build_graph_runs [OF build dist])
  have rdist: "distinct (map pc_task_id r)" using sub dist by (auto simp: distinct_map_filter)
  have all: "set checks = bl_check ` set (tg_blocked g) \<union> set r"
    using arg_cong [OF part, of set_mset] by auto
  have "distinct (map bl_check (tg_blocked g) @ r)"
    using part dist by (metis distinct_map mset_append mset_eq_imp_distinct_iff)
  then have rset: "set r = {p \<in> set checks. \<not> must_block checks p}"
    using all blocked_iff [OF build dist] must_block_member by (auto simp: distinct_append)
  have feed: "q \<in> set r \<and> pc_task_id q \<in> set (dict_values es (pc_task_id p))"
    if a: "p \<in> set r" "q \<in> set checks" "n \<in> set (ck_needs (pc_check p))"
      "n \<in> set (ck_provides (pc_check q))" for p q n
  proof -
    have "map_of prods n = Some q" using producers_map [OF p] a by simp
    then have "pc_task_id q \<in> set (feeders prods (ck_needs (pc_check p)))"
      using a(3) by (force simp: feeders_def)
    moreover have "\<not> must_block checks q"
      using a rset must_block.starved [of p checks n q] by auto
    ultimately show ?thesis using run a(1,2) rset by simp
  qed
  have within: "edges_within r es"
    unfolding edges_within_def
  proof (intro ballI subsetI)
    fix p d assume "p \<in> set r" "d \<in> set (dict_values es (pc_task_id p))"
    then have d: "d \<in> set (feeders prods (ck_needs (pc_check p)))" "d \<notin> blocked_ids (tg_blocked g)"
      using run by auto
    then obtain n q where "map_of prods n = Some q" "d = pc_task_id q" by (auto simp: feeders_def)
    then have "q \<in> set checks" "d = pc_task_id q" using producers_map [OF p] by auto
    with d(2) all show "d \<in> pc_task_id ` set r" by (auto simp: blocked_ids_def)
  qed
  have rids: "\<forall>p \<in> set r. pc_task_id p \<noteq> []" using ids rset by auto
  obtain us where us: "mapr (unit_of_group es (fold_groups r) (group_map (fold_groups r))) (fold_groups r) = Inr us"
    "group_units_ok r es us" using fold_units_Inr [OF rdist within rids] by blast
  then have "us = tg_units g" "validate_units (tg_units g) = Inr ()"
    using units by (auto simp: graph_units_def Let_def bindr_Inr)
  with us(2) have ok: "group_units_ok r es (tg_units g)" "validate_units (tg_units g) = Inr ()"
    by auto
  show thesis by (rule that [OF part rdist rset ok]) (use feed in blast)
qed

lemma units_consumer:
  assumes "group_units_ok r es us" "u \<in> set us" "i \<in> set (wu_consumers u)"
  obtains p where "p \<in> set r" "pc_task_id p = i" "unit_serves r es (group_key_of p) u"
proof -
  obtain k where k: "unit_serves r es k u" using group_units_key [OF assms(1,2)] ..
  then obtain p where "p \<in> set (group_members r k)" "pc_task_id p = i"
    using assms(3) by (auto simp: unit_serves_def)
  with k show thesis by (auto intro: that)
qed

text \<open>Every planned check is refused or served, once.\<close>

lemma graph_partition:
  assumes "build_graph checks catalog = Inr g" "graph_input_ok checks"
  shows "mset (map (\<lambda>b. pc_task_id (bl_check b)) (tg_blocked g))
    + mset (concat (map wu_consumers (tg_units g))) = mset (map pc_task_id checks)"
proof -
  obtain r es where part: "mset (map bl_check (tg_blocked g)) + mset r = mset checks"
    and ok: "group_units_ok r es (tg_units g)"
    by (rule build_graph_units [OF assms])
  have "mset (map pc_task_id (map bl_check (tg_blocked g))) + mset (map pc_task_id r)
      = mset (map pc_task_id checks)"
    using arg_cong [OF part, of "image_mset pc_task_id"] by (simp del: map_map)
  moreover have "map pc_task_id (map bl_check (tg_blocked g))
      = map (\<lambda>b. pc_task_id (bl_check b)) (tg_blocked g)" by simp
  ultimately show ?thesis using group_units_consumers [OF ok] by (simp only:)
qed

text \<open>Two running checks are served by one unit exactly when they plan the same command.\<close>

lemma graph_sharing:
  assumes build: "build_graph checks catalog = Inr g" and input: "graph_input_ok checks"
    and u: "u \<in> set (tg_units g)" "pc_task_id p \<in> set (wu_consumers u)"
    and p: "p \<in> set checks" and q: "q \<in> set checks" "\<not> must_block checks q"
  shows "pc_task_id q \<in> set (wu_consumers u) \<longleftrightarrow> group_key_of q = group_key_of p"
proof -
  obtain r es where rset: "set r = {p \<in> set checks. \<not> must_block checks p}"
    and ok: "group_units_ok r es (tg_units g)"
    by (rule build_graph_units [OF build input])
  have inj: "a = b" if "a \<in> set checks" "b \<in> set checks" "pc_task_id a = pc_task_id b" for a b
    using input that by (auto simp: graph_input_ok_def distinct_map dest: inj_onD)
  obtain p' where p': "p' \<in> set r" "pc_task_id p' = pc_task_id p" "unit_serves r es (group_key_of p') u"
    using units_consumer [OF ok u] .
  have "p' = p" using inj p p' rset by simp
  then have cons: "wu_consumers u = map pc_task_id (group_members r (group_key_of p))"
    using p'(3) by (simp add: unit_serves_def)
  have "pc_task_id q \<in> set (wu_consumers u) \<longleftrightarrow> q \<in> set (group_members r (group_key_of p))"
    unfolding cons using inj q rset by auto
  with q rset show ?thesis by simp
qed

text \<open>A check's producer is served by the same unit, or by one its unit depends on.\<close>

lemma graph_dependency:
  assumes build: "build_graph checks catalog = Inr g" and input: "graph_input_ok checks"
    and u: "u \<in> set (tg_units g)" "pc_task_id p \<in> set (wu_consumers u)"
    and pq: "p \<in> set checks" "q \<in> set checks"
    and n: "n \<in> set (ck_needs (pc_check p))" "n \<in> set (ck_provides (pc_check q))"
  shows "\<exists>v \<in> set (tg_units g). pc_task_id q \<in> set (wu_consumers v)
    \<and> (v = u \<or> wu_id v \<in> set (wu_depends_on u))"
proof -
  obtain r es where rset: "set r = {p \<in> set checks. \<not> must_block checks p}"
    and rdist: "distinct (map pc_task_id r)"
    and ok: "group_units_ok r es (tg_units g)"
    and feed: "\<forall>p \<in> set r. \<forall>q \<in> set checks. \<forall>n \<in> set (ck_needs (pc_check p)).
       n \<in> set (ck_provides (pc_check q)) \<longrightarrow>
       q \<in> set r \<and> pc_task_id q \<in> set (dict_values es (pc_task_id p))"
    by (rule build_graph_units [OF build input])
  obtain p' where p': "p' \<in> set r" "pc_task_id p' = pc_task_id p" "unit_serves r es (group_key_of p') u"
    using units_consumer [OF ok u] .
  have "p' = p"
    using input p' pq(1) rset by (auto simp: graph_input_ok_def distinct_map dest: inj_onD)
  with p' have p: "p \<in> set r" "unit_serves r es (group_key_of p) u" by auto
  have q: "q \<in> set r" "pc_task_id q \<in> set (dict_values es (pc_task_id p))"
    using feed p(1) pq(2) n by blast+
  obtain v where v: "v \<in> set (tg_units g)" "unit_serves r es (group_key_of q) v"
    using group_units_serve [OF ok q(1)] ..
  have served: "pc_task_id q \<in> set (wu_consumers v)" using v(2) q(1) by (auto simp: unit_serves_def)
  show ?thesis
  proof (cases "group_key_of q = group_key_of p")
    case True
    then have "wu_id v = wu_id u" using v(2) p(2) by (simp add: unit_serves_def)
    then have "v = u"
      using group_units_ids [OF ok rdist] v(1) u(1) by (auto simp: distinct_map dest: inj_onD)
    with v(1) served show ?thesis by blast
  next
    case False
    then have "wu_id v \<in> set (wu_depends_on u)"
      using p q v(2) by (auto simp: unit_serves_def)
    with v(1) served show ?thesis by blast
  qed
qed

text \<open>A built graph has layers: the error branch of \<open>layers\<close> is unreachable.\<close>

lemma graph_layers_ok:
  assumes "build_graph checks catalog = Inr g" "graph_input_ok checks"
  shows "\<exists>ls. graph_layers g = Inr ls \<and> mset (concat ls) = mset (tg_units g) \<and> [] \<notin> set ls
    \<and> layered {} ls"
proof -
  have "validate_units (tg_units g) = Inr ()" by (rule build_graph_units [OF assms])
  then obtain ls where "kahn {} (tg_units g) = Inr ls"
    by (auto simp: validate_units_def bindr_Inr raise_if_Inr split: sum.splits)
  then show ?thesis using kahn_layers by (auto simp: graph_layers_def)
qed

text \<open>Whatever goes wrong is a graph error: no lookup misses and no unit is malformed.\<close>

lemma wire_needs_Inl: "wire_needs p prods available needs reasons es = Inl e \<Longrightarrow> \<exists>t a. e = GraphError t a"
  by (induction p prods available needs reasons es rule: wire_needs.induct)
    (auto simp: raise_if_def split: option.splits if_splits)

lemma wire_all_Inl: "wire_all prods available ps b r es = Inl e \<Longrightarrow> \<exists>t a. e = GraphError t a"
  by (induction prods available ps b r es rule: wire_all.induct)
    (auto simp: bindr_Inl split: if_splits prod.splits dest: wire_needs_Inl)

lemma claim_inputs_Inl: "claim_inputs p names found = Inl e \<Longrightarrow> \<exists>t a. e = GraphError t a"
  by (induction p names found rule: claim_inputs.induct) (auto split: option.splits)

lemma collect_producers_Inl: "collect_producers ps found = Inl e \<Longrightarrow> \<exists>t a. e = GraphError t a"
  by (induction ps found rule: collect_producers.induct) (auto simp: bindr_Inl dest: claim_inputs_Inl)

lemma claim_outputs_Inl: "claim_outputs u outs owners = Inl e \<Longrightarrow> \<exists>t a. e = GraphError t a"
  by (induction u outs owners rule: claim_outputs.induct) (auto split: option.splits)

lemma collect_outputs_Inl: "collect_outputs us owners = Inl e \<Longrightarrow> \<exists>t a. e = GraphError t a"
  by (induction us owners rule: collect_outputs.induct)
    (auto simp: bindr_Inl split: option.splits dest: claim_outputs_Inl)

lemma check_each_Inl: "check_each f xs = Inl e \<Longrightarrow> \<exists>x \<in> set xs. f x = Inl e"
  by (induction xs) (auto simp: bindr_Inl)

lemma validate_units_Inl: "validate_units us = Inl e \<Longrightarrow> \<exists>t a. e = GraphError t a"
  by (auto simp: validate_units_def bindr_Inl raise_if_def check_known_def Let_def
      split: if_splits sum.splits dest!: check_each_Inl collect_outputs_Inl)

end
