(* ===== verification/Cache.thy ===== *)
theory Cache
  imports Round_Trips
begin

text \<open>
  The observation cache (src/src/ici/execution/cache.py): a directory of entries named by the
  identity of their inputs.  An entry is what reading and parsing its file gives (a document or
  the exception) with its modification time; \<open>sha\<close> is \<open>hashlib.sha256(text).hexdigest()\<close>, and
  \<open>io\<close> is what the locked atomic write of a file answers.  An entry is used only when its stored
  identity and the digest of its observation agree with it.
\<close>

section \<open>The directory\<close>

record stored_file =
  sf_payload :: "pyval result"
  sf_mtime :: nat

record observation_cache =
  oc_files :: "(string \<times> stored_file) list"
  oc_max :: nat

definition CACHE_SCHEMA :: string where
  "CACHE_SCHEMA = ''ici.next.observation-cache/v1''"

text \<open>\<open>ObservationCache(directory, max_entries=n)\<close> over the files already there.\<close>

definition ObservationCache_init :: "(string \<times> stored_file) list \<Rightarrow> int \<Rightarrow> observation_cache" where
  "ObservationCache_init files max_entries = \<lparr>oc_files = files, oc_max = nat (max 1 max_entries)\<rparr>"

definition entry_name :: "string \<Rightarrow> string" where
  "entry_name key =
     (let safe = filter (\<lambda>c. c \<in> set ''0123456789abcdef'') key in
      (if safe = [] then ''empty'' else safe) @ ''.json'')"

definition digest_of :: "(rat \<Rightarrow> string) \<Rightarrow> (string \<Rightarrow> string) \<Rightarrow> pyval \<Rightarrow> string result" where
  "digest_of fr sha payload = bindr (dumps fr payload) (\<lambda>text. Inr (sha text))"

definition evict_one :: "string \<Rightarrow> observation_cache \<Rightarrow> observation_cache" where
  "evict_one name c = c\<lparr>oc_files := filter (\<lambda>f. fst f \<noteq> name) (oc_files c)\<rparr>"

text \<open>Oldest first, down to the bound.\<close>

definition evict :: "observation_cache \<Rightarrow> observation_cache" where
  "evict c =
     (let excess = length (oc_files c) - oc_max c in
      if excess = 0 then c
      else fold evict_one
             (map fst (take excess (sort_key (\<lambda>f. sf_mtime (snd f)) (oc_files c)))) c)"

section \<open>Reading\<close>

record cache_read =
  cr_hit :: bool
  cr_reason :: string
  cr_observation :: "observation option"
  cr_source_run :: string

definition cache_miss :: "string \<Rightarrow> cache_read" where
  "cache_miss reason =
     \<lparr>cr_hit = False, cr_reason = reason, cr_observation = None, cr_source_run = []\<rparr>"

text \<open>
  The body of the \<open>try\<close>: \<open>Inl\<close> is a raised exception, \<open>Inr (Inl reason)\<close> an early return of a
  miss, \<open>Inr (Inr \<dots>)\<close> the observation with its run.  \<open>show_val\<close> is \<open>str\<close>.
\<close>

definition judge_entry ::
    "(rat \<Rightarrow> string) \<Rightarrow> (string \<Rightarrow> string) \<Rightarrow> (pyval \<Rightarrow> string) \<Rightarrow> string \<Rightarrow> stored_file
     \<Rightarrow> (string + observation \<times> string) result" where
  "judge_entry fr sha show_val key f =
     bindr (sf_payload f) (\<lambda>payload.
     (case payload of
        PDict d \<Rightarrow>
          raise_if (py_get d ''schema'' \<noteq> PStr CACHE_SCHEMA)
            (ValueError ''unrecognised cache entry schema'' [])
         (if py_get d ''identity'' \<noteq> PStr key then Inr (Inl ''stored identity does not match'')
          else
            (case py_get d ''observation'' of
               PDict data \<Rightarrow>
                 (case py_get d ''integrity'' of
                    PStr integrity \<Rightarrow>
                      bindr (digest_of fr sha (PDict data)) (\<lambda>digest.
                      if digest \<noteq> integrity then Inr (Inl ''stored result was modified'')
                      else
                        bindr (observation_from_dict (PDict data)) (\<lambda>ob.
                        Inr (Inr (ob, show_val (py_get_default d ''run'' (PStr []))))))
                  | _ \<Rightarrow> Inr (Inl ''stored result carries no integrity digest''))
             | _ \<Rightarrow> Inl (ValueError ''stored result has no observation'' [])))
      | _ \<Rightarrow> Inl (ValueError ''unrecognised cache entry schema'' [])))"

definition is_caught :: "exn \<Rightarrow> bool" where
  "is_caught e = (is_value_error e \<or> (case e of OSErr _ \<Rightarrow> True | _ \<Rightarrow> False))"

definition read_cache ::
    "(rat \<Rightarrow> string) \<Rightarrow> (string \<Rightarrow> string) \<Rightarrow> (pyval \<Rightarrow> string) \<Rightarrow> observation_cache \<Rightarrow> string
     \<Rightarrow> cache_read result \<times> observation_cache" where
  "read_cache fr sha show_val c key =
     (case map_of (oc_files c) (entry_name key) of
        None \<Rightarrow> (Inr (cache_miss ''no stored result for these inputs''), c)
      | Some f \<Rightarrow>
          (case judge_entry fr sha show_val key f of
             Inl e \<Rightarrow>
               if is_caught e
               then (Inr (cache_miss (''stored result is not readable: '' @ exn_text e)),
                     evict_one (entry_name key) c)
               else (Inl e, c)
           | Inr (Inl reason) \<Rightarrow> (Inr (cache_miss reason), evict_one (entry_name key) c)
           | Inr (Inr (ob, run)) \<Rightarrow>
               (Inr \<lparr>cr_hit = True, cr_reason = ''reused a verified stored result'',
                     cr_observation = Some ob, cr_source_run = run\<rparr>, c)))"

section \<open>Writing\<close>

definition entry_body :: "string \<Rightarrow> string \<Rightarrow> nat \<Rightarrow> string \<Rightarrow> pyval \<Rightarrow> pyval" where
  "entry_body key run_id now digest data = PDict
     [(''schema'', PStr CACHE_SCHEMA), (''identity'', PStr key), (''run'', PStr run_id),
      (''stored'', PInt (int now)), (''integrity'', PStr digest), (''observation'', data)]"

definition write_cache ::
    "(rat \<Rightarrow> string) \<Rightarrow> (string \<Rightarrow> string) \<Rightarrow> unit result \<Rightarrow> nat \<Rightarrow> observation_cache \<Rightarrow> string
     \<Rightarrow> observation \<Rightarrow> string \<Rightarrow> observation_cache result" where
  "write_cache fr sha io now c key ob run_id =
     (if \<not> evidence_is_complete ob then Inr c
      else
        bindr (digest_of fr sha (observation_to_dict ob)) (\<lambda>digest.
        bindr io (\<lambda>_.
        Inr (evict (c\<lparr>oc_files :=
          dict_set (entry_name key)
            \<lparr>sf_payload = Inr (canon (entry_body key run_id now digest (observation_to_dict ob))),
             sf_mtime = now\<rparr>
            (oc_files c)\<rparr>)))))"

section \<open>Eviction\<close>

definition names_distinct :: "observation_cache \<Rightarrow> bool" where
  "names_distinct c = (distinct (map fst (oc_files c)) \<and> 1 \<le> oc_max c)"

lemma evict_fold:
  "fold evict_one names c =
     c\<lparr>oc_files := filter (\<lambda>f. fst f \<notin> set names) (oc_files c)\<rparr>"
proof (induction names arbitrary: c)
  case (Cons n ns)
  show ?case
    by (simp add: Cons.IH) (simp add: evict_one_def conj_commute)
qed simp

definition doomed :: "observation_cache \<Rightarrow> (string \<times> stored_file) list" where
  "doomed c =
     take (length (oc_files c) - oc_max c) (sort_key (\<lambda>f. sf_mtime (snd f)) (oc_files c))"

lemma evict_files: "oc_files (evict c) = filter (\<lambda>f. fst f \<notin> fst ` set (doomed c)) (oc_files c)"
  by (simp add: evict_def Let_def evict_fold doomed_def)

lemma evict_max [simp]: "oc_max (evict c) = oc_max c"
  by (simp add: evict_def Let_def evict_fold)

lemma set_doomed: "set (doomed c) \<subseteq> set (oc_files c)"
  unfolding doomed_def by (metis set_sort set_take_subset)

lemma length_doomed: "length (doomed c) = length (oc_files c) - oc_max c"
  by (simp add: doomed_def)

lemma distinct_doomed: "distinct (oc_files c) \<Longrightarrow> distinct (doomed c)"
  by (simp add: doomed_def distinct_take)

lemma evict_bound:
  assumes "names_distinct c"
  shows "length (oc_files (evict c)) \<le> oc_max c"
proof -
  have dist: "distinct (oc_files c)"
    using assms by (simp add: names_distinct_def distinct_map)
  have "filter (\<lambda>f. fst f \<in> fst ` set (doomed c)) (oc_files c)
      = filter (\<lambda>f. f \<in> set (doomed c)) (oc_files c)"
    using assms set_doomed [of c]
    by (intro filter_cong) (auto simp: names_distinct_def distinct_map inj_on_def)
  then have "length (filter (\<lambda>f. fst f \<in> fst ` set (doomed c)) (oc_files c))
      = card (set (oc_files c) \<inter> set (doomed c))"
    using dist by (simp add: distinct_length_filter Int_commute)
  also have "\<dots> = length (doomed c)"
    using set_doomed [of c] distinct_doomed [OF dist]
    by (simp add: inf_absorb2 distinct_card)
  finally show ?thesis
    using sum_length_filter_compl [of "\<lambda>f. fst f \<in> fst ` set (doomed c)" "oc_files c"]
    by (simp add: evict_files length_doomed)
qed

lemma evict_distinct: "names_distinct c \<Longrightarrow> names_distinct (evict c)"
  by (simp add: names_distinct_def evict_files distinct_map_filter)

text \<open>An entry newer than every other one is never evicted.\<close>

lemma newest_not_doomed:
  assumes "x \<in> set (oc_files c)" "1 \<le> oc_max c"
    and newest: "\<forall>y \<in> set (oc_files c). y \<noteq> x \<longrightarrow> sf_mtime (snd y) < sf_mtime (snd x)"
    and dist: "distinct (oc_files c)"
  shows "x \<notin> set (doomed c)"
proof
  let ?ys = "sort_key (\<lambda>f. sf_mtime (snd f)) (oc_files c)"
  let ?n = "length (oc_files c) - oc_max c"
  assume x: "x \<in> set (doomed c)"
  have "oc_files c \<noteq> []" using assms(1) by auto
  then have "?n < length ?ys" using assms(2) by (cases "oc_files c") auto
  then have "drop ?n ?ys \<noteq> []" by simp
  then obtain y where y: "y \<in> set (drop ?n ?ys)" by (meson list.set_sel(1))
  have "sorted (map (\<lambda>f. sf_mtime (snd f)) (take ?n ?ys @ drop ?n ?ys))" by simp
  then have "sf_mtime (snd x) \<le> sf_mtime (snd y)"
    using x y unfolding doomed_def map_append sorted_append by auto
  moreover have "y \<in> set (oc_files c)" using y by (metis in_set_dropD set_sort)
  moreover have "y \<noteq> x"
  proof
    assume "y = x"
    moreover have "distinct (take ?n ?ys @ drop ?n ?ys)" using dist by simp
    ultimately show False using x y unfolding doomed_def distinct_append by blast
  qed
  ultimately show False using newest by force
qed


section \<open>What a lookup may be trusted with\<close>

text \<open>A hit: the entry names these inputs and its observation is the one that was digested.\<close>

lemma judge_entry_hit:
  assumes hit: "judge_entry fr sha sv key f = Inr (Inr (ob, run))"
  obtains d data where "sf_payload f = Inr (PDict d)" "py_get d ''identity'' = PStr key"
    "py_get d ''observation'' = PDict data" "observation_from_dict (PDict data) = Inr ob"
    "bindr (digest_of fr sha (PDict data)) (\<lambda>g. Inr (PStr g)) = Inr (py_get d ''integrity'')"
proof -
  have "\<exists>p. sf_payload f = Inr p"
    using hit by (cases "sf_payload f") (auto simp: judge_entry_def)
  then obtain p where p: "sf_payload f = Inr p" by blast
  have "\<exists>d. p = PDict d" using hit by (cases p) (auto simp: judge_entry_def p)
  then obtain d where d: "p = PDict d" by blast
  have "\<exists>data. py_get d ''observation'' = PDict data"
    using hit by (cases "py_get d ''observation''")
      (auto simp: judge_entry_def p d raise_if_Inr split: if_split_asm)
  then obtain data where data: "py_get d ''observation'' = PDict data" by blast
  have "\<exists>t. py_get d ''integrity'' = PStr t"
    using hit by (cases "py_get d ''integrity''")
      (auto simp: judge_entry_def p d data raise_if_Inr split: if_split_asm)
  then obtain t where t: "py_get d ''integrity'' = PStr t" by blast
  show ?thesis
    using hit that [of d data]
    by (auto simp: judge_entry_def p d data t raise_if_Inr bindr_Inr split: if_split_asm)
qed

lemma read_cache_hit:
  assumes "read_cache fr sha sv c key = (Inr r, c')" "cr_hit r"
  obtains f ob where "map_of (oc_files c) (entry_name key) = Some f"
    "judge_entry fr sha sv key f = Inr (Inr (ob, cr_source_run r))" "cr_observation r = Some ob" "c' = c"
  using assms
  by (auto simp: read_cache_def cache_miss_def split: option.splits sum.splits if_splits)

lemma read_cache_miss:
  assumes "read_cache fr sha sv c key = (Inr r, c')" "\<not> cr_hit r"
  shows "cr_observation r = None" "c' = c \<or> c' = evict_one (entry_name key) c"
  using assms
  by (auto simp: read_cache_def cache_miss_def split: option.splits sum.splits if_splits)

text \<open>
  The invariant of the directory: whatever entry would be a hit, its observation is complete.
  Writing keeps it because only complete observations are stored.
\<close>

definition entry_complete ::
    "(rat \<Rightarrow> string) \<Rightarrow> (string \<Rightarrow> string) \<Rightarrow> (pyval \<Rightarrow> string) \<Rightarrow> stored_file \<Rightarrow> bool" where
  "entry_complete fr sha sv f =
     (\<forall>key ob run. judge_entry fr sha sv key f = Inr (Inr (ob, run)) \<longrightarrow> evidence_is_complete ob)"

definition trusted ::
    "(rat \<Rightarrow> string) \<Rightarrow> (string \<Rightarrow> string) \<Rightarrow> (pyval \<Rightarrow> string) \<Rightarrow> observation_cache \<Rightarrow> bool" where
  "trusted fr sha sv c =
     (names_distinct c \<and> (\<forall>f \<in> snd ` set (oc_files c). entry_complete fr sha sv f))"

lemma trusted_filter:
  assumes "trusted fr sha sv c"
  shows "trusted fr sha sv (c\<lparr>oc_files := filter P (oc_files c)\<rparr>)"
  using assms by (auto simp: trusted_def names_distinct_def distinct_map_filter)

lemma trusted_evict: "trusted fr sha sv c \<Longrightarrow> trusted fr sha sv (evict c)"
proof -
  assume t: "trusted fr sha sv c"
  have "evict c = c\<lparr>oc_files := filter (\<lambda>f. fst f \<notin> fst ` set (doomed c)) (oc_files c)\<rparr>"
    using evict_files [of c] by (cases c; cases "evict c") (metis evict_max observation_cache.select_convs(2)
      observation_cache.update_convs(1) observation_cache.select_convs(1))
  then show ?thesis using trusted_filter [OF t] by simp
qed

lemma trusted_read: "trusted fr sha sv c \<Longrightarrow> trusted fr sha sv (snd (read_cache fr sha sv c key))"
  using trusted_filter [of fr sha sv c]
  by (auto simp: read_cache_def evict_one_def split: option.splits sum.splits)

lemma wire_complete [simp]: "evidence_is_complete (wire_observation ob) = evidence_is_complete ob"
  by (simp add: evidence_is_complete_def wire_observation_def)

definition new_entry ::
    "string \<Rightarrow> string \<Rightarrow> nat \<Rightarrow> string \<Rightarrow> observation \<Rightarrow> stored_file" where
  "new_entry key run_id now digest ob =
     \<lparr>sf_payload = Inr (canon (entry_body key run_id now digest (observation_to_dict ob))),
      sf_mtime = now\<rparr>"

lemma observation_dict: "\<exists>d. observation_to_dict ob = PDict d"
  by (simp add: observation_to_dict_def)

lemma judge_new_entry:
  assumes ok: "observation_ok ob" and dg: "digest_of fr sha (observation_to_dict ob) = Inr digest"
  shows "judge_entry fr sha sv k (new_entry key run_id now digest ob) =
    (if k = key then Inr (Inr (wire_observation ob, sv (PStr run_id)))
     else Inr (Inl ''stored identity does not match''))"
proof -
  obtain d where d: "observation_to_dict ob = PDict d" using observation_dict by blast
  have "digest_of fr sha (PDict (json.fields d)) = Inr digest"
    using dg dumps_canon [of fr "PDict d"] by (simp only: digest_of_def d json.h_dict)
  moreover have "observation_from_dict (PDict (json.fields d)) = Inr (wire_observation ob)"
    using json.observation_round [OF ok] by (simp only: d json.h_dict)
  ultimately show ?thesis
    by (simp add: judge_entry_def new_entry_def entry_body_def py_get_def get_simps json.h_dict d
        json.get_fields json.scalar del: canon.simps)
qed

lemma set_dict_set: "set (dict_set k v d) \<subseteq> insert (k, v) (set d)"
  by (induction k v d rule: dict_set.induct) auto

lemma write_cache_cases:
  assumes "write_cache fr sha io now c key ob run_id = Inr c'" "evidence_is_complete ob"
  obtains digest where "digest_of fr sha (observation_to_dict ob) = Inr digest"
    "c' = evict (c\<lparr>oc_files := dict_set (entry_name key) (new_entry key run_id now digest ob) (oc_files c)\<rparr>)"
  using assms by (auto simp: write_cache_def bindr_Inr new_entry_def)

lemma trusted_write:
  assumes t: "trusted fr sha sv c" and ok: "observation_ok ob"
    and w: "write_cache fr sha io now c key ob run_id = Inr c'"
  shows "trusted fr sha sv c'"
proof (cases "evidence_is_complete ob")
  case False
  with w t show ?thesis by (simp add: write_cache_def)
next
  case True
  from write_cache_cases [OF w True] obtain digest where
    dg: "digest_of fr sha (observation_to_dict ob) = Inr digest" and
    c': "c' = evict (c\<lparr>oc_files := dict_set (entry_name key) (new_entry key run_id now digest ob) (oc_files c)\<rparr>)"
    by blast
  let ?e = "new_entry key run_id now digest ob"
  have "entry_complete fr sha sv ?e"
    using judge_new_entry [OF ok dg] True by (auto simp: entry_complete_def split: if_splits)
  then have "trusted fr sha sv (c\<lparr>oc_files := dict_set (entry_name key) ?e (oc_files c)\<rparr>)"
    using t set_dict_set [of "entry_name key" ?e "oc_files c"]
    by (auto simp: trusted_def names_distinct_def distinct_dict_set)
  then show ?thesis unfolding c' by (rule trusted_evict)
qed

text \<open>What was just written is found again, whatever the bound.\<close>

lemma write_read:
  assumes ok: "observation_ok ob" and complete: "evidence_is_complete ob"
    and names: "names_distinct c" and w: "write_cache fr sha io now c key ob run_id = Inr c'"
    and later: "\<forall>f \<in> set (oc_files c). sf_mtime (snd f) < now"
  shows "read_cache fr sha sv c' key =
    (Inr \<lparr>cr_hit = True, cr_reason = ''reused a verified stored result'',
       cr_observation = Some (wire_observation ob), cr_source_run = sv (PStr run_id)\<rparr>, c')"
proof -
  from write_cache_cases [OF w complete] obtain digest where
    dg: "digest_of fr sha (observation_to_dict ob) = Inr digest" and
    c': "c' = evict (c\<lparr>oc_files := dict_set (entry_name key) (new_entry key run_id now digest ob) (oc_files c)\<rparr>)"
    by blast
  let ?x = "(entry_name key, new_entry key run_id now digest ob)"
  let ?c = "c\<lparr>oc_files := dict_set (fst ?x) (snd ?x) (oc_files c)\<rparr>"
  have nd: "names_distinct ?c" using names by (simp add: names_distinct_def distinct_dict_set)
  have x: "?x \<in> set (oc_files ?c)"
    using map_of_SomeD [of "oc_files ?c" "fst ?x" "snd ?x"] by simp
  have sub: "set (oc_files ?c) \<subseteq> insert ?x (set (oc_files c))"
    using set_dict_set [of "fst ?x" "snd ?x" "oc_files c"] by simp
  have newest: "\<forall>y \<in> set (oc_files ?c). y \<noteq> ?x \<longrightarrow> sf_mtime (snd y) < sf_mtime (snd ?x)"
  proof (intro ballI impI)
    fix y assume "y \<in> set (oc_files ?c)" "y \<noteq> ?x"
    with sub have "y \<in> set (oc_files c)" by blast
    with later show "sf_mtime (snd y) < sf_mtime (snd ?x)" by (simp add: new_entry_def)
  qed
  have dist: "distinct (oc_files ?c)" and "1 \<le> oc_max ?c"
    using nd by (simp_all add: names_distinct_def distinct_map)
  with newest_not_doomed [OF x _ newest dist] have "?x \<notin> set (doomed ?c)" by blast
  then have "fst ?x \<notin> fst ` set (doomed ?c)"
    using nd x set_doomed [of ?c] unfolding names_distinct_def distinct_map inj_on_def by blast
  then have "?x \<in> set (oc_files c')" using x unfolding c' by (simp add: evict_files)
  moreover have "distinct (map fst (oc_files c'))"
    using evict_distinct [OF nd] unfolding c' by (simp add: names_distinct_def)
  ultimately have "map_of (oc_files c') (entry_name key) = Some (new_entry key run_id now digest ob)"
    by (metis fst_conv map_of_is_SomeI snd_conv)
  then show ?thesis
    using judge_new_entry [OF ok dg, of sv key] by (simp add: read_cache_def)
qed

section \<open>The interface the scheduler uses\<close>

text \<open>
  A store of evidence: what it returns is complete, and storing an observation keeps that.  The
  scheduler's reuse of earlier work rests on these laws only.
\<close>

locale evidence_store =
  fixes find :: "'c \<Rightarrow> string \<Rightarrow> observation option"
    and put :: "'c \<Rightarrow> string \<Rightarrow> observation \<Rightarrow> 'c result"
    and inv :: "'c \<Rightarrow> bool"
  assumes find_complete: "inv c \<Longrightarrow> find c k = Some ob \<Longrightarrow> evidence_is_complete ob"
    and put_inv: "inv c \<Longrightarrow> observation_ok ob \<Longrightarrow> put c k ob = Inr c' \<Longrightarrow> inv c'"
begin

fun put_all :: "'c \<Rightarrow> (string \<times> observation) list \<Rightarrow> 'c result" where
  "put_all c [] = Inr c"
| "put_all c ((k, ob) # rest) = bindr (put c k ob) (\<lambda>c'. put_all c' rest)"

lemma put_all_inv:
  "inv c \<Longrightarrow> list_all (\<lambda>(k, ob). observation_ok ob) obs \<Longrightarrow> put_all c obs = Inr c' \<Longrightarrow> inv c'"
  by (induction c obs rule: put_all.induct) (auto simp: bindr_Inr dest: put_inv)

text \<open>Whatever was stored, in whatever order, a lookup never returns half an answer.\<close>

lemma never_incomplete:
  "inv c \<Longrightarrow> list_all (\<lambda>(k, ob). observation_ok ob) obs \<Longrightarrow> put_all c obs = Inr c' \<Longrightarrow>
     find c' k = Some ob \<Longrightarrow> ob_state ob = SUCCEEDED \<and> \<not> ob_truncated ob \<and> \<not> ob_timed_out ob"
  using find_complete [OF put_all_inv] by (auto simp: evidence_is_complete_def)

end

definition cache_find ::
    "(rat \<Rightarrow> string) \<Rightarrow> (string \<Rightarrow> string) \<Rightarrow> (pyval \<Rightarrow> string) \<Rightarrow> observation_cache \<Rightarrow> string
     \<Rightarrow> observation option" where
  "cache_find fr sha sv c key =
     (case fst (read_cache fr sha sv c key) of Inl e \<Rightarrow> None | Inr r \<Rightarrow> cr_observation r)"

lemma cache_find_complete:
  assumes "trusted fr sha sv c" "cache_find fr sha sv c key = Some ob"
  shows "evidence_is_complete ob"
proof -
  obtain r c' where r: "read_cache fr sha sv c key = (Inr r, c')" "cr_observation r = Some ob"
    using assms(2) by (cases "read_cache fr sha sv c key") (auto simp: cache_find_def split: sum.splits)
  then have "cr_hit r" using read_cache_miss(1) by fastforce
  from read_cache_hit [OF r(1) this] obtain f where
    "map_of (oc_files c) (entry_name key) = Some f"
    "judge_entry fr sha sv key f = Inr (Inr (ob, cr_source_run r))"
    using r(2) by (metis option.inject)
  moreover from this have "f \<in> snd ` set (oc_files c)" by (force dest: map_of_SomeD)
  ultimately show ?thesis
    using assms(1) unfolding trusted_def entry_complete_def by blast
qed

text \<open>The cache is such a store, for every clock and every answer of the file system.\<close>

interpretation cache: evidence_store "cache_find fr sha sv"
  "\<lambda>c k ob. write_cache fr sha io now c k ob run_id" "trusted fr sha sv"
  for fr sha sv io now run_id
  by unfold_locales (blast intro: cache_find_complete trusted_write)+

end
