(* ===== verification/Schedule.thy ===== *)
theory Schedule
  imports Graph_Facts Cache
begin

text \<open>
  Executing a task graph (src/src/ici/application/schedule.py).  A unit is attempted with the
  observations of earlier layers; the units of one layer are attempted in their order, which is
  one of the orders the thread pool may choose, and the cache is passed from one to the next.
  The locks on resource keys are the subject of theory Locks.  What the program is handed is a
  record: the providers and analyses, the runner, the environment, the state of the cancellation
  when a unit is attempted, the identity of a unit, and the cache's two operations.  The callbacks
  \<open>on_started\<close> and \<open>on_execution\<close> only watch.
\<close>

section \<open>What a run is handed\<close>

record 'c run_context =
  rc_providers :: "string \<Rightarrow> provider option"
  rc_analyses :: "string \<Rightarrow> observation result option"
  rc_runner :: "process_spec \<Rightarrow> task_outcome result"
  rc_environment :: "(string \<times> string) list"
  rc_cancellation :: "string \<Rightarrow> cancellation option"
  rc_identify :: "(work_unit \<Rightarrow> (string option \<times> string) result) option"
  rc_read :: "'c \<Rightarrow> string \<Rightarrow> cache_read result \<times> 'c"
  rc_write :: "'c \<Rightarrow> string \<Rightarrow> observation \<Rightarrow> 'c result"
  rc_elapsed :: "string \<Rightarrow> pyfloat"

record execution =
  xe_unit :: string
  xe_consumers :: "string list"
  xe_provider :: string
  xe_state :: task_state
  xe_duration :: pyfloat
  xe_detail :: string

definition xe_shared :: "execution \<Rightarrow> bool" where
  "xe_shared x = (1 < length (xe_consumers x))"

record scheduled =
  sd_observations :: "observation list"
  sd_executions :: "execution list"

section \<open>One unit\<close>

text \<open>\<open>a or b\<close> on strings, and \<open>unit.source.check.tool or fallback\<close>.\<close>

definition or_else :: "string \<Rightarrow> string \<Rightarrow> string" where
  "or_else a b = (if a = [] then b else a)"

definition tool_or :: "work_unit \<Rightarrow> string \<Rightarrow> string" where
  "tool_or u fallback =
     (case ck_tool (pc_check (wu_source u)) of None \<Rightarrow> fallback | Some t \<Rightarrow> or_else t fallback)"

definition provider_name :: "work_unit \<Rightarrow> string" where
  "provider_name u =
     (if wu_internal u then ''ici''
      else
        (case wu_plan u of
           Some p \<Rightarrow>
             if ts_provider (pp_task p) \<noteq> [] then ts_provider (pp_task p)
             else tool_or u ''?''
         | None \<Rightarrow> tool_or u ''?''))"

definition failed_prerequisite :: "work_unit \<Rightarrow> (string \<times> observation) list \<Rightarrow> string option" where
  "failed_prerequisite u finished =
     List.find (\<lambda>d. case map_of finished d of None \<Rightarrow> True | Some ob \<Rightarrow> ob_state ob \<noteq> SUCCEEDED)
       (wu_depends_on u)"

text \<open>
  \<open>task.timeout_seconds or 300.0\<close>: a task's timeout is a positive number or absent.
\<close>

definition timeout_of :: "task_spec \<Rightarrow> rat" where
  "timeout_of t =
     (case ts_timeout_seconds t of Some (Fin q) \<Rightarrow> (if q = 0 then 300 else q) | _ \<Rightarrow> 300)"

definition executable_spec :: "provider_plan \<Rightarrow> (string \<times> string) list \<Rightarrow> process_spec result" where
  "executable_spec plan environment =
     (let task = pp_task plan;
          overlay = fold (\<lambda>(k, v) d. dict_set k v d) (ts_env_overlay task) environment in
      ProcessSpec_init (ts_argv task) (ts_id task) (Some (ts_cwd task)) overlay (timeout_of task)
        (case ts_output_limit_bytes task of Some n \<Rightarrow> n | None \<Rightarrow> DEFAULT_OUTPUT_LIMIT)
        (ts_work_dirs task) DEFAULT_GRACE)"

text \<open>\<open>unit.plan.task.provider or unit.source.check.tool or fallback\<close>.\<close>

definition named_provider :: "work_unit \<Rightarrow> provider_plan \<Rightarrow> string \<Rightarrow> string" where
  "named_provider u plan fallback =
     or_else (ts_provider (pp_task plan)) (tool_or u fallback)"

definition perform :: "'c run_context \<Rightarrow> work_unit \<Rightarrow> observation result" where
  "perform cx u =
     (if wu_internal u
      then
        (case rc_analyses cx (wu_id u) of
           None \<Rightarrow> unavailable ''ici'' (wu_id u)
                     (ck_id (pc_check (wu_source u)) @ '' has no analysis registered'') BLOCKED
         | Some answer \<Rightarrow> answer)
      else
        (case wu_plan u of
           None \<Rightarrow> Inl (Raised ''AssertionError'' [])
         | Some plan \<Rightarrow>
             (case rc_providers cx (named_provider u plan []) of
                None \<Rightarrow>
                  unavailable (named_provider u plan ''?'') (wu_id u)
                    ((case ck_tool (pc_check (wu_source u)) of Some t \<Rightarrow> t | None \<Rightarrow> ''None'')
                     @ '' has no provider registered'') BLOCKED
              | Some p \<Rightarrow>
                  bindr (executable_spec plan (rc_environment cx)) (\<lambda>spec.
                  bindr (rc_runner cx spec) (\<lambda>outcome. observe p plan outcome None)))))"

text \<open>The \<open>try\<close> around \<open>_perform\<close>: an exception becomes the unit's failure.\<close>

definition guarded :: "'c run_context \<Rightarrow> work_unit \<Rightarrow> observation result" where
  "guarded cx u =
     (case perform cx u of
        Inr ob \<Rightarrow> Inr ob
      | Inl e \<Rightarrow>
          unavailable (provider_name u) (wu_id u)
            (''internal error: '' @ exn_class e @ '': '' @ exn_text e) FAILED)"

definition refused :: "work_unit \<Rightarrow> task_state \<Rightarrow> string \<Rightarrow> execution" where
  "refused u state detail =
     \<lparr>xe_unit = wu_id u, xe_consumers = wu_consumers u, xe_provider = provider_name u,
      xe_state = state, xe_duration = Fin 0, xe_detail = detail\<rparr>"

text \<open>The cache key of a unit, or the reason it has none.\<close>

definition identified :: "'c run_context \<Rightarrow> bool \<Rightarrow> work_unit \<Rightarrow> string option \<times> string" where
  "identified cx cached u =
     (case rc_identify cx of
        None \<Rightarrow> (None, [])
      | Some identify \<Rightarrow>
          if \<not> cached \<or> wu_internal u then (None, [])
          else
            (case identify u of
               Inr answer \<Rightarrow> answer
             | Inl e \<Rightarrow>
                 (None, ''cache identification failed: '' @ exn_class e @ '': '' @ exn_text e)))"

text \<open>The part of \<open>attempt\<close> that does the work and keeps its answer.\<close>

definition run_and_keep ::
    "'c run_context \<Rightarrow> 'c option \<Rightarrow> string option \<Rightarrow> string \<Rightarrow> work_unit
     \<Rightarrow> ((observation option \<times> execution) \<times> 'c option) result" where
  "run_and_keep cx store key reason u =
     bindr (guarded cx u) (\<lambda>ob.
     bindr
       (case (store, key) of
          (Some c, Some k) \<Rightarrow>
            if k \<noteq> [] \<and> ob_state ob = SUCCEEDED \<and> evidence_is_complete ob
            then bindr (rc_write cx c k ob) (\<lambda>c'. Inr (Some c'))
            else Inr store
        | _ \<Rightarrow> Inr store) (\<lambda>store'.
     Inr ((Some ob,
           \<lparr>xe_unit = wu_id u, xe_consumers = wu_consumers u, xe_provider = provider_name u,
            xe_state = ob_state ob,
            xe_duration =
              (case ob_duration_seconds ob of
                 None \<Rightarrow> rc_elapsed cx (wu_id u)
               | Some x \<Rightarrow> if x = Fin 0 then rc_elapsed cx (wu_id u) else x),
            xe_detail = reason\<rparr>), store')))"

text \<open>The rest of \<open>attempt\<close>, when no cancellation was requested.\<close>

definition attempt_ready ::
    "'c run_context \<Rightarrow> (string \<times> observation) list \<Rightarrow> 'c option \<Rightarrow> work_unit
     \<Rightarrow> ((observation option \<times> execution) \<times> 'c option) result" where
  "attempt_ready cx finished store u =
     (case failed_prerequisite u finished of
        Some blocker \<Rightarrow>
          Inr ((None, refused u BLOCKED (''prerequisite '' @ blocker @ '' did not run'')), store)
      | None \<Rightarrow>
          (let (key, reason) = identified cx (store \<noteq> None) u in
           (case (store, key) of
              (Some c, Some k) \<Rightarrow>
                (let (answer, c') = rc_read cx c k in
                 bindr answer (\<lambda>read.
                 (case (cr_hit read, cr_observation read) of
                    (True, Some ob) \<Rightarrow>
                      Inr ((Some ob,
                            refused u (ob_state ob)
                              (''cache hit'' @ (if cr_source_run read = [] then []
                                 else '' from run '' @ cr_source_run read))), Some c')
                  | _ \<Rightarrow> run_and_keep cx (Some c') key (cr_reason read) u)))
            | _ \<Rightarrow> run_and_keep cx store key reason u)))"

definition attempt ::
    "'c run_context \<Rightarrow> (string \<times> observation) list \<Rightarrow> 'c option \<Rightarrow> work_unit
     \<Rightarrow> ((observation option \<times> execution) \<times> 'c option) result" where
  "attempt cx finished store u =
     (case rc_cancellation cx (wu_id u) of
        Some c \<Rightarrow>
          if cn_requested c
          then Inr ((None, refused u CANCELLED
                       (or_else (cn_reason c) ''cancelled before it started'')), store)
          else attempt_ready cx finished store u
      | None \<Rightarrow> attempt_ready cx finished store u)"

section \<open>The graph\<close>

text \<open>The units of a layer all see the observations of the earlier layers.\<close>

fun run_layer ::
    "'c run_context \<Rightarrow> (string \<times> observation) list \<Rightarrow> 'c option \<Rightarrow> work_unit list
     \<Rightarrow> ((observation option \<times> execution) list \<times> 'c option) result" where
  "run_layer cx finished store [] = Inr ([], store)"
| "run_layer cx finished store (u # us) =
     bindr (attempt cx finished store u) (\<lambda>(r, store').
     bindr (run_layer cx finished store' us) (\<lambda>(rs, store''). Inr (r # rs, store'')))"

record run_state =
  rs_observations :: "(string \<times> observation) list"
  rs_executions :: "execution list"
  rs_finished :: "(string \<times> observation) list"

text \<open>\<open>replace(observation, task_id=consumer)\<close>.\<close>

definition retarget :: "observation \<Rightarrow> string \<Rightarrow> observation result" where
  "retarget ob consumer = Observation_replace (ob\<lparr>ob_task_id := consumer\<rparr>)"

fun observe_consumers ::
    "(string \<Rightarrow> observation result) \<Rightarrow> string list \<Rightarrow> (string \<times> observation) list
     \<Rightarrow> (string \<times> observation) list result" where
  "observe_consumers produce [] obs = Inr obs"
| "observe_consumers produce (c # cs) obs =
     bindr (produce c) (\<lambda>ob. observe_consumers produce cs (dict_set c ob obs))"

definition settle_unit ::
    "work_unit \<Rightarrow> observation option \<times> execution \<Rightarrow> run_state \<Rightarrow> run_state result" where
  "settle_unit u r st =
     (case r of
        (None, x) \<Rightarrow>
          bindr (observe_consumers
                   (\<lambda>c. unavailable (provider_name u) c (xe_detail x) (xe_state x))
                   (wu_consumers u) (rs_observations st)) (\<lambda>obs.
          Inr (st\<lparr>rs_observations := obs, rs_executions := rs_executions st @ [x]\<rparr>))
      | (Some ob, x) \<Rightarrow>
          bindr (observe_consumers (retarget ob) (wu_consumers u) (rs_observations st)) (\<lambda>obs.
          Inr \<lparr>rs_observations = obs, rs_executions = rs_executions st @ [x],
               rs_finished = dict_set (wu_id u) ob (rs_finished st)\<rparr>))"

fun settle ::
    "(work_unit \<times> (observation option \<times> execution)) list \<Rightarrow> run_state \<Rightarrow> run_state result" where
  "settle [] st = Inr st"
| "settle ((u, r) # rest) st = bindr (settle_unit u r st) (settle rest)"

fun run_layers ::
    "'c run_context \<Rightarrow> work_unit list list \<Rightarrow> run_state \<Rightarrow> 'c option \<Rightarrow> (run_state \<times> 'c option) result" where
  "run_layers cx [] st store = Inr (st, store)"
| "run_layers cx (l # ls) st store =
     bindr (run_layer cx (rs_finished st) store l) (\<lambda>(rs, store').
     bindr (settle (zip l rs) st) (\<lambda>st'. run_layers cx ls st' store'))"

fun settle_blocked ::
    "blocked_check list \<Rightarrow> (string \<times> observation) list \<Rightarrow> (string \<times> observation) list result" where
  "settle_blocked [] obs = Inr obs"
| "settle_blocked (b # bs) obs =
     bindr (unavailable
              (case ck_tool (pc_check (bl_check b)) of None \<Rightarrow> ''ici'' | Some t \<Rightarrow> or_else t ''ici'')
              (pc_task_id (bl_check b)) (bl_reason b) BLOCKED) (\<lambda>ob.
     settle_blocked bs (dict_set (pc_task_id (bl_check b)) ob obs))"

definition new_run :: run_state where
  "new_run = \<lparr>rs_observations = [], rs_executions = [], rs_finished = []\<rparr>"

definition run_graph ::
    "'c run_context \<Rightarrow> 'c option \<Rightarrow> task_graph \<Rightarrow> (scheduled \<times> 'c option) result" where
  "run_graph cx store g =
     bindr (graph_layers g) (\<lambda>ls.
     bindr (run_layers cx ls new_run store) (\<lambda>(st, store').
     bindr (settle_blocked (tg_blocked g) (rs_observations st)) (\<lambda>obs.
     Inr (\<lparr>sd_observations = map snd obs, sd_executions = rs_executions st\<rparr>, store'))))"

end
