(* ===== verification/Schedule_Facts.thy ===== *)
theory Schedule_Facts
  imports Schedule
begin

text \<open>
  What executing a graph guarantees: every unit has one execution record, every planned check one
  observation, and no check counts as succeeded unless everything it consumed was produced by a
  check that succeeded.
\<close>

section \<open>One unit\<close>

text \<open>What \<open>attempt\<close> hands back for a unit, given the observations of the earlier layers.\<close>

definition attempted ::
    "(string \<times> observation) list \<Rightarrow> work_unit \<Rightarrow> observation option \<times> execution \<Rightarrow> bool" where
  "attempted finished u r \<longleftrightarrow>
     xe_unit (snd r) = wu_id u \<and> xe_consumers (snd r) = wu_consumers u
     \<and> (case fst r of
          None \<Rightarrow> xe_state (snd r) \<in> {BLOCKED, CANCELLED}
        | Some ob \<Rightarrow> xe_state (snd r) = ob_state ob \<and>
            (\<forall>d \<in> set (wu_depends_on u). \<exists>p. map_of finished d = Some p \<and> ob_state p = SUCCEEDED))"

lemma failed_prerequisite_None:
  "failed_prerequisite u finished = None \<longleftrightarrow>
     (\<forall>d \<in> set (wu_depends_on u). \<exists>p. map_of finished d = Some p \<and> ob_state p = SUCCEEDED)"
  by (auto simp: failed_prerequisite_def find_None_set split: option.splits)

lemma refused_fields [simp]:
  "xe_unit (refused u s d) = wu_id u" "xe_consumers (refused u s d) = wu_consumers u"
  "xe_state (refused u s d) = s" "xe_detail (refused u s d) = d"
  by (simp_all add: refused_def)

lemma run_and_keep_Inr:
  assumes "run_and_keep cx store key reason u = Inr ((r, x), store')"
  shows "\<exists>ob. r = Some ob \<and> guarded cx u = Inr ob \<and> xe_unit x = wu_id u
    \<and> xe_consumers x = wu_consumers u \<and> xe_state x = ob_state ob"
  using assms by (auto simp: run_and_keep_def bindr_Inr)

lemma attempt_ready_Inr:
  assumes "attempt_ready cx finished store u = Inr (r, store')"
  shows "attempted finished u r"
proof (cases "failed_prerequisite u finished")
  case (Some blocker)
  with assms show ?thesis by (auto simp: attempt_ready_def attempted_def)
next
  case None
  note deps = None [unfolded failed_prerequisite_None]
  obtain key reason where k: "identified cx (store \<noteq> None) u = (key, reason)" by force
  obtain o1 x where r: "r = (o1, x)" by force
  have keep: "attempted finished u r" if "run_and_keep cx s key0 re u = Inr (r, s')" for s key0 re s'
    using run_and_keep_Inr [of cx s key0 re u o1 x s'] that deps by (auto simp: r attempted_def)
  show ?thesis
  proof (cases "store = None \<or> key = None")
    case True
    then consider "store = None" | c where "store = Some c" "key = None" by (cases store) auto
    then have "run_and_keep cx store key reason u = Inr (r, store')"
      using assms k by cases (simp_all add: attempt_ready_def None)
    then show ?thesis by (rule keep)
  next
    case False
    then obtain c i where c: "store = Some c" "key = Some i" by auto
    have k': "identified cx True u = (key, reason)" using k c by simp
    obtain answer c' where rd: "rc_read cx c i = (answer, c')" by force
    obtain read where read: "answer = Inr read"
      using assms by (cases answer) (auto simp: attempt_ready_def None k' c rd)
    show ?thesis
      using assms keep deps
      by (cases "cr_hit read"; cases "cr_observation read")
        (auto simp: attempt_ready_def None k' c rd read attempted_def)
  qed
qed

lemma attempt_Inr:
  assumes "attempt cx finished store u = Inr (r, store')"
  shows "attempted finished u r"
  using assms attempt_ready_Inr [of cx finished store u r store']
  by (auto simp: attempt_def attempted_def split: option.splits if_splits)

lemma run_layer_Inr:
  "run_layer cx finished store us = Inr (rs, store') \<Longrightarrow> list_all2 (attempted finished) us rs"
proof (induction us arbitrary: store rs)
  case (Cons u us)
  then obtain r s1 rs1 where r: "attempt cx finished store u = Inr (r, s1)"
    "run_layer cx finished s1 us = Inr (rs1, store')" "rs = r # rs1"
    by (auto simp: bindr_Inr)
  show ?case using attempt_Inr [OF r(1)] Cons.IH [OF r(2)] r(3) by simp
qed simp

section \<open>Settling\<close>

lemma observe_consumers_Inr:
  "observe_consumers f cs obs = Inr obs' \<Longrightarrow>
     map fst obs' = map fst obs @ filter (\<lambda>c. c \<notin> fst ` set obs) (first_occurrences cs)
     \<and> (\<forall>c \<in> set cs. \<exists>ob. f c = Inr ob \<and> map_of obs' c = Some ob)
     \<and> (\<forall>c. c \<notin> set cs \<longrightarrow> map_of obs' c = map_of obs c)"
proof (induction cs arbitrary: obs)
  case (Cons c cs)
  then obtain ob where ob: "f c = Inr ob" "observe_consumers f cs (dict_set c ob obs) = Inr obs'"
    by (auto simp: bindr_Inr)
  note ih = Cons.IH [OF ob(2)]
  have "map fst obs' = map fst (dict_set c ob obs)
      @ filter (\<lambda>d. d \<notin> fst ` set (dict_set c ob obs)) (first_occurrences cs)" using ih by blast
  also have "\<dots> = map fst obs @ filter (\<lambda>d. d \<notin> fst ` set obs) (first_occurrences (c # cs))"
    by (auto simp: keys_dict_set conj_commute intro!: filter_cong)
  finally have keys: "map fst obs' = map fst obs
      @ filter (\<lambda>d. d \<notin> fst ` set obs) (first_occurrences (c # cs))" .
  have "map_of obs' c = Some ob" if "c \<notin> set cs" using ih that by simp
  moreover have "\<exists>ob. f c = Inr ob \<and> map_of obs' c = Some ob" if "c \<in> set cs" using ih that by blast
  ultimately have "\<exists>ob. f c = Inr ob \<and> map_of obs' c = Some ob" using ob(1) by blast
  with keys ih show ?case by auto
qed simp

lemma retarget_Inr: "retarget ob c = Inr ob' \<Longrightarrow> ob' = ob\<lparr>ob_task_id := c\<rparr>"
  by (auto simp: retarget_def Observation_replace_def Observation_init_iff opt_val_def
      split: option.splits)

text \<open>
  The state after some units: one execution each, an observation for each consumer, and nothing
  finished whose prerequisites did not succeed.
\<close>

definition consumer_observed ::
    "(string \<times> observation) list \<Rightarrow> observation option \<Rightarrow> string \<Rightarrow> bool" where
  "consumer_observed obs answer c \<longleftrightarrow>
     (case answer of
        Some ob \<Rightarrow> map_of obs c = Some (ob\<lparr>ob_task_id := c\<rparr>)
      | None \<Rightarrow> \<exists>o1. map_of obs c = Some o1 \<and> ob_task_id o1 = c
          \<and> ob_state o1 \<in> {BLOCKED, CANCELLED} \<and> ob_findings o1 = [])"

definition run_inv :: "work_unit list \<Rightarrow> run_state \<Rightarrow> bool" where
  "run_inv us st \<longleftrightarrow>
     map xe_unit (rs_executions st) = map wu_id us
     \<and> map xe_consumers (rs_executions st) = map wu_consumers us
     \<and> map fst (rs_observations st) = concat (map wu_consumers us)
     \<and> fst ` set (rs_finished st) \<subseteq> wu_id ` set us
     \<and> (\<forall>u \<in> set us. \<forall>c \<in> set (wu_consumers u).
          consumer_observed (rs_observations st) (map_of (rs_finished st) (wu_id u)) c)
     \<and> (\<forall>u \<in> set us. map_of (rs_finished st) (wu_id u) \<noteq> None \<longrightarrow>
          (\<forall>d \<in> set (wu_depends_on u). \<exists>p. map_of (rs_finished st) d = Some p \<and> ob_state p = SUCCEEDED))"

text \<open>Units with their own ids and consumers of their own.\<close>

definition units_apart :: "work_unit list \<Rightarrow> bool" where
  "units_apart us \<longleftrightarrow>
     distinct (map wu_id us) \<and> distinct (concat (map wu_consumers us))"

lemma consumer_observed_id:
  "consumer_observed obs answer c \<Longrightarrow> map_of obs c = Some o1 \<Longrightarrow> ob_task_id o1 = c"
  by (cases answer) (auto simp: consumer_observed_def)

lemma settle_unit_Inr:
  assumes st: "settle_unit u r st = Inr st'" and inv: "run_inv us st" and apart: "units_apart (us @ [u])"
    and old: "\<And>d p. map_of base d = Some p \<Longrightarrow> map_of (rs_finished st) d = Some p"
    and att: "attempted base u r"
  shows "run_inv (us @ [u]) st'"
    "\<And>d p. map_of base d = Some p \<Longrightarrow> map_of (rs_finished st') d = Some p"
proof -
  obtain answer x where r: "r = (answer, x)" by force
  define produce where "produce c = (case answer of
      None \<Rightarrow> unavailable (provider_name u) c (xe_detail x) (xe_state x)
    | Some ob \<Rightarrow> retarget ob c)" for c
  obtain obs where obs: "observe_consumers produce (wu_consumers u) (rs_observations st) = Inr obs"
    and st': "rs_observations st' = obs" "rs_executions st' = rs_executions st @ [x]"
      "rs_finished st' = (case answer of None \<Rightarrow> rs_finished st
         | Some ob \<Rightarrow> dict_set (wu_id u) ob (rs_finished st))"
    using st by (cases answer) (auto simp: settle_unit_def r bindr_Inr produce_def [abs_def])
  note oc = conjunct1 [OF observe_consumers_Inr [OF obs]]
    and oc_in = conjunct1 [OF conjunct2 [OF observe_consumers_Inr [OF obs]]]
    and oc_out = conjunct2 [OF conjunct2 [OF observe_consumers_Inr [OF obs]]]
  have new: "wu_id u \<notin> wu_id ` set us" "distinct (wu_consumers u)"
    "set (concat (map wu_consumers us)) \<inter> set (wu_consumers u) = {}"
    using apart by (auto simp: units_apart_def)
  have keys: "fst ` set (rs_observations st) = set (concat (map wu_consumers us))"
    using inv by (metis run_inv_def set_map)
  have fin_new: "map_of (rs_finished st) (wu_id u) = None"
    using inv new(1) by (auto simp: run_inv_def map_of_eq_None_iff)
  have fin: "map_of (rs_finished st') d = (if d = wu_id u then answer else map_of (rs_finished st) d)" for d
    using fin_new by (auto simp: st'(3) split: option.splits)
  have "map fst obs = map fst (rs_observations st) @ wu_consumers u"
  proof -
    have "filter (\<lambda>c. c \<notin> fst ` set (rs_observations st)) (first_occurrences (wu_consumers u)) = wu_consumers u"
      using new(2,3) unfolding keys by (auto simp: first_occurrences_distinct filter_id_conv)
    then show ?thesis using oc by simp
  qed
  then have map_keys: "map fst (rs_observations st') = concat (map wu_consumers (us @ [u]))"
    using inv by (simp add: st'(1) run_inv_def)
  have own: "consumer_observed (rs_observations st') (map_of (rs_finished st') (wu_id u)) c"
    if cu: "c \<in> set (wu_consumers u)" for c
  proof -
    obtain ob where ob: "produce c = Inr ob" "map_of obs c = Some ob" using oc_in cu by blast
    show ?thesis
    proof (cases answer)
      case None
      have "xe_state x \<in> {BLOCKED, CANCELLED}" using att by (simp add: attempted_def r None)
      moreover have "unavailable (provider_name u) c (xe_detail x) (xe_state x) = Inr ob"
        using ob(1) by (simp add: produce_def None)
      ultimately show ?thesis
        using ob(2) by (simp add: consumer_observed_def fin st'(1) None unavailable_iff)
    next
      case (Some a)
      then have "ob = a\<lparr>ob_task_id := c\<rparr>" using ob(1) by (simp add: produce_def retarget_Inr)
      with ob(2) show ?thesis by (simp add: consumer_observed_def fin st'(1) Some)
    qed
  qed
  have others: "consumer_observed (rs_observations st') (map_of (rs_finished st') (wu_id v)) c"
    if "v \<in> set us" "c \<in> set (wu_consumers v)" for v c
  proof -
    have "c \<notin> set (wu_consumers u)" using that new(3) by auto
    then have "map_of obs c = map_of (rs_observations st) c" using oc_out by blast
    moreover have "wu_id v \<noteq> wu_id u" using that(1) new(1) by (metis imageI)
    ultimately show ?thesis
      using inv that by (simp add: run_inv_def consumer_observed_def fin st'(1) cong: option.case_cong)
  qed
  have keep: "map_of (rs_finished st') d = Some p" if "map_of (rs_finished st) d = Some p" for d p
    using that fin_new by (cases "d = wu_id u") (auto simp: fin)
  then show old': "\<And>d p. map_of base d = Some p \<Longrightarrow> map_of (rs_finished st') d = Some p"
    using old by blast
  have deps: "\<exists>p. map_of (rs_finished st') d = Some p \<and> ob_state p = SUCCEEDED"
    if v: "v \<in> set (us @ [u])" "map_of (rs_finished st') (wu_id v) \<noteq> None" "d \<in> set (wu_depends_on v)" for v d
  proof (cases "v = u")
    case True
    with v fin obtain ob where "answer = Some ob" by auto
    with att v(3) True old' show ?thesis by (auto simp: attempted_def r)
  next
    case False
    then have vs: "v \<in> set us" using v(1) by simp
    then have "wu_id v \<noteq> wu_id u" using new(1) by (metis imageI)
    with v(2) fin have "map_of (rs_finished st) (wu_id v) \<noteq> None" by simp
    with inv vs v(3) have "\<exists>p. map_of (rs_finished st) d = Some p \<and> ob_state p = SUCCEEDED"
      unfolding run_inv_def by blast
    with keep show ?thesis by blast
  qed
  have "fst ` set (rs_finished st') \<subseteq> wu_id ` set (us @ [u])"
    using inv by (auto simp: st'(3) run_inv_def split: option.splits)
  moreover have "map xe_unit (rs_executions st') = map wu_id (us @ [u])"
    "map xe_consumers (rs_executions st') = map wu_consumers (us @ [u])"
    using inv att by (auto simp: run_inv_def st'(2) attempted_def r)
  ultimately show "run_inv (us @ [u]) st'"
    unfolding run_inv_def using map_keys own others deps by auto
qed

lemma units_apart_prefix: "units_apart (us @ vs) \<Longrightarrow> units_apart us"
  by (simp add: units_apart_def)

lemma settle_Inr:
  "settle (zip l rs) st = Inr st' \<Longrightarrow> list_all2 (attempted base) l rs \<Longrightarrow> run_inv us st \<Longrightarrow>
     units_apart (us @ l) \<Longrightarrow>
     (\<forall>d p. map_of base d = Some p \<longrightarrow> map_of (rs_finished st) d = Some p) \<Longrightarrow>
     run_inv (us @ l) st'"
proof (induction l arbitrary: rs st us)
  case (Cons u l)
  then obtain r rs1 where rs: "rs = r # rs1" "attempted base u r" "list_all2 (attempted base) l rs1"
    by (auto simp: list_all2_Cons1)
  with Cons.prems(1) obtain st1 where st1: "settle_unit u r st = Inr st1" "settle (zip l rs1) st1 = Inr st'"
    by (auto simp: bindr_Inr)
  have apart: "units_apart ((us @ [u]) @ l)" using Cons.prems(4) by simp
  note one = settle_unit_Inr [OF st1(1) Cons.prems(3) units_apart_prefix [OF apart] _ rs(2)]
  have "run_inv ((us @ [u]) @ l) st'"
    using Cons.prems(5) one(2) by (intro Cons.IH [OF st1(2) rs(3) one(1) apart]) auto
  then show ?case by simp
qed simp

lemma run_layers_Inr:
  "run_layers cx ls st store = Inr (st', store') \<Longrightarrow> run_inv us st \<Longrightarrow>
     units_apart (us @ concat ls) \<Longrightarrow> run_inv (us @ concat ls) st'"
proof (induction ls arbitrary: st store us)
  case (Cons l ls)
  then obtain rs s1 st1 where run: "run_layer cx (rs_finished st) store l = Inr (rs, s1)"
    "settle (zip l rs) st = Inr st1" "run_layers cx ls st1 s1 = Inr (st', store')"
    by (auto simp: bindr_Inr)
  have apart: "units_apart ((us @ l) @ concat ls)" using Cons.prems(3) by simp
  have "run_inv (us @ l) st1"
    by (rule settle_Inr [OF run(2) run_layer_Inr [OF run(1)] Cons.prems(2) units_apart_prefix [OF apart]])
      simp
  from Cons.IH [OF run(3) this apart] show ?case by simp
qed simp

lemma new_run_inv: "run_inv [] new_run"
  by (simp add: run_inv_def new_run_def)

lemma settle_blocked_Inr:
  "settle_blocked bs obs = Inr obs' \<Longrightarrow> distinct (map (\<lambda>b. pc_task_id (bl_check b)) bs) \<Longrightarrow>
     fst ` set obs \<inter> (\<lambda>b. pc_task_id (bl_check b)) ` set bs = {} \<Longrightarrow>
     \<exists>new. obs' = obs @ new \<and> map fst new = map (\<lambda>b. pc_task_id (bl_check b)) bs
       \<and> (\<forall>o1 \<in> snd ` set new. ob_state o1 = BLOCKED \<and> ob_findings o1 = [])
       \<and> (\<forall>x \<in> set new. ob_task_id (snd x) = fst x)"
proof (induction bs arbitrary: obs)
  case (Cons b bs)
  let ?i = "pc_task_id (bl_check b)"
  obtain pn ob where ob: "unavailable pn ?i (bl_reason b) BLOCKED = Inr ob"
    and rest: "settle_blocked bs (dict_set ?i ob obs) = Inr obs'"
    using Cons.prems(1) by (auto simp: bindr_Inr)
  have app: "dict_set k v d = d @ [(k, v)]" if "k \<notin> fst ` set d" for k and v :: observation and d
    using that by (induction k v d rule: dict_set.induct) auto
  have fresh: "dict_set ?i ob obs = obs @ [(?i, ob)]" using Cons.prems(3) by (intro app) auto
  have "fst ` set (dict_set ?i ob obs) \<inter> (\<lambda>b. pc_task_id (bl_check b)) ` set bs = {}"
    using Cons.prems(2,3) by auto
  then obtain new where "obs' = (obs @ [(?i, ob)]) @ new"
    "map fst new = map (\<lambda>b. pc_task_id (bl_check b)) bs"
    "\<forall>o1 \<in> snd ` set new. ob_state o1 = BLOCKED \<and> ob_findings o1 = []"
    "\<forall>x \<in> set new. ob_task_id (snd x) = fst x"
    using Cons.IH [OF rest] Cons.prems(2) unfolding fresh by auto
  then show ?case using ob by (intro exI [of _ "(?i, ob) # new"]) (auto simp: unavailable_iff)
qed simp

section \<open>The whole run\<close>

lemma mset_concat_map:
  "mset (concat (map f xs)) = sum_mset (image_mset (\<lambda>x. mset (f x)) (mset xs))"
  by (induction xs) auto

lemma run_graph_Inr:
  assumes run: "run_graph cx store g = Inr (s, store')" and apart: "units_apart (tg_units g)"
    and blocked: "distinct (map (\<lambda>b. pc_task_id (bl_check b)) (tg_blocked g))"
    and disjoint: "blocked_ids (tg_blocked g) \<inter> set (concat (map wu_consumers (tg_units g))) = {}"
  obtains ls st new where "graph_layers g = Inr ls" "mset (concat ls) = mset (tg_units g)"
    "run_inv (concat ls) st" "sd_executions s = rs_executions st"
    "sd_observations s = map snd (rs_observations st @ new)"
    "map fst new = map (\<lambda>b. pc_task_id (bl_check b)) (tg_blocked g)"
    "\<forall>o1 \<in> snd ` set new. ob_state o1 = BLOCKED \<and> ob_findings o1 = []"
    "\<forall>x \<in> set new. ob_task_id (snd x) = fst x"
proof -
  obtain ls st s1 obs where ls: "graph_layers g = Inr ls"
    and st: "run_layers cx ls new_run store = Inr (st, s1)"
    and obs: "settle_blocked (tg_blocked g) (rs_observations st) = Inr obs"
    and s: "s = \<lparr>sd_observations = map snd obs, sd_executions = rs_executions st\<rparr>"
    using run by (auto simp: run_graph_def bindr_Inr)
  have perm: "mset (concat ls) = mset (tg_units g)"
    using ls kahn_layers [of "{}" "tg_units g"] by (auto simp: graph_layers_def split: sum.splits)
  have same: "set (concat ls) = set (tg_units g)" by (rule mset_eq_setD [OF perm])
  have "mset (map wu_id (concat ls)) = mset (map wu_id (tg_units g))"
    using arg_cong [OF perm, of "image_mset wu_id"] by (simp del: map_concat)
  then have "distinct (map wu_id (concat ls))"
    using apart by (metis mset_eq_imp_distinct_iff units_apart_def)
  moreover have "mset (concat (map wu_consumers (concat ls))) = mset (concat (map wu_consumers (tg_units g)))"
    unfolding mset_concat_map perm ..
  then have "distinct (concat (map wu_consumers (concat ls)))"
    using apart by (metis mset_eq_imp_distinct_iff units_apart_def)
  ultimately have "units_apart ([] @ concat ls)" by (simp add: units_apart_def)
  from run_layers_Inr [OF st new_run_inv this] have inv: "run_inv (concat ls) st" by simp
  then have "map fst (rs_observations st) = concat (map wu_consumers (concat ls))"
    by (simp add: run_inv_def)
  then have "fst ` set (rs_observations st) = set (concat (map wu_consumers (tg_units g)))"
    using same by (metis set_map list.set_map set_concat)
  then have "fst ` set (rs_observations st) \<inter> (\<lambda>b. pc_task_id (bl_check b)) ` set (tg_blocked g) = {}"
    using disjoint by (auto simp: blocked_ids_def)
  from settle_blocked_Inr [OF obs blocked this] obtain new where "obs = rs_observations st @ new"
    "map fst new = map (\<lambda>b. pc_task_id (bl_check b)) (tg_blocked g)"
    "\<forall>o1 \<in> snd ` set new. ob_state o1 = BLOCKED \<and> ob_findings o1 = []"
    "\<forall>x \<in> set new. ob_task_id (snd x) = fst x" by blast
  with ls perm inv s show thesis by (intro that) auto
qed

text \<open>The hypotheses of \<open>run_graph_Inr\<close> hold for every graph the program builds.\<close>

lemma built_graph_apart:
  assumes build: "build_graph checks catalog = Inr g" and input: "graph_input_ok checks"
  shows "units_apart (tg_units g)" "distinct (map (\<lambda>b. pc_task_id (bl_check b)) (tg_blocked g))"
    "blocked_ids (tg_blocked g) \<inter> set (concat (map wu_consumers (tg_units g))) = {}"
proof -
  have part: "mset (map (\<lambda>b. pc_task_id (bl_check b)) (tg_blocked g))
      + mset (concat (map wu_consumers (tg_units g))) = mset (map pc_task_id checks)"
    by (rule graph_partition [OF build input])
  have "distinct (map (\<lambda>b. pc_task_id (bl_check b)) (tg_blocked g)
      @ concat (map wu_consumers (tg_units g)))"
    using part input unfolding graph_input_ok_def
    by (metis mset_append mset_eq_imp_distinct_iff)
  then have d: "distinct (map (\<lambda>b. pc_task_id (bl_check b)) (tg_blocked g))"
    "distinct (concat (map wu_consumers (tg_units g)))"
    "(\<lambda>b. pc_task_id (bl_check b)) ` set (tg_blocked g)
      \<inter> set (concat (map wu_consumers (tg_units g))) = {}"
    by (simp_all add: distinct_append)
  then show "distinct (map (\<lambda>b. pc_task_id (bl_check b)) (tg_blocked g))"
    "blocked_ids (tg_blocked g) \<inter> set (concat (map wu_consumers (tg_units g))) = {}"
    by (simp_all add: blocked_ids_def)
  obtain r es where "distinct (map pc_task_id r)" "group_units_ok r es (tg_units g)"
    by (rule build_graph_units [OF build input])
  then have "distinct (map wu_id (tg_units g))" by (intro group_units_ids)
  with d(2) show "units_apart (tg_units g)" by (simp add: units_apart_def)
qed

lemma run_observation_ids:
  assumes build: "build_graph checks catalog = Inr g" and input: "graph_input_ok checks"
    and run: "run_graph cx store g = Inr (s, store')"
  shows "mset (map ob_task_id (sd_observations s)) = mset (map pc_task_id checks)"
proof -
  obtain ls st new where perm: "mset (concat ls) = mset (tg_units g)" and inv: "run_inv (concat ls) st"
    and obs: "sd_observations s = map snd (rs_observations st @ new)"
    and new: "map fst new = map (\<lambda>b. pc_task_id (bl_check b)) (tg_blocked g)"
      "\<forall>x \<in> set new. ob_task_id (snd x) = fst x"
    by (rule run_graph_Inr [OF run built_graph_apart [OF build input]])
  have keys: "map fst (rs_observations st) = concat (map wu_consumers (concat ls))"
    using inv by (simp add: run_inv_def)
  have "distinct (concat (map wu_consumers (concat ls)))"
    using built_graph_apart(1) [OF build input] mset_concat_map perm
    by (metis mset_eq_imp_distinct_iff units_apart_def)
  then have dist: "distinct (map fst (rs_observations st))" unfolding keys .
  have own: "ob_task_id (snd x) = fst x" if x: "x \<in> set (rs_observations st)" for x
  proof -
    have m: "map_of (rs_observations st) (fst x) = Some (snd x)" using dist x by simp
    have "fst x \<in> set (concat (map wu_consumers (concat ls)))"
      using x unfolding keys [symmetric] by simp
    then obtain u where "u \<in> set (concat ls)" "fst x \<in> set (wu_consumers u)" by auto
    then have "consumer_observed (rs_observations st) (map_of (rs_finished st) (wu_id u)) (fst x)"
      using inv unfolding run_inv_def by blast
    then show ?thesis using m by (rule consumer_observed_id)
  qed
  have "map ob_task_id (sd_observations s) = map fst (rs_observations st) @ map fst new"
    using own new(2) by (simp add: obs)
  also have "mset \<dots> = mset (concat (map wu_consumers (tg_units g))) + mset (map fst new)"
    unfolding keys mset_append mset_concat_map perm ..
  finally show ?thesis using graph_partition [OF build input] new(1) by (simp add: add.commute)
qed

text \<open>The observation of a consumer is its unit's answer.\<close>

definition answered :: "observation \<Rightarrow> observation option \<Rightarrow> bool" where
  "answered o1 answer \<longleftrightarrow>
     (case answer of
        Some ob \<Rightarrow> o1 = ob\<lparr>ob_task_id := ob_task_id o1\<rparr>
      | None \<Rightarrow> ob_state o1 \<in> {BLOCKED, CANCELLED} \<and> ob_findings o1 = [])"

lemma answered_state:
  "answered o1 answer \<Longrightarrow> ob_state o1 = SUCCEEDED \<longleftrightarrow> (\<exists>a. answer = Some a \<and> ob_state a = SUCCEEDED)"
  by (cases answer) (auto simp: answered_def dest: arg_cong [of _ _ ob_state])

lemma run_consumer_observed:
  assumes build: "build_graph checks catalog = Inr g" and input: "graph_input_ok checks"
    and run: "run_graph cx store g = Inr (s, store')"
  obtains finished where
    "\<forall>u \<in> set (tg_units g). \<forall>o1 \<in> set (sd_observations s). ob_task_id o1 \<in> set (wu_consumers u) \<longrightarrow>
       answered o1 (map_of finished (wu_id u))"
    "\<forall>u \<in> set (tg_units g). map_of finished (wu_id u) \<noteq> None \<longrightarrow>
       (\<forall>d \<in> set (wu_depends_on u). \<exists>p. map_of finished d = Some p \<and> ob_state p = SUCCEEDED)"
proof -
  obtain ls st new where perm: "mset (concat ls) = mset (tg_units g)" and inv: "run_inv (concat ls) st"
    and obs: "sd_observations s = map snd (rs_observations st @ new)"
    by (rule run_graph_Inr [OF run built_graph_apart [OF build input]])
  have same: "set (concat ls) = set (tg_units g)" by (rule mset_eq_setD [OF perm])
  have "distinct (map ob_task_id (sd_observations s))"
    using run_observation_ids [OF build input run] input
    by (metis graph_input_ok_def mset_eq_imp_distinct_iff)
  then have inj: "a = b" if "a \<in> set (sd_observations s)" "b \<in> set (sd_observations s)"
    "ob_task_id a = ob_task_id b" for a b
    using that by (auto simp: distinct_map dest: inj_onD)
  have "answered o1 (map_of (rs_finished st) (wu_id u))"
    if u: "u \<in> set (tg_units g)" "ob_task_id o1 \<in> set (wu_consumers u)"
      and o1: "o1 \<in> set (sd_observations s)" for u o1
  proof -
    let ?c = "ob_task_id o1"
    have co: "consumer_observed (rs_observations st) (map_of (rs_finished st) (wu_id u)) ?c"
      using inv u same unfolding run_inv_def by blast
    then obtain o2 where o2: "map_of (rs_observations st) ?c = Some o2"
      by (cases "map_of (rs_finished st) (wu_id u)") (auto simp: consumer_observed_def)
    then have "o2 \<in> set (sd_observations s)" unfolding obs by (force dest: map_of_SomeD)
    with inj o1 consumer_observed_id [OF co o2] have "o1 = o2" by simp
    with co o2 show ?thesis
      by (cases "map_of (rs_finished st) (wu_id u)") (simp_all add: consumer_observed_def answered_def)
  qed
  moreover have "\<exists>p. map_of (rs_finished st) d = Some p \<and> ob_state p = SUCCEEDED"
    if "u \<in> set (tg_units g)" "map_of (rs_finished st) (wu_id u) \<noteq> None" "d \<in> set (wu_depends_on u)" for u d
    using inv that same unfolding run_inv_def by blast
  ultimately show thesis by (intro that) blast+
qed

text \<open>A refused check is on record as blocked, with no finding.\<close>

lemma run_blocked_observed:
  assumes build: "build_graph checks catalog = Inr g" and input: "graph_input_ok checks"
    and run: "run_graph cx store g = Inr (s, store')"
    and p: "must_block checks p" and o1: "o1 \<in> set (sd_observations s)" "ob_task_id o1 = pc_task_id p"
  shows "ob_state o1 = BLOCKED \<and> ob_findings o1 = []"
proof -
  have dist: "distinct (map pc_task_id checks)" using input by (simp add: graph_input_ok_def)
  obtain ls st new where "run_inv (concat ls) st"
    and obs: "sd_observations s = map snd (rs_observations st @ new)"
    and new: "map fst new = map (\<lambda>b. pc_task_id (bl_check b)) (tg_blocked g)"
      "\<forall>o1 \<in> snd ` set new. ob_state o1 = BLOCKED \<and> ob_findings o1 = []"
      "\<forall>x \<in> set new. ob_task_id (snd x) = fst x"
    by (rule run_graph_Inr [OF run built_graph_apart [OF build input]])
  have "p \<in> bl_check ` set (tg_blocked g)" using blocked_iff [OF build dist, of p] p by simp
  then have "pc_task_id p \<in> set (map fst new)" unfolding new(1) by auto
  then obtain x where x: "x \<in> set new" "fst x = pc_task_id p" by auto
  have "distinct (map ob_task_id (sd_observations s))"
    using run_observation_ids [OF build input run] dist by (metis mset_eq_imp_distinct_iff)
  moreover have "snd x \<in> set (sd_observations s)" "ob_task_id (snd x) = ob_task_id o1"
    using x new(3) o1(2) by (auto simp: obs)
  ultimately have "snd x = o1" using o1(1) by (auto simp: distinct_map dest: inj_onD)
  with new(2) x(1) show ?thesis by force
qed

text \<open>
  No check succeeds on an input whose producer did not.
\<close>

lemma run_inputs_succeeded:
  assumes build: "build_graph checks catalog = Inr g" and input: "graph_input_ok checks"
    and run: "run_graph cx store g = Inr (s, store')"
    and p: "p \<in> set checks" "op \<in> set (sd_observations s)" "ob_task_id op = pc_task_id p"
    and ok: "ob_state op = SUCCEEDED"
    and q: "q \<in> set checks" "oq \<in> set (sd_observations s)" "ob_task_id oq = pc_task_id q"
    and n: "n \<in> set (ck_needs (pc_check p))" "n \<in> set (ck_provides (pc_check q))"
  shows "ob_state oq = SUCCEEDED"
proof -
  have live: "\<not> must_block checks p"
    using run_blocked_observed [OF build input run _ p(2,3)] ok by force
  obtain r es where rset: "set r = {p \<in> set checks. \<not> must_block checks p}"
    and gok: "group_units_ok r es (tg_units g)"
    by (rule build_graph_units [OF build input])
  obtain u where u: "u \<in> set (tg_units g)" "pc_task_id p \<in> set (wu_consumers u)"
    using group_units_serve [OF gok, of p] p(1) live rset by (auto simp: unit_serves_def)
  obtain v where v: "v \<in> set (tg_units g)" "pc_task_id q \<in> set (wu_consumers v)"
    "v = u \<or> wu_id v \<in> set (wu_depends_on u)"
    using graph_dependency [OF build input u p(1) q(1) n] by blast
  obtain finished where
    obs: "\<forall>u \<in> set (tg_units g). \<forall>o1 \<in> set (sd_observations s). ob_task_id o1 \<in> set (wu_consumers u) \<longrightarrow>
       answered o1 (map_of finished (wu_id u))"
    and deps: "\<forall>u \<in> set (tg_units g). map_of finished (wu_id u) \<noteq> None \<longrightarrow>
       (\<forall>d \<in> set (wu_depends_on u). \<exists>p. map_of finished d = Some p \<and> ob_state p = SUCCEEDED)"
    by (rule run_consumer_observed [OF build input run])
  have "answered op (map_of finished (wu_id u))" using obs u p(2,3) by metis
  then have fu: "\<exists>a. map_of finished (wu_id u) = Some a \<and> ob_state a = SUCCEEDED"
    using ok by (simp add: answered_state)
  then have "\<exists>a. map_of finished (wu_id v) = Some a \<and> ob_state a = SUCCEEDED"
    using v(3) deps u(1) by blast
  moreover have "answered oq (map_of finished (wu_id v))" using obs v(1,2) q(2,3) by metis
  ultimately show ?thesis by (simp add: answered_state)
qed

section \<open>Failures and order\<close>

text \<open>
  An exception inside a unit is that unit's failure, as long as its text can stand in a
  limitation.
\<close>

lemma guarded_crash:
  assumes "perform cx u = Inl e" "identifier_ok (wu_id u)" "identifier_ok (provider_name u)"
    and "text_ok (''internal error: '' @ exn_class e @ '': '' @ exn_text e)"
  shows "\<exists>ob. guarded cx u = Inr ob \<and> ob_state ob = FAILED \<and> ob_findings ob = []
    \<and> ob_limitations ob = [''internal error: '' @ exn_class e @ '': '' @ exn_text e]"
  using assms by (auto simp: guarded_def unavailable_iff)

lemma guarded_escapes:
  assumes "perform cx u = Inl e"
    and "\<not> text_ok (''internal error: '' @ exn_class e @ '': '' @ exn_text e)"
  shows "\<exists>x. guarded cx u = Inl x"
  using assms by (cases "guarded cx u") (auto simp: guarded_def unavailable_iff)

text \<open>
  Without a cache the units of a layer do not see each other: whatever order they are attempted
  in, each gets the answer it gets alone.
\<close>

lemma attempt_storeless:
  assumes "attempt cx finished None u = Inr (r, store)"
  shows "store = None"
  using assms
  by (auto simp: attempt_def attempt_ready_def run_and_keep_def bindr_Inr
      split: option.splits if_splits prod.splits)

lemma run_layer_alone:
  "run_layer cx finished None us = Inr (rs, store) \<longleftrightarrow>
     store = None \<and> list_all2 (\<lambda>u r. attempt cx finished None u = Inr (r, None)) us rs"
proof (induction us arbitrary: rs)
  case (Cons u us)
  show ?case
  proof
    assume "run_layer cx finished None (u # us) = Inr (rs, store)"
    then obtain r s1 rs1 where "attempt cx finished None u = Inr (r, s1)"
      "run_layer cx finished s1 us = Inr (rs1, store)" "rs = r # rs1"
      by (auto simp: bindr_Inr)
    moreover from this have "s1 = None" using attempt_storeless by blast
    ultimately show "store = None \<and>
        list_all2 (\<lambda>u r. attempt cx finished None u = Inr (r, None)) (u # us) rs"
      using Cons.IH by simp
  next
    assume a: "store = None \<and>
        list_all2 (\<lambda>u r. attempt cx finished None u = Inr (r, None)) (u # us) rs"
    then obtain r rs1 where "rs = r # rs1" "attempt cx finished None u = Inr (r, None)"
      "list_all2 (\<lambda>u r. attempt cx finished None u = Inr (r, None)) us rs1"
      by (auto simp: list_all2_Cons1)
    moreover from this have "run_layer cx finished None us = Inr (rs1, None)"
      using Cons.IH a by blast
    ultimately show "run_layer cx finished None (u # us) = Inr (rs, store)" using a by simp
  qed
qed auto

lemma run_layer_order:
  assumes run: "run_layer cx finished None us = Inr (rs, store)" and perm: "mset vs = mset us"
    and run': "run_layer cx finished None vs = Inr (rs', store')"
  shows "mset (zip vs rs') = mset (zip us rs)"
proof -
  define answer where "answer u = fst (projr (attempt cx finished None u))" for u
  have eq: "zip us rs = map (\<lambda>u. (u, answer u)) us"
    if "list_all2 (\<lambda>u r. attempt cx finished None u = Inr (r, None)) us rs" for us rs
    using that by (induction rule: list_all2_induct) (auto simp: answer_def)
  show ?thesis
    using run run' perm by (simp add: run_layer_alone eq)
qed

section \<open>Reuse\<close>

text \<open>
  What a run needs of its cache, over the store of evidence: a read returns what the store finds,
  and a write puts a complete observation into it.
\<close>

locale reusing = evidence_store find put inv
  for find :: "'c \<Rightarrow> string \<Rightarrow> observation option" and put inv +
  fixes read :: "'c \<Rightarrow> string \<Rightarrow> cache_read result \<times> 'c"
  assumes read_find: "inv c \<Longrightarrow> read c k = (Inr r, c') \<Longrightarrow>
      inv c' \<and> (cr_hit r \<longrightarrow> cr_observation r \<noteq> None \<longrightarrow> find c k = cr_observation r)"
begin

definition sound_context :: "'c run_context \<Rightarrow> bool" where
  "sound_context cx \<longleftrightarrow>
     rc_read cx = read \<and> rc_write cx = put
     \<and> (\<forall>u ob. guarded cx u = Inr ob \<longrightarrow> observation_ok ob)"

definition store_ok :: "'c option \<Rightarrow> bool" where
  "store_ok store \<longleftrightarrow> (case store of None \<Rightarrow> True | Some c \<Rightarrow> inv c)"

lemma run_and_keep_store:
  assumes "sound_context cx" "store_ok store" "run_and_keep cx store key reason u = Inr (r, store')"
  shows "store_ok store'"
proof -
  have w: "rc_write cx = put" and g: "\<And>ob. guarded cx u = Inr ob \<Longrightarrow> observation_ok ob"
    using assms(1) by (auto simp: sound_context_def)
  show ?thesis
    using assms(2,3) g put_inv
    by (auto simp: run_and_keep_def bindr_Inr store_ok_def w split: option.splits if_splits)
qed

text \<open>A reused answer is complete, and the store keeps its invariant through a unit.\<close>

lemma attempt_ready_store:
  assumes cx: "sound_context cx" and st: "store_ok store"
    and run: "attempt_ready cx finished store u = Inr ((answer, x), store')"
  shows "store_ok store'"
    "answer = Some ob \<Longrightarrow> guarded cx u = Inr ob \<or> evidence_is_complete ob"
proof -
  have "store_ok store' \<and> (answer = Some ob \<longrightarrow> guarded cx u = Inr ob \<or> evidence_is_complete ob)"
  proof (cases "failed_prerequisite u finished")
    case (Some b)
    with run st show ?thesis by (auto simp: attempt_ready_def)
  next
    case None
    obtain key reason where k: "identified cx (store \<noteq> None) u = (key, reason)" by force
    have keep: "store_ok store' \<and> (answer = Some ob \<longrightarrow> guarded cx u = Inr ob \<or> evidence_is_complete ob)"
      if "run_and_keep cx s key0 re u = Inr ((answer, x), store')" "store_ok s" for s key0 re
      using run_and_keep_store [OF cx that(2,1)] run_and_keep_Inr [OF that(1)] by auto
    show ?thesis
    proof (cases "store = None \<or> key = None")
      case True
      then consider "store = None" | c where "store = Some c" "key = None" by (cases store) auto
      then have "run_and_keep cx store key reason u = Inr ((answer, x), store')"
        using run k by cases (simp_all add: attempt_ready_def None)
      then show ?thesis using keep st by blast
    next
      case False
      then obtain c i where c: "store = Some c" "key = Some i" by auto
      have k': "identified cx True u = (key, reason)" using k c by simp
      obtain res c' where rd: "rc_read cx c i = (res, c')" by force
      obtain r where r: "res = Inr r"
        using run by (cases res) (auto simp: attempt_ready_def None k' c rd)
      have inv: "inv c" using st c by (simp add: store_ok_def)
      have f: "inv c'" "cr_hit r \<Longrightarrow> cr_observation r \<noteq> None \<Longrightarrow> find c i = cr_observation r"
        using read_find [OF inv, of i r c'] rd r cx by (auto simp: sound_context_def)
      have ok': "store_ok (Some c')" using f(1) by (simp add: store_ok_def)
      show ?thesis
      proof (cases "cr_hit r \<and> cr_observation r \<noteq> None")
        case True
        then obtain ob1 where ob1: "cr_observation r = Some ob1" by auto
        then have "evidence_is_complete ob1" using find_complete [OF inv, of i ob1] f(2) True by simp
        with True ob1 run ok' show ?thesis by (auto simp: attempt_ready_def None k' c rd r)
      next
        case False
        then have "run_and_keep cx (Some c') key (cr_reason r) u = Inr ((answer, x), store')"
          using run by (cases "cr_hit r") (auto simp: attempt_ready_def None k' c rd r)
        then show ?thesis using keep ok' by blast
      qed
    qed
  qed
  then show "store_ok store'" "answer = Some ob \<Longrightarrow> guarded cx u = Inr ob \<or> evidence_is_complete ob"
    by auto
qed

lemma attempt_store:
  assumes "sound_context cx" "store_ok store" "attempt cx finished store u = Inr ((answer, x), store')"
  shows "store_ok store'"
    "answer = Some ob \<Longrightarrow> guarded cx u = Inr ob \<or> evidence_is_complete ob"
  using assms attempt_ready_store [OF assms(1,2)]
  by (auto simp: attempt_def split: option.splits if_splits)

lemma run_layer_store:
  "sound_context cx \<Longrightarrow> store_ok store \<Longrightarrow> run_layer cx finished store us = Inr (rs, store') \<Longrightarrow>
     store_ok store'"
proof (induction us arbitrary: store rs)
  case (Cons u us)
  then obtain r s1 rs1 where r: "attempt cx finished store u = Inr (r, s1)"
    "run_layer cx finished s1 us = Inr (rs1, store')" by (auto simp: bindr_Inr)
  obtain a x where "r = (a, x)" by force
  with r(1) have "store_ok s1" using attempt_store(1) [OF Cons.prems(1,2)] by blast
  then show ?case using Cons.IH Cons.prems(1) r(2) by blast
qed simp

lemma run_layers_store:
  "sound_context cx \<Longrightarrow> store_ok store \<Longrightarrow> run_layers cx ls st store = Inr (st', store') \<Longrightarrow>
     store_ok store'"
proof (induction ls arbitrary: st store)
  case (Cons l ls)
  then obtain rs s1 st1 where "run_layer cx (rs_finished st) store l = Inr (rs, s1)"
    "run_layers cx ls st1 s1 = Inr (st', store')" by (auto simp: bindr_Inr)
  then show ?case using Cons.IH run_layer_store [OF Cons.prems(1,2)] Cons.prems(1) by blast
qed simp

lemma run_graph_store:
  assumes "sound_context cx" "inv c" "run_graph cx (Some c) g = Inr (s, Some c')"
  shows "inv c'"
proof -
  obtain ls st where "run_layers cx ls new_run (Some c) = Inr (st, Some c')"
    using assms(3) by (auto simp: run_graph_def bindr_Inr)
  moreover have "store_ok (Some c)" using assms(2) by (simp add: store_ok_def)
  ultimately have "store_ok (Some c')" using run_layers_store [OF assms(1)] by blast
  then show ?thesis by (simp add: store_ok_def)
qed

end

text \<open>The observation cache is such a cache.\<close>

interpretation reuse: reusing "cache_find fr sha sv"
  "\<lambda>c k ob. write_cache fr sha io now c k ob run_id" "trusted fr sha sv" "read_cache fr sha sv"
  for fr sha sv io now run_id
proof unfold_locales
  fix c k r c' assume t: "trusted fr sha sv c" and r: "read_cache fr sha sv c k = (Inr r, c')"
  have "trusted fr sha sv c'" using trusted_read [OF t, of k] r by simp
  moreover have "cache_find fr sha sv c k = cr_observation r" by (simp add: cache_find_def r)
  ultimately show "trusted fr sha sv c' \<and>
      (cr_hit r \<longrightarrow> cr_observation r \<noteq> None \<longrightarrow> cache_find fr sha sv c k = cr_observation r)" by simp
qed

end
