(* ===== verification/Locks.thy ===== *)
theory Locks
  imports Tasks
begin

text \<open>
  The units of one layer on the thread pool, and the locks on resource keys they hold while they
  run (\<open>_ResourceLocks\<close>, \<open>_HeldLocks\<close> and the pool of \<open>run_graph\<close> in
  src/src/ici/application/schedule.py).  A key stands for its one lock; a \<open>threading.Lock\<close> is
  not reentrant, so acquiring waits while anybody holds it, the same thread included.
\<close>

section \<open>Threads and steps\<close>

text \<open>
  A unit on the pool: the keys it has still to acquire in order, the keys it holds with the
  latest first, and whether it has started and done its work.
\<close>

record thread =
  th_started :: bool
  th_todo :: "string list"
  th_held :: "string list"
  th_worked :: bool

text \<open>\<open>held(keys)\<close>: the locks of the sorted keys.\<close>

definition new_thread :: "string list \<Rightarrow> thread" where
  "new_thread keys = \<lparr>th_started = False, th_todo = sort keys, th_held = [], th_worked = False\<rparr>"

definition start_layer :: "string list list \<Rightarrow> thread list" where
  "start_layer kss = map new_thread kss"

definition pool_size :: "int \<Rightarrow> nat \<Rightarrow> nat" where
  "pool_size max_parallel units = nat (max 1 (min max_parallel (int units)))"

definition finished_thread :: "thread \<Rightarrow> bool" where
  "finished_thread t = (th_worked t \<and> th_held t = [])"

definition active :: "thread \<Rightarrow> bool" where
  "active t = (th_started t \<and> \<not> finished_thread t)"

text \<open>Inside the \<open>with\<close> block: every lock acquired, the runner called.\<close>

definition in_body :: "thread \<Rightarrow> bool" where
  "in_body t = (th_started t \<and> th_todo t = [] \<and> \<not> th_worked t)"

definition free :: "string \<Rightarrow> thread list \<Rightarrow> bool" where
  "free k ts = list_all (\<lambda>t. k \<notin> set (th_held t)) ts"

inductive lock_step :: "nat \<Rightarrow> thread list \<Rightarrow> thread list \<Rightarrow> bool" for workers where
  begin_unit: "i < length ts \<Longrightarrow> \<not> th_started (ts ! i) \<Longrightarrow> length (filter active ts) < workers \<Longrightarrow>
    lock_step workers ts (ts[i := (ts ! i)\<lparr>th_started := True\<rparr>])"
| acquire: "i < length ts \<Longrightarrow> th_started (ts ! i) \<Longrightarrow> th_todo (ts ! i) = k # ks \<Longrightarrow> free k ts \<Longrightarrow>
    lock_step workers ts (ts[i := (ts ! i)\<lparr>th_todo := ks, th_held := k # th_held (ts ! i)\<rparr>])"
| work: "i < length ts \<Longrightarrow> in_body (ts ! i) \<Longrightarrow>
    lock_step workers ts (ts[i := (ts ! i)\<lparr>th_worked := True\<rparr>])"
| release: "i < length ts \<Longrightarrow> th_worked (ts ! i) \<Longrightarrow> th_held (ts ! i) = k # ks \<Longrightarrow>
    lock_step workers ts (ts[i := (ts ! i)\<lparr>th_held := ks\<rparr>])"

inductive reachable :: "nat \<Rightarrow> string list list \<Rightarrow> thread list \<Rightarrow> bool" for workers kss where
  initial: "reachable workers kss (start_layer kss)"
| step: "reachable workers kss ts \<Longrightarrow> lock_step workers ts ts' \<Longrightarrow> reachable workers kss ts'"

section \<open>The invariant\<close>

text \<open>A thread's locks: what it holds and what it still wants are its sorted keys.\<close>

definition thread_ok :: "string list \<Rightarrow> thread \<Rightarrow> bool" where
  "thread_ok keys t \<longleftrightarrow>
     (\<not> th_worked t \<longrightarrow> rev (th_held t) @ th_todo t = sort keys)
     \<and> (th_worked t \<longrightarrow> th_todo t = [] \<and> th_started t \<and> (\<exists>ys. rev (th_held t) @ ys = sort keys))
     \<and> (\<not> th_started t \<longrightarrow> th_held t = [] \<and> \<not> th_worked t)"

definition disjoint_held :: "thread list \<Rightarrow> bool" where
  "disjoint_held ts \<longleftrightarrow>
     (\<forall>i < length ts. \<forall>j < length ts. i \<noteq> j \<longrightarrow> set (th_held (ts ! i)) \<inter> set (th_held (ts ! j)) = {})"

definition layer_inv :: "nat \<Rightarrow> string list list \<Rightarrow> thread list \<Rightarrow> bool" where
  "layer_inv workers kss ts \<longleftrightarrow>
     length ts = length kss
     \<and> (\<forall>i < length ts. thread_ok (kss ! i) (ts ! i) \<and> distinct (th_held (ts ! i)))
     \<and> disjoint_held ts \<and> length (filter active ts) \<le> workers"

lemma start_layer_inv: "layer_inv workers kss (start_layer kss)"
proof -
  have "filter active (start_layer kss) = []"
    by (auto simp: start_layer_def new_thread_def active_def filter_empty_conv)
  then show ?thesis
    by (auto simp: layer_inv_def start_layer_def new_thread_def thread_ok_def disjoint_held_def)
qed

lemma active_update:
  assumes "i < length ts"
  shows "length (filter active (ts[i := t])) + (if active (ts ! i) then 1 else 0)
    = length (filter active ts) + (if active t then 1 else 0)"
  using assms
proof (induction ts arbitrary: i)
  case (Cons x xs)
  then show ?case by (cases i) auto
qed simp

text \<open>Replacing one thread keeps the invariant when it is in order and took only a free key.\<close>

lemma layer_inv_update:
  assumes inv: "layer_inv workers kss ts" and i: "i < length ts"
    and ok: "thread_ok (kss ! i) t" "distinct (th_held t)"
    and held: "\<And>k. k \<in> set (th_held t) \<Longrightarrow> k \<in> set (th_held (ts ! i)) \<or> free k ts"
    and act: "length (filter active (ts[i := t])) \<le> workers"
  shows "layer_inv workers kss (ts[i := t])"
proof -
  have dis: "set (th_held t) \<inter> set (th_held (ts ! j)) = {}" if j: "j < length ts" "j \<noteq> i" for j
  proof -
    have "set (th_held (ts ! i)) \<inter> set (th_held (ts ! j)) = {}"
      using inv i j unfolding layer_inv_def disjoint_held_def by metis
    then have "k \<notin> set (th_held (ts ! j))" if "k \<in> set (th_held t)" for k
      using held [OF that] j(1) by (auto simp: free_def list_all_length)
    then show ?thesis by blast
  qed
  have "disjoint_held (ts[i := t])"
    using inv dis i by (auto simp: disjoint_held_def layer_inv_def nth_list_update)
  with inv ok act i show ?thesis by (auto simp: layer_inv_def nth_list_update)
qed

lemma step_inv:
  assumes inv: "layer_inv workers kss ts" and step: "lock_step workers ts ts'"
  shows "layer_inv workers kss ts'"
  using step
proof (cases rule: lock_step.cases)
  case (begin_unit i)
  have ok: "thread_ok (kss ! i) (ts ! i)" "distinct (th_held (ts ! i))"
    using inv begin_unit by (auto simp: layer_inv_def)
  show ?thesis unfolding begin_unit(1)
  proof (rule layer_inv_update [OF inv begin_unit(2)])
    show "length (filter active (ts[i := (ts ! i)\<lparr>th_started := True\<rparr>])) \<le> workers"
      using active_update [OF begin_unit(2), of "(ts ! i)\<lparr>th_started := True\<rparr>"] begin_unit(4)
      by (auto split: if_splits)
  qed (use ok begin_unit in \<open>auto simp: thread_ok_def\<close>)
next
  case (acquire i k ks)
  have ok: "thread_ok (kss ! i) (ts ! i)" "distinct (th_held (ts ! i))"
    and le: "length (filter active ts) \<le> workers"
    using inv acquire by (auto simp: layer_inv_def)
  let ?t = "(ts ! i)\<lparr>th_todo := ks, th_held := k # th_held (ts ! i)\<rparr>"
  have act: "active (ts ! i)" using acquire ok(1) by (auto simp: active_def finished_thread_def thread_ok_def)
  show ?thesis unfolding acquire(1)
  proof (rule layer_inv_update [OF inv acquire(2)])
    show "length (filter active (ts[i := ?t])) \<le> workers"
      using active_update [OF acquire(2), of ?t] act le by (auto split: if_splits)
    show "distinct (th_held ?t)"
      using ok(2) acquire(2,5) by (auto simp: free_def list_all_length)
  qed (use ok acquire in \<open>auto simp: thread_ok_def\<close>)
next
  case (work i)
  have ok: "thread_ok (kss ! i) (ts ! i)" "distinct (th_held (ts ! i))"
    and le: "length (filter active ts) \<le> workers"
    using inv work by (auto simp: layer_inv_def)
  have act: "active (ts ! i)" using work by (auto simp: active_def in_body_def finished_thread_def)
  show ?thesis unfolding work(1)
  proof (rule layer_inv_update [OF inv work(2)])
    show "length (filter active (ts[i := (ts ! i)\<lparr>th_worked := True\<rparr>])) \<le> workers"
      using active_update [OF work(2), of "(ts ! i)\<lparr>th_worked := True\<rparr>"] act le by (auto split: if_splits)
  qed (use ok work in \<open>auto simp: thread_ok_def in_body_def\<close>)
next
  case (release i k ks)
  have ok: "thread_ok (kss ! i) (ts ! i)" "distinct (th_held (ts ! i))"
    and le: "length (filter active ts) \<le> workers"
    using inv release by (auto simp: layer_inv_def)
  have act: "active (ts ! i)"
    using release ok(1) by (auto simp: active_def finished_thread_def thread_ok_def)
  have ok': "thread_ok (kss ! i) ((ts ! i)\<lparr>th_held := ks\<rparr>)"
    using ok(1) release by (auto simp: thread_ok_def)
  show ?thesis unfolding release(1)
  proof (rule layer_inv_update [OF inv release(2) ok'])
    show "length (filter active (ts[i := (ts ! i)\<lparr>th_held := ks\<rparr>])) \<le> workers"
      using active_update [OF release(2), of "(ts ! i)\<lparr>th_held := ks\<rparr>"] act le by (auto split: if_splits)
  qed (use ok release in auto)
qed

lemma reachable_inv: "reachable workers kss ts \<Longrightarrow> layer_inv workers kss ts"
  by (induction rule: reachable.induct) (auto intro: start_layer_inv step_inv)

section \<open>Safety\<close>

text \<open>Two units inside their blocks share no key.\<close>

lemma in_body_keys:
  assumes "layer_inv workers kss ts" "i < length ts" "in_body (ts ! i)"
  shows "set (th_held (ts ! i)) = set (kss ! i)"
proof -
  have "rev (th_held (ts ! i)) = sort (kss ! i)"
    using assms by (auto simp: layer_inv_def thread_ok_def in_body_def)
  then show ?thesis by (metis set_rev set_sort)
qed

lemma exclusion:
  assumes "reachable workers kss ts" "i < length ts" "j < length ts" "i \<noteq> j"
    "in_body (ts ! i)" "in_body (ts ! j)"
  shows "set (kss ! i) \<inter> set (kss ! j) = {}"
proof -
  note inv = reachable_inv [OF assms(1)]
  then have "set (th_held (ts ! i)) \<inter> set (th_held (ts ! j)) = {}"
    using assms(2,3,4) unfolding layer_inv_def disjoint_held_def by blast
  then show ?thesis
    using in_body_keys [OF inv assms(2,5)] in_body_keys [OF inv assms(3,6)] by simp
qed

text \<open>A unit that names a key twice waits for itself and never does its work.\<close>

lemma never_works:
  assumes "reachable workers kss ts" "i < length ts" "\<not> distinct (kss ! i)"
  shows "\<not> in_body (ts ! i) \<and> \<not> th_worked (ts ! i)"
  using assms
proof (induction rule: reachable.induct)
  case initial
  then show ?case by (auto simp: start_layer_def new_thread_def in_body_def)
next
  case (step ts ts')
  have body: "\<not> in_body (vs ! i)" if "reachable workers kss vs" "i < length vs" for vs
  proof
    assume "in_body (vs ! i)"
    with reachable_inv [OF that(1)] that(2) have "rev (th_held (vs ! i)) = sort (kss ! i)"
      "distinct (th_held (vs ! i))" by (auto simp: layer_inv_def thread_ok_def in_body_def)
    with step.prems(2) show False by (metis distinct_rev distinct_sort)
  qed
  have "length ts' = length ts" using step.hyps(2) by (cases rule: lock_step.cases) auto
  with step have "\<not> in_body (ts ! i)" "\<not> th_worked (ts ! i)" "i < length ts" by auto
  with step.hyps(2) have "\<not> th_worked (ts' ! i)"
    by (cases rule: lock_step.cases) (auto simp: nth_list_update split: if_splits)
  with body [OF reachable.step [OF step.hyps] step.prems(1)] show ?case by simp
qed

section \<open>Progress\<close>

text \<open>
  With keys that name no lock twice, a layer that is not finished can take a step: a thread
  waits only for a key greater than all it holds, so the thread that waits for the greatest key
  waits for nobody.
\<close>

definition wants :: "thread \<Rightarrow> string option" where
  "wants t = (if th_started t then (case th_todo t of [] \<Rightarrow> None | k # ks \<Rightarrow> Some k) else None)"

lemma held_below:
  assumes "thread_ok keys t" "distinct keys" "wants t = Some k" "h \<in> set (th_held t)"
  shows "h < k"
proof -
  obtain ks where ks: "th_todo t = k # ks"
    using assms(3) by (auto simp: wants_def split: if_splits list.splits)
  then have "rev (th_held t) @ k # ks = sort keys" using assms(1) by (auto simp: thread_ok_def)
  moreover have "sorted_wrt (<) (sort keys)" using assms(2) by (simp add: strict_sorted_iff)
  ultimately show ?thesis using assms(4) by (metis in_set_conv_decomp set_rev sorted_wrt_append list.set_intros(1))
qed

lemma progress:
  assumes reach: "reachable workers kss ts" and dist: "\<forall>keys \<in> set kss. distinct keys"
    and w: "0 < workers" and busy: "\<exists>t \<in> set ts. \<not> finished_thread t"
  shows "\<exists>ts'. lock_step workers ts ts'"
proof (rule ccontr)
  assume stuck: "\<nexists>ts'. lock_step workers ts ts'"
  have inv: "layer_inv workers kss ts" by (rule reachable_inv [OF reach])
  have ok: "thread_ok (kss ! i) (ts ! i)" "distinct (kss ! i)" if "i < length ts" for i
    using inv dist that by (auto simp: layer_inv_def)
  have waiting: "\<exists>k. wants (ts ! i) = Some k \<and> \<not> free k ts" if i: "i < length ts" "active (ts ! i)" for i
  proof (cases "th_todo (ts ! i)")
    case Nil
    show ?thesis
    proof (cases "th_worked (ts ! i)")
      case True
      then obtain k ks where "th_held (ts ! i) = k # ks"
        using i(2) by (cases "th_held (ts ! i)") (auto simp: active_def finished_thread_def)
      then show ?thesis using stuck release [of i ts k ks workers] i(1) True by blast
    next
      case False
      then have "in_body (ts ! i)" using Nil i(2) by (simp add: in_body_def active_def)
      then show ?thesis using stuck work [of i ts workers] i(1) by blast
    qed
  next
    case (Cons k ks)
    then have "\<not> free k ts"
      using stuck acquire [of i ts k ks workers] i by (auto simp: active_def)
    with Cons i(2) show ?thesis by (simp add: wants_def active_def)
  qed
  let ?W = "{k. \<exists>i < length ts. active (ts ! i) \<and> wants (ts ! i) = Some k}"
  have "?W \<subseteq> (\<lambda>t. the (wants t)) ` set ts"
  proof
    fix k assume "k \<in> ?W"
    then obtain i where "i < length ts" "wants (ts ! i) = Some k" by blast
    then show "k \<in> (\<lambda>t. the (wants t)) ` set ts" by (intro image_eqI [of _ _ "ts ! i"]) simp_all
  qed
  then have fin: "finite ?W" by (rule finite_subset) simp
  have "\<exists>i < length ts. active (ts ! i)"
  proof (rule ccontr)
    assume none: "\<not> (\<exists>i < length ts. active (ts ! i))"
    then have "filter active ts = []" by (auto simp: filter_empty_conv in_set_conv_nth)
    moreover obtain i where i: "i < length ts" "\<not> finished_thread (ts ! i)"
      using busy by (auto simp: in_set_conv_nth)
    moreover have "\<not> th_started (ts ! i)" using i none by (auto simp: active_def)
    ultimately show False using stuck begin_unit [of i ts workers] w by auto
  qed
  then have ne: "?W \<noteq> {}" using waiting by blast
  then have "Max ?W \<in> ?W" using fin by (rule Max_in [rotated])
  then obtain i where i: "i < length ts" "active (ts ! i)" "wants (ts ! i) = Some (Max ?W)" by blast
  then have "\<not> free (Max ?W) ts" using waiting by fastforce
  then obtain j where j: "j < length ts" "Max ?W \<in> set (th_held (ts ! j))"
    by (auto simp: free_def list_all_length)
  then have "active (ts ! j)"
    using ok(1) [OF j(1)] by (auto simp: active_def finished_thread_def thread_ok_def)
  with waiting [OF j(1)] obtain k where k: "wants (ts ! j) = Some k" by blast
  then have "Max ?W < k" using held_below [OF ok(1) [OF j(1)] ok(2) [OF j(1)]] j(2) by blast
  moreover have "k \<le> Max ?W"
    using k j(1) \<open>active (ts ! j)\<close> fin by (intro Max_ge) auto
  ultimately show False by simp
qed

text \<open>Every step uses something up, so a run of the layer is finite.\<close>

definition thread_work :: "thread \<Rightarrow> nat" where
  "thread_work t = (if th_started t then 0 else 1) + 2 * length (th_todo t) + length (th_held t)
     + (if th_worked t then 0 else 1)"

definition layer_work :: "thread list \<Rightarrow> nat" where
  "layer_work ts = sum_list (map thread_work ts)"

lemma layer_work_update:
  "i < length ts \<Longrightarrow> layer_work (ts[i := t]) + thread_work (ts ! i) = layer_work ts + thread_work t"
proof (induction ts arbitrary: i)
  case (Cons x xs)
  then show ?case by (cases i) (auto simp: layer_work_def)
qed simp

lemma step_work:
  assumes step: "lock_step workers ts ts'"
  shows "layer_work ts' < layer_work ts"
  using step
proof (cases rule: lock_step.cases)
  case (begin_unit i)
  then show ?thesis
    using layer_work_update [of i ts "(ts ! i)\<lparr>th_started := True\<rparr>"] by (simp add: thread_work_def)
next
  case (acquire i k ks)
  then show ?thesis
    using layer_work_update [of i ts "(ts ! i)\<lparr>th_todo := ks, th_held := k # th_held (ts ! i)\<rparr>"]
    by (simp add: thread_work_def)
next
  case (work i)
  then show ?thesis
    using layer_work_update [of i ts "(ts ! i)\<lparr>th_worked := True\<rparr>"]
    by (simp add: thread_work_def in_body_def)
next
  case (release i k ks)
  then show ?thesis
    using layer_work_update [of i ts "(ts ! i)\<lparr>th_held := ks\<rparr>"] by (simp add: thread_work_def)
qed

text \<open>So every layer whose units name no key twice comes to an end with every unit finished.\<close>

lemma layer_finishes:
  assumes "reachable workers kss ts" "\<forall>keys \<in> set kss. distinct keys" "0 < workers"
  shows "\<exists>ts'. (lock_step workers)\<^sup>*\<^sup>* ts ts' \<and> list_all finished_thread ts'"
  using assms(1)
proof (induction "layer_work ts" arbitrary: ts rule: less_induct)
  case less
  show ?case
  proof (cases "list_all finished_thread ts")
    case True
    then show ?thesis by blast
  next
    case False
    then obtain ts1 where step: "lock_step workers ts ts1"
      using progress [OF less.prems assms(2,3)] by (auto simp: list_all_iff)
    from less.hyps [OF step_work [OF step] reachable.step [OF less.prems step]]
    show ?thesis using step by (meson converse_rtranclp_into_rtranclp)
  qed
qed

lemma pool_size_pos: "0 < pool_size m n"
  by (simp add: pool_size_def)

end
