(* ===== verification/Run_Samples.thy ===== *)
theory Run_Samples
  imports Schedule_Facts Locks Samples
begin

text \<open>
  A small run for the witnesses: a preparing check that provides an input, a check that needs it,
  and one that needs an input nothing provides; the context answers with a succeeded observation.
\<close>

definition sample_check :: "string \<Rightarrow> string list \<Rightarrow> string list \<Rightarrow> check_definition" where
  "sample_check i needs provides =
     \<lparr>ck_id = i, ck_title = i, ck_language = ''cpp'', ck_tool = None, ck_required = True,
      ck_profiles = {FAST, STANDARD}, ck_needs = needs, ck_provides = provides, ck_static = True\<rparr>"

definition sample_planned :: "string \<Rightarrow> string list \<Rightarrow> string list \<Rightarrow> planned_check" where
  "sample_planned i needs provides =
     \<lparr>pc_check = sample_check i needs provides, pc_task = None, pc_blocked = [], pc_task_id = i\<rparr>"

definition prepare_check :: planned_check where
  "prepare_check = sample_planned ''prepare'' [] [''db'']"

definition lint_check :: planned_check where
  "lint_check = sample_planned ''lint'' [''db''] []"

definition lost_check :: planned_check where
  "lost_check = sample_planned ''lost'' [''other''] []"

definition sample_checks :: "planned_check list" where
  "sample_checks = [lint_check, prepare_check, lost_check]"

definition sample_unit :: "planned_check \<Rightarrow> string list \<Rightarrow> work_unit" where
  "sample_unit p deps =
     \<lparr>wu_id = pc_task_id p, wu_consumers = [pc_task_id p], wu_source = p, wu_depends_on = deps\<rparr>"

definition sample_graph :: task_graph where
  "sample_graph =
     \<lparr>tg_units = [sample_unit lint_check [''prepare''], sample_unit prepare_check []],
      tg_blocked = [\<lparr>bl_check = lost_check,
        bl_reason = ''needs other, which no selected check produces''\<rparr>]\<rparr>"

lemma sample_graph_built: "build_graph sample_checks [] = Inr sample_graph"
  by code_simp

lemma sample_input [simp]: "graph_input_ok sample_checks"
  by (simp add: graph_input_ok_def sample_checks_def lint_check_def prepare_check_def
      lost_check_def sample_planned_def)

definition sample_answer :: "string \<Rightarrow> observation" where
  "sample_answer i =
     \<lparr>ob_task_id = i, ob_provider = ''ici'', ob_state = SUCCEEDED, ob_findings = [],
      ob_measurements = [], ob_exit_code = None, ob_signal = None, ob_timed_out = False,
      ob_truncated = False, ob_duration_seconds = None, ob_tool_versions = [],
      ob_limitations = []\<rparr>"

definition sample_context :: "observation_cache run_context" where
  "sample_context =
     \<lparr>rc_providers = (\<lambda>_. None), rc_analyses = (\<lambda>i. Some (Inr (sample_answer i))),
      rc_runner = (\<lambda>_. Inl (OSErr ''no process'')), rc_environment = [],
      rc_cancellation = (\<lambda>_. None), rc_identify = None, rc_read = (\<lambda>c _. (Inr (cache_miss []), c)),
      rc_write = (\<lambda>c _ _. Inr c), rc_elapsed = (\<lambda>_. Fin 0)\<rparr>"

definition sample_scheduled :: scheduled where
  "sample_scheduled =
     \<lparr>sd_observations = [sample_answer ''prepare'', sample_answer ''lint'',
        (sample_answer ''lost'')\<lparr>ob_state := BLOCKED,
          ob_limitations := [''needs other, which no selected check produces'']\<rparr>],
      sd_executions = map (\<lambda>i. \<lparr>xe_unit = i, xe_consumers = [i], xe_provider = ''ici'',
        xe_state = SUCCEEDED, xe_duration = Fin 0, xe_detail = []\<rparr>) [''prepare'', ''lint'']\<rparr>"

lemma sample_run_graph: "run_graph sample_context None sample_graph = Inr (sample_scheduled, None)"
  by code_simp

lemma sample_blocked: "must_block sample_checks p \<longleftrightarrow> p = lost_check"
  using blocked_iff [OF sample_graph_built, of p] sample_input
  by (auto simp: graph_input_ok_def sample_graph_def)

lemma sample_checks_differ [simp]: "lint_check \<noteq> lost_check" "prepare_check \<noteq> lost_check"
  by (simp_all add: lint_check_def lost_check_def prepare_check_def sample_planned_def)

definition crashing_context :: "observation_cache run_context" where
  "crashing_context = sample_context
     \<lparr>rc_analyses := (\<lambda>_. Some (Inl (Raised ''ZeroDivisionError'' ''division by zero'')))\<rparr>"

definition asserting_context :: "observation_cache run_context" where
  "asserting_context = sample_context
     \<lparr>rc_analyses := (\<lambda>_. Some (Inl (Raised ''AssertionError'' [])))\<rparr>"

definition lint_unit :: work_unit where
  "lint_unit = sample_unit lint_check []"

lemma lint_unit_fields [simp]:
  "wu_internal lint_unit" "wu_id lint_unit = ''lint''" "provider_name lint_unit = ''ici''"
  by (simp_all add: lint_unit_def sample_unit_def wu_internal_def is_internal_def will_run_def
      lint_check_def sample_planned_def provider_name_def)

lemma crashing_perform:
  "perform crashing_context lint_unit = Inl (Raised ''ZeroDivisionError'' ''division by zero'')"
  "perform asserting_context lint_unit = Inl (Raised ''AssertionError'' [])"
  by (simp_all add: perform_def crashing_context_def asserting_context_def)

lemma crashing_texts:
  "text_ok ''internal error: ZeroDivisionError: division by zero''"
  "\<not> text_ok ''internal error: AssertionError: ''"
  "identifier_ok ''lint''" "identifier_ok ''ici''"
  by code_simp+

text \<open>Two units of one layer, and a cache with a bound of four entries.\<close>

definition two_units :: "work_unit list" where
  "two_units = [sample_unit prepare_check [], lint_unit]"

definition two_answers :: "(observation option \<times> execution) list" where
  "two_answers = map (\<lambda>i. (Some (sample_answer i),
     \<lparr>xe_unit = i, xe_consumers = [i], xe_provider = ''ici'', xe_state = SUCCEEDED,
      xe_duration = Fin 0, xe_detail = []\<rparr>)) [''prepare'', ''lint'']"

lemma two_units_run:
  "run_layer sample_context [] None two_units = Inr (two_answers, None)"
  "run_layer sample_context [] None (rev two_units) = Inr (rev two_answers, None)"
  by code_simp+

definition empty_cache :: observation_cache where
  "empty_cache = ObservationCache_init [] 4"

lemma empty_cache_trusted [simp]: "trusted fr sha sv empty_cache"
  by (simp add: trusted_def names_distinct_def empty_cache_def ObservationCache_init_def)

definition plain_sha :: "string \<Rightarrow> string" where
  "plain_sha t = ''sha''"

definition plain_float :: "rat \<Rightarrow> string" where
  "plain_float q = ''0''"

definition plain_text :: "pyval \<Rightarrow> string" where
  "plain_text v = (case v of PStr t \<Rightarrow> t | _ \<Rightarrow> ''?'')"

definition caching_context :: "observation_cache run_context" where
  "caching_context = sample_context
     \<lparr>rc_analyses := (\<lambda>i. if identifier_ok i then Some (Inr (sample_answer i)) else None),
      rc_read := read_cache plain_float plain_sha plain_text,
      rc_write := (\<lambda>c k ob. write_cache plain_float plain_sha (Inr ()) 7 c k ob ''run-1''),
      rc_identify := Some (\<lambda>u. Inr (Some ''abc'', []))\<rparr>"

lemma sample_answer_ok: "identifier_ok i \<Longrightarrow> observation_ok (sample_answer i)"
  by (simp add: observation_ok_def observation_fields_ok_def sample_answer_def crashing_texts)

lemma unavailable_ok: "unavailable pn i t st = Inr ob \<Longrightarrow> observation_ok ob"
  by (auto simp: unavailable_iff observation_ok_def observation_fields_ok_def)

lemma caching_sound: "guarded caching_context u = Inr ob \<Longrightarrow> observation_ok ob"
  by (auto simp: guarded_def perform_def caching_context_def sample_context_def
      split: if_splits sum.splits option.splits
      intro: unavailable_ok sample_answer_ok)

lemma caching_run:
  "run_graph caching_context (Some empty_cache) sample_graph = Inr (sample_scheduled, Some empty_cache)"
  by code_simp

definition stored_cache :: observation_cache where
  "stored_cache =
     \<lparr>oc_files = [(''abc.json'',
        new_entry ''abc'' ''run-1'' 7 ''sha'' (sample_answer ''lint''))], oc_max = 4\<rparr>"

lemma stored_cache_written:
  "write_cache plain_float plain_sha (Inr ()) 7 empty_cache ''abc'' (sample_answer ''lint'') ''run-1''
     = Inr stored_cache"
  by code_simp

lemma stored_cache_trusted: "trusted plain_float plain_sha plain_text stored_cache"
  by (rule trusted_write [OF empty_cache_trusted _ stored_cache_written])
    (simp add: sample_answer_ok crashing_texts)

lemma stored_cache_read:
  "read_cache plain_float plain_sha plain_text stored_cache ''abc'' =
     (Inr \<lparr>cr_hit = True, cr_reason = ''reused a verified stored result'',
        cr_observation = Some (sample_answer ''lint''), cr_source_run = ''run-1''\<rparr>, stored_cache)"
  by code_simp

text \<open>Two units at work on two keys.\<close>

definition both_working :: "thread list" where
  "both_working = map (\<lambda>k. \<lparr>th_started = True, th_todo = [], th_held = [k], th_worked = False\<rparr>)
     [''a'', ''b'']"

lemma both_working_reachable: "reachable 2 [[''a''], [''b'']] both_working"
proof -
  let ?t = "\<lambda>s d h. \<lparr>th_started = s, th_todo = d, th_held = h, th_worked = False\<rparr>"
  have "reachable 2 [[''a''], [''b'']] [?t False [''a''] [], ?t False [''b''] []]"
    using reachable.initial [of 2 "[[''a''], [''b'']]"] by (simp add: start_layer_def new_thread_def)
  then have "reachable 2 [[''a''], [''b'']] [?t True [''a''] [], ?t False [''b''] []]"
    by (rule reachable.step) (use lock_step.begin_unit [of 0 "[?t False [''a''] [], ?t False [''b''] []]" 2]
      in \<open>simp add: active_def\<close>)
  then have "reachable 2 [[''a''], [''b'']] [?t True [''a''] [], ?t True [''b''] []]"
    by (rule reachable.step) (use lock_step.begin_unit [of 1 "[?t True [''a''] [], ?t False [''b''] []]" 2]
      in \<open>simp add: active_def finished_thread_def\<close>)
  then have "reachable 2 [[''a''], [''b'']] [?t True [] [''a''], ?t True [''b''] []]"
    by (rule reachable.step) (use lock_step.acquire [of 0 "[?t True [''a''] [], ?t True [''b''] []]" "''a''" "[]" 2]
      in \<open>simp add: free_def\<close>)
  then have "reachable 2 [[''a''], [''b'']] [?t True [] [''a''], ?t True [] [''b'']]"
    by (rule reachable.step) (use lock_step.acquire [of 1 "[?t True [] [''a''], ?t True [''b''] []]" "''b''" "[]" 2]
      in \<open>simp add: free_def\<close>)
  then show ?thesis by (simp add: both_working_def)
qed

end
