(* ===== verification/Planning_Properties.thy ===== *)
theory Planning_Properties
  imports Run_Samples
begin

text \<open>
  The properties of layered configuration, of the selection of checks and of reading what one
  process run meant, with their witnesses.
\<close>

section \<open>Configuration\<close>

definition sample_origin :: origin where
  "sample_origin = \<lparr>og_file = ''ici.toml'', og_key = ''checks''\<rparr>"

definition stated :: "'a \<Rightarrow> 'a sourced" where
  "stated v = \<lparr>so_value = v, so_origin = sample_origin\<rparr>"

text \<open>The order in which the layers are read does not matter: whatever layers spoke, the
  decided value is the one of the highest layer that did.\<close>

theorem layers_decide_alike:
  assumes "distinct (map fst xs)" "set ys = set xs" "distinct (map fst ys)"
  shows "decide_all ys = decide_all xs"
  using assms by (rule decide_all_unique)

theorem layers_decide_alike_witness:
  "decide_all [(L_CLI, Some (stated True)), (L_ROOT, Some (stated False))]
     = decide_all [(L_ROOT, Some (stated False)), (L_CLI, Some (stated True))]"
  by (rule layers_decide_alike) auto

text \<open>A component cannot quietly relax its workspace: when composing its checks reported no
  problem, a check the root requires is still required of it, or the root exempted it by name.\<close>

theorem requirement_survives:
  assumes "component_checks cid body roots (map workspace_check roots) = (checks, [])"
    and "distinct (map st_id roots)" "st \<in> set roots" "dc_value (ef_required (workspace_check st))"
  shows "\<exists>c \<in> set checks. ef_id c = st_id st \<and>
    (dc_value (ef_required c) \<or> exemption_for st cid \<noteq> None)"
  using assms by (rule component_checks_required)

definition root_lint :: check_setting where
  "root_lint = \<lparr>st_id = ''lint'', st_enabled = None, st_required = Some (stated True),
     st_origin = sample_origin, st_exemptions = []\<rparr>"

definition component_lint :: check_setting where
  "component_lint = \<lparr>st_id = ''lint'', st_enabled = Some (stated False), st_required = None,
     st_origin = sample_origin, st_exemptions = []\<rparr>"

definition composed_lint :: effective_check where
  "composed_lint = \<lparr>ef_id = ''lint'',
     ef_enabled = \<lparr>dc_value = False, dc_origin = sample_origin, dc_layer = L_COMPONENT\<rparr>,
     ef_required = \<lparr>dc_value = True, dc_origin = sample_origin, dc_layer = L_ROOT\<rparr>,
     ef_exempted_reason = None\<rparr>"

lemma composed_sample:
  "component_checks ''app'' [component_lint] [root_lint] (map workspace_check [root_lint])
     = ([composed_lint], [])"
  by code_simp

theorem requirement_survives_witness:
  "\<exists>c \<in> set [composed_lint]. ef_id c = ''lint'' \<and>
    (dc_value (ef_required c) \<or> exemption_for root_lint ''app'' \<noteq> None)"
  using requirement_survives [OF composed_sample, of root_lint]
  by (simp add: root_lint_def stated_def workspace_check_def decide_from_value default_required_def beats_def)

text \<open>Switching a required check off is not caught: a component may disable a check the root
  requires, composition reports no problem, and the selection leaves the check out.\<close>

theorem required_check_switched_off:
  "component_checks ''app'' [component_lint] [root_lint] (map workspace_check [root_lint])
     = ([composed_lint], [])
   \<and> dc_value (ef_required composed_lint)
   \<and> selected_effective_checks [composed_lint] [sample_check ''lint'' [] []] STANDARD
     = Inr \<lparr>cs_selected = [], cs_omitted = [is_disabled (sample_check ''lint'' [] [])]\<rparr>"
  by (intro conjI composed_sample; code_simp)

text \<open>A local overlay moves paths and nothing else: every key of an overlay that was read belongs
  to one of the five path sections, and no other leaf was in the file.\<close>

theorem overlay_moves_paths_only:
  assumes "read_local path document = Inr values"
  shows "(\<forall>k \<in> fst ` set values. hd (split_char CHR ''.'' k) \<in>
      {''builds'', ''components'', ''output'', ''cache'', ''tools''})
    \<and> list_all overlay_leaf_ok (document_leaves document)"
  using read_local_ok [OF assms] overlay_allowed_head by blast

definition overlay_values :: "(string \<times> string sourced) list" where
  "overlay_values = [(''output'', \<lparr>so_value = ''/tmp/out'',
     so_origin = \<lparr>og_file = ''local.toml'', og_key = ''output''\<rparr>\<rparr>)]"

lemma overlay_read: "read_local ''local.toml'' [(''output'', PStr ''/tmp/out'')] = Inr overlay_values"
  by code_simp

theorem overlay_moves_paths_only_witness:
  "hd (split_char CHR ''.'' (fst (hd overlay_values))) \<in>
      {''builds'', ''components'', ''output'', ''cache'', ''tools''}"
  using overlay_moves_paths_only [OF overlay_read] by (simp add: overlay_values_def)

section \<open>Selection\<close>

text \<open>Selection is a partition of the registry: the selected checks are, in order, those the
  profile has and no layer disabled, each with the requirement its component decided; every other
  check is listed as omitted with its reason, and a valid registry raises nothing.\<close>

theorem selection_partitions:
  assumes "list_all check_ok available"
  shows "selected_effective_checks checks available pf = Inr
    \<lparr>cs_selected = map (\<lambda>c. c\<lparr>ck_required := decided_required (dict_of ef_id checks) c\<rparr>)
       (filter (asked_for (dict_of ef_id checks) pf) available),
     cs_omitted = map (omission pf)
       (filter (\<lambda>c. \<not> asked_for (dict_of ef_id checks) pf c) available)\<rparr>"
  using assms by (rule selected_effective_eq)

lemma sample_checks_ok: "list_all check_ok [sample_check ''lint'' [] []]"
  by (simp add: check_ok_def sample_check_def)

theorem selection_partitions_witness:
  "\<exists>s. selected_effective_checks [] [sample_check ''lint'' [] []] DEEP = Inr s \<and> cs_selected s = []"
  using selection_partitions [OF sample_checks_ok, of "[]" DEEP]
  by (simp add: asked_for_def sample_check_def)

text \<open>A plan drops nothing: it has one entry for each selected check, in order, under the task id
  of its component, required exactly when the composed configuration says so.\<close>

theorem plan_is_complete:
  assumes "select_effective cid checks locate plan_work available prefix pf in_scope = Inr p"
    and "list_all check_ok available"
  shows "map pc_task_id (pl_checks p) = map (scoped_id prefix)
      (filter (asked_for (dict_of ef_id checks) pf) available)
    \<and> map (\<lambda>q. ck_required (pc_check q)) (pl_checks p)
      = map (decided_required (dict_of ef_id checks))
          (filter (asked_for (dict_of ef_id checks) pf) available)
    \<and> distinct (map pc_task_id (pl_checks p))"
proof -
  let ?sel = "map (\<lambda>c. c\<lparr>ck_required := decided_required (dict_of ef_id checks) c\<rparr>)
       (filter (asked_for (dict_of ef_id checks) pf) available)"
  have plan: "plan_for ?sel locate plan_work cid prefix pf in_scope = Inr p"
    using assms(1) by (simp add: select_effective_def selected_effective_eq [OF assms(2)])
  have "list_all (\<lambda>c. ck_id c \<noteq> []) ?sel"
    using assms(2) by (auto simp: list_all_iff check_ok_def)
  note f = plan_for_complete [OF plan this]
  show ?thesis
    using f plan_for_fields(2) [OF plan] by (simp add: scoped_id_def comp_def)
qed

definition sample_plan :: plan where
  "sample_plan = \<lparr>pl_checks = [(sample_planned ''lint'' [] [])\<lparr>pc_task_id := ''app.lint''\<rparr>]\<rparr>"

lemma sample_selected:
  "select_effective ''app'' [] (\<lambda>_. None) (\<lambda>_ _ _. Inl (KeyErr [])) [sample_check ''lint'' [] []]
     ''app'' FAST None = Inr sample_plan"
  by code_simp

theorem plan_is_complete_witness:
  "map pc_task_id (pl_checks sample_plan) = [''app.lint'']"
  using plan_is_complete [OF sample_selected sample_checks_ok]
  by (simp add: asked_for_def sample_check_def dict_of_def scoped_id_def scoped_name_def)

text \<open>The fast profile prepares nothing: no task of a plan made under it writes outside the run
  directory, and a check that will run under any profile is in scope and has its tool.\<close>

theorem fast_plan_prepares_nothing:
  assumes "plan_for checks locate plan_work who prefix pf in_scope = Inr p"
    and "list_all (\<lambda>c. ck_id c \<noteq> []) checks" "q \<in> set (pl_checks p)" "will_run q"
  shows "(pf = FAST \<longrightarrow> (\<forall>t. pc_task q = Some t \<longrightarrow> \<not> mutating (pp_task t)))
    \<and> (\<forall>tool. ck_tool (pc_check q) = Some tool \<longrightarrow> locate tool \<noteq> None)
    \<and> (\<forall>ok. in_scope = Some ok \<longrightarrow> ok (pc_check q))"
proof -
  obtain c where c: "c \<in> set checks" "plan_check locate plan_work prefix pf in_scope c = Inr q"
    using plan_for_member [OF assms(1,3)] by blast
  then have i: "ck_id c \<noteq> []" using assms(2) by (simp add: list_all_iff)
  show ?thesis
    using plan_check_runs [OF c(2) i assms(4)] plan_check_fields(5) [OF c(2) i]
      plan_check_fast [of locate plan_work prefix in_scope c q] c(2) i
    by (auto split: option.splits)
qed

definition ruff_task :: task_spec where
  "ruff_task = \<lparr>ts_id = ''app.lint'', ts_kind = ANALYZE, ts_provider = ''ruff'', ts_argv = [''ruff''],
     ts_cwd = ''.'', ts_analysis_unit_ids = [], ts_env_overlay = [], ts_input_refs = [],
     ts_output_specs = [], ts_depends_on = [], ts_resource_keys = [], ts_work_dirs = [],
     ts_requires = [], ts_timeout_seconds = None, ts_output_limit_bytes = None,
     ts_tool_digest = None, ts_cacheable = True, ts_variant = None\<rparr>"

definition ruff_plan :: provider_plan where
  "ruff_plan = \<lparr>pp_task = ruff_task, pp_contract = \<lparr>ec_success = [0], ec_findings = [1]\<rparr>\<rparr>"

definition ruff_check :: check_definition where
  "ruff_check = (sample_check ''lint'' [] [])\<lparr>ck_tool := Some ''ruff''\<rparr>"

definition ruff_planned :: planned_check where
  "ruff_planned = \<lparr>pc_check = ruff_check, pc_task = Some ruff_plan, pc_blocked = [],
     pc_task_id = ''app.lint''\<rparr>"

lemma ruff_plan_for:
  "plan_for [ruff_check] (\<lambda>_. Some ''/usr/bin/ruff'') (\<lambda>_ _ _. Inr ruff_plan) ''app'' ''app'' FAST None
     = Inr \<lparr>pl_checks = [ruff_planned]\<rparr>"
  by code_simp

theorem fast_plan_prepares_nothing_witness: "\<not> mutating (pp_task ruff_plan)"
  using fast_plan_prepares_nothing [OF ruff_plan_for, of ruff_planned]
  by (simp add: ruff_planned_def ruff_check_def sample_check_def will_run_def)

section \<open>One process run\<close>

text \<open>C38: Success is earned: a process run is observed as succeeded exactly when nothing cut it short
  (no watchdog, no timeout, no signal, no truncated output), its exit code is one its contract
  reads as an answer, and its output could be parsed.\<close>

theorem only_finished_runs_succeed:
  assumes "observe p plan (classify g spec r w) None = Inr ob"
  shows "ob_state ob = SUCCEEDED \<longleftrightarrow>
    interruption w = None \<and> \<not> pr_timed_out r \<and> 0 \<le> pr_returncode r \<and> \<not> pr_truncated r
    \<and> pr_returncode r \<in> set (ec_success (pp_contract plan)) \<union> set (ec_findings (pp_contract plan))
    \<and> (\<exists>q. pv_parse p (classify g spec r w) = Inr q \<and> is_readable q)"
  using observe_state [OF assms]
  by (auto simp: read_contract_answer classify_finished classify_fields)

definition ruff :: provider where
  "ruff = \<lparr>pv_name = ''ruff'', pv_parse = (\<lambda>_. Inr \<lparr>po_findings = [], po_measurements = [],
     po_limitations = [], po_failed_to_parse = []\<rparr>)\<rparr>"

definition ruff_spec :: process_spec where
  "ruff_spec = \<lparr>ps_argv = [''ruff''], ps_name = ''app.lint'', ps_cwd = None, ps_environment = [],
     ps_timeout = 300, ps_output_limit = 1000000, ps_work_dirs = [], ps_grace = 2\<rparr>"

definition ruff_result :: "int \<Rightarrow> process_result" where
  "ruff_result code = \<lparr>pr_returncode = code, pr_stdout = [], pr_stderr = [], pr_duration = Fin 1,
     pr_timed_out = False, pr_truncated = False\<rparr>"

definition quiet_watchdog :: watchdog where
  "quiet_watchdog = \<lparr>wd_cleanup = None, wd_cancelled = False\<rparr>"

definition ruff_failed :: observation where
  "ruff_failed = \<lparr>ob_task_id = ''app.lint'', ob_provider = ''ruff'', ob_state = FAILED,
     ob_findings = [], ob_measurements = [], ob_exit_code = Some 2, ob_signal = None,
     ob_timed_out = False, ob_truncated = False, ob_duration_seconds = Some (Fin 1),
     ob_tool_versions = [], ob_limitations = [''app.lint failed with exit code 2'']\<rparr>"

lemma ruff_observed:
  "observe ruff ruff_plan (classify plain_float ruff_spec (ruff_result 2) quiet_watchdog) None
     = Inr ruff_failed"
  by code_simp

theorem only_finished_runs_succeed_witness: "ob_state ruff_failed \<noteq> SUCCEEDED"
  using only_finished_runs_succeed [OF ruff_observed] by (simp add: ruff_result_def ruff_plan_def)

text \<open>The first cancellation stands: however many requests follow, the run reports the reason of
  the first one.\<close>

theorem first_cancellation_stands:
  "fold cancel reasons (cancel r new_cancellation) = \<lparr>cn_requested = True, cn_reason = r\<rparr>"
  using cancel_first [of reasons r] by (simp add: cancel_def new_cancellation_def)

end
