(* ===== verification/Execution_Properties.thy ===== *)
theory Execution_Properties
  imports Run_Samples
begin

text \<open>
  The properties of the task graph, its execution, the locks of a layer and the cache, with their
  witnesses on the run of theory \<open>Run_Samples\<close>.
\<close>

section \<open>The graph\<close>

text \<open>No planned check is dropped and none is run twice: in every graph the program builds,
  each task id is either refused exactly once or a consumer of exactly one unit.\<close>

theorem graph_serves_every_check:
  assumes "build_graph checks catalog = Inr g" "graph_input_ok checks"
  shows "mset (map (\<lambda>b. pc_task_id (bl_check b)) (tg_blocked g))
    + mset (concat (map wu_consumers (tg_units g))) = mset (map pc_task_id checks)"
  using assms by (rule graph_partition)

theorem graph_serves_every_check_witness:
  "mset (map (\<lambda>b. pc_task_id (bl_check b)) (tg_blocked sample_graph))
    + mset (concat (map wu_consumers (tg_units sample_graph))) = mset (map pc_task_id sample_checks)"
  by (rule graph_serves_every_check [OF sample_graph_built sample_input])

text \<open>C8: The refused checks are exactly those that must be: the ones blocked when planned, the ones
  that need an input nothing selected produces, and, transitively, the ones that need an input of
  a refused check.\<close>

theorem graph_refusals:
  assumes "build_graph checks catalog = Inr g" "graph_input_ok checks"
  shows "p \<in> bl_check ` set (tg_blocked g) \<longleftrightarrow> must_block checks p"
  using assms blocked_iff by (simp add: graph_input_ok_def)

theorem graph_refusals_witness:
  "must_block sample_checks lost_check \<and> \<not> must_block sample_checks lint_check"
proof -
  have "lost_check \<in> bl_check ` set (tg_blocked sample_graph)"
    "lint_check \<notin> bl_check ` set (tg_blocked sample_graph)"
    by (simp_all add: sample_graph_def lost_check_def lint_check_def sample_planned_def)
  then show ?thesis using graph_refusals [OF sample_graph_built sample_input] by blast
qed

text \<open>Two checks that run share one unit exactly when they plan the same command: the same
  provider, kind, arguments, directory, environment, inputs, tool and requirements.\<close>

theorem graph_shares_equal_work:
  assumes "build_graph checks catalog = Inr g" "graph_input_ok checks"
    and "u \<in> set (tg_units g)" "pc_task_id p \<in> set (wu_consumers u)"
    and "p \<in> set checks" "q \<in> set checks" "\<not> must_block checks q"
  shows "pc_task_id q \<in> set (wu_consumers u) \<longleftrightarrow> group_key_of q = group_key_of p"
  using assms by (rule graph_sharing)

theorem graph_shares_equal_work_witness:
  "group_key_of lint_check \<noteq> group_key_of prepare_check"
proof -
  have "pc_task_id lint_check \<in> set (wu_consumers (sample_unit prepare_check []))
      \<longleftrightarrow> group_key_of lint_check = group_key_of prepare_check"
  proof (rule graph_shares_equal_work [OF sample_graph_built sample_input])
    show "\<not> must_block sample_checks lint_check" by (simp add: sample_blocked)
  qed (simp_all add: sample_graph_def sample_unit_def sample_checks_def)
  then show ?thesis by (simp add: sample_unit_def lint_check_def prepare_check_def sample_planned_def)
qed

text \<open>C0: A graph that was built has layers: every unit is in exactly one, no layer is empty, and
  the units of a layer depend only on units of earlier ones; the cycle error of \<open>layers\<close> is
  unreachable.\<close>

theorem built_graph_has_layers:
  assumes "build_graph checks catalog = Inr g" "graph_input_ok checks"
  shows "\<exists>ls. graph_layers g = Inr ls \<and> mset (concat ls) = mset (tg_units g) \<and> [] \<notin> set ls
    \<and> layered {} ls"
  using assms by (rule graph_layers_ok)

theorem built_graph_has_layers_witness:
  "\<exists>ls. graph_layers sample_graph = Inr ls \<and> mset (concat ls) = mset (tg_units sample_graph)
    \<and> [] \<notin> set ls \<and> layered {} ls"
  by (rule built_graph_has_layers [OF sample_graph_built sample_input])

text \<open>Kahn's pass decides acyclicity: on units with distinct ids and known dependencies it
  finds layers exactly when the dependency relation has no cycle.\<close>

theorem layers_iff_acyclic:
  assumes "distinct (map wu_id (tg_units g))" "deps_known (tg_units g)"
  shows "(\<exists>ls. graph_layers g = Inr ls) \<longleftrightarrow> acyclic (dep_rel (tg_units g))"
  using kahn_iff [OF assms] by (auto simp: graph_layers_def split: sum.splits)

theorem layers_iff_acyclic_witness:
  "acyclic (dep_rel (tg_units sample_graph))"
proof -
  have "\<exists>ls. graph_layers sample_graph = Inr ls"
    using graph_layers_ok [OF sample_graph_built sample_input] by blast
  moreover have "deps_known (tg_units sample_graph)" "distinct (map wu_id (tg_units sample_graph))"
    by (simp_all add: deps_known_def sample_graph_def sample_unit_def lint_check_def
        prepare_check_def sample_planned_def)
  ultimately show ?thesis using layers_iff_acyclic by blast
qed

section \<open>The run\<close>

text \<open>C7: A run that returns has exactly one observation for every planned check, the refused ones
  included, under that check's own task id.\<close>

theorem one_observation_each:
  assumes "build_graph checks catalog = Inr g" "graph_input_ok checks"
    and "run_graph cx store g = Inr (s, store')"
  shows "mset (map ob_task_id (sd_observations s)) = mset (map pc_task_id checks)"
  using assms by (rule run_observation_ids)

theorem one_observation_each_witness:
  "mset (map ob_task_id (sd_observations sample_scheduled)) = mset (map pc_task_id sample_checks)"
  by (rule one_observation_each [OF sample_graph_built sample_input sample_run_graph])



text \<open>A refused check is never reported as anything but blocked, without findings.\<close>

theorem refused_check_is_blocked:
  assumes "build_graph checks catalog = Inr g" "graph_input_ok checks"
    and "run_graph cx store g = Inr (s, store')" "must_block checks p"
    and "ob \<in> set (sd_observations s)" "ob_task_id ob = pc_task_id p"
  shows "ob_state ob = BLOCKED \<and> ob_findings ob = []"
  using assms by (rule run_blocked_observed)

theorem refused_check_is_blocked_witness:
  "ob_state (last (sd_observations sample_scheduled)) = BLOCKED
    \<and> ob_findings (last (sd_observations sample_scheduled)) = []"
proof (rule refused_check_is_blocked [OF sample_graph_built sample_input sample_run_graph])
  show "must_block sample_checks lost_check" by (simp add: sample_blocked)
qed (simp_all add: sample_scheduled_def sample_answer_def lost_check_def sample_planned_def)

text \<open>A crash belongs to the unit that crashed: whatever exception a provider, an analysis or
  the runner raises, the unit's observation is a failure that carries the exception, provided
  its text may stand in a limitation.\<close>

theorem crash_is_the_units_failure:
  assumes "perform cx u = Inl e" "identifier_ok (wu_id u)" "identifier_ok (provider_name u)"
    and "text_ok (''internal error: '' @ exn_class e @ '': '' @ exn_text e)"
  shows "\<exists>ob. guarded cx u = Inr ob \<and> ob_state ob = FAILED \<and> ob_findings ob = []
    \<and> ob_limitations ob = [''internal error: '' @ exn_class e @ '': '' @ exn_text e]"
  using assms by (rule guarded_crash)

theorem crash_is_the_units_failure_witness:
  "\<exists>ob. guarded crashing_context lint_unit = Inr ob \<and> ob_state ob = FAILED"
  using crash_is_the_units_failure [OF crashing_perform(1)] by (auto simp: crashing_texts)

text \<open>C0: An exception without a text, such as that of a bare \<open>assert\<close>, is not contained: the
  limitation it would make is refused, and the refusal leaves the attempt as an exception.\<close>

theorem silent_crash_escapes:
  "\<exists>x. guarded asserting_context lint_unit = Inl x"
  by (rule guarded_escapes [OF crashing_perform(2)]) (simp add: crashing_texts)

text \<open>Without a cache, the order in which the pool takes the units of a layer does not
  matter: two runs of a layer in different orders give every unit the same answer.\<close>

theorem layer_order_irrelevant:
  assumes "run_layer cx finished None us = Inr (rs, store)" "mset vs = mset us"
    and "run_layer cx finished None vs = Inr (rs', store')"
  shows "mset (zip vs rs') = mset (zip us rs)"
  using assms by (rule run_layer_order)

theorem layer_order_irrelevant_witness:
  "mset (zip (rev two_units) (rev two_answers)) = mset (zip two_units two_answers)"
  by (rule layer_order_irrelevant [OF two_units_run(1) _ two_units_run(2)]) simp

section \<open>Locks\<close>

text \<open>C34: Mutual exclusion: in every reachable state of a layer, two different units that are
  both inside their work share no resource key, however many workers the pool has.\<close>

theorem resource_exclusion:
  assumes "reachable workers kss ts" "i < length ts" "j < length ts" "i \<noteq> j"
    and "in_body (ts ! i)" "in_body (ts ! j)"
  shows "set (kss ! i) \<inter> set (kss ! j) = {}"
  using assms by (rule exclusion)

theorem resource_exclusion_witness:
  "set ([[''a''], [''b'']] ! 0) \<inter> set ([[''a''], [''b'']] ! Suc 0) = {}"
  by (rule resource_exclusion [OF both_working_reachable]) (simp_all add: both_working_def in_body_def)

text \<open>C35: No deadlock: when no unit names a key twice, every reachable state of a layer can be
  run on until every unit has finished, and no run of a layer is infinite.\<close>

theorem layer_terminates:
  assumes "reachable (pool_size max_parallel n) kss ts" "\<forall>keys \<in> set kss. distinct keys"
  shows "(\<exists>ts'. (lock_step (pool_size max_parallel n))\<^sup>*\<^sup>* ts ts' \<and> list_all finished_thread ts')
    \<and> wfP (\<lambda>a b. lock_step workers b a)"
proof
  show "\<exists>ts'. (lock_step (pool_size max_parallel n))\<^sup>*\<^sup>* ts ts' \<and> list_all finished_thread ts'"
    using assms pool_size_pos by (rule layer_finishes)
  show "wfP (\<lambda>a b. lock_step workers b a)"
    by (rule wfp_if_convertible_to_nat [of _ layer_work]) (rule step_work)
qed

theorem layer_terminates_witness:
  "\<exists>ts'. (lock_step (pool_size 4 2))\<^sup>*\<^sup>* (start_layer [[''b'', ''a''], [''a'', ''b'']]) ts'
    \<and> list_all finished_thread ts'"
  using layer_terminates [OF reachable.initial, of "[[''b'', ''a''], [''a'', ''b'']]" 4 2] by simp

text \<open>A unit whose task names a resource key twice waits for its own lock: it never does its
  work, in any run of the layer.\<close>

theorem duplicate_key_blocks_itself:
  assumes "reachable workers kss ts" "i < length ts" "\<not> distinct (kss ! i)"
  shows "\<not> in_body (ts ! i) \<and> \<not> th_worked (ts ! i)"
  using assms by (rule never_works)

theorem duplicate_key_blocks_itself_witness:
  "\<not> th_worked (start_layer [[''build'', ''build'']] ! 0)"
  using duplicate_key_blocks_itself [OF reachable.initial, of 0 "[[''build'', ''build'']]"]
  by (simp add: start_layer_def)

text \<open>C0: At most \<open>max_parallel\<close> units of a layer run at the same time, and never more than it
  has, but always at least one.\<close>

theorem parallelism_bounded:
  assumes "reachable (pool_size max_parallel (length kss)) kss ts" "0 < max_parallel" "kss \<noteq> []"
  shows "int (length (filter active ts)) \<le> max_parallel \<and> length (filter active ts) \<le> length kss"
proof -
  have "length (filter active ts) \<le> pool_size max_parallel (length kss)"
    using reachable_inv [OF assms(1)] by (simp add: layer_inv_def)
  then show ?thesis using assms(2,3) by (cases kss) (auto simp: pool_size_def)
qed

theorem parallelism_bounded_witness:
  "int (length (filter active (start_layer [[''a''], [''b'']]))) \<le> 1"
  using parallelism_bounded [OF reachable.initial, of 1 "[[''a''], [''b'']]"] by simp

section \<open>The cache\<close>

text \<open>A cached answer is never half an answer: a hit of a trusted cache is a succeeded
  observation that was neither truncated nor timed out, and it was stored under the same identity.\<close>

theorem reused_evidence_complete:
  assumes "trusted fr sha sv c" "read_cache fr sha sv c key = (Inr r, c')" "cr_hit r"
  shows "\<exists>ob. cr_observation r = Some ob \<and> ob_state ob = SUCCEEDED \<and> \<not> ob_truncated ob
    \<and> \<not> ob_timed_out ob \<and> c' = c"
proof -
  obtain f ob where "cr_observation r = Some ob" "c' = c" by (rule read_cache_hit [OF assms(2,3)])
  moreover from this have "cache_find fr sha sv c key = Some ob"
    using assms(2) by (simp add: cache_find_def)
  then have "evidence_is_complete ob" by (rule cache.find_complete [OF assms(1)])
  ultimately show ?thesis by (simp add: evidence_is_complete_def)
qed

theorem reused_evidence_complete_witness:
  "\<exists>ob. cr_observation (projr (fst (read_cache plain_float plain_sha plain_text stored_cache ''abc''))) = Some ob
    \<and> ob_state ob = SUCCEEDED"
  using reused_evidence_complete [OF stored_cache_trusted stored_cache_read]
  by (simp add: stored_cache_read)

text \<open>What was written is read back: after a complete observation is written under a key, with
  a clock that moved on, reading the key is a hit with that observation, whatever the bound.\<close>

theorem cache_write_read:
  assumes "observation_ok ob" "evidence_is_complete ob" "names_distinct c"
    and "write_cache fr sha io now c key ob run_id = Inr c'"
    and "\<forall>f \<in> set (oc_files c). sf_mtime (snd f) < now"
  shows "read_cache fr sha sv c' key =
    (Inr \<lparr>cr_hit = True, cr_reason = ''reused a verified stored result'',
       cr_observation = Some (wire_observation ob), cr_source_run = sv (PStr run_id)\<rparr>, c')"
  using assms by (rule write_read)

theorem cache_write_read_witness:
  "cr_hit (projr (fst (read_cache plain_float plain_sha plain_text stored_cache ''abc'')))"
  using cache_write_read [OF sample_answer_ok [OF crashing_texts(3)] _ _ stored_cache_written]
  by (simp add: evidence_is_complete_def sample_answer_def empty_cache_def ObservationCache_init_def
      names_distinct_def)

text \<open>The cache keeps its bound: after an eviction it holds at most the number of entries it was
  created with.\<close>

theorem cache_bounded:
  assumes "names_distinct c"
  shows "length (oc_files (evict c)) \<le> oc_max c \<and> names_distinct (evict c)"
  using evict_bound evict_distinct assms by blast

theorem cache_bounded_witness:
  "length (oc_files (evict stored_cache)) \<le> 4"
  using cache_bounded [of stored_cache] by (simp add: stored_cache_def names_distinct_def)

text \<open>A run leaves the cache trustworthy: executing a graph with a trusted cache, where every
  observation handed back is a valid one, ends with a cache whose every hit is complete evidence.\<close>

theorem run_keeps_cache_trusted:
  assumes "trusted fr sha sv c" "run_graph cx (Some c) g = Inr (s, Some c')"
    and "rc_read cx = read_cache fr sha sv"
    and "rc_write cx = (\<lambda>c k ob. write_cache fr sha io now c k ob run_id)"
    and "\<And>u ob. guarded cx u = Inr ob \<Longrightarrow> observation_ok ob"
  shows "trusted fr sha sv c'"
  by (rule reuse.run_graph_store [where fr = fr and sha = sha and sv = sv and io = io and now = now
        and run_id = run_id, OF _ assms(1,2)])
    (use assms(3-5) in \<open>auto simp: reuse.sound_context_def\<close>)

theorem run_keeps_cache_trusted_witness:
  "trusted plain_float plain_sha plain_text empty_cache"
  by (rule run_keeps_cache_trusted [OF empty_cache_trusted caching_run, where io = "Inr ()" and now = 7
        and run_id = "''run-1''"]) (auto simp: caching_context_def intro: caching_sound)

end
