(* ===== verification/Attribution.thy ===== *)
theory Attribution
  imports Selection Codec Results
begin

text \<open>
  Attributing the findings of an observation to the component, analysis unit and variant of the
  check that asked for them (src/src/ici/application/finding_identity.py).  The fingerprint of an
  attributed finding is a hash of the JSON text of its identity; the text is modelled, the hash
  \<open>sha\<close> is SHA-256 in hexadecimal.
\<close>

section \<open>The text that is hashed\<close>

text \<open>
  \<open>json.dumps\<close> with its default \<open>ensure_ascii=True\<close>: the text of \<open>dumps\<close> with everything outside
  the printable ASCII range escaped, beyond the first plane as a surrogate pair.
\<close>

definition code_point :: "string \<Rightarrow> nat" where
  "code_point bytes =
     (case map of_char bytes of
        [a] \<Rightarrow> a
      | [a, b] \<Rightarrow> (a - 192) * 64 + (b - 128)
      | [a, b, c] \<Rightarrow> (a - 224) * 4096 + (b - 128) * 64 + (c - 128)
      | [a, b, c, d] \<Rightarrow> (a - 240) * 262144 + (b - 128) * 4096 + (c - 128) * 64 + (d - 128)
      | _ \<Rightarrow> 0)"

definition u_escape :: "nat \<Rightarrow> string" where
  "u_escape n =
     CHR 0x5C # ''u'' @
     [hex_digit (n div 4096), hex_digit (n div 256 mod 16), hex_digit (n div 16 mod 16),
      hex_digit (n mod 16)]"

definition ascii_point :: "string \<Rightarrow> string" where
  "ascii_point p =
     (let n = code_point p in
      if 32 \<le> n \<and> n \<le> 126 then p
      else if n < 65536 then u_escape n
      else u_escape (55296 + (n - 65536) div 1024) @ u_escape (56320 + (n - 65536) mod 1024))"

definition ascii_text :: "string \<Rightarrow> string" where
  "ascii_text t = concat (map ascii_point (code_points t))"

definition identity_payload :: "finding \<Rightarrow> string list \<Rightarrow> pyval" where
  "identity_payload f units =
     (let span = f_primary_location f in
      PTuple
        ([PStr FINGERPRINT_VERSION, opt_val PStr (f_component_id f),
          opt_val PStr (f_analysis_unit_id f), opt_val PStr (f_variant f), PStr (f_provider f),
          PStr (f_rule_id f), PStr (f_fingerprint f), PStr (f_message f), PStr (sp_path span),
          PInt (sp_start_line span), opt_val PInt (sp_end_line span),
          opt_val PInt (sp_start_column span), opt_val PInt (sp_end_column span)]
         @ (if 1 < length units then [PTuple (map PStr units)] else [])))"

text \<open>\<open>_fingerprint\<close>; the payload holds no float, so the text of floats does not matter.\<close>

definition fingerprint_of :: "(string \<Rightarrow> string) \<Rightarrow> finding \<Rightarrow> string list \<Rightarrow> string result" where
  "fingerprint_of sha f units =
     bindr (dumps (\<lambda>q. []) (identity_payload f units)) (\<lambda>t.
     Inr (''sha256:'' @ sha (ascii_text t)))"

section \<open>Attribution\<close>

text \<open>\<open>a or b\<close> on optional strings: the empty string is false.\<close>

definition or_opt :: "string option \<Rightarrow> string option \<Rightarrow> string option" where
  "or_opt a b = (case a of None \<Rightarrow> b | Some s \<Rightarrow> if s = [] then b else a)"

definition planned_task :: "planned_check \<Rightarrow> task_spec option" where
  "planned_task p = map_option pp_task (pc_task p)"

definition planned_units :: "planned_check \<Rightarrow> string list" where
  "planned_units p =
     (case planned_task p of None \<Rightarrow> [] | Some t \<Rightarrow> sort (ts_analysis_unit_ids t))"

definition planned_variant :: "planned_check \<Rightarrow> string option" where
  "planned_variant p = (case planned_task p of None \<Rightarrow> None | Some t \<Rightarrow> ts_variant t)"

text \<open>The body of the loop over the findings.\<close>

definition attribute_finding ::
    "(string \<Rightarrow> string) \<Rightarrow> string list \<Rightarrow> string option \<Rightarrow> string option \<Rightarrow> string
     \<Rightarrow> finding \<Rightarrow> finding result" where
  "attribute_finding sha units variant component task_id item =
     (let unit = (case units of [u] \<Rightarrow> Some u | _ \<Rightarrow> None);
          owner = or_opt component (f_component_id item);
          named = or_opt unit (f_analysis_unit_id item);
          analysis_unit =
            (if 1 < length units \<and> (case named of None \<Rightarrow> True | Some u \<Rightarrow> u \<notin> set units)
             then None else named);
          analysis_variant = or_opt variant (f_variant item) in
      if owner = None \<and> analysis_unit = None \<and> analysis_variant = None \<and> units = []
      then Inr item
      else
        bindr (Finding_replace
                 (item\<lparr>f_component_id := owner, f_analysis_unit_id := analysis_unit,
                    f_variant := analysis_variant, f_task_id := Some task_id\<rparr>)) (\<lambda>attributed.
        bindr (fingerprint_of sha attributed units) (\<lambda>fp.
        Finding_replace (attributed\<lparr>f_fingerprint := fp\<rparr>))))"

definition attribute ::
    "(string \<Rightarrow> string) \<Rightarrow> observation \<Rightarrow> planned_check \<Rightarrow> string option \<Rightarrow> observation result" where
  "attribute sha ob planned component =
     bindr (mapr (attribute_finding sha (planned_units planned) (planned_variant planned)
                    component (ob_task_id ob)) (ob_findings ob)) (\<lambda>fs.
     Observation_replace (ob\<lparr>ob_findings := fs\<rparr>))"

section \<open>What attribution keeps\<close>

text \<open>What the gate reads of a finding besides its identity is left as the provider stated it.\<close>

definition same_evidence :: "finding \<Rightarrow> finding \<Rightarrow> bool" where
  "same_evidence f g \<longleftrightarrow>
     f_rule_id g = f_rule_id f \<and> f_message g = f_message f \<and> f_severity g = f_severity f
     \<and> f_primary_location g = f_primary_location f \<and> f_provider g = f_provider f
     \<and> f_evidence g = f_evidence f \<and> f_suppression g = f_suppression f"

lemma attribute_finding_Inr:
  assumes "attribute_finding sha units variant component task_id f = Inr g"
  shows "same_evidence f g" "finding_ok f \<Longrightarrow> finding_ok g"
  using assms
  by (auto simp: attribute_finding_def Let_def bindr_Inr Finding_replace_iff same_evidence_def
      finding_ok_def split: if_splits)

lemma attribute_finding_owner:
  assumes "attribute_finding sha units variant (Some c) task_id f = Inr g" "c \<noteq> []"
  shows "f_component_id g = Some c" "f_task_id g = Some task_id"
  using assms
  by (auto simp: attribute_finding_def Let_def bindr_Inr Finding_replace_iff or_opt_def
      split: if_splits)

lemma attribute_Inr:
  assumes "attribute sha ob planned component = Inr ob'"
  obtains fs where "ob' = ob\<lparr>ob_findings := fs\<rparr>"
    "list_all2 (\<lambda>f g. attribute_finding sha (planned_units planned) (planned_variant planned)
       component (ob_task_id ob) f = Inr g) (ob_findings ob) fs"
  using assms by (auto simp: attribute_def bindr_Inr mapr_Inr Observation_replace_iff)

lemma attribute_fields:
  assumes "attribute sha ob planned component = Inr ob'"
  shows "ob_task_id ob' = ob_task_id ob" "ob_state ob' = ob_state ob"
    "evidence_is_complete ob' = evidence_is_complete ob"
    "ob_limitations ob' = ob_limitations ob" "ob_measurements ob' = ob_measurements ob"
    "list_all2 same_evidence (ob_findings ob) (ob_findings ob')"
  using assms
  by (auto elim!: attribute_Inr simp: evidence_is_complete_def attribute_finding_Inr
      intro: list_all2_mono)

end
