(* ===== verification/Suppressions.thy ===== *)
theory Suppressions
  imports Findings Process
begin

text \<open>
  Applying declared suppressions (src/src/ici/application/suppressions.py): the first declaration
  that selects a finding marks it.  \<open>glob\<close> is \<open>fnmatch.fnmatchcase\<close> on the code points of the
  pattern and of the name.
\<close>

section \<open>Patterns\<close>

text \<open>
  The members of a bracket expression, read from the left: \<open>x-y\<close> is a range (empty when \<open>y\<close>
  comes before \<open>x\<close>), everything else stands for itself.
\<close>

fun class_items :: "string list \<Rightarrow> (string \<times> string) list" where
  "class_items (x # d # y # rest) =
     (if d = ''-'' then (x, y) # class_items rest else (x, x) # class_items (d # y # rest))"
| "class_items (x # rest) = (x, x) # class_items rest"
| "class_items [] = []"

definition in_class :: "string list \<Rightarrow> string \<Rightarrow> bool" where
  "in_class stuff c = list_ex (\<lambda>(lo, hi). lo \<le> c \<and> c \<le> hi) (class_items stuff)"

definition class_matches :: "string list \<Rightarrow> string \<Rightarrow> bool" where
  "class_matches stuff c =
     (case stuff of
        [] \<Rightarrow> False
      | x # rest \<Rightarrow> if x = ''!'' then \<not> in_class rest c else in_class stuff c)"

text \<open>
  What follows an opening bracket: the members, which may begin with \<open>!\<close> and then with a closing
  bracket, and the rest of the pattern; \<open>None\<close> when it is never closed.
\<close>

definition leading :: "string \<Rightarrow> string list \<Rightarrow> string list \<times> string list" where
  "leading p ps = (case ps of [] \<Rightarrow> ([], []) | x # rest \<Rightarrow> if x = p then ([x], rest) else ([], ps))"

definition split_class :: "string list \<Rightarrow> (string list \<times> string list) option" where
  "split_class ps =
     (let (neg, r) = leading ''!'' ps;
          (first, body) = leading '']'' r;
          after = dropWhile (\<lambda>x. x \<noteq> '']'') body in
      if after = [] then None
      else Some (neg @ first @ takeWhile (\<lambda>x. x \<noteq> '']'') body, tl after))"

lemma length_leading: "length (snd (leading p ps)) \<le> length ps"
  by (auto simp: leading_def split: list.splits)

lemma split_class_shorter:
  assumes "split_class ps = Some (stuff, rest)"
  shows "length rest \<le> length ps"
proof -
  define r where "r = snd (leading ''!'' ps)"
  define body where "body = snd (leading '']'' r)"
  have "rest = tl (dropWhile (\<lambda>x. x \<noteq> '']'') body)"
    using assms by (auto simp: split_class_def Let_def r_def body_def split: prod.splits if_splits)
  then have "length rest \<le> length body"
    using length_dropWhile_le [of "\<lambda>x. x \<noteq> '']''" body] by simp
  also have "\<dots> \<le> length r" unfolding body_def by (rule length_leading)
  also have "\<dots> \<le> length ps" unfolding r_def by (rule length_leading)
  finally show ?thesis .
qed

function glob :: "string list \<Rightarrow> string list \<Rightarrow> bool" where
  "glob [] s = (s = [])"
| "glob (p # ps) s =
     (if p = ''*''
      then glob ps s \<or> (case s of [] \<Rightarrow> False | c # cs \<Rightarrow> glob (p # ps) cs)
      else
        (case s of
           [] \<Rightarrow> False
         | c # cs \<Rightarrow>
             if p = ''?'' then glob ps cs
             else
               (case (if p = ''['' then split_class ps else None) of
                  None \<Rightarrow> p = c \<and> glob ps cs
                | Some (stuff, rest) \<Rightarrow> class_matches stuff c \<and> glob rest cs)))"
  by pat_completeness auto
termination
  by (relation "measure (\<lambda>(ps, s). length ps + length s)")
    (auto dest: split_class_shorter split: if_splits)

declare glob.simps [simp del]

definition fnmatchcase :: "string \<Rightarrow> string \<Rightarrow> bool" where
  "fnmatchcase name pattern = glob (code_points pattern) (code_points name)"

text \<open>A pattern without a special character matches itself and nothing else.\<close>

lemma glob_plain:
  assumes "p \<noteq> ''*''" "p \<noteq> ''?''" "p \<noteq> ''[''"
  shows "glob (p # ps) s \<longleftrightarrow> (\<exists>cs. s = p # cs \<and> glob ps cs)"
  by (subst glob.simps(2)) (auto simp: assms split: list.splits)

lemma glob_literal: "set ps \<inter> {''*'', ''?'', ''[''} = {} \<Longrightarrow> glob ps s \<longleftrightarrow> s = ps"
proof (induction ps arbitrary: s)
  case Nil
  show ?case by (simp add: glob.simps(1))
next
  case (Cons p ps)
  then have "p \<noteq> ''*''" "p \<noteq> ''?''" "p \<noteq> ''[''" by auto
  then have "glob (p # ps) s \<longleftrightarrow> (\<exists>cs. s = p # cs \<and> glob ps cs)" by (rule glob_plain)
  with Cons show ?case by auto
qed

lemma glob_star: "glob [''*''] s"
  by (induction s) (subst glob.simps(2), simp add: glob.simps(1))+

section \<open>Declarations\<close>

record eff_suppression =
  es_fingerprint :: string
  es_rule :: string
  es_path :: string
  es_component :: string
  es_reason :: string
  es_declared_in :: string

definition path_matches :: "string \<Rightarrow> finding \<Rightarrow> bool" where
  "path_matches pattern f =
     (let path = sp_path (f_primary_location f) in
      if contains pattern ''/'' then fnmatchcase (as_posix path) pattern
      else fnmatchcase (path_name path) pattern)"

definition matches :: "eff_suppression \<Rightarrow> finding \<Rightarrow> bool" where
  "matches item f =
     (if es_fingerprint item \<noteq> [] \<and> es_fingerprint item \<noteq> f_fingerprint f then False
      else if es_rule item \<noteq> []
        \<and> \<not> (f_rule_id f = es_rule item \<or> startswith (f_rule_id f) (es_rule item @ ''.''))
      then False
      else if es_component item \<noteq> []
        \<and> es_component item \<noteq> (case f_component_id f of None \<Rightarrow> [] | Some c \<Rightarrow> c)
      then False
      else \<not> (es_path item \<noteq> [] \<and> \<not> path_matches (es_path item) f))"

fun suppress :: "eff_suppression list \<Rightarrow> finding \<Rightarrow> finding result" where
  "suppress [] f = Inr f"
| "suppress (item # rest) f =
     (if matches item f
      then
        bindr (FindingSuppression_init (PBool True) (PStr ''config'') (PStr (es_reason item))
                 (PStr (es_declared_in item))) (\<lambda>s.
        Finding_replace (f\<lparr>f_suppression := s\<rparr>))
      else suppress rest f)"

definition apply_suppressions :: "finding list \<Rightarrow> eff_suppression list \<Rightarrow> finding list result" where
  "apply_suppressions findings declared =
     (if declared = [] then Inr findings else mapr (suppress declared) findings)"

section \<open>What a suppression can do\<close>

text \<open>
  It marks: the finding stays, with every field but the mark.  The mark names the first
  declaration that selects it, and a finding no declaration selects is untouched.
\<close>

definition marked_by :: "eff_suppression \<Rightarrow> suppression" where
  "marked_by item = \<lparr>su_suppressed = True, su_kind = ''config'', su_reason = es_reason item,
     su_origin = es_declared_in item\<rparr>"

definition suppressed_as :: "eff_suppression list \<Rightarrow> finding \<Rightarrow> finding" where
  "suppressed_as declared f =
     (case List.find (\<lambda>item. matches item f) declared of
        None \<Rightarrow> f
      | Some item \<Rightarrow> f\<lparr>f_suppression := marked_by item\<rparr>)"

lemma suppress_Inr: "suppress declared f = Inr g \<Longrightarrow> g = suppressed_as declared f"
  by (induction declared)
    (auto simp: suppressed_as_def bindr_Inr FindingSuppression_init_iff Finding_replace_iff
      marked_by_def split: if_splits)

lemma suppress_total:
  assumes "finding_fields_ok f" "\<forall>item \<in> set declared. es_reason item \<noteq> []"
  shows "suppress declared f = Inr (suppressed_as declared f)"
proof -
  have "\<exists>g. suppress declared f = Inr g"
    using assms(2)
  proof (induction declared)
    case (Cons item rest)
    have fields: "finding_fields_ok (f\<lparr>f_suppression := s\<rparr>)" for s
      using assms(1) by (simp add: finding_fields_ok_def)
    have "\<exists>s. FindingSuppression_init (PBool True) (PStr ''config'') (PStr (es_reason item))
                 (PStr (es_declared_in item)) = Inr s"
      using Cons.prems by (simp add: FindingSuppression_init_def raise_if_def)
    with Cons fields show ?case by (auto simp: Finding_replace_iff)
  qed simp
  then show ?thesis by (auto dest: suppress_Inr)
qed

lemma apply_suppressions_Inr:
  assumes "apply_suppressions fs declared = Inr gs"
  shows "gs = map (suppressed_as declared) fs"
proof (cases "declared = []")
  case True
  then show ?thesis using assms by (simp add: apply_suppressions_def suppressed_as_def map_idI)
next
  case False
  then have "list_all2 (\<lambda>f g. suppress declared f = Inr g) fs gs"
    using assms by (simp add: apply_suppressions_def mapr_Inr)
  then show ?thesis by (auto simp: list_all2_conv_all_nth suppress_Inr intro: nth_equalityI)
qed

lemma suppressed_as_fields [simp]:
  "f_fingerprint (suppressed_as d f) = f_fingerprint f"
  "f_evidence (suppressed_as d f) = f_evidence f"
  "(suppressed_as d f)\<lparr>f_suppression := s\<rparr> = f\<lparr>f_suppression := s\<rparr>"
  by (simp_all add: suppressed_as_def split: option.splits)

lemma suppressed_as_counts:
  "counts_against_gate (suppressed_as d f) \<longleftrightarrow>
     counts_against_gate f \<and> \<not> list_ex (\<lambda>item. matches item f) d"
  by (auto simp: suppressed_as_def counts_against_gate_def marked_by_def find_None_set list_ex_iff
      split: option.splits dest: find_Some_set)

end
