(* ===== verification/Verify.thy ===== *)
theory Verify
  imports Attribution Suppressions Schedule_Facts
begin

text \<open>
  Judging what a run did (src/src/ici/application/verify.py): the plans become one graph, the graph
  is run, every check gets its attributed observation, duplicates are dropped, suppressions are
  applied, and the gate is asked first whether every required check finished and then whether
  anything blocking was found.
\<close>

section \<open>The verdict\<close>

record verification =
  vf_gate :: gate_outcome
  vf_observations :: "observation list"
  vf_findings :: "finding list"
  vf_executions :: "execution list"

definition verification_exit_code :: "verification \<Rightarrow> int" where
  "verification_exit_code v = exit_code (vf_gate v)"

text \<open>\<open>_unique\<close>: the loop, with the fingerprints seen so far.\<close>

fun unique_findings :: "string list \<Rightarrow> finding list \<Rightarrow> finding list" where
  "unique_findings seen [] = []"
| "unique_findings seen (f # fs) =
     (if f_fingerprint f \<in> set seen then unique_findings seen fs
      else f # unique_findings (f_fingerprint f # seen) fs)"

definition incompleteness :: "planned_check \<Rightarrow> observation \<Rightarrow> string" where
  "incompleteness planned ob =
     (if \<not> ck_required (pc_check planned) then []
      else if ob_state ob = SUCCEEDED \<and> evidence_is_complete ob then []
      else
        (let detail = (case ob_limitations ob of
                         [] \<Rightarrow> task_state_value (ob_state ob)
                       | l # _ \<Rightarrow> l) in
         pc_task_id planned @ '': '' @ detail))"

definition blocking_of :: "finding list \<Rightarrow> string list \<Rightarrow> finding list" where
  "blocking_of findings required_fingerprints =
     filter (\<lambda>f. counts_against_gate f \<and> f_fingerprint f \<in> set required_fingerprints) findings"

definition judge :: "string list \<Rightarrow> finding list \<Rightarrow> string list \<Rightarrow> gate_outcome result" where
  "judge incomplete findings required_fingerprints =
     (let blocking = blocking_of findings required_fingerprints;
          has_violations = (blocking \<noteq> []) in
      if incomplete \<noteq> []
      then GateOutcome_init INCOMPLETE NOT_EVALUATED (PBool has_violations) (strs incomplete)
      else if has_violations
      then GateOutcome_init FAIL NOT_EVALUATED (PBool True)
             (strs [show_nat (length blocking) @ '' violation(s) found''])
      else GateOutcome_init PASS NOT_EVALUATED (PBool False) (strs []))"

text \<open>\<open>{item.task_id: item for item in observations}\<close> and a subscript into it.\<close>

definition by_id :: "observation list \<Rightarrow> (string \<times> observation) list" where
  "by_id obs = fold (\<lambda>ob d. dict_set (ob_task_id ob) ob d) obs []"

definition answer_of :: "observation list \<Rightarrow> planned_check \<Rightarrow> observation result" where
  "answer_of obs planned =
     (case map_of (by_id obs) (pc_task_id planned) of
        None \<Rightarrow> Inl (KeyErr (pc_task_id planned))
      | Some ob \<Rightarrow> Inr ob)"

definition attributed ::
    "(string \<Rightarrow> string) \<Rightarrow> (string \<times> string) list \<Rightarrow> observation list \<Rightarrow> planned_check
     \<Rightarrow> observation result" where
  "attributed sha task_components obs planned =
     bindr (answer_of obs planned) (\<lambda>ob.
     attribute sha ob planned (map_of task_components (pc_task_id planned)))"

definition required_checks :: "planned_check list \<Rightarrow> planned_check list" where
  "required_checks checks = filter (\<lambda>p. ck_required (pc_check p)) checks"

text \<open>The part of \<open>verify\<close> after the run.\<close>

definition verdict ::
    "(string \<Rightarrow> string) \<Rightarrow> planned_check list \<Rightarrow> eff_suppression list \<Rightarrow> (string \<times> string) list
     \<Rightarrow> scheduled \<Rightarrow> verification result" where
  "verdict sha checks suppressions task_components s =
     bindr (mapr (attributed sha task_components (sd_observations s)) checks) (\<lambda>obs.
     bindr (mapr (\<lambda>p. bindr (answer_of obs p) (\<lambda>ob. Inr (incompleteness p ob))) checks) (\<lambda>reasons.
     bindr (apply_suppressions (unique_findings [] (concat (map ob_findings obs))) suppressions)
       (\<lambda>findings.
     bindr (mapr (answer_of obs) (required_checks checks)) (\<lambda>required.
     bindr (judge (filter (\<lambda>r. r \<noteq> []) reasons) findings
              (map f_fingerprint (concat (map ob_findings required)))) (\<lambda>gate.
     Inr \<lparr>vf_gate = gate, vf_observations = obs, vf_findings = findings,
          vf_executions = sd_executions s\<rparr>)))))"

definition all_checks :: "plan list \<Rightarrow> planned_check list" where
  "all_checks plans = concat (map pl_checks plans)"

definition verify ::
    "(string \<Rightarrow> string) \<Rightarrow> 'c run_context \<Rightarrow> 'c option \<Rightarrow> plan list \<Rightarrow> eff_suppression list
     \<Rightarrow> (string \<times> string) list \<Rightarrow> (verification \<times> 'c option) result" where
  "verify sha cx store plans suppressions task_components =
     (let checks = all_checks plans in
      bindr (build_graph checks []) (\<lambda>g.
      bindr (run_graph cx store g) (\<lambda>(s, store').
      bindr (verdict sha checks suppressions task_components s) (\<lambda>v. Inr (v, store')))))"

section \<open>The parts\<close>

lemma unique_findings_sub: "set (unique_findings seen fs) \<subseteq> set fs"
  by (induction seen fs rule: unique_findings.induct) auto

text \<open>One finding per fingerprint, the first that carried it.\<close>

lemma unique_findings_prints:
  "f_fingerprint ` set (unique_findings seen fs) = f_fingerprint ` set fs - set seen"
  "distinct (map f_fingerprint (unique_findings seen fs))"
proof (induction seen fs rule: unique_findings.induct)
  case (2 seen f fs)
  {
    case 1
    show ?case using "2.IH" by auto
  next
    case 2
    show ?case using "2.IH" by (auto simp: image_iff)
  }
qed simp_all

lemma unique_findings_first:
  "g \<in> set (unique_findings seen fs) \<Longrightarrow>
     List.find (\<lambda>f. f_fingerprint f = f_fingerprint g) fs = Some g"
proof (induction seen fs rule: unique_findings.induct)
  case (2 seen f fs)
  show ?case
  proof (cases "f_fingerprint f \<in> set seen")
    case True
    with 2 have g: "g \<in> set (unique_findings seen fs)" by simp
    then have "f_fingerprint g \<notin> set seen" using unique_findings_prints(1) [of seen fs] by blast
    with True have "f_fingerprint f \<noteq> f_fingerprint g" by metis
    with 2 True g show ?thesis by simp
  next
    case False
    show ?thesis
    proof (cases "g = f")
      case False
      with 2 \<open>f_fingerprint f \<notin> set seen\<close> have g: "g \<in> set (unique_findings (f_fingerprint f # seen) fs)"
        by simp
      then have "f_fingerprint f \<noteq> f_fingerprint g"
        using unique_findings_prints(1) [of "f_fingerprint f # seen" fs] by auto
      with 2 \<open>f_fingerprint f \<notin> set seen\<close> g show ?thesis by simp
    qed simp
  qed
qed simp

lemma incompleteness_iff:
  "pc_task_id p \<noteq> [] \<Longrightarrow>
     incompleteness p ob = [] \<longleftrightarrow> (ck_required (pc_check p) \<longrightarrow> evidence_is_complete ob)"
  by (auto simp: incompleteness_def Let_def evidence_is_complete_def)

lemma judge_Inr:
  assumes "judge incomplete findings fps = Inr g"
  shows "ga_selected g =
      (if incomplete \<noteq> [] then INCOMPLETE else if blocking_of findings fps \<noteq> [] then FAIL else PASS)"
    "ga_has_violations g \<longleftrightarrow> blocking_of findings fps \<noteq> []" "gate_ok g"
    "incomplete \<noteq> [] \<Longrightarrow> ga_reasons g = incomplete"
  using assms by (auto simp: judge_def Let_def GateOutcome_init_iff split: if_splits)

lemma map_of_by_id:
  "distinct (map ob_task_id obs) \<Longrightarrow>
     map_of (by_id obs) i = Some ob \<longleftrightarrow> ob \<in> set obs \<and> ob_task_id ob = i"
proof -
  have "distinct (map ob_task_id obs) \<Longrightarrow> fst ` set d \<inter> ob_task_id ` set obs = {} \<Longrightarrow>
      map_of (fold (\<lambda>ob d. dict_set (ob_task_id ob) ob d) obs d) i =
      (case List.find (\<lambda>ob. ob_task_id ob = i) obs of None \<Rightarrow> map_of d i | Some ob \<Rightarrow> Some ob)" for d
  proof (induction obs arbitrary: d)
    case (Cons ob obs)
    then have "fst ` set (dict_set (ob_task_id ob) ob d) \<inter> ob_task_id ` set obs = {}" by auto
    with Cons have "map_of (fold (\<lambda>ob d. dict_set (ob_task_id ob) ob d) (ob # obs) d) i =
      (case List.find (\<lambda>ob. ob_task_id ob = i) obs of
         None \<Rightarrow> map_of (dict_set (ob_task_id ob) ob d) i | Some ob \<Rightarrow> Some ob)" by simp
    moreover have "List.find (\<lambda>ob. ob_task_id ob = i) obs = None" if "ob_task_id ob = i"
      using Cons.prems(1) that by (auto simp: find_None_set) (metis imageI)
    ultimately show ?case by (auto split: option.splits)
  qed simp
  then show "distinct (map ob_task_id obs) \<Longrightarrow>
     map_of (by_id obs) i = Some ob \<longleftrightarrow> ob \<in> set obs \<and> ob_task_id ob = i"
    by (auto simp: by_id_def find_key_iff [symmetric] split: option.splits)
qed

lemma answer_of_Inr:
  "distinct (map ob_task_id obs) \<Longrightarrow>
     answer_of obs p = Inr ob \<longleftrightarrow> ob \<in> set obs \<and> ob_task_id ob = pc_task_id p"
  by (auto simp: answer_of_def map_of_by_id [symmetric] split: option.splits)

section \<open>The whole\<close>

lemma reasons_ex:
  "list_all2 (\<lambda>p r. \<exists>x. a p = Inr x \<and> (Inr (f p x) :: string result) = Inr r) ps rs \<Longrightarrow>
     filter (\<lambda>r. r \<noteq> []) rs \<noteq> [] \<longleftrightarrow> (\<exists>p \<in> set ps. \<exists>x. a p = Inr x \<and> f p x \<noteq> [])"
  by (induction ps rs rule: list_all2_induct) auto

lemma answers_set:
  "list_all2 (\<lambda>p x. a p = Inr x) ps xs \<Longrightarrow> set xs = {x. \<exists>p \<in> set ps. a p = Inr x}"
  by (induction ps xs rule: list_all2_induct) auto

definition unfinished :: "planned_check list \<Rightarrow> observation list \<Rightarrow> bool" where
  "unfinished checks obs \<longleftrightarrow>
     (\<exists>p \<in> set (required_checks checks). \<exists>ob \<in> set obs.
        ob_task_id ob = pc_task_id p \<and> \<not> evidence_is_complete ob)"

text \<open>A finding that fails the gate: it counts, and a required check reported its fingerprint.\<close>

definition blocks_gate :: "planned_check list \<Rightarrow> observation list \<Rightarrow> finding \<Rightarrow> bool" where
  "blocks_gate checks obs f \<longleftrightarrow>
     counts_against_gate f \<and>
     (\<exists>p \<in> set (required_checks checks). \<exists>ob \<in> set obs.
        ob_task_id ob = pc_task_id p \<and> f_fingerprint f \<in> f_fingerprint ` set (ob_findings ob))"

lemma verdict_Inr:
  assumes run: "verdict sha checks decl tc s = Inr v" and input: "graph_input_ok checks"
    and ids: "distinct (map ob_task_id (sd_observations s))"
  shows "map ob_task_id (vf_observations v) = map pc_task_id checks"
    and "list_all2 (\<lambda>p ob. \<exists>o1 \<in> set (sd_observations s). ob_task_id o1 = pc_task_id p
          \<and> attribute sha o1 p (map_of tc (pc_task_id p)) = Inr ob) checks (vf_observations v)"
    and "vf_findings v =
        map (suppressed_as decl) (unique_findings [] (concat (map ob_findings (vf_observations v))))"
    and "ga_selected (vf_gate v) =
        (if unfinished checks (vf_observations v) then INCOMPLETE
         else if \<exists>f \<in> set (vf_findings v). blocks_gate checks (vf_observations v) f then FAIL else PASS)"
    and "ga_has_violations (vf_gate v) \<longleftrightarrow>
        (\<exists>f \<in> set (vf_findings v). blocks_gate checks (vf_observations v) f)"
    and "gate_ok (vf_gate v)" "vf_executions v = sd_executions s"
proof -
  obtain obs reasons findings required gate where
    obs: "list_all2 (\<lambda>p ob. attributed sha tc (sd_observations s) p = Inr ob) checks obs"
    and reasons: "list_all2 (\<lambda>p r. \<exists>ob. answer_of obs p = Inr ob
        \<and> (Inr (incompleteness p ob) :: string result) = Inr r) checks reasons"
    and findings: "apply_suppressions (unique_findings [] (concat (map ob_findings obs))) decl = Inr findings"
    and required: "list_all2 (\<lambda>p ob. answer_of obs p = Inr ob) (required_checks checks) required"
    and gate: "judge (filter (\<lambda>r. r \<noteq> []) reasons) findings
        (map f_fingerprint (concat (map ob_findings required))) = Inr gate"
    and final: "(Inr \<lparr>vf_gate = gate, vf_observations = obs, vf_findings = findings,
        vf_executions = sd_executions s\<rparr> :: verification result) = Inr v"
    using run unfolding verdict_def bindr_Inr mapr_Inr by blast
  have v: "v = \<lparr>vf_gate = gate, vf_observations = obs, vf_findings = findings,
      vf_executions = sd_executions s\<rparr>" using final by simp
  have each: "list_all2 (\<lambda>p ob. \<exists>o1 \<in> set (sd_observations s). ob_task_id o1 = pc_task_id p
        \<and> attribute sha o1 p (map_of tc (pc_task_id p)) = Inr ob) checks obs"
    using obs by (rule list_all2_mono) (auto simp: attributed_def bindr_Inr answer_of_Inr [OF ids])
  then show "list_all2 (\<lambda>p ob. \<exists>o1 \<in> set (sd_observations s). ob_task_id o1 = pc_task_id p
        \<and> attribute sha o1 p (map_of tc (pc_task_id p)) = Inr ob) checks (vf_observations v)"
    by (simp add: v)
  have "list_all2 (\<lambda>p ob. ob_task_id ob = pc_task_id p) checks obs"
    using each by (rule list_all2_mono) (auto simp: attribute_fields)
  then have same: "map ob_task_id obs = map pc_task_id checks"
    by (auto simp: list_all2_conv_all_nth intro: nth_equalityI)
  then show "map ob_task_id (vf_observations v) = map pc_task_id checks" by (simp add: v)
  have dist: "distinct (map ob_task_id obs)"
    using input by (simp add: same graph_input_ok_def)
  note answer = answer_of_Inr [OF dist]
  show "vf_findings v =
      map (suppressed_as decl) (unique_findings [] (concat (map ob_findings (vf_observations v))))"
    using apply_suppressions_Inr [OF findings] by (simp add: v)
  have fps: "set (map f_fingerprint (concat (map ob_findings required))) =
      {x. \<exists>p \<in> set (required_checks checks). \<exists>ob \<in> set obs.
        ob_task_id ob = pc_task_id p \<and> x \<in> f_fingerprint ` set (ob_findings ob)}"
    (is "_ = ?F")
  proof -
    have "set required = {ob \<in> set obs. \<exists>p \<in> set (required_checks checks). ob_task_id ob = pc_task_id p}"
      unfolding answers_set [OF required] answer by blast
    then show ?thesis by auto
  qed
  have blocking: "blocking_of findings (map f_fingerprint (concat (map ob_findings required))) \<noteq> []
      \<longleftrightarrow> (\<exists>f \<in> set (vf_findings v). blocks_gate checks (vf_observations v) f)"
    unfolding blocking_of_def fps by (auto simp: filter_empty_conv blocks_gate_def v)
  have "filter (\<lambda>r. r \<noteq> []) reasons \<noteq> [] \<longleftrightarrow>
      (\<exists>p \<in> set checks. \<exists>ob. answer_of obs p = Inr ob \<and> incompleteness p ob \<noteq> [])"
    by (rule reasons_ex [OF reasons])
  also have "\<dots> \<longleftrightarrow> unfinished checks obs"
  proof -
    have "incompleteness p x \<noteq> [] \<longleftrightarrow> ck_required (pc_check p) \<and> \<not> evidence_is_complete x"
      if "p \<in> set checks" for p x
      using input that incompleteness_iff [of p x] by (auto simp: graph_input_ok_def)
    then show ?thesis unfolding answer unfinished_def required_checks_def set_filter by blast
  qed
  finally have "filter (\<lambda>r. r \<noteq> []) reasons \<noteq> [] \<longleftrightarrow> unfinished checks obs" .
  then show "ga_selected (vf_gate v) =
        (if unfinished checks (vf_observations v) then INCOMPLETE
         else if \<exists>f \<in> set (vf_findings v). blocks_gate checks (vf_observations v) f then FAIL else PASS)"
    using judge_Inr(1) [OF gate] unfolding blocking by (simp add: v)
  show "ga_has_violations (vf_gate v) \<longleftrightarrow>
        (\<exists>f \<in> set (vf_findings v). blocks_gate checks (vf_observations v) f)"
    using judge_Inr(2) [OF gate] unfolding blocking by (simp add: v)
  show "gate_ok (vf_gate v)" "vf_executions v = sd_executions s"
    using judge_Inr(3) [OF gate] by (simp_all add: v)
qed

lemma verify_Inr:
  assumes "verify sha cx store plans decl tc = Inr (v, store')" "graph_input_ok (all_checks plans)"
  obtains g s where "build_graph (all_checks plans) [] = Inr g"
    "run_graph cx store g = Inr (s, store')" "verdict sha (all_checks plans) decl tc s = Inr v"
    "mset (map ob_task_id (sd_observations s)) = mset (map pc_task_id (all_checks plans))"
    "distinct (map ob_task_id (sd_observations s))"
proof -
  obtain g s where g: "build_graph (all_checks plans) [] = Inr g"
    and s: "run_graph cx store g = Inr (s, store')"
    and v: "verdict sha (all_checks plans) decl tc s = Inr v"
    using assms(1) by (auto simp: verify_def Let_def bindr_Inr)
  have ids: "mset (map ob_task_id (sd_observations s)) = mset (map pc_task_id (all_checks plans))"
    by (rule run_observation_ids [OF g assms(2) s])
  then have "distinct (map ob_task_id (sd_observations s))"
    using assms(2) unfolding graph_input_ok_def by (metis mset_eq_imp_distinct_iff)
  with g s v ids show thesis by (rule that)
qed

text \<open>The observation of a check, in the verdict, is what the run observed for it, attributed.\<close>

lemma verdict_observation:
  assumes "verdict sha checks decl tc s = Inr v" "graph_input_ok checks"
    and "distinct (map ob_task_id (sd_observations s))" and p: "p \<in> set checks"
  obtains ob o1 where "ob \<in> set (vf_observations v)" "o1 \<in> set (sd_observations s)"
    "ob_task_id ob = pc_task_id p" "ob_task_id o1 = pc_task_id p"
    "attribute sha o1 p (map_of tc (pc_task_id p)) = Inr ob"
proof -
  note each = verdict_Inr(2) [OF assms(1-3)]
  obtain i where i: "i < length checks" "p = checks ! i" using p by (metis in_set_conv_nth)
  then have "i < length (vf_observations v)" using each by (simp add: list_all2_lengthD [symmetric])
  moreover obtain o1 where o1: "o1 \<in> set (sd_observations s)" "ob_task_id o1 = pc_task_id p"
    "attribute sha o1 p (map_of tc (pc_task_id p)) = Inr (vf_observations v ! i)"
    using list_all2_nthD [OF each i(1)] i(2) by blast
  moreover have "ob_task_id (vf_observations v ! i) = pc_task_id p"
    using attribute_fields(1) [OF o1(3)] o1(2) by simp
  ultimately show thesis by (intro that) auto
qed

lemma verdict_observation_unique:
  assumes "verdict sha checks decl tc s = Inr v" "graph_input_ok checks"
    and "distinct (map ob_task_id (sd_observations s))"
    and "o1 \<in> set (vf_observations v)" "o2 \<in> set (vf_observations v)" "ob_task_id o1 = ob_task_id o2"
  shows "o1 = o2"
proof -
  have "distinct (map ob_task_id (vf_observations v))"
    using verdict_Inr(1) [OF assms(1-3)] assms(2) by (simp add: graph_input_ok_def)
  with assms(4-6) show ?thesis by (auto simp: distinct_map dest: inj_onD)
qed

text \<open>
  A gate that passes rests on evidence: each required check succeeded with complete evidence, and
  so did every check whose output it needed.
\<close>

lemma verify_pass:
  assumes run: "verify sha cx store plans decl tc = Inr (v, store')"
    and input: "graph_input_ok (all_checks plans)" and pass: "ga_selected (vf_gate v) = PASS"
    and p: "p \<in> set (all_checks plans)" "ck_required (pc_check p)"
  shows "\<exists>ob \<in> set (vf_observations v). ob_task_id ob = pc_task_id p \<and> evidence_is_complete ob
      \<and> (\<forall>f \<in> set (vf_findings v). counts_against_gate f \<longrightarrow>
           f_fingerprint f \<notin> f_fingerprint ` set (ob_findings ob))"
    and "q \<in> set (all_checks plans) \<Longrightarrow> n \<in> set (ck_needs (pc_check p)) \<Longrightarrow>
      n \<in> set (ck_provides (pc_check q)) \<Longrightarrow>
      \<exists>oq \<in> set (vf_observations v). ob_task_id oq = pc_task_id q \<and> ob_state oq = SUCCEEDED"
proof -
  obtain g s where g: "build_graph (all_checks plans) [] = Inr g"
    and s: "run_graph cx store g = Inr (s, store')"
    and v: "verdict sha (all_checks plans) decl tc s = Inr v"
    and ids: "distinct (map ob_task_id (sd_observations s))"
    by (rule verify_Inr [OF run input])
  note gate = verdict_Inr(4) [OF v input ids]
  have req: "p \<in> set (required_checks (all_checks plans))" using p by (simp add: required_checks_def)
  obtain ob o1 where ob: "ob \<in> set (vf_observations v)" "o1 \<in> set (sd_observations s)"
    "ob_task_id ob = pc_task_id p" "ob_task_id o1 = pc_task_id p"
    "attribute sha o1 p (map_of tc (pc_task_id p)) = Inr ob"
    by (rule verdict_observation [OF v input ids p(1)])
  have full: "evidence_is_complete ob"
    using gate pass ob(1,3) req by (auto simp: unfinished_def split: if_splits)
  moreover have "\<forall>f \<in> set (vf_findings v). counts_against_gate f \<longrightarrow>
      f_fingerprint f \<notin> f_fingerprint ` set (ob_findings ob)"
    using gate pass ob(1,3) req by (auto simp: blocks_gate_def split: if_splits)
  ultimately show "\<exists>ob \<in> set (vf_observations v). ob_task_id ob = pc_task_id p \<and> evidence_is_complete ob
      \<and> (\<forall>f \<in> set (vf_findings v). counts_against_gate f \<longrightarrow>
           f_fingerprint f \<notin> f_fingerprint ` set (ob_findings ob))"
    using ob(1,3) by blast
  show "\<exists>oq \<in> set (vf_observations v). ob_task_id oq = pc_task_id q \<and> ob_state oq = SUCCEEDED"
    if q: "q \<in> set (all_checks plans)" and n: "n \<in> set (ck_needs (pc_check p))"
      "n \<in> set (ck_provides (pc_check q))"
  proof -
    obtain oq o2 where oq: "oq \<in> set (vf_observations v)" "o2 \<in> set (sd_observations s)"
      "ob_task_id oq = pc_task_id q" "ob_task_id o2 = pc_task_id q"
      "attribute sha o2 q (map_of tc (pc_task_id q)) = Inr oq"
      by (rule verdict_observation [OF v input ids q])
    have "ob_state o1 = SUCCEEDED"
      using full attribute_fields(2) [OF ob(5)] by (simp add: evidence_is_complete_def)
    then have "ob_state o2 = SUCCEEDED"
      by (rule run_inputs_succeeded [OF g input s p(1) ob(2,4) _ q oq(2,4) n])
    with oq show ?thesis using attribute_fields(2) [OF oq(5)] by auto
  qed
qed

text \<open>
  Suppressions touch the marks only: the same run judged with and without them has the same
  observations, the same findings up to their marks, and the same answer to whether it finished.
\<close>

lemma verdict_suppressions:
  assumes with_d: "verdict sha checks decl tc s = Inr v" and without: "verdict sha checks [] tc s = Inr v0"
    and input: "graph_input_ok checks" and ids: "distinct (map ob_task_id (sd_observations s))"
  shows "vf_observations v = vf_observations v0" "vf_executions v = vf_executions v0"
    "vf_findings v = map (suppressed_as decl) (vf_findings v0)"
    "ga_selected (vf_gate v) = INCOMPLETE \<longleftrightarrow> ga_selected (vf_gate v0) = INCOMPLETE"
    "ga_has_violations (vf_gate v) \<Longrightarrow> ga_has_violations (vf_gate v0)"
proof -
  obtain obs where a: "mapr (attributed sha tc (sd_observations s)) checks = Inr obs"
    using with_d unfolding verdict_def bindr_Inr by blast
  have "vf_observations v = obs" "vf_observations v0 = obs"
    using with_d without a by (auto simp: verdict_def bindr_Inr)
  then show obs: "vf_observations v = vf_observations v0" by simp
  show "vf_executions v = vf_executions v0"
    by (simp add: verdict_Inr(7) [OF with_d input ids] verdict_Inr(7) [OF without input ids])
  have "suppressed_as [] = id" by (simp add: suppressed_as_def fun_eq_iff)
  then show fs: "vf_findings v = map (suppressed_as decl) (vf_findings v0)"
    by (simp add: verdict_Inr(3) [OF with_d input ids] verdict_Inr(3) [OF without input ids] obs)
  show "ga_selected (vf_gate v) = INCOMPLETE \<longleftrightarrow> ga_selected (vf_gate v0) = INCOMPLETE"
    unfolding verdict_Inr(4) [OF with_d input ids] verdict_Inr(4) [OF without input ids] obs by simp
  show "ga_has_violations (vf_gate v0)" if "ga_has_violations (vf_gate v)"
    using that
    unfolding verdict_Inr(5) [OF with_d input ids] verdict_Inr(5) [OF without input ids] obs fs
    by (auto simp: blocks_gate_def suppressed_as_counts)
qed

end
