(* ===== verification/Request.thy ===== *)
theory Request
  imports Verify Workspaces
begin

text \<open>
  What a command line asked for (src/src/ici/application/request.py): the scope it names, the
  checks it keeps, what it leaves out of the required coverage, the cost profile, and the demotion
  of a gate whose required coverage was left out.
\<close>

section \<open>The request\<close>

record run_request =
  rq_components :: "string list"
  rq_languages :: "string list"
  rq_profile :: "profile option"
  rq_require_full :: bool
  rq_static_only :: bool

definition scope_of :: "workspace \<Rightarrow> run_request \<Rightarrow> workspace result" where
  "scope_of model request =
     (if rq_components request = [] then Inr model
      else
        (let known = component_ids (ws_components model);
             unknown = filter (\<lambda>i. i \<notin> set known) (rq_components request);
             declared = or_else (join '', '' (sorted_set known)) ''none'' in
         raise_if (unknown \<noteq> [])
           (ValueError ''no component {!r}; declared: {}'' [hd unknown, declared])
           (scoped model (rq_components request))))"

definition wanted :: "run_request \<Rightarrow> check_definition \<Rightarrow> bool" where
  "wanted request check =
     (if rq_static_only request \<and> \<not> ck_static check then False
      else rq_languages request = [] \<or> ck_language check \<in> set (rq_languages request))"

definition declared_languages :: "workspace \<Rightarrow> string list" where
  "declared_languages scope = concat (map cp_languages (ws_components scope))"

definition requested_languages :: "run_request \<Rightarrow> workspace \<Rightarrow> string list" where
  "requested_languages request scope =
     (if rq_languages request \<noteq> []
      then sort (filter (\<lambda>l. l \<in> set (declared_languages scope)) (rq_languages request))
      else sorted_set (declared_languages scope))"

text \<open>The two loops of \<open>uncovered_scope\<close>.\<close>

definition unselected_reasons :: "workspace \<Rightarrow> workspace \<Rightarrow> string list" where
  "unselected_reasons model scope =
     map (\<lambda>i. ''--require-full: required component '' @ [CHR 0x27] @ i @ [CHR 0x27]
            @ '' was not in the selected scope'')
       (sorted_set (filter (\<lambda>i. i \<notin> set (component_ids (ws_components scope)))
          (ws_required_component_ids model)))"

definition missing_languages :: "run_request \<Rightarrow> component \<Rightarrow> string list" where
  "missing_languages request c =
     sorted_set (filter (\<lambda>l. l \<notin> set (rq_languages request)) (cp_languages c))"

definition filtered_reasons :: "workspace \<Rightarrow> run_request \<Rightarrow> string list" where
  "filtered_reasons model request =
     (if rq_languages request = [] then []
      else
        map (\<lambda>c. ''--require-full: '' @ cp_id c @ '' declares ''
               @ join '', '' (missing_languages request c) @ '' but the request selected only ''
               @ join '', '' (rq_languages request))
          (filter (\<lambda>c. cp_id c \<in> set (ws_required_component_ids model)
               \<and> missing_languages request c \<noteq> []) (ws_components model)))"

definition uncovered_scope :: "workspace \<Rightarrow> run_request \<Rightarrow> workspace \<Rightarrow> string list" where
  "uncovered_scope model request scope =
     unselected_reasons model scope @ filtered_reasons model request"

definition profiles :: "profile list" where
  "profiles = [FAST, STANDARD, DEEP]"

definition profile_for :: "string option \<Rightarrow> run_request \<Rightarrow> profile result" where
  "profile_for configured request =
     (case (case rq_profile request of Some p \<Rightarrow> Some (profile_value p) | None \<Rightarrow> configured) of
        None \<Rightarrow> Inr STANDARD
      | Some value \<Rightarrow>
          (case List.find (\<lambda>p. profile_value p = value) profiles of
             Some p \<Rightarrow> Inr p
           | None \<Rightarrow>
               Inl (ValueError ''unknown profile {!r}; declared profiles: {}''
                      [value, join '', '' (map profile_value profiles)])))"

definition apply_require_full :: "verification \<Rightarrow> string list \<Rightarrow> verification result" where
  "apply_require_full v coverage_gaps =
     (if coverage_gaps = [] then Inr v
      else
        (let gate = vf_gate v;
             reasons = coverage_gaps @ (if ga_selected gate = INCOMPLETE then ga_reasons gate else []) in
         bindr (GateOutcome_init INCOMPLETE INCOMPLETE (PBool (ga_has_violations gate)) (strs reasons))
           (\<lambda>g. Inr (v\<lparr>vf_gate := g\<rparr>))))"

section \<open>What it means\<close>

text \<open>
  The scope of a request is the whole model or the view scoped to the named components, and exists
  exactly when the named components are registered and closed under their needs.
\<close>

lemma scope_of_iff:
  assumes "workspace_ok model"
  shows "scope_of model request = Inr scope \<longleftrightarrow>
    (if rq_components request = [] then scope = model
     else set (rq_components request) \<subseteq> set (component_ids (ws_components model))
       \<and> needs_closed model (rq_components request)
       \<and> scope = scoped_view model (rq_components request))"
  using scoped_iff [OF assms]
  by (auto simp: scope_of_def Let_def raise_if_Inr filter_empty_conv)

lemma scope_of_components:
  assumes "workspace_ok model" "scope_of model request = Inr scope"
  shows "ws_components scope =
    filter (\<lambda>c. rq_components request = [] \<or> cp_id c \<in> set (rq_components request)) (ws_components model)"
  using assms(2) unfolding scope_of_iff [OF assms(1)]
  by (auto simp: scoped_view_def split: if_splits)

text \<open>
  Coverage is complete exactly when every required component is in the scope and no language of a
  required component was filtered away.
\<close>

definition covers :: "workspace \<Rightarrow> run_request \<Rightarrow> workspace \<Rightarrow> bool" where
  "covers model request scope \<longleftrightarrow>
     set (ws_required_component_ids model) \<subseteq> set (component_ids (ws_components scope))
     \<and> (rq_languages request = [] \<or>
        (\<forall>c \<in> set (ws_components model). cp_id c \<in> set (ws_required_component_ids model) \<longrightarrow>
           set (cp_languages c) \<subseteq> set (rq_languages request)))"

lemma sorted_set_Nil [simp]: "sorted_set xs = [] \<longleftrightarrow> xs = []"
  using set_sorted_set [of xs] by (metis set_empty)

lemma uncovered_scope_Nil: "uncovered_scope model request scope = [] \<longleftrightarrow> covers model request scope"
  by (auto simp: uncovered_scope_def unselected_reasons_def filtered_reasons_def covers_def
      missing_languages_def filter_empty_conv)

lemma profile_for_iff:
  "profile_for configured request = Inr p \<longleftrightarrow>
     (case rq_profile request of
        Some q \<Rightarrow> p = q
      | None \<Rightarrow> (case configured of None \<Rightarrow> p = STANDARD | Some s \<Rightarrow> s = profile_value p))"
proof -
  have found: "List.find (\<lambda>x. profile_value x = s) profiles = Some p \<longleftrightarrow> s = profile_value p" for s p
    by (cases p) (auto simp: profiles_def)
  have inj: "profile_value q = profile_value p \<longleftrightarrow> p = q" for p q
    by (cases p; cases q) simp_all
  have lookup: "(case List.find (\<lambda>x. profile_value x = s) profiles of Some p \<Rightarrow> Inr p | None \<Rightarrow> Inl e) = Inr p
      \<longleftrightarrow> s = profile_value p" for s and e :: exn
  proof (cases "List.find (\<lambda>x. profile_value x = s) profiles")
    case None
    then show ?thesis using found [of s p] by simp
  next
    case (Some q)
    then show ?thesis using found [of s q] by (auto simp: inj)
  qed
  show ?thesis
    by (cases "rq_profile request"; cases configured)
      (simp_all only: profile_for_def option.case lookup, auto simp: inj)
qed

text \<open>
  Demotion rewrites the gate only, keeps what the run found, and never lets a run pass whose
  required coverage was left out.
\<close>

lemma apply_require_full_Inr:
  assumes "apply_require_full v gaps = Inr w"
  shows "vf_observations w = vf_observations v" "vf_findings w = vf_findings v"
    "vf_executions w = vf_executions v"
    "ga_has_violations (vf_gate w) = ga_has_violations (vf_gate v)"
    "ga_selected (vf_gate w) = (if gaps = [] then ga_selected (vf_gate v) else INCOMPLETE)"
    "set gaps \<subseteq> set (ga_reasons (vf_gate w))"
    "ga_selected (vf_gate v) = INCOMPLETE \<Longrightarrow> set (ga_reasons (vf_gate v)) \<subseteq> set (ga_reasons (vf_gate w))"
proof -
  have "gaps = [] \<and> w = v \<or> (\<exists>g. gaps \<noteq> [] \<and> w = v\<lparr>vf_gate := g\<rparr> \<and> ga_selected g = INCOMPLETE
      \<and> ga_has_violations g = ga_has_violations (vf_gate v)
      \<and> ga_reasons g = gaps @ (if ga_selected (vf_gate v) = INCOMPLETE then ga_reasons (vf_gate v) else []))"
    using assms
    by (auto simp: apply_require_full_def Let_def bindr_Inr GateOutcome_init_iff split: if_splits)
  then show "vf_observations w = vf_observations v" "vf_findings w = vf_findings v"
    "vf_executions w = vf_executions v"
    "ga_has_violations (vf_gate w) = ga_has_violations (vf_gate v)"
    "ga_selected (vf_gate w) = (if gaps = [] then ga_selected (vf_gate v) else INCOMPLETE)"
    "set gaps \<subseteq> set (ga_reasons (vf_gate w))"
    "ga_selected (vf_gate v) = INCOMPLETE \<Longrightarrow> set (ga_reasons (vf_gate v)) \<subseteq> set (ga_reasons (vf_gate w))"
    by auto
qed

lemma apply_require_full_total:
  assumes "gate_ok (vf_gate v)" "list_all text_ok gaps"
  shows "\<exists>w. apply_require_full v gaps = Inr w"
proof (cases "gaps = []")
  case False
  let ?reasons = "gaps @ (if ga_selected (vf_gate v) = INCOMPLETE then ga_reasons (vf_gate v) else [])"
  have "gate_ok \<lparr>ga_selected = INCOMPLETE, ga_workspace = INCOMPLETE,
      ga_has_violations = ga_has_violations (vf_gate v), ga_reasons = ?reasons\<rparr>"
    using assms False by (auto simp: gate_ok_def)
  then have "GateOutcome_init INCOMPLETE INCOMPLETE (PBool (ga_has_violations (vf_gate v))) (strs ?reasons)
      = Inr \<lparr>ga_selected = INCOMPLETE, ga_workspace = INCOMPLETE,
          ga_has_violations = ga_has_violations (vf_gate v), ga_reasons = ?reasons\<rparr>"
    by (simp add: GateOutcome_init_iff)
  with False show ?thesis by (simp add: apply_require_full_def Let_def)
qed (simp add: apply_require_full_def)

end
