(* ===== verification/Tem.thy ===== *)
theory Tem
  imports Observations
begin

text \<open>
  The test-effectiveness score (src/src/ici/application/tem.py).  Floating-point rounding is an
  argument: \<open>fl\<close> takes the exact value of an operation to the float it yields (an infinity on
  overflow), and \<open>rnd n\<close> is \<open>round(x, n)\<close> on finite floats.  Comparisons, NaN and the infinities
  follow the language.
\<close>

section \<open>Floats\<close>

fun float_mul :: "(rat \<Rightarrow> pyfloat) \<Rightarrow> pyfloat \<Rightarrow> pyfloat \<Rightarrow> pyfloat" where
  "float_mul fl (Fin a) (Fin b) = fl (a * b)"
| "float_mul fl NaN _ = NaN"
| "float_mul fl _ NaN = NaN"
| "float_mul fl (Fin a) y =
     (if a = 0 then NaN else if a > 0 then y else (if y = PosInf then NegInf else PosInf))"
| "float_mul fl x (Fin b) =
     (if b = 0 then NaN else if b > 0 then x else (if x = PosInf then NegInf else PosInf))"
| "float_mul fl x y = (if x = y then PosInf else NegInf)"

text \<open>Division by a positive constant.\<close>

fun float_div :: "(rat \<Rightarrow> pyfloat) \<Rightarrow> pyfloat \<Rightarrow> rat \<Rightarrow> pyfloat" where
  "float_div fl (Fin a) b = fl (a / b)"
| "float_div fl x b = x"

fun float_less :: "pyfloat \<Rightarrow> pyfloat \<Rightarrow> bool" where
  "float_less (Fin a) (Fin b) = (a < b)"
| "float_less NegInf (Fin _) = True"
| "float_less NegInf PosInf = True"
| "float_less (Fin _) PosInf = True"
| "float_less _ _ = False"

text \<open>\<open>min(a, b)\<close> and \<open>max(a, b)\<close>: the first argument unless the second is smaller, or larger.\<close>

definition float_min :: "pyfloat \<Rightarrow> pyfloat \<Rightarrow> pyfloat" where
  "float_min a b = (if float_less b a then b else a)"

definition float_max :: "pyfloat \<Rightarrow> pyfloat \<Rightarrow> pyfloat" where
  "float_max a b = (if float_less a b then b else a)"

fun float_round :: "(nat \<Rightarrow> rat \<Rightarrow> rat) \<Rightarrow> pyfloat \<Rightarrow> nat \<Rightarrow> pyfloat" where
  "float_round rnd (Fin q) n = Fin (rnd n q)"
| "float_round rnd x n = x"

definition int_div :: "(rat \<Rightarrow> pyfloat) \<Rightarrow> int \<Rightarrow> int \<Rightarrow> pyfloat" where
  "int_div fl a b = fl (of_int a / of_int b)"

section \<open>The formula\<close>

definition FORMULA_VERSION :: string where
  "FORMULA_VERSION = ''tem/1''"

definition MAX_SCORE :: rat where
  "MAX_SCORE = 5"

definition COVERAGE_CAP :: rat where
  "COVERAGE_CAP = 80"

definition BRANCH_TO_LINE :: rat where
  "BRANCH_TO_LINE = 5 / 4"

record tem_inputs =
  ti_passed :: int
  ti_total :: int
  ti_line_coverage :: "pyfloat option"
  ti_branch_coverage :: "pyfloat option"
  ti_function_coverage :: "pyfloat option"
  ti_estimated_coverage :: "pyfloat option"

record component_counts =
  cc_name :: string
  cc_passed :: int
  cc_total :: int
  cc_covered_lines :: "int option"
  cc_total_lines :: "int option"
  cc_covered_branches :: "int option"
  cc_total_branches :: "int option"
  cc_covered_functions :: "int option"
  cc_total_functions :: "int option"

record tem_result =
  tr_score :: "pyfloat option"
  tr_formula :: string
  tr_pass_rate :: pyfloat
  tr_coverage_label :: string
  tr_coverage_shown :: "pyfloat option"
  tr_estimated :: bool
  tr_reason :: string

text \<open>The coverage input that feeds the factor, with its label and whether it is an estimate.\<close>

definition coverage_input ::
    "(rat \<Rightarrow> pyfloat) \<Rightarrow> tem_inputs \<Rightarrow> (pyfloat \<times> string \<times> pyfloat \<times> bool) option" where
  "coverage_input fl inputs =
     (let factor = (\<lambda>x. float_div fl (float_min (Fin COVERAGE_CAP) x) COVERAGE_CAP) in
      case ti_line_coverage inputs of
        Some l \<Rightarrow> Some (factor l, ''Line'', l, False)
      | None \<Rightarrow>
          (case ti_branch_coverage inputs of
             Some b \<Rightarrow> Some (factor (float_mul fl b (Fin BRANCH_TO_LINE)), ''Branch'', b, False)
           | None \<Rightarrow>
               (case ti_estimated_coverage inputs of
                  Some e \<Rightarrow> Some (factor e, ''Line'', e, True)
                | None \<Rightarrow> None)))"

definition no_score :: "pyfloat \<Rightarrow> string \<Rightarrow> pyfloat option \<Rightarrow> bool \<Rightarrow> string \<Rightarrow> tem_result" where
  "no_score pass_rate label shown estimated reason =
     \<lparr>tr_score = None, tr_formula = FORMULA_VERSION, tr_pass_rate = pass_rate,
      tr_coverage_label = label, tr_coverage_shown = shown, tr_estimated = estimated,
      tr_reason = reason\<rparr>"

definition invalid_counts :: "tem_inputs \<Rightarrow> bool" where
  "invalid_counts inputs =
     (ti_passed inputs < 0 \<or> ti_total inputs < 0 \<or> ti_passed inputs > ti_total inputs)"

definition pass_rate_of :: "(rat \<Rightarrow> pyfloat) \<Rightarrow> tem_inputs \<Rightarrow> pyfloat" where
  "pass_rate_of fl inputs =
     (if ti_total inputs = 0 then Fin 0 else int_div fl (ti_passed inputs) (ti_total inputs))"

definition raw_score :: "(rat \<Rightarrow> pyfloat) \<Rightarrow> pyfloat \<Rightarrow> pyfloat \<Rightarrow> pyfloat \<Rightarrow> pyfloat" where
  "raw_score fl factor functions pass_rate =
     float_mul fl (float_mul fl (float_mul fl factor (float_div fl functions 100)) pass_rate)
       (Fin MAX_SCORE)"

definition calculate ::
    "(rat \<Rightarrow> pyfloat) \<Rightarrow> (nat \<Rightarrow> rat \<Rightarrow> rat) \<Rightarrow> tem_inputs \<Rightarrow> tem_result" where
  "calculate fl rnd inputs =
     (if invalid_counts inputs
      then no_score (Fin 0) [] None False
        (''invalid test counts (passed='' @ show_int (ti_passed inputs) @ '', total=''
         @ show_int (ti_total inputs) @ '')'')
      else
        (let pass_rate = pass_rate_of fl inputs in
         case coverage_input fl inputs of
           None \<Rightarrow>
             no_score pass_rate [] None False
               (''no coverage evidence '' @ em_dash @ '' the score is not computed'')
         | Some (factor, label, shown, estimated) \<Rightarrow>
             (case ti_function_coverage inputs of
                None \<Rightarrow>
                  no_score pass_rate label (Some shown) estimated
                    (''function coverage was not measured '' @ em_dash @ '' the score is not computed'')
              | Some functions \<Rightarrow>
                  \<lparr>tr_score = Some (float_max (Fin 0) (float_min (Fin MAX_SCORE)
                       (float_round rnd (raw_score fl factor functions pass_rate) 2))),
                   tr_formula = FORMULA_VERSION, tr_pass_rate = float_round rnd pass_rate 4,
                   tr_coverage_label = label, tr_coverage_shown = Some shown,
                   tr_estimated = estimated, tr_reason = []\<rparr>)))"

section \<open>Merging components\<close>

definition sum_some :: "int option list \<Rightarrow> int" where
  "sum_some vs = sum_list (map the (filter (\<lambda>v. v \<noteq> None) vs))"

definition percent_of ::
    "(rat \<Rightarrow> pyfloat) \<Rightarrow> int option list \<Rightarrow> int option list \<Rightarrow> pyfloat option" where
  "percent_of fl covered totals =
     (if sum_some totals = 0 then None
      else Some (float_mul fl (int_div fl (sum_some covered) (sum_some totals)) (Fin 100)))"

definition has_counts :: "component_counts \<Rightarrow> bool" where
  "has_counts c = (cc_covered_lines c \<noteq> None \<or> cc_covered_branches c \<noteq> None)"

definition no_inputs :: tem_inputs where
  "no_inputs = \<lparr>ti_passed = 0, ti_total = 0, ti_line_coverage = None, ti_branch_coverage = None,
     ti_function_coverage = None, ti_estimated_coverage = None\<rparr>"

definition aggregate ::
    "(rat \<Rightarrow> pyfloat) \<Rightarrow> component_counts list \<Rightarrow> tem_inputs \<times> string list" where
  "aggregate fl components =
     (let mergeable = filter has_counts components;
          excluded = map cc_name (filter (\<lambda>c. \<not> has_counts c) components) in
      if mergeable = [] then (no_inputs, excluded)
      else
        (\<lparr>ti_passed = sum_list (map cc_passed mergeable),
          ti_total = sum_list (map cc_total mergeable),
          ti_line_coverage =
            percent_of fl (map cc_covered_lines mergeable) (map cc_total_lines mergeable),
          ti_branch_coverage =
            percent_of fl (map cc_covered_branches mergeable) (map cc_total_branches mergeable),
          ti_function_coverage =
            (if list_all (\<lambda>c. cc_covered_functions c \<noteq> None \<and> cc_total_functions c \<noteq> None) mergeable
             then percent_of fl (map cc_covered_functions mergeable) (map cc_total_functions mergeable)
             else None),
          ti_estimated_coverage = None\<rparr>, excluded))"

section \<open>Reading measurements\<close>

text \<open>\<open>task_id.split(marker, 1)[0]\<close> for a marker that occurs.\<close>

fun before :: "string \<Rightarrow> string \<Rightarrow> string" where
  "before marker [] = []"
| "before marker (c # cs) = (if startswith (c # cs) marker then [] else c # before marker cs)"

definition component_of :: "string \<Rightarrow> string" where
  "component_of task_id =
     (if contains task_id ''.python.'' then before ''.python.'' task_id
      else if contains task_id ''.cpp.'' then before ''.cpp.'' task_id
      else [])"

definition counted :: "measurement \<Rightarrow> bool" where
  "counted m = (m_denominator m \<noteq> None \<and> m_denominator m \<noteq> Some 0)"

definition is_cases :: "measurement \<Rightarrow> bool" where
  "is_cases m = (endswith (m_name m) ''.cases'' \<and> counted m)"

definition measured_percent :: "(rat \<Rightarrow> pyfloat) \<Rightarrow> measurement \<Rightarrow> pyfloat" where
  "measured_percent fl m =
     (case (m_numerator m, m_denominator m) of
        (Some n, Some d) \<Rightarrow>
          if d \<noteq> 0 then float_mul fl (int_div fl n d) (Fin 100) else m_value m
      | _ \<Rightarrow> m_value m)"

definition count_cases :: "measurement \<Rightarrow> int \<times> int" where
  "count_cases m =
     (case m_numerator m of None \<Rightarrow> 0 | Some n \<Rightarrow> n,
      case m_denominator m of None \<Rightarrow> 0 | Some d \<Rightarrow> d)"

definition read_input :: "(rat \<Rightarrow> pyfloat) \<Rightarrow> measurement \<Rightarrow> tem_inputs \<Rightarrow> tem_inputs" where
  "read_input fl m i =
     (if is_cases m
      then i\<lparr>ti_passed := ti_passed i + fst (count_cases m), ti_total := ti_total i + snd (count_cases m)\<rparr>
      else if m_name m \<in> {''coverage.lines'', ''coverage.cpp.lines''}
      then i\<lparr>ti_line_coverage := Some (measured_percent fl m)\<rparr>
      else if m_name m \<in> {''coverage.branches'', ''coverage.cpp.branches''}
      then i\<lparr>ti_branch_coverage := Some (measured_percent fl m)\<rparr>
      else if m_name m \<in> {''coverage.functions'', ''coverage.cpp.functions''}
      then i\<lparr>ti_function_coverage := Some (measured_percent fl m)\<rparr>
      else i)"

definition inputs_from :: "(rat \<Rightarrow> pyfloat) \<Rightarrow> measurement list \<Rightarrow> tem_inputs" where
  "inputs_from fl ms = fold (read_input fl) ms no_inputs"

definition read_counts :: "measurement \<Rightarrow> component_counts \<Rightarrow> component_counts" where
  "read_counts m c =
     (if is_cases m
      then c\<lparr>cc_passed := cc_passed c + fst (count_cases m), cc_total := cc_total c + snd (count_cases m)\<rparr>
      else if m_name m \<in> {''coverage.lines'', ''coverage.cpp.lines''}
      then c\<lparr>cc_covered_lines := m_numerator m, cc_total_lines := m_denominator m\<rparr>
      else if m_name m \<in> {''coverage.branches'', ''coverage.cpp.branches''}
      then c\<lparr>cc_covered_branches := m_numerator m, cc_total_branches := m_denominator m\<rparr>
      else if m_name m \<in> {''coverage.functions'', ''coverage.cpp.functions''}
      then c\<lparr>cc_covered_functions := m_numerator m, cc_total_functions := m_denominator m\<rparr>
      else c)"

definition counts_from :: "string \<Rightarrow> measurement list \<Rightarrow> component_counts" where
  "counts_from name ms = fold read_counts ms
     \<lparr>cc_name = name, cc_passed = 0, cc_total = 0, cc_covered_lines = None, cc_total_lines = None,
      cc_covered_branches = None, cc_total_branches = None, cc_covered_functions = None,
      cc_total_functions = None\<rparr>"

section \<open>What the score is\<close>

text \<open>
  However the arithmetic rounds, overflows or yields NaN, a score is a number between zero and
  five.  It is refused exactly when the counts are impossible or an input is missing.
\<close>

lemma clamp_bounds:
  "\<exists>q. float_max (Fin 0) (float_min (Fin MAX_SCORE) x) = Fin q \<and> 0 \<le> q \<and> q \<le> MAX_SCORE"
  by (cases x) (auto simp: float_max_def float_min_def MAX_SCORE_def)

definition covered :: "tem_inputs \<Rightarrow> bool" where
  "covered i \<longleftrightarrow> ti_line_coverage i \<noteq> None \<or> ti_branch_coverage i \<noteq> None \<or> ti_estimated_coverage i \<noteq> None"

definition scorable :: "tem_inputs \<Rightarrow> bool" where
  "scorable i \<longleftrightarrow> \<not> invalid_counts i \<and> covered i \<and> ti_function_coverage i \<noteq> None"

lemma coverage_input_None: "coverage_input fl i = None \<longleftrightarrow> \<not> covered i"
  by (auto simp: coverage_input_def covered_def Let_def split: option.splits)

lemma calculate_score:
  "tr_score (calculate fl rnd i) = Some x \<Longrightarrow> \<exists>q. x = Fin q \<and> 0 \<le> q \<and> q \<le> MAX_SCORE"
  using clamp_bounds
  by (auto simp: calculate_def no_score_def Let_def split: if_splits option.splits prod.splits)

lemma calculate_refuses:
  "tr_score (calculate fl rnd i) = None \<longleftrightarrow> \<not> scorable i"
  using coverage_input_None [of fl i]
  by (auto simp: scorable_def calculate_def no_score_def Let_def split: option.splits prod.splits)

lemma calculate_reason: "tr_score (calculate fl rnd i) = None \<longleftrightarrow> tr_reason (calculate fl rnd i) \<noteq> []"
  by (auto simp: calculate_def no_score_def Let_def split: option.splits prod.splits)

text \<open>A suite that did not run, or in which nothing passed, scores zero when its inputs are finite.\<close>

lemma int_div_zero: "fl 0 = Fin 0 \<Longrightarrow> int_div fl 0 b = Fin 0"
  by (simp add: int_div_def)

lemma float_mul_zero: "fl 0 = Fin 0 \<Longrightarrow> float_mul fl (Fin a) (Fin 0) = Fin 0"
  by simp

text \<open>
  An infinite percentage turns a suite in which nothing passed into a perfect score: the product
  is NaN, and \<open>min(5.0, nan)\<close> is \<open>5.0\<close>.
\<close>

lemma nan_scores_full:
  "float_max (Fin 0) (float_min (Fin MAX_SCORE) (float_round rnd NaN 2)) = Fin MAX_SCORE"
  by (simp add: float_min_def float_max_def MAX_SCORE_def)

text \<open>In exact arithmetic it is the documented formula.\<close>

lemma calculate_exact:
  assumes "ti_line_coverage i = Some (Fin l)" "ti_function_coverage i = Some (Fin f)"
    and "0 \<le> l" "0 \<le> f" "f \<le> 100" "0 \<le> ti_passed i" "ti_passed i \<le> ti_total i" "0 < ti_total i"
  shows "tr_score (calculate Fin (\<lambda>_ q. q) i) =
    Some (Fin (min 80 l / 80 * (f / 100) * (of_int (ti_passed i) / of_int (ti_total i)) * 5))"
proof -
  define p :: rat where "p = of_int (ti_passed i) / of_int (ti_total i)"
  have p: "0 \<le> p" "p \<le> 1" using assms(6-8) by (simp_all add: p_def divide_le_eq)
  define c where "c = min 80 l / 80 * (f / 100) * p"
  have part: "0 \<le> min 80 l / 80" "min 80 l / 80 \<le> 1" "0 \<le> f / 100" "f / 100 \<le> 1"
    using assms(3-5) by auto
  have two: "0 \<le> min 80 l / 80 * (f / 100)" "min 80 l / 80 * (f / 100) \<le> 1"
    by (rule mult_nonneg_nonneg [OF part(1,3)], rule mult_le_one [OF part(2,3,4)])
  have "0 \<le> c" "c \<le> 1"
    unfolding c_def by (rule mult_nonneg_nonneg [OF two(1) p(1)], rule mult_le_one [OF two(2) p])
  then have clamp: "float_max (Fin 0) (float_min (Fin MAX_SCORE) (Fin (c * 5))) = Fin (c * 5)"
    by (auto simp: float_max_def float_min_def MAX_SCORE_def)
  have cov: "coverage_input Fin i = Some (Fin (min 80 l / 80), ''Line'', Fin l, False)"
    using assms(1) by (simp add: coverage_input_def float_min_def COVERAGE_CAP_def min_def)
  have rate: "pass_rate_of Fin i = Fin p"
    using assms(8) by (simp add: pass_rate_of_def int_div_def p_def)
  have raw: "raw_score Fin (Fin (min 80 l / 80)) (Fin f) (Fin p) = Fin (c * 5)"
    by (simp only: raw_score_def float_div.simps float_mul.simps c_def MAX_SCORE_def)
  have valid: "\<not> invalid_counts i" using assms(6,7) by (simp add: invalid_counts_def)
  have "tr_score (calculate Fin (\<lambda>_ q. q) i) = Some (Fin (c * 5))"
    unfolding calculate_def Let_def rate cov assms(2)
    by (simp only: valid if_False option.case prod.case raw float_round.simps clamp tem_result.select_convs)
  then show ?thesis by (simp only: c_def p_def)
qed

end
