(* ===== verification/Report.thy ===== *)
theory Report
  imports Verify Tem
begin

text \<open>
  Assembling the storable result of a run (src/src/ici/application/report.py): the envelope filled
  from what the run observed, with the test-effectiveness scores of the components.
\<close>

section \<open>Scores of a run\<close>

text \<open>\<open>grouped.setdefault(component, []).extend(measurements)\<close> over the observations.\<close>

fun dict_extend :: "'k \<Rightarrow> 'v list \<Rightarrow> ('k \<times> 'v list) list \<Rightarrow> ('k \<times> 'v list) list" where
  "dict_extend k vs [] = [(k, vs)]"
| "dict_extend k vs ((k', ws) # d) =
     (if k' = k then (k', ws @ vs) # d else (k', ws) # dict_extend k vs d)"

definition grouped_measurements :: "observation list \<Rightarrow> (string \<times> measurement list) list" where
  "grouped_measurements obs =
     fold (\<lambda>ob d. dict_extend (component_of (ob_task_id ob)) (ob_measurements ob) d) obs []"

text \<open>\<open>Measurement(name=\<dots>, value=\<dots>, unit=\<dots>)\<close> with its defaults.\<close>

definition score_measurement :: "string \<Rightarrow> pyfloat \<Rightarrow> string \<Rightarrow> measurement result" where
  "score_measurement name value unit =
     Measurement_init (PStr name) (PFloat value) (PStr unit) PNone PNone MEASURED"

definition score_unit :: "tem_result \<Rightarrow> string" where
  "score_unit r =
     FORMULA_VERSION @ '' '' @ tr_coverage_label r @ (if tr_estimated r then '' est'' else [])"

record tem_scores =
  tm_metrics :: "measurement list"
  tm_notes :: "string list"
  tm_components :: "component_counts list"

text \<open>The body of the loop over the sorted groups.\<close>

definition score_component ::
    "(rat \<Rightarrow> pyfloat) \<Rightarrow> (nat \<Rightarrow> rat \<Rightarrow> rat) \<Rightarrow> string \<times> measurement list \<Rightarrow> tem_scores
     \<Rightarrow> tem_scores result" where
  "score_component fl rnd g sc =
     (let r = calculate fl rnd (inputs_from fl (snd g));
          label = or_else (fst g) ''workspace'' in
      case tr_score r of
        None \<Rightarrow>
          Inr (sc\<lparr>tm_notes := tm_notes sc @ [label @ '': TEM N/A '' @ em_dash @ '' '' @ tr_reason r]\<rparr>)
      | Some score \<Rightarrow>
          bindr (score_measurement (''tem.'' @ label) score (score_unit r)) (\<lambda>m.
          Inr (sc\<lparr>tm_metrics := tm_metrics sc @ [m],
                 tm_components := tm_components sc @ [counts_from label (snd g)]\<rparr>)))"

fun score_components ::
    "(rat \<Rightarrow> pyfloat) \<Rightarrow> (nat \<Rightarrow> rat \<Rightarrow> rat) \<Rightarrow> (string \<times> measurement list) list \<Rightarrow> tem_scores
     \<Rightarrow> tem_scores result" where
  "score_components fl rnd [] sc = Inr sc"
| "score_components fl rnd (g # gs) sc =
     bindr (score_component fl rnd g sc) (score_components fl rnd gs)"

definition score_workspace ::
    "(rat \<Rightarrow> pyfloat) \<Rightarrow> (nat \<Rightarrow> rat \<Rightarrow> rat) \<Rightarrow> tem_scores \<Rightarrow> tem_scores result" where
  "score_workspace fl rnd sc =
     (if length (tm_components sc) \<le> 1 then Inr sc
      else
        (let (merged, excluded) = aggregate fl (tm_components sc);
             r = calculate fl rnd merged;
             notes = tm_notes sc
               @ map (\<lambda>n. n @ '': excluded from workspace TEM '' @ em_dash @ '' no raw coverage counts'')
                   excluded in
         case tr_score r of
           None \<Rightarrow>
             Inr (sc\<lparr>tm_notes := notes @ [''workspace: TEM N/A '' @ em_dash @ '' '' @ tr_reason r]\<rparr>)
         | Some score \<Rightarrow>
             bindr (score_measurement ''tem.workspace'' score FORMULA_VERSION) (\<lambda>m.
             Inr (sc\<lparr>tm_metrics := tm_metrics sc @ [m], tm_notes := notes\<rparr>))))"

definition tem_metrics ::
    "(rat \<Rightarrow> pyfloat) \<Rightarrow> (nat \<Rightarrow> rat \<Rightarrow> rat) \<Rightarrow> observation list
     \<Rightarrow> (measurement list \<times> string list) result" where
  "tem_metrics fl rnd obs =
     bindr (score_components fl rnd (sort_key fst (grouped_measurements obs))
              \<lparr>tm_metrics = [], tm_notes = [], tm_components = []\<rparr>) (\<lambda>sc.
     bindr (score_workspace fl rnd sc) (\<lambda>sc'. Inr (tm_metrics sc', tm_notes sc')))"

section \<open>The result\<close>

text \<open>The arguments of \<open>assemble\<close> after the verification.\<close>

record run_facts =
  rf_run_id :: string
  rf_ici_version :: string
  rf_source :: source_snapshot
  rf_policy_digest :: string
  rf_toolchain_digest :: string
  rf_component_ids :: "string list"
  rf_languages :: "string list"
  rf_scope :: scope_kind
  rf_bundle_digest :: "string option"
  rf_required_components :: "string list option"
  rf_omitted_components :: "string list"
  rf_limitations :: "string list"
  rf_cancelled :: bool
  rf_baseline :: "baseline_comparison option"
  rf_checks :: "check_record list option"

definition tasks_in :: "task_state set \<Rightarrow> observation list \<Rightarrow> string list" where
  "tasks_in states obs = map ob_task_id (filter (\<lambda>ob. ob_state ob \<in> states) obs)"

definition reused_tasks :: "execution list \<Rightarrow> string list" where
  "reused_tasks xs =
     concat (map xe_consumers (filter (\<lambda>x. startswith (xe_detail x) ''cache hit'') xs))"

definition assemble ::
    "(rat \<Rightarrow> pyfloat) \<Rightarrow> (nat \<Rightarrow> rat \<Rightarrow> rat) \<Rightarrow> verification \<Rightarrow> run_facts \<Rightarrow> run_result result" where
  "assemble fl rnd v facts =
     bindr (tem_metrics fl rnd (vf_observations v)) (\<lambda>(scores, remarks).
     let blocked = tasks_in {BLOCKED, CANCELLED} (vf_observations v);
         failed = tasks_in {FAILED} (vf_observations v);
         full = (ga_selected (vf_gate v) \<noteq> INCOMPLETE) in
     bindr (Producer_init (PStr (rf_ici_version facts)) (opt_val PStr (rf_bundle_digest facts))) (\<lambda>pr.
     bindr (RunIdentity_init (rf_source facts) (PStr (rf_policy_digest facts))
              (PStr (rf_toolchain_digest facts)) (PStr FINGERPRINT_VERSION)) (\<lambda>ident.
     bindr (ScopeSelection_init (rf_scope facts) (strs (rf_component_ids facts))
              (strs (rf_languages facts))
              (strs (case rf_required_components facts of
                       None \<Rightarrow> rf_component_ids facts | Some required \<Rightarrow> required))
              (strs (rf_omitted_components facts)) (PBool (rf_scope facts = FULL \<and> full))) (\<lambda>scope.
     bindr (ExecutionSummary_init (PBool full) (PBool (rf_cancelled facts))
              (strs (if full then [] else blocked)) (strs failed)
              (strs (reused_tasks (vf_executions v)))) (\<lambda>execution.
     RunResult_init (PStr (rf_run_id facts)) pr ident scope execution (vf_gate v) (vf_findings v)
       (concat (map ob_measurements (vf_observations v)) @ scores) no_publication
       (strs (concat (map ob_limitations (vf_observations v)) @ rf_limitations facts @ remarks))
       (rf_baseline facts) (rf_checks facts) SCHEMA_ID (PInt SCHEMA_VERSION))))))"

section \<open>What is assembled\<close>

lemma score_measurement_ok: "score_measurement name x unit = Inr m \<Longrightarrow> measurement_ok m"
  by (simp add: score_measurement_def Measurement_init_iff)

lemma score_component_ok:
  "score_component fl rnd g sc = Inr sc' \<Longrightarrow> list_all measurement_ok (tm_metrics sc) \<Longrightarrow>
     list_all measurement_ok (tm_metrics sc')"
  by (auto simp: score_component_def Let_def bindr_Inr score_measurement_ok split: option.splits)

lemma score_components_ok:
  "score_components fl rnd gs sc = Inr sc' \<Longrightarrow> list_all measurement_ok (tm_metrics sc) \<Longrightarrow>
     list_all measurement_ok (tm_metrics sc')"
proof (induction gs arbitrary: sc)
  case (Cons g gs)
  then obtain sc1 where "score_component fl rnd g sc = Inr sc1" "score_components fl rnd gs sc1 = Inr sc'"
    by (auto simp: bindr_Inr)
  with Cons.IH Cons.prems(2) show ?case by (blast intro: score_component_ok)
qed simp

lemma score_workspace_ok:
  "score_workspace fl rnd sc = Inr sc' \<Longrightarrow> list_all measurement_ok (tm_metrics sc) \<Longrightarrow>
     list_all measurement_ok (tm_metrics sc')"
  by (auto simp: score_workspace_def Let_def bindr_Inr score_measurement_ok
      split: option.splits prod.splits if_splits)

lemma tem_metrics_ok:
  assumes "tem_metrics fl rnd obs = Inr (ms, notes)"
  shows "list_all measurement_ok ms"
  using assms by (auto simp: tem_metrics_def bindr_Inr dest!: score_components_ok score_workspace_ok)

text \<open>
  A result that is assembled is valid, so it can be stored and read back; it reports the gate, the
  findings and every limitation of the run.
\<close>

lemma assemble_Inr:
  assumes run: "assemble fl rnd v facts = Inr r"
    and obs: "list_all observation_ok (vf_observations v)" and fs: "list_all finding_ok (vf_findings v)"
    and gate: "gate_ok (vf_gate v)" and source: "snapshot_ok (rf_source facts)"
    and baseline: "opt_ok baseline_ok (rf_baseline facts)"
    and checks: "opt_ok (list_all check_record_ok) (rf_checks facts)"
  shows "run_result_ok r" "rr_gate r = vf_gate v" "rr_findings r = vf_findings v"
    "ex_required_complete (rr_execution r) \<longleftrightarrow> ga_selected (vf_gate v) \<noteq> INCOMPLETE"
    "ex_cancelled (rr_execution r) = rf_cancelled facts"
    "ob \<in> set (vf_observations v) \<Longrightarrow> set (ob_limitations ob) \<subseteq> set (rr_limitations r)"
proof -
  obtain scores remarks where tem: "tem_metrics fl rnd (vf_observations v) = Inr (scores, remarks)"
    using run by (cases "tem_metrics fl rnd (vf_observations v)") (auto simp: assemble_def)
  obtain pr ident scope execution where
    pr: "Producer_init (PStr (rf_ici_version facts)) (opt_val PStr (rf_bundle_digest facts)) = Inr pr"
    and ident: "RunIdentity_init (rf_source facts) (PStr (rf_policy_digest facts))
       (PStr (rf_toolchain_digest facts)) (PStr FINGERPRINT_VERSION) = Inr ident"
    and scope: "ScopeSelection_init (rf_scope facts) (strs (rf_component_ids facts))
       (strs (rf_languages facts))
       (strs (case rf_required_components facts of
                None \<Rightarrow> rf_component_ids facts | Some required \<Rightarrow> required))
       (strs (rf_omitted_components facts))
       (PBool (rf_scope facts = FULL \<and> ga_selected (vf_gate v) \<noteq> INCOMPLETE)) = Inr scope"
    and exec: "ExecutionSummary_init (PBool (ga_selected (vf_gate v) \<noteq> INCOMPLETE))
       (PBool (rf_cancelled facts))
       (strs (if ga_selected (vf_gate v) \<noteq> INCOMPLETE then []
              else tasks_in {BLOCKED, CANCELLED} (vf_observations v)))
       (strs (tasks_in {FAILED} (vf_observations v)))
       (strs (reused_tasks (vf_executions v))) = Inr execution"
    and made: "RunResult_init (PStr (rf_run_id facts)) pr ident scope execution (vf_gate v) (vf_findings v)
       (concat (map ob_measurements (vf_observations v)) @ scores) no_publication
       (strs (concat (map ob_limitations (vf_observations v)) @ rf_limitations facts @ remarks))
       (rf_baseline facts) (rf_checks facts) SCHEMA_ID (PInt SCHEMA_VERSION) = Inr r"
    using run unfolding assemble_def Let_def tem bindr.simps prod.case bindr_Inr by blast
  have pr: "producer_ok pr" using pr by (simp add: Producer_init_iff)
  have ident: "identity_fields_ok ident" "ri_source ident = rf_source facts"
    using ident by (simp_all add: RunIdentity_init_iff)
  have scope: "scope_ok scope" using scope by (simp add: ScopeSelection_init_iff)
  have exec: "execution_ok execution"
    "ex_required_complete execution \<longleftrightarrow> ga_selected (vf_gate v) \<noteq> INCOMPLETE"
    "ex_cancelled execution = rf_cancelled facts"
    using exec by (auto simp: ExecutionSummary_init_iff)
  have fields: "run_fields_ok r" "rr_producer r = pr" "rr_identity r = ident" "rr_scope r = scope"
    "rr_execution r = execution" "rr_gate r = vf_gate v" "rr_findings r = vf_findings v"
    "rr_metrics r = concat (map ob_measurements (vf_observations v)) @ scores"
    "rr_limitations r = concat (map ob_limitations (vf_observations v)) @ rf_limitations facts @ remarks"
    "rr_baseline r = rf_baseline facts" "rr_checks r = rf_checks facts"
    using made by (auto simp: RunResult_init_iff)
  show "run_result_ok r"
    using fields pr ident scope exec fs gate source baseline checks obs tem_metrics_ok [OF tem]
    by (auto simp: run_result_ok_def list_all_iff observation_ok_def)
  show "rr_gate r = vf_gate v" "rr_findings r = vf_findings v"
    "ex_required_complete (rr_execution r) \<longleftrightarrow> ga_selected (vf_gate v) \<noteq> INCOMPLETE"
    "ex_cancelled (rr_execution r) = rf_cancelled facts"
    using fields exec by simp_all
  show "set (ob_limitations ob) \<subseteq> set (rr_limitations r)" if "ob \<in> set (vf_observations v)"
    using that fields by auto
qed

text \<open>
  A cancellation that arrives once every required check has finished leaves a gate that is not
  incomplete, and the summary refuses it: nothing is assembled, so nothing is stored.
\<close>

lemma assemble_cancelled:
  assumes "rf_cancelled facts" "ga_selected (vf_gate v) \<noteq> INCOMPLETE"
  shows "\<exists>e. assemble fl rnd v facts = Inl e"
proof (cases "assemble fl rnd v facts")
  case (Inr r)
  then show ?thesis
    using assms
    by (auto simp: assemble_def bindr_Inr Let_def ExecutionSummary_init_iff execution_ok_def
        split: prod.splits)
qed auto

end
