(* ===== verification/Baseline.thy ===== *)
theory Baseline
  imports Round_Trips
begin

text \<open>
  Comparing a run with a stored one (src/src/ici/application/baseline.py).  The file's text and the
  JSON parser are arguments: what reading the file returned or raised, and what parsing its text
  returned or raised.
\<close>

section \<open>Reading a baseline\<close>

record baseline_document =
  bd_path :: string
  bd_policy_digest :: string
  bd_toolchain_digest :: string
  bd_fingerprint_version :: string
  bd_findings :: "finding list"
  bd_checks :: "check_record list option"

text \<open>The check of the raw findings: every item an object with a fingerprint that is not empty.\<close>

definition has_fingerprint :: "pyval \<Rightarrow> bool" where
  "has_fingerprint v = (case v of PDict d \<Rightarrow> truthy (py_get d ''fingerprint'') | _ \<Rightarrow> False)"

fun check_fingerprints :: "string \<Rightarrow> nat \<Rightarrow> pyval list \<Rightarrow> unit result" where
  "check_fingerprints path i [] = Inr ()"
| "check_fingerprints path i (v # vs) =
     raise_if (\<not> has_fingerprint v)
       (BaselineError ''baseline {} finding #{} has no fingerprint'' [path, show_nat i])
       (check_fingerprints path (Suc i) vs)"

text \<open>An \<open>except\<close> clause that turns the exceptions it names into a baseline error.\<close>

definition caught :: "(exn \<Rightarrow> bool) \<Rightarrow> string \<Rightarrow> string \<Rightarrow> 'a result \<Rightarrow> 'a result" where
  "caught covers template path m =
     (case m of
        Inr x \<Rightarrow> Inr x
      | Inl e \<Rightarrow> Inl (if covers e then BaselineError template [path, exn_text e] else e))"

fun is_os_error :: "exn \<Rightarrow> bool" where
  "is_os_error (OSErr _) = True"
| "is_os_error _ = False"

fun is_type_error :: "exn \<Rightarrow> bool" where
  "is_type_error (TypeErr _ _) = True"
| "is_type_error _ = False"

definition load_baseline ::
    "(string \<Rightarrow> pyval result) \<Rightarrow> string \<Rightarrow> string result \<Rightarrow> baseline_document result" where
  "load_baseline loads path file =
     bindr (caught is_os_error ''baseline {} cannot be read: {}'' path file) (\<lambda>raw.
     bindr (caught is_value_error ''baseline {} is not JSON: {}'' path (loads raw)) (\<lambda>payload.
     bindr (caught is_value_error ''baseline {} is not a result: {}'' path
              (require_mapping payload ''baseline document'')) (\<lambda>data.
     raise_if (py_get data ''schema_id'' \<noteq> PStr SCHEMA_ID)
       (BaselineError
          (''baseline {} is a {!r} document '' @ em_dash @ '' a baseline must be a stored {} result'')
          [path])
    (raise_if (\<not> (case py_get data ''identity'' of PDict _ \<Rightarrow> True | _ \<Rightarrow> False))
       (BaselineError
          (''baseline {} carries no identity '' @ em_dash @ '' cannot verify what it measured'')
          [path])
    (bindr (case py_get_default data ''findings'' (PList []) of
              PList vs \<Rightarrow> Inr vs
            | _ \<Rightarrow> Inl (BaselineError ''baseline {} findings must be a JSON array'' [path])) (\<lambda>vs.
     bindr (check_fingerprints path 0 vs) (\<lambda>_.
     bindr (caught (\<lambda>e. is_value_error e \<or> is_type_error e)
              ''baseline {} is not a valid result: {}'' path (run_result_from_dict (PDict data)))
       (\<lambda>r.
     Inr \<lparr>bd_path = path, bd_policy_digest = ri_policy_digest (rr_identity r),
          bd_toolchain_digest = ri_toolchain_digest (rr_identity r),
          bd_fingerprint_version = ri_fingerprint_version (rr_identity r),
          bd_findings = rr_findings r, bd_checks = rr_checks r\<rparr>))))))))"

text \<open>What a document offers is what the stored result said.\<close>

definition offered :: "string \<Rightarrow> run_result \<Rightarrow> baseline_document" where
  "offered path r =
     \<lparr>bd_path = path, bd_policy_digest = ri_policy_digest (rr_identity r),
      bd_toolchain_digest = ri_toolchain_digest (rr_identity r),
      bd_fingerprint_version = ri_fingerprint_version (rr_identity r),
      bd_findings = rr_findings r, bd_checks = rr_checks r\<rparr>"

lemma caught_Inr [result_iff]: "caught p t path m = Inr x \<longleftrightarrow> m = Inr x"
  by (cases m) (auto simp: caught_def)

lemma check_fingerprints_Inr [result_iff]:
  "check_fingerprints path i vs = Inr u \<longleftrightarrow> (\<forall>v \<in> set vs. has_fingerprint v)"
  by (induction path i vs rule: check_fingerprints.induct) (auto simp: result_iff)

lemma load_baseline_Inr:
  assumes "load_baseline loads path file = Inr d"
  obtains raw r where "file = Inr raw" "d = offered path r" "run_result_ok r"
proof -
  obtain raw payload data r where raw: "file = Inr raw"
    and d: "run_result_from_dict (PDict data) = Inr r" "Inr (offered path r) = (Inr d :: baseline_document result)"
    using assms unfolding load_baseline_def offered_def bindr_Inr raise_if_Inr caught_Inr by blast
  moreover have "d = offered path r" using d(2) by simp
  moreover have "run_result_ok r" by (rule run_result_read_ok [OF d(1)])
  ultimately show thesis by (intro that)
qed

section \<open>The delta\<close>

definition incompatible :: "string \<Rightarrow> string \<Rightarrow> baseline_comparison result" where
  "incompatible path reason =
     BaselineComparison_init INCOMPATIBLE (PStr path) (PStr reason) (strs []) (strs []) (strs [])
       (strs [])"

definition fingerprints :: "finding list \<Rightarrow> string list" where
  "fingerprints fs = map f_fingerprint fs"

definition completed_keys ::
    "check_record list
     \<Rightarrow> (string \<times> string \<times> string \<times> string \<times> string \<times> string option \<times> string option) set" where
  "completed_keys checks = comparison_key ` set (filter cr_evidence_complete checks)"

text \<open>\<open>{item.task_id: item for item in baseline.checks}\<close>, asked for a finding's task.\<close>

definition old_record :: "check_record list \<Rightarrow> finding \<Rightarrow> check_record option" where
  "old_record checks f =
     (case f_task_id f of
        None \<Rightarrow> None
      | Some i \<Rightarrow> map_of (fold (\<lambda>c d. dict_set (cr_task_id c) c d) checks []) i)"

text \<open>A finding that is gone, and whose check completed again over the same input scope.\<close>

definition is_resolved :: "string list \<Rightarrow> check_record list \<Rightarrow> check_record list \<Rightarrow> finding \<Rightarrow> bool" where
  "is_resolved current old checks f =
     (f_fingerprint f \<notin> set current \<and>
      (case old_record old f of
         None \<Rightarrow> False
       | Some c \<Rightarrow> Some (cr_component_id c) = f_component_id f
           \<and> comparison_key c \<in> completed_keys checks))"

text \<open>The four reasons for refusing a comparison.\<close>

definition version_changed :: string where
  "version_changed =
     ''the baseline was written under a different fingerprint normalization '' @ em_dash
     @ '' accept the current run as the new baseline instead of comparing across the change''"

definition policy_changed :: string where
  "policy_changed =
     ''policy changed since the baseline '' @ em_dash
     @ '' accept the current run as the new baseline instead of comparing across the change''"

definition toolchain_changed :: string where
  "toolchain_changed =
     ''the provider toolchain changed since the baseline '' @ em_dash
     @ '' findings from different tool versions are not the same identity''"

definition scope_unknown :: string where
  "scope_unknown =
     ''completed check scope is unknown '' @ em_dash
     @ '' accept a new v2 result as the baseline; older results remain readable but cannot prove resolutions''"

lemma reasons_nonempty [simp]:
  "version_changed \<noteq> []" "policy_changed \<noteq> []" "toolchain_changed \<noteq> []" "scope_unknown \<noteq> []"
  by (simp_all add: version_changed_def policy_changed_def toolchain_changed_def scope_unknown_def)

definition compare ::
    "finding list \<Rightarrow> baseline_document \<Rightarrow> string \<Rightarrow> string \<Rightarrow> check_record list option
     \<Rightarrow> baseline_comparison result" where
  "compare findings baseline policy_digest toolchain_digest checks =
     (if bd_fingerprint_version baseline \<noteq> FINGERPRINT_VERSION
      then incompatible (bd_path baseline) version_changed
      else if bd_policy_digest baseline \<noteq> policy_digest
      then incompatible (bd_path baseline) policy_changed
      else if bd_toolchain_digest baseline \<noteq> toolchain_digest
      then incompatible (bd_path baseline) toolchain_changed
      else
        (case (bd_checks baseline, checks) of
           (Some old, Some now) \<Rightarrow>
             (let current = fingerprints findings;
                  previous = fingerprints (bd_findings baseline);
                  resolved = fingerprints (filter (is_resolved current old now) (bd_findings baseline)) in
              BaselineComparison_init COMPARABLE (PStr (bd_path baseline)) (PStr [])
                (strs (sorted_set (filter (\<lambda>x. x \<notin> set previous) current)))
                (strs (sorted_set (filter (\<lambda>x. x \<in> set previous) current)))
                (strs (sorted_set resolved))
                (strs (sorted_set (filter (\<lambda>x. x \<notin> set current \<and> x \<notin> set resolved) previous))))
         | _ \<Rightarrow> incompatible (bd_path baseline) scope_unknown))"

section \<open>What a comparison says\<close>

definition same_measure ::
    "baseline_document \<Rightarrow> string \<Rightarrow> string \<Rightarrow> check_record list option \<Rightarrow> bool" where
  "same_measure b policy toolchain checks \<longleftrightarrow>
     bd_fingerprint_version b = FINGERPRINT_VERSION \<and> bd_policy_digest b = policy
     \<and> bd_toolchain_digest b = toolchain \<and> bd_checks b \<noteq> None \<and> checks \<noteq> None"

lemma incompatible_Inr:
  "\<exists>c. incompatible path reason = Inr c \<and> bc_state c = INCOMPATIBLE \<and> bc_reason c = reason
     \<and> bc_new c = [] \<and> bc_unchanged c = [] \<and> bc_resolved c = [] \<and> bc_carried c = []"
  by (simp add: incompatible_def BaselineComparison_init_def result_eval raise_if_def)

text \<open>Runs that did not measure the same thing are refused, with a reason and no delta.\<close>

lemma compare_refuses:
  assumes "\<not> same_measure b policy toolchain checks"
  shows "\<exists>c. compare findings b policy toolchain checks = Inr c \<and> bc_state c = INCOMPATIBLE
    \<and> bc_reason c \<noteq> [] \<and> bc_new c = [] \<and> bc_unchanged c = [] \<and> bc_resolved c = [] \<and> bc_carried c = []"
proof -
  define P where "P m \<longleftrightarrow> (\<exists>reason. reason \<noteq> [] \<and> m = incompatible (bd_path b) reason)" for m
  have refused: "reason \<noteq> [] \<Longrightarrow> P (incompatible (bd_path b) reason)" for reason
    unfolding P_def by blast
  have "P (compare findings b policy toolchain checks)"
    using assms by (cases "bd_checks b"; cases checks)
      (simp_all add: refused same_measure_def compare_def)
  then show ?thesis unfolding P_def using incompatible_Inr [of "bd_path b"] by metis
qed

definition delta_of ::
    "finding list \<Rightarrow> baseline_document \<Rightarrow> check_record list \<Rightarrow> check_record list
     \<Rightarrow> baseline_comparison" where
  "delta_of findings b old now =
     (let current = fingerprints findings; previous = fingerprints (bd_findings b);
          resolved = fingerprints (filter (is_resolved current old now) (bd_findings b)) in
      \<lparr>bc_state = COMPARABLE, bc_origin = bd_path b, bc_reason = [],
       bc_new = sorted_set (filter (\<lambda>x. x \<notin> set previous) current),
       bc_unchanged = sorted_set (filter (\<lambda>x. x \<in> set previous) current),
       bc_resolved = sorted_set resolved,
       bc_carried =
         sorted_set (filter (\<lambda>x. x \<notin> set current \<and> x \<notin> set resolved) previous)\<rparr>)"

lemma compare_delta:
  assumes "same_measure b policy toolchain (Some now)" "bd_checks b = Some old"
    and "\<forall>f \<in> set findings. text_ok (f_fingerprint f)"
      "\<forall>f \<in> set (bd_findings b). text_ok (f_fingerprint f)"
  shows "compare findings b policy toolchain (Some now) = Inr (delta_of findings b old now)"
proof -
  have "baseline_ok (delta_of findings b old now)"
    using assms(3,4) by (auto simp: baseline_ok_def delta_of_def Let_def list_all_iff fingerprints_def)
  then show ?thesis
    using assms(1,2)
    by (simp add: compare_def same_measure_def BaselineComparison_init_iff delta_of_def Let_def)
qed

text \<open>
  The four parts are the sorted partition of what either run reported: the current fingerprints
  are new or unchanged, the previous ones unchanged, resolved or carried.
\<close>

lemma delta_parts:
  fixes findings b old now
  defines "c \<equiv> delta_of findings b old now"
  shows "set (bc_new c) = set (fingerprints findings) - set (fingerprints (bd_findings b))"
    "set (bc_unchanged c) = set (fingerprints findings) \<inter> set (fingerprints (bd_findings b))"
    "set (bc_resolved c) = f_fingerprint `
        {f \<in> set (bd_findings b). is_resolved (fingerprints findings) old now f}"
    "set (bc_carried c) =
        set (fingerprints (bd_findings b)) - set (fingerprints findings) - set (bc_resolved c)"
    "sorted (bc_new c) \<and> sorted (bc_unchanged c) \<and> sorted (bc_resolved c) \<and> sorted (bc_carried c)"
  by (auto simp: c_def delta_of_def Let_def fingerprints_def)

lemma resolved_gone:
  "set (bc_resolved (delta_of findings b old now))
     \<subseteq> set (fingerprints (bd_findings b)) - set (fingerprints findings)"
  unfolding delta_parts(3) by (auto simp: fingerprints_def is_resolved_def)

lemma delta_distinct:
  fixes findings b old now
  defines "c \<equiv> delta_of findings b old now"
  shows "distinct (bc_new c @ bc_unchanged c @ bc_resolved c @ bc_carried c)"
proof -
  have "distinct (bc_new c) \<and> distinct (bc_unchanged c) \<and> distinct (bc_resolved c)
      \<and> distinct (bc_carried c)"
    by (simp add: c_def delta_of_def Let_def)
  then show ?thesis
    using resolved_gone [of findings b old now]
    unfolding c_def distinct_append set_append delta_parts(1,2,4) by blast
qed

text \<open>Every comparison is a refusal, which resolves nothing, or the delta of two check lists.\<close>

lemma compare_resolved:
  assumes "compare findings b policy toolchain checks = Inr c" "x \<in> set (bc_resolved c)"
  obtains old now f where "bd_checks b = Some old" "checks = Some now" "f \<in> set (bd_findings b)"
    "f_fingerprint f = x" "is_resolved (fingerprints findings) old now f"
proof (cases "same_measure b policy toolchain checks")
  case False
  then show thesis using compare_refuses [of b policy toolchain checks findings] assms by auto
next
  case True
  then obtain old now where some: "bd_checks b = Some old" "checks = Some now"
    by (auto simp: same_measure_def)
  with True assms(1) have "sorted_set
      (fingerprints (filter (is_resolved (fingerprints findings) old now) (bd_findings b))) = bc_resolved c"
    by (simp add: compare_def same_measure_def Let_def BaselineComparison_init_iff)
  then have "set (fingerprints (filter (is_resolved (fingerprints findings) old now) (bd_findings b)))
      = set (bc_resolved c)" by (metis set_sorted_set)
  with assms(2) have "x \<in> f_fingerprint ` {f \<in> set (bd_findings b). is_resolved (fingerprints findings) old now f}"
    by (simp add: fingerprints_def)
  then obtain f where "f \<in> set (bd_findings b)" "f_fingerprint f = x"
    "is_resolved (fingerprints findings) old now f" by blast
  with some show thesis by (rule that)
qed

lemma old_record_Some:
  assumes "old_record old f = Some c"
  shows "c \<in> set old" "f_task_id f = Some (cr_task_id c)"
proof -
  have inv: "map_of (fold (\<lambda>c d. dict_set (cr_task_id c) c d) old d) i = Some c \<Longrightarrow>
      map_of d i = Some c \<or> (c \<in> set old \<and> cr_task_id c = i)" for d i
  proof (induction old arbitrary: d)
    case (Cons x old)
    from Cons.IH [of "dict_set (cr_task_id x) x d"] Cons.prems show ?case
      by (auto split: if_splits)
  qed simp
  show "c \<in> set old" "f_task_id f = Some (cr_task_id c)"
    using assms inv [of "[]"] by (auto simp: old_record_def split: option.splits)
qed

text \<open>
  A resolved finding had a check in the old run, in its own component, and that check completed
  again: the same task, check, component, language, input scope, unit and variant.
\<close>

lemma is_resolved_iff:
  assumes "is_resolved current old now f"
  obtains c c' where "c \<in> set old" "c' \<in> set now" "f_task_id f = Some (cr_task_id c)"
    "f_component_id f = Some (cr_component_id c)" "cr_evidence_complete c'"
    "comparison_key c' = comparison_key c"
proof -
  obtain c where c: "old_record old f = Some c" "Some (cr_component_id c) = f_component_id f"
    "comparison_key c \<in> completed_keys now"
    using assms by (auto simp: is_resolved_def split: option.splits)
  moreover obtain c' where "c' \<in> set now" "cr_evidence_complete c'" "comparison_key c' = comparison_key c"
    using c(3) by (auto simp: completed_keys_def)
  ultimately show thesis using old_record_Some [OF c(1)] by (intro that [of c c']) auto
qed

section \<open>A stored run as its own baseline\<close>

context transport
begin

lemma finding_has_fingerprint: "finding_ok f \<Longrightarrow> has_fingerprint (h (finding_to_dict f))"
  by (simp add: has_fingerprint_def finding_to_dict_def h_dict py_get_def get_fields get_simps scalar
      finding_ok_def finding_fields_ok_def text_ok_def)

lemma load_stored:
  assumes ok: "run_result_ok r" and loads: "loads text = Inr (h (run_result_to_dict r))"
  shows "load_baseline loads path (Inr text) = Inr (offered path (wire_run_result r))"
proof -
  obtain d where d: "run_result_to_dict r = PDict d"
    "map_of d ''schema_id'' = Some (PStr SCHEMA_ID)"
    "map_of d ''identity'' = Some (identity_to_dict (rr_identity r))"
    "map_of d ''findings'' = Some (PList (map finding_to_dict (rr_findings r)))"
    using ok by (simp add: run_result_to_dict_def run_result_ok_def run_fields_ok_def)
  have again: "run_result_from_dict (PDict (fields d)) = Inr (wire_run_result r)"
    using run_result_round [OF ok] by (simp add: d(1) h_dict)
  have "py_get (fields d) ''schema_id'' = PStr SCHEMA_ID"
    "py_get_default (fields d) ''findings'' (PList []) = PList (map (h \<circ> finding_to_dict) (rr_findings r))"
    by (simp_all add: py_get_def py_get_default_def map_of_fields d scalar array)
  moreover have "\<exists>i. py_get (fields d) ''identity'' = PDict i"
    by (simp add: py_get_def py_get_default_def map_of_fields d identity_to_dict_def h_dict)
  moreover have "\<forall>v \<in> set (map (h \<circ> finding_to_dict) (rr_findings r)). has_fingerprint v"
    using ok by (auto simp: run_result_ok_def list_all_iff finding_has_fingerprint)
  then have "check_fingerprints path 0 (map (h \<circ> finding_to_dict) (rr_findings r)) = Inr ()"
    by (simp only: check_fingerprints_Inr)
  ultimately show ?thesis
    using again by (auto simp: load_baseline_def caught_def loads d(1) h_dict offered_def)
qed

end

text \<open>Compared with itself, a run reports nothing new, nothing resolved and nothing carried.\<close>

lemma wire_fingerprints [simp]: "fingerprints (map wire_finding fs) = fingerprints fs"
  by (simp add: fingerprints_def wire_finding_def)

lemma self_delta:
  assumes "fingerprints findings = fingerprints (bd_findings b)"
  shows "bc_new (delta_of findings b old now) = [] \<and> bc_resolved (delta_of findings b old now) = []
    \<and> bc_carried (delta_of findings b old now) = []
    \<and> set (bc_unchanged (delta_of findings b old now)) = set (fingerprints findings)"
proof -
  have resolved: "set (bc_resolved (delta_of findings b old now)) = {}"
    using resolved_gone [of findings b old now] assms by auto
  then have "set (bc_carried (delta_of findings b old now)) = {}"
    "set (bc_new (delta_of findings b old now)) = {}"
    by (simp_all add: delta_parts assms)
  with resolved show ?thesis by (simp add: delta_parts(2) assms)
qed

lemma compare_with_itself:
  assumes ok: "run_result_ok r" and checks: "rr_checks r = Some cs"
    and version: "ri_fingerprint_version (rr_identity r) = FINGERPRINT_VERSION"
  shows "\<exists>c. compare (rr_findings r) (offered path (wire_run_result r))
      (ri_policy_digest (rr_identity r)) (ri_toolchain_digest (rr_identity r)) (rr_checks r) = Inr c
    \<and> bc_state c = COMPARABLE \<and> bc_new c = [] \<and> bc_resolved c = [] \<and> bc_carried c = []
    \<and> set (bc_unchanged c) = set (fingerprints (rr_findings r))"
proof -
  let ?b = "offered path (wire_run_result r)"
  have fps: "fingerprints (rr_findings r) = fingerprints (bd_findings ?b)"
    by (simp add: offered_def wire_run_result_def)
  have texts: "\<forall>f \<in> set (rr_findings r). text_ok (f_fingerprint f)"
    using ok by (auto simp: run_result_ok_def list_all_iff finding_ok_def finding_fields_ok_def)
  then have "\<forall>f \<in> set (bd_findings ?b). text_ok (f_fingerprint f)"
    by (simp add: offered_def wire_run_result_def wire_finding_def)
  with texts have "compare (rr_findings r) ?b (ri_policy_digest (rr_identity r))
      (ri_toolchain_digest (rr_identity r)) (Some cs) = Inr (delta_of (rr_findings r) ?b cs cs)"
    by (intro compare_delta)
      (simp_all add: same_measure_def offered_def wire_run_result_def version checks)
  moreover have "bc_state (delta_of (rr_findings r) ?b cs cs) = COMPARABLE"
    by (simp add: delta_of_def Let_def)
  ultimately show ?thesis using self_delta [OF fps] checks by simp
qed

end
