(* ===== verification/Representation.thy ===== *)
theory Representation
  imports Attribution
begin

text \<open>
  \<open>repr\<close> of strings and tuples of strings, as messages and keys use it.  Which code points are
  printable is the table \<open>printable\<close> of the interpreter.
\<close>

definition hex_digits :: "nat \<Rightarrow> nat \<Rightarrow> string" where
  "hex_digits width n = map (\<lambda>i. hex_digit (n div 16 ^ (width - 1 - i) mod 16)) [0..<width]"

definition repr_point :: "(string \<Rightarrow> bool) \<Rightarrow> char \<Rightarrow> string \<Rightarrow> string" where
  "repr_point printable quote p =
     (let n = code_point p in
      if p = [quote] \<or> p = [CHR 0x5C] then CHR 0x5C # p
      else if n = 10 then CHR 0x5C # ''n''
      else if n = 13 then CHR 0x5C # ''r''
      else if n = 9 then CHR 0x5C # ''t''
      else if printable p then p
      else if n < 256 then CHR 0x5C # ''x'' @ hex_digits 2 n
      else if n < 65536 then CHR 0x5C # ''u'' @ hex_digits 4 n
      else CHR 0x5C # ''U'' @ hex_digits 8 n)"

definition repr_str :: "(string \<Rightarrow> bool) \<Rightarrow> string \<Rightarrow> string" where
  "repr_str printable s =
     (let quote = (if CHR 0x27 \<in> set s \<and> CHR 0x22 \<notin> set s then CHR 0x22 else CHR 0x27) in
      quote # concat (map (repr_point printable quote) (code_points s)) @ [quote])"

definition repr_tuple :: "string list \<Rightarrow> string" where
  "repr_tuple parts =
     (case parts of [x] \<Rightarrow> ''('' @ x @ '',)'' | _ \<Rightarrow> ''('' @ join '', '' parts @ '')'')"

definition repr_strs :: "(string \<Rightarrow> bool) \<Rightarrow> string list \<Rightarrow> string" where
  "repr_strs printable ss = repr_tuple (map (repr_str printable) ss)"

end
