(* ===== verification/Identity.thy ===== *)
theory Identity
  imports Graph Representation
begin

text \<open>
  The cache key of a unit, or why it has none (src/src/ici/application/identity.py).  The text
  that is hashed is modelled, with the \<open>repr\<close> of the share key.
\<close>

section \<open>The representation of a key\<close>

fun repr_share_key :: "(string \<Rightarrow> bool) \<Rightarrow> share_key \<Rightarrow> string" where
  "repr_share_key printable (provider, kind, argv, cwd, overlay, refs, digest, requires) =
     repr_tuple
       [repr_str printable provider, repr_str printable kind, repr_strs printable argv,
        repr_str printable cwd,
        repr_tuple (map (\<lambda>(k, v). repr_strs printable [k, v]) overlay),
        repr_strs printable refs,
        (case digest of None \<Rightarrow> ''None'' | Some d \<Rightarrow> repr_str printable d),
        repr_strs printable requires]"

section \<open>The key\<close>

definition OBSERVATION_VERSION :: string where
  "OBSERVATION_VERSION = ''ici.next.observation.v2''"

definition NUL :: char where
  "NUL = CHR 0x00"

definition identity_text ::
    "(string \<Rightarrow> bool) \<Rightarrow> task_spec \<Rightarrow> (string \<times> string) list \<Rightarrow> string \<Rightarrow> string \<Rightarrow> string" where
  "identity_text printable t digests tool policy =
     OBSERVATION_VERSION @ [NUL] @ FINGERPRINT_VERSION @ [NUL]
     @ repr_share_key printable (share_key t)
     @ concat (map (\<lambda>(path, digest). path @ [NUL] @ digest @ [NUL]) digests)
     @ tool @ policy"

definition task_identity ::
    "(string \<Rightarrow> bool) \<Rightarrow> (string \<Rightarrow> string) \<Rightarrow> work_unit \<Rightarrow> (string \<times> string) list option
     \<Rightarrow> string option \<Rightarrow> string \<Rightarrow> string option \<times> string" where
  "task_identity printable sha u input_digests tool_digest policy_digest =
     (case wu_plan u of
        None \<Rightarrow> (None, ''internal checks run in-process; there is nothing to cache'')
      | Some plan \<Rightarrow>
          (let t = pp_task plan in
           if wu_internal u
           then (None, ''internal checks run in-process; there is nothing to cache'')
           else if ts_kind t = TEST
           then (None, ''test evidence is per-run and is never persisted'')
           else if \<not> ts_cacheable t
           then
             (if ts_provider t \<in> {''ruff'', ''mypy'', ''ty''}
              then (None, ts_provider t @ '' is not cacheable: automatic configuration/import inputs are not fully captured'')
              else (None, task_kind_value (ts_kind t) @ '' tasks are not cacheable''))
           else if ts_input_refs t = []
           then (None, ''the provider did not declare its inputs; reuse stays off'')
           else
             (case input_digests of
                None \<Rightarrow> (None, ''a declared input could not be read; reuse stays off'')
              | Some digests \<Rightarrow>
                  (case tool_digest of
                     None \<Rightarrow> (None, ''the tool is not content-addressable; reuse stays off'')
                   | Some tool \<Rightarrow>
                       (Some (''sha256:'' @ sha (identity_text printable t digests tool policy_digest)),
                        [])))))"

text \<open>
  A key exists exactly for a cacheable task that is not a test, whose inputs are declared and were
  all measured and whose tool was; otherwise a reason is given.
\<close>

definition keyed :: "work_unit \<Rightarrow> (string \<times> string) list option \<Rightarrow> string option \<Rightarrow> bool" where
  "keyed u input_digests tool_digest \<longleftrightarrow>
     \<not> wu_internal u \<and> input_digests \<noteq> None \<and> tool_digest \<noteq> None \<and>
     (\<exists>p. wu_plan u = Some p \<and> ts_kind (pp_task p) \<noteq> TEST \<and> ts_cacheable (pp_task p)
        \<and> ts_input_refs (pp_task p) \<noteq> [])"

lemma task_identity_keyed:
  "fst (task_identity printable sha u digests tool policy) \<noteq> None \<longleftrightarrow> keyed u digests tool"
  by (auto simp: task_identity_def keyed_def Let_def split: option.splits)

lemma task_identity_reason:
  "snd (task_identity printable sha u digests tool policy) = [] \<longleftrightarrow> keyed u digests tool"
  by (auto simp: task_identity_def keyed_def Let_def split: option.splits)

end
