(* ===== verification/Verdict_Samples.thy ===== *)
theory Verdict_Samples
  imports Run_Samples Request Report Baseline Identity
begin

text \<open>
  The small run of theory \<open>Run_Samples\<close> judged: a plan of two checks whose lint reports one
  finding, with and without a suppression, and the records a comparison and a report need.
\<close>

definition sample_plans :: "plan list" where
  "sample_plans = [\<lparr>pl_checks = [lint_check, prepare_check]\<rparr>]"

definition finding_context :: "observation_cache run_context" where
  "finding_context = sample_context
     \<lparr>rc_analyses := (\<lambda>i. Some (Inr ((sample_answer i)
        \<lparr>ob_findings := (if i = ''lint'' then [sample_finding] else [])\<rparr>)))\<rparr>"

definition sample_components :: "(string \<times> string) list" where
  "sample_components = [(''lint'', ''app''), (''prepare'', ''app'')]"

definition sample_suppressions :: "eff_suppression list" where
  "sample_suppressions =
     [\<lparr>es_fingerprint = [], es_rule = ''py.lint'', es_path = ''src/*.py'', es_component = ''app'',
       es_reason = ''generated'', es_declared_in = ''ici.toml''\<rparr>]"

lemma sample_plans_input [simp]: "graph_input_ok (all_checks sample_plans)"
  by (simp add: graph_input_ok_def sample_plans_def all_checks_def lint_check_def prepare_check_def
      sample_planned_def)

definition attributed_finding :: finding where
  "attributed_finding = sample_finding\<lparr>f_fingerprint := ''sha256:sha'', f_task_id := Some ''lint''\<rparr>"

definition lint_answer :: observation where
  "lint_answer = (sample_answer ''lint'')\<lparr>ob_findings := [attributed_finding]\<rparr>"

definition failing_run :: verification where
  "failing_run =
     \<lparr>vf_gate = \<lparr>ga_selected = FAIL, ga_workspace = NOT_EVALUATED, ga_has_violations = True,
        ga_reasons = [''1 violation(s) found'']\<rparr>,
      vf_observations = [lint_answer, sample_answer ''prepare''],
      vf_findings = [attributed_finding], vf_executions = sd_executions sample_scheduled\<rparr>"

definition passing_run :: verification where
  "passing_run = failing_run
     \<lparr>vf_gate := \<lparr>ga_selected = PASS, ga_workspace = NOT_EVALUATED, ga_has_violations = False,
        ga_reasons = []\<rparr>,
      vf_findings := [attributed_finding\<lparr>f_suppression := \<lparr>su_suppressed = True,
        su_kind = ''config'', su_reason = ''generated'', su_origin = ''ici.toml''\<rparr>\<rparr>]\<rparr>"

lemma failing_verify:
  "verify plain_sha finding_context None sample_plans [] sample_components = Inr (failing_run, None)"
  by code_simp

lemma passing_verify:
  "verify plain_sha finding_context None sample_plans sample_suppressions sample_components
     = Inr (passing_run, None)"
  by code_simp

definition sample_facts :: run_facts where
  "sample_facts =
     \<lparr>rf_run_id = ''run-1'', rf_ici_version = ''1.0'', rf_source = ri_source (rr_identity sample_run),
      rf_policy_digest = sample_digest, rf_toolchain_digest = sample_digest,
      rf_component_ids = [''app''], rf_languages = [''cpp''], rf_scope = PARTIAL,
      rf_bundle_digest = None, rf_required_components = None, rf_omitted_components = [],
      rf_limitations = [], rf_cancelled = False, rf_baseline = None,
      rf_checks = rr_checks sample_run\<rparr>"

definition assembled_run :: run_result where
  "assembled_run = sample_run
     \<lparr>rr_scope := (rr_scope sample_run)\<lparr>sc_selected_languages := [''cpp'']\<rparr>,
      rr_gate := vf_gate passing_run, rr_findings := vf_findings passing_run,
      rr_limitations := [''workspace: TEM N/A '' @ em_dash @ '' no coverage evidence '' @ em_dash
        @ '' the score is not computed'']\<rparr>"

lemma sample_assembled: "assemble Fin (\<lambda>n q. q) passing_run sample_facts = Inr assembled_run"
  by code_simp

lemma passing_parts:
  "list_all observation_ok (vf_observations passing_run)" "list_all finding_ok (vf_findings passing_run)"
  "gate_ok (vf_gate passing_run)" "snapshot_ok (rf_source sample_facts)"
  "opt_ok baseline_ok (rf_baseline sample_facts)"
  "opt_ok (list_all check_record_ok) (rf_checks sample_facts)"
  by code_simp+

text \<open>A request for the Python checks of the sample workspace.\<close>

definition python_request :: run_request where
  "python_request = \<lparr>rq_components = [], rq_languages = [''python''], rq_profile = None,
     rq_require_full = True, rq_static_only = False\<rparr>"

end
