(* ===== verification/Verdict_Properties.thy ===== *)
theory Verdict_Properties
  imports Verdict_Samples Domain_Properties
begin

text \<open>
  The properties of the verdict, of suppressions, of the coverage a request must have, of the
  comparison with a baseline and of the stored report, with their witnesses on the runs of theory
  \<open>Verdict_Samples\<close>.
\<close>

section \<open>The gate\<close>

text \<open>C2: The gate asks its questions in order: incomplete when some required check did not deliver
  complete evidence, otherwise failing when a blocking finding was reported, otherwise passing;
  and whether there are violations is answered either way.\<close>

theorem verdict_order:
  assumes "verify sha cx store plans decl tc = Inr (v, store')" "graph_input_ok (all_checks plans)"
  shows "ga_selected (vf_gate v) =
      (if unfinished (all_checks plans) (vf_observations v) then INCOMPLETE
       else if \<exists>f \<in> set (vf_findings v). blocks_gate (all_checks plans) (vf_observations v) f then FAIL
       else PASS)
    \<and> (ga_has_violations (vf_gate v) \<longleftrightarrow>
        (\<exists>f \<in> set (vf_findings v). blocks_gate (all_checks plans) (vf_observations v) f))"
proof -
  obtain g s where v: "verdict sha (all_checks plans) decl tc s = Inr v"
    and ids: "distinct (map ob_task_id (sd_observations s))"
    by (rule verify_Inr [OF assms])
  show ?thesis
    using verdict_Inr(4) [OF v assms(2) ids] verdict_Inr(5) [OF v assms(2) ids] by blast
qed

theorem verdict_order_witness: "ga_selected (vf_gate failing_run) = FAIL"
proof -
  have "ga_has_violations (vf_gate failing_run)" by (simp add: failing_run_def)
  moreover have "\<not> unfinished (all_checks sample_plans) (vf_observations failing_run)"
    by code_simp
  ultimately show ?thesis using verdict_order [OF failing_verify sample_plans_input] by simp
qed

text \<open>C1: A gate that passes rests on evidence: every required check has a succeeded, complete
  observation in which no finding that counts is left, and every check whose output it needed
  succeeded too.\<close>

theorem pass_rests_on_evidence:
  assumes "verify sha cx store plans decl tc = Inr (v, store')" "graph_input_ok (all_checks plans)"
    and "ga_selected (vf_gate v) = PASS" "p \<in> set (all_checks plans)" "ck_required (pc_check p)"
  shows "(\<exists>ob \<in> set (vf_observations v). ob_task_id ob = pc_task_id p \<and> evidence_is_complete ob
      \<and> (\<forall>f \<in> set (vf_findings v). counts_against_gate f \<longrightarrow>
           f_fingerprint f \<notin> f_fingerprint ` set (ob_findings ob)))
    \<and> (\<forall>q \<in> set (all_checks plans).
         set (ck_needs (pc_check p)) \<inter> set (ck_provides (pc_check q)) \<noteq> {} \<longrightarrow>
         (\<exists>oq \<in> set (vf_observations v). ob_task_id oq = pc_task_id q \<and> ob_state oq = SUCCEEDED))"
  using verify_pass [OF assms] by blast

theorem pass_rests_on_evidence_witness:
  "evidence_is_complete lint_answer \<and> ob_state (sample_answer ''prepare'') = SUCCEEDED"
proof -
  have pass: "ga_selected (vf_gate passing_run) = PASS" by (simp add: passing_run_def)
  have p: "lint_check \<in> set (all_checks sample_plans)" "ck_required (pc_check lint_check)"
    by (simp_all add: all_checks_def sample_plans_def lint_check_def sample_planned_def sample_check_def)
  note ev = pass_rests_on_evidence [OF passing_verify sample_plans_input pass p]
  have obs: "set (vf_observations passing_run) = {lint_answer, sample_answer ''prepare''}"
    by (simp add: passing_run_def failing_run_def)
  have ids: "ob_task_id lint_answer = ''lint''" "ob_task_id (sample_answer ''prepare'') = ''prepare''"
    "pc_task_id lint_check = ''lint''" "pc_task_id prepare_check = ''prepare''"
    by (simp_all add: lint_answer_def sample_answer_def lint_check_def prepare_check_def sample_planned_def)
  have q: "prepare_check \<in> set (all_checks sample_plans)"
    "set (ck_needs (pc_check lint_check)) \<inter> set (ck_provides (pc_check prepare_check)) \<noteq> {}"
    by (simp_all add: all_checks_def sample_plans_def lint_check_def prepare_check_def
        sample_planned_def sample_check_def)
  have "evidence_is_complete lint_answer"
    using conjunct1 [OF ev] unfolding obs by (auto simp: ids)
  moreover have "ob_state (sample_answer ''prepare'') = SUCCEEDED"
    using bspec [OF conjunct2 [OF ev] q(1)] q(2) unfolding obs by (auto simp: ids)
  ultimately show ?thesis ..
qed

text \<open>C3: Suppressions only mark: judged with any declarations, the same run has the same
  observations and executions, the same findings up to their marks, the same answer to whether it
  finished, and no violation it would not have without them.\<close>

theorem suppressions_only_mark:
  assumes "verdict sha checks decl tc s = Inr v" "verdict sha checks [] tc s = Inr v0"
    and "graph_input_ok checks" "distinct (map ob_task_id (sd_observations s))"
  shows "vf_observations v = vf_observations v0 \<and> vf_executions v = vf_executions v0
    \<and> vf_findings v = map (suppressed_as decl) (vf_findings v0)
    \<and> (ga_selected (vf_gate v) = INCOMPLETE \<longleftrightarrow> ga_selected (vf_gate v0) = INCOMPLETE)
    \<and> (ga_has_violations (vf_gate v) \<longrightarrow> ga_has_violations (vf_gate v0))"
  using verdict_suppressions [OF assms] by blast

definition judged_run :: scheduled where
  "judged_run =
     \<lparr>sd_observations = [(sample_answer ''lint'')\<lparr>ob_findings := [sample_finding]\<rparr>,
        sample_answer ''prepare''], sd_executions = sd_executions sample_scheduled\<rparr>"

lemma judged_run_verdicts:
  "verdict plain_sha (all_checks sample_plans) sample_suppressions sample_components judged_run
     = Inr passing_run"
  "verdict plain_sha (all_checks sample_plans) [] sample_components judged_run = Inr failing_run"
  by code_simp+

theorem suppressions_only_mark_witness:
  "vf_findings passing_run = map (suppressed_as sample_suppressions) (vf_findings failing_run)"
proof -
  have "distinct (map ob_task_id (sd_observations judged_run))"
    by (simp add: judged_run_def sample_answer_def)
  from suppressions_only_mark [OF judged_run_verdicts sample_plans_input this] show ?thesis by blast
qed

text \<open>Required coverage: after the demotion the gate passes exactly when the run passed and the
  request left no required component and no language of one out; what was found is kept.\<close>

theorem required_coverage:
  assumes "apply_require_full v (uncovered_scope model request scope) = Inr w"
  shows "(ga_selected (vf_gate w) = PASS \<longleftrightarrow>
      ga_selected (vf_gate v) = PASS \<and> covers model request scope)
    \<and> vf_findings w = vf_findings v \<and> vf_observations w = vf_observations v
    \<and> ga_has_violations (vf_gate w) = ga_has_violations (vf_gate v)"
  using apply_require_full_Inr [OF assms] uncovered_scope_Nil [of model request scope]
  by (simp split: if_splits)

definition cpp_request :: run_request where
  "cpp_request = python_request\<lparr>rq_languages := [''cpp'']\<rparr>"

definition demoted_run :: verification where
  "demoted_run = passing_run\<lparr>vf_gate := \<lparr>ga_selected = INCOMPLETE, ga_workspace = INCOMPLETE,
     ga_has_violations = False,
     ga_reasons = [''--require-full: app declares python but the request selected only cpp'']\<rparr>\<rparr>"

lemma sample_demotion:
  "apply_require_full passing_run (uncovered_scope sample_workspace cpp_request sample_workspace)
     = Inr demoted_run"
  by code_simp

theorem required_coverage_witness: "\<not> covers sample_workspace cpp_request sample_workspace"
  using required_coverage [OF sample_demotion] by (simp add: demoted_run_def passing_run_def)

section \<open>Baselines\<close>

text \<open>C5: Comparing runs that measured the same thing partitions the findings: the current ones are
  new or unchanged, the previous ones unchanged, resolved or carried, and no fingerprint is in two
  parts or twice in one.\<close>

theorem baseline_partition:
  assumes "same_measure b policy toolchain (Some now)" "bd_checks b = Some old"
    and "\<forall>f \<in> set findings. text_ok (f_fingerprint f)"
    and "\<forall>f \<in> set (bd_findings b). text_ok (f_fingerprint f)"
  shows "\<exists>c. compare findings b policy toolchain (Some now) = Inr c \<and> bc_state c = COMPARABLE
    \<and> set (bc_new c) \<union> set (bc_unchanged c) = set (fingerprints findings)
    \<and> set (bc_unchanged c) \<union> set (bc_resolved c) \<union> set (bc_carried c) =
        set (fingerprints (bd_findings b))
    \<and> distinct (bc_new c @ bc_unchanged c @ bc_resolved c @ bc_carried c)"
proof -
  let ?c = "delta_of findings b old now"
  have "set (bc_new ?c) \<union> set (bc_unchanged ?c) = set (fingerprints findings)"
    "set (bc_unchanged ?c) \<union> set (bc_resolved ?c) \<union> set (bc_carried ?c) =
       set (fingerprints (bd_findings b))"
    using resolved_gone [of findings b old now] unfolding delta_parts(1,2,4) by blast+
  moreover have "bc_state ?c = COMPARABLE" by (simp add: delta_of_def Let_def)
  ultimately show ?thesis
    using compare_delta [OF assms] delta_distinct [of findings b old now] by blast
qed

definition old_run :: baseline_document where
  "old_run = offered ''base.json'' (wire_run_result sample_run)"

theorem baseline_partition_witness:
  "\<exists>c. compare [] old_run sample_digest sample_digest (rr_checks sample_run) = Inr c
    \<and> set (bc_unchanged c) \<union> set (bc_resolved c) \<union> set (bc_carried c) = {''f1''}"
proof -
  obtain now where now: "rr_checks sample_run = Some now" by (simp add: sample_run_def)
  have b: "same_measure old_run sample_digest sample_digest (Some now)" "bd_checks old_run = Some now"
    using now by (simp_all add: same_measure_def old_run_def offered_def wire_run_result_def sample_run_def)
  have f: "bd_findings old_run = [wire_finding sample_finding]"
    by (simp add: old_run_def offered_def wire_run_result_def sample_run_def)
  have "text_ok (f_fingerprint (wire_finding sample_finding))"
    "fingerprints [wire_finding sample_finding] = [''f1'']"
    using sample_finding_ok
    by (simp_all add: wire_finding_def finding_ok_def finding_fields_ok_def fingerprints_def sample_finding_def)
  then show ?thesis
    using baseline_partition [OF b, of "[]"] unfolding now f by auto
qed

text \<open>C4: A run cannot resolve what it did not look at: a resolved fingerprint is gone from the
  current findings and belongs to a previous finding whose own check, with the same component,
  language, unit, variant and input scope, delivered complete evidence again.\<close>

theorem resolved_was_rechecked:
  assumes "compare findings b policy toolchain (Some now) = Inr c" "x \<in> set (bc_resolved c)"
  shows "x \<notin> set (fingerprints findings) \<and>
    (\<exists>old f c0 c1. bd_checks b = Some old \<and> f \<in> set (bd_findings b) \<and> f_fingerprint f = x
      \<and> c0 \<in> set old \<and> f_task_id f = Some (cr_task_id c0) \<and> f_component_id f = Some (cr_component_id c0)
      \<and> c1 \<in> set now \<and> cr_evidence_complete c1 \<and> comparison_key c1 = comparison_key c0)"
proof -
  obtain old now' f where f: "bd_checks b = Some old" "Some now = Some now'" "f \<in> set (bd_findings b)"
    "f_fingerprint f = x" "is_resolved (fingerprints findings) old now' f"
    by (rule compare_resolved [OF assms])
  then have r: "is_resolved (fingerprints findings) old now f" by simp
  then have "x \<notin> set (fingerprints findings)" using f(4) by (simp add: is_resolved_def)
  with r f show ?thesis by (metis is_resolved_iff)
qed

definition resolving :: baseline_comparison where
  "resolving = \<lparr>bc_state = COMPARABLE, bc_origin = ''base.json'', bc_reason = [], bc_new = [],
     bc_unchanged = [], bc_resolved = [''f1''], bc_carried = []\<rparr>"

lemma sample_resolving:
  "compare [] old_run sample_digest sample_digest (Some (the (rr_checks sample_run))) = Inr resolving"
  by code_simp

theorem resolved_was_rechecked_witness:
  "cr_evidence_complete (hd (the (rr_checks sample_run)))"
proof -
  have "''f1'' \<in> set (bc_resolved resolving)" by (simp add: resolving_def)
  from resolved_was_rechecked [OF sample_resolving this] show ?thesis
    by (auto simp: sample_run_def)
qed

text \<open>A stored run is its own baseline: read back from its JSON text, it compares with the run it
  came from without a new, a resolved or a carried finding.\<close>

theorem own_baseline:
  assumes "run_result_ok r" "rr_checks r = Some cs"
    and "ri_fingerprint_version (rr_identity r) = FINGERPRINT_VERSION"
    and "loads text = Inr (canon (run_result_to_dict r))"
  shows "\<exists>b c. load_baseline loads path (Inr text) = Inr b
    \<and> compare (rr_findings r) b (ri_policy_digest (rr_identity r))
        (ri_toolchain_digest (rr_identity r)) (rr_checks r) = Inr c
    \<and> bc_state c = COMPARABLE \<and> bc_new c = [] \<and> bc_resolved c = [] \<and> bc_carried c = []
    \<and> set (bc_unchanged c) = set (fingerprints (rr_findings r))"
  using json.load_stored [where loads = loads, OF assms(1,4)] compare_with_itself [OF assms(1-3)]
  by blast

theorem own_baseline_witness:
  "\<exists>b. load_baseline (\<lambda>t. Inr (canon (run_result_to_dict sample_run))) ''base.json'' (Inr ''{}'') = Inr b"
proof -
  obtain cs where cs: "rr_checks sample_run = Some cs" by (simp add: sample_run_def)
  have version: "ri_fingerprint_version (rr_identity sample_run) = FINGERPRINT_VERSION"
    by (simp add: sample_run_def)
  show ?thesis
    using own_baseline [OF sample_run_ok cs version, of "\<lambda>t. Inr (canon (run_result_to_dict sample_run))"]
    by blast
qed

section \<open>The report\<close>

text \<open>An assembled result is valid and survives being stored; it carries the gate and the findings
  of the verification and every limitation of its observations.\<close>

theorem assembled_is_storable:
  assumes "assemble fl rnd v facts = Inr r"
    and "list_all observation_ok (vf_observations v)" "list_all finding_ok (vf_findings v)"
    and "gate_ok (vf_gate v)" "snapshot_ok (rf_source facts)" "opt_ok baseline_ok (rf_baseline facts)"
    and "opt_ok (list_all check_record_ok) (rf_checks facts)"
  shows "run_result_ok r \<and> run_result_from_dict (canon (run_result_to_dict r)) = Inr (wire_run_result r)
    \<and> rr_gate r = vf_gate v \<and> rr_findings r = vf_findings v
    \<and> (\<forall>ob \<in> set (vf_observations v). set (ob_limitations ob) \<subseteq> set (rr_limitations r))"
  using assemble_Inr [OF assms] stored_result_codec.dec_enc by blast

theorem assembled_is_storable_witness:
  "run_result_from_dict (canon (run_result_to_dict assembled_run)) = Inr (wire_run_result assembled_run)"
  using assembled_is_storable [OF sample_assembled passing_parts] by blast

text \<open>C40: When a cancellation arrives after the required work has finished, the gate is not
  incomplete and the summary refuses a cancelled complete run: no result is assembled.\<close>

theorem late_cancellation_loses_result:
  assumes "rf_cancelled facts" "ga_selected (vf_gate v) \<noteq> INCOMPLETE"
  shows "\<exists>e. assemble fl rnd v facts = Inl e"
  using assms by (rule assemble_cancelled)

theorem late_cancellation_loses_result_witness:
  "\<exists>e. assemble Fin (\<lambda>n q. q) passing_run (sample_facts\<lparr>rf_cancelled := True\<rparr>) = Inl e"
  by (rule late_cancellation_loses_result) (simp_all add: passing_run_def)

text \<open>However the arithmetic rounds or overflows, a test-effectiveness score is a number between
  zero and five; it is refused exactly when the counts are impossible or an input is missing, and
  then with a reason.\<close>

theorem tem_score_bounded:
  "case tr_score (calculate fl rnd i) of
     None \<Rightarrow> \<not> scorable i \<and> tr_reason (calculate fl rnd i) \<noteq> []
   | Some x \<Rightarrow> (\<exists>q. x = Fin q \<and> 0 \<le> q \<and> q \<le> MAX_SCORE) \<and> scorable i"
proof (cases "tr_score (calculate fl rnd i)")
  case None
  then show ?thesis
    using calculate_refuses [of fl rnd i] calculate_reason [of fl rnd i] by simp
next
  case (Some x)
  then show ?thesis
    using calculate_score [OF Some] calculate_refuses [of fl rnd i] by simp
qed

text \<open>
  The finding behind it: an infinite percentage and a suite in which nothing passed give NaN, which
  the clamp turns into full marks.
\<close>

theorem nothing_passed_full_score:
  "tr_score (calculate Fin (\<lambda>n q. q)
     \<lparr>ti_passed = 0, ti_total = 3, ti_line_coverage = Some (Fin 90), ti_branch_coverage = None,
      ti_function_coverage = Some PosInf, ti_estimated_coverage = None\<rparr>) = Some (Fin 5)"
  by code_simp

end
