(* ===== verification/Paths.thy ===== *)
theory Paths
  imports Config Validation
begin

text \<open>
  The strings of a configuration that look like paths (src/src/ici/config/paths.py), on a model of
  \<open>PurePosixPath\<close>: an optional root, one slash or two, and the parts below it.  Nothing asks a
  file system.
\<close>

section \<open>Pure paths\<close>

datatype pure_path = PurePath (path_root: string) (path_names: "string list")

definition root_of :: "string \<Rightarrow> string" where
  "root_of s =
     (if startswith s ''//'' \<and> \<not> startswith s ''///'' then ''//''
      else if startswith s ''/'' then ''/'' else [])"

definition pure :: "string \<Rightarrow> pure_path" where
  "pure s = PurePath (root_of s) (posix_parts s)"

definition absolute :: "pure_path \<Rightarrow> bool" where
  "absolute p = (path_root p \<noteq> [])"

text \<open>\<open>path.parts\<close>: the root is the first part of an absolute path.\<close>

definition path_parts :: "pure_path \<Rightarrow> string list" where
  "path_parts p = (if path_root p = [] then path_names p else path_root p # path_names p)"

text \<open>\<open>PurePosixPath(*parts)\<close> for parts without a separator, of which only the first may be a root.\<close>

definition from_parts :: "string list \<Rightarrow> pure_path" where
  "from_parts ps =
     (case ps of
        [] \<Rightarrow> PurePath [] []
      | p # rest \<Rightarrow> if p = ''/'' \<or> p = ''//'' then PurePath p rest else PurePath [] ps)"

definition path_text :: "pure_path \<Rightarrow> string" where
  "path_text p =
     (if path_root p = [] \<and> path_names p = [] then ''.''
      else path_root p @ join ''/'' (path_names p))"

definition parent :: "pure_path \<Rightarrow> pure_path" where
  "parent p = PurePath (path_root p) (butlast (path_names p))"

text \<open>\<open>a / b\<close>: an absolute right side replaces the left one.\<close>

definition slash :: "pure_path \<Rightarrow> pure_path \<Rightarrow> pure_path" where
  "slash a b = (if absolute b then b else PurePath (path_root a) (path_names a @ path_names b))"

text \<open>\<open>a.relative_to(base)\<close>, \<open>None\<close> being its \<open>ValueError\<close>.\<close>

definition relative_to :: "pure_path \<Rightarrow> pure_path \<Rightarrow> pure_path option" where
  "relative_to p base =
     (if path_root p = path_root base \<and> take (length (path_names base)) (path_names p) = path_names base
      then Some (PurePath [] (drop (length (path_names base)) (path_names p)))
      else None)"

text \<open>\<open>_normalise\<close>: the loop, its result list reversed.\<close>

fun collapse :: "string list \<Rightarrow> string list \<Rightarrow> string list" where
  "collapse acc [] = rev acc"
| "collapse acc (p # ps) =
     (if p = ''.'' then collapse acc ps
      else if p = ''..'' \<and> acc \<noteq> [] \<and> hd acc \<notin> {''..'', ''/''} then collapse (tl acc) ps
      else collapse (p # acc) ps)"

definition normalise :: "pure_path \<Rightarrow> pure_path" where
  "normalise p = from_parts (collapse [] (path_parts p))"

section \<open>References to the environment\<close>

definition name_start :: "char \<Rightarrow> bool" where
  "name_start c = (let n = (of_char c :: nat) in
     65 \<le> n \<and> n \<le> 90 \<or> 97 \<le> n \<and> n \<le> 122 \<or> n = 95)"

definition name_char :: "char \<Rightarrow> bool" where
  "name_char c = (name_start c \<or> (let n = (of_char c :: nat) in 48 \<le> n \<and> n \<le> 57))"

text \<open>A match of \<open>${env:NAME}\<close> at the head of the text: the name and what follows.\<close>

definition env_match :: "string \<Rightarrow> (string \<times> string) option" where
  "env_match s =
     (if \<not> startswith s ''${env:'' then None
      else
        (let rest = drop 6 s; name = takeWhile name_char rest; after = dropWhile name_char rest in
         if name \<noteq> [] \<and> name_start (hd name) \<and> after \<noteq> [] \<and> hd after = CHR ''}''
         then Some (name, tl after) else None))"

lemma env_match_shorter: "env_match s = Some (name, rest) \<Longrightarrow> length rest < length s"
  using length_dropWhile_le [of name_char "drop 6 s"]
  by (cases s) (auto simp: env_match_def Let_def startswith_def split: if_splits)

definition unset_variable :: "origin \<Rightarrow> string \<Rightarrow> config_problem" where
  "unset_variable og name =
     \<lparr>cf_message = ''environment variable '' @ name @ '' is not set'', cf_origin = og,
      cf_hint = Some ''set it, or write the path literally''\<rparr>"

type_synonym 'a reported = "'a \<times> config_problem list"

function substitute :: "origin \<Rightarrow> (string \<Rightarrow> string option) \<Rightarrow> string \<Rightarrow> string reported" where
  "substitute og env [] = ([], [])"
| "substitute og env (c # cs) =
     (case env_match (c # cs) of
        None \<Rightarrow> (let (t, ps) = substitute og env cs in (c # t, ps))
      | Some (name, rest) \<Rightarrow>
          (let (t, ps) = substitute og env rest in
           case env name of
             Some v \<Rightarrow> (v @ t, ps)
           | None \<Rightarrow> (''${env:'' @ name @ ''}'' @ t, unset_variable og name # ps)))"
  by pat_completeness auto
termination
  by (relation "measure (\<lambda>(og, env, s). length s)") (auto dest: env_match_shorter)

section \<open>Declared paths, globs and executables\<close>

record declared_path =
  dp_raw :: string
  dp_origin :: origin

record source_glob =
  sg_raw :: string
  sg_origin :: origin

record executable =
  xb_raw :: string
  xb_origin :: origin

definition SourceGlob_init :: "string \<Rightarrow> origin \<Rightarrow> source_glob result" where
  "SourceGlob_init raw og =
     raise_if (raw = []) (ValueError ''a source glob must not be empty'' [])
    (Inr \<lparr>sg_raw = raw, sg_origin = og\<rparr>)"

definition Executable_init :: "string \<Rightarrow> origin \<Rightarrow> executable result" where
  "Executable_init raw og =
     raise_if (raw = []) (ValueError ''an executable must not be empty'' [])
    (Inr \<lparr>xb_raw = raw, xb_origin = og\<rparr>)"

definition searches_path :: "executable \<Rightarrow> bool" where
  "searches_path x = (CHR ''/'' \<notin> set (xb_raw x))"

definition not_portable :: "origin \<Rightarrow> config_problem" where
  "not_portable og =
     \<lparr>cf_message = ''an absolute path is not portable between checkouts'', cf_origin = og,
      cf_hint = Some ''write it relative to this file, or use ${env:NAME}''\<rparr>"

text \<open>\<open>DeclaredPath.resolve\<close>; its callers hand it an absolute directory.\<close>

definition resolve_from ::
    "declared_path \<Rightarrow> pure_path \<Rightarrow> (string \<Rightarrow> string option) \<Rightarrow> pure_path reported" where
  "resolve_from d directory env =
     (let (substituted, ps) = substitute (dp_origin d) env (dp_raw d);
          candidate = pure substituted in
      if absolute candidate then (candidate, ps @ [not_portable (dp_origin d)])
      else (normalise (slash directory candidate), ps))"

definition resolve_declared ::
    "declared_path \<Rightarrow> pure_path \<Rightarrow> (string \<Rightarrow> string option) \<Rightarrow> pure_path reported result" where
  "resolve_declared d directory env =
     raise_if (\<not> absolute directory)
       (ValueError ''declaring directory must be absolute to anchor a declared path'' [])
       (Inr (resolve_from d directory env))"

definition resolve_glob :: "source_glob \<Rightarrow> pure_path \<Rightarrow> string" where
  "resolve_glob g component_root =
     (if absolute (pure (sg_raw g)) then sg_raw g
      else path_text (normalise (slash component_root (pure (sg_raw g)))))"

section \<open>Path algebra\<close>

definition plain_names :: "string list \<Rightarrow> bool" where
  "plain_names ps \<longleftrightarrow> (\<forall>p \<in> set ps. p \<noteq> [] \<and> CHR ''/'' \<notin> set p \<and> p \<noteq> ''.'' \<and> p \<noteq> ''..'')"

lemma split_char_plain: "p \<in> set (split_char c s) \<Longrightarrow> c \<notin> set p"
  by (induction s arbitrary: p) (auto split: list.splits if_splits)

lemma posix_parts_names:
  "p \<in> set (posix_parts s) \<Longrightarrow> p \<noteq> [] \<and> p \<noteq> ''.'' \<and> CHR ''/'' \<notin> set p"
  using split_char_plain by (auto simp: posix_parts_def)

text \<open>Splitting a text that was joined from plain names gives the names back.\<close>

lemma split_char_append:
  "CHR ''/'' \<notin> set p \<Longrightarrow> split_char CHR ''/'' (p @ CHR ''/'' # s) = p # split_char CHR ''/'' s"
  by (induction p) auto

lemma split_char_single: "CHR ''/'' \<notin> set p \<Longrightarrow> split_char CHR ''/'' p = [p]"
  by (induction p) auto

lemma split_join:
  "ps \<noteq> [] \<Longrightarrow> \<forall>p \<in> set ps. CHR ''/'' \<notin> set p \<Longrightarrow> split_char CHR ''/'' (join ''/'' ps) = ps"
proof (induction "''/''" ps rule: join.induct)
  case (3 x y ys)
  then show ?case using split_char_append [of x "join ''/'' (y # ys)"] by simp
qed (auto simp: split_char_single)

lemma posix_parts_join:
  assumes "\<forall>p \<in> set ps. p \<noteq> [] \<and> CHR ''/'' \<notin> set p \<and> p \<noteq> ''.''"
  shows "posix_parts (join ''/'' ps) = ps"
proof (cases "ps = []")
  case True
  then show ?thesis by (simp add: posix_parts_def)
next
  case False
  with assms show ?thesis by (auto simp: posix_parts_def split_join filter_id_conv)
qed

lemma join_head:
  assumes "ps \<noteq> []" "hd ps \<noteq> []"
  shows "join ''/'' ps \<noteq> []" "hd (join ''/'' ps) = hd (hd ps)"
  using assms by (cases ps; cases "tl ps"; simp)+

lemma root_of_relative:
  assumes "\<forall>p \<in> set ps. p \<noteq> [] \<and> CHR ''/'' \<notin> set p"
  shows "root_of (join ''/'' ps) = []"
proof (cases ps)
  case (Cons p rest)
  then obtain c cs where p: "p = c # cs" "c \<noteq> CHR ''/''" using assms by (cases p) auto
  then have "\<exists>t. join ''/'' ps = c # t" using Cons by (cases rest) auto
  with p(2) show ?thesis by (auto simp: root_of_def startswith_def)
qed (simp add: root_of_def startswith_def)

lemma pure_path_text:
  assumes "\<forall>p \<in> set ps. p \<noteq> [] \<and> CHR ''/'' \<notin> set p \<and> p \<noteq> ''.''"
  shows "pure (path_text (PurePath [] ps)) = PurePath [] ps"
proof (cases "ps = []")
  case True
  then show ?thesis
    by (simp add: path_text_def pure_def root_of_def startswith_def posix_parts_def)
next
  case False
  then show ?thesis
    using assms root_of_relative [of ps] posix_parts_join [of ps]
    by (simp add: path_text_def pure_def)
qed

text \<open>What \<open>collapse\<close> leaves: nothing of a plain list, and dots only at the head of a relative one.\<close>

lemma collapse_plain: "plain_names ps \<Longrightarrow> collapse acc ps = rev acc @ ps"
  by (induction ps arbitrary: acc) (auto simp: plain_names_def)

lemma collapse_append:
  "plain_names ps \<Longrightarrow> collapse acc (ps @ qs) = collapse (rev ps @ acc) qs"
  by (induction ps arbitrary: acc) (auto simp: plain_names_def)

lemma collapse_names:
  "p \<in> set (collapse acc ps) \<Longrightarrow> p \<in> set acc \<or> (p \<in> set ps \<and> p \<noteq> ''.'')"
proof (induction acc ps rule: collapse.induct)
  case (2 acc q qs)
  then show ?case by (cases acc) (auto split: if_splits)
qed simp

text \<open>Below a single-slash root a name is never lost past the root, so no path climbs out of it.\<close>

lemma collapse_rooted:
  "last acc = ''/'' \<Longrightarrow> acc \<noteq> [] \<Longrightarrow> \<exists>rest. collapse acc ps = ''/'' # rest"
proof (induction acc ps rule: collapse.induct)
  case (1 acc)
  then show ?case by (cases acc rule: rev_cases) auto
next
  case (2 acc q qs)
  show ?case
  proof (cases "q = ''..'' \<and> acc \<noteq> [] \<and> hd acc \<notin> {''..'', ''/''}")
    case True
    then have "tl acc \<noteq> []" using 2(4) by (cases acc) auto
    moreover from this have "last (tl acc) = ''/''" using 2(4) by (simp add: last_tl)
    ultimately show ?thesis using 2 True by auto
  next
    case False
    then show ?thesis using 2 by auto
  qed
qed

text \<open>A normalised path is a fixed point.\<close>

definition settled_acc :: "string list \<Rightarrow> bool" where
  "settled_acc acc \<longleftrightarrow> ''.'' \<notin> set acc
     \<and> (\<forall>a x b. acc = a @ ''..'' # x # b \<longrightarrow> x = ''..'' \<or> x = ''/'')"

lemma settled_Nil: "settled_acc []"
  by (simp add: settled_acc_def)

lemma settled_tl: "settled_acc acc \<Longrightarrow> settled_acc (tl acc)"
  unfolding settled_acc_def by (cases acc) (auto, metis append_Cons)

lemma settled_Cons:
  assumes "settled_acc acc" "p \<noteq> ''.''" "p = ''..'' \<Longrightarrow> acc = [] \<or> hd acc \<in> {''..'', ''/''}"
  shows "settled_acc (p # acc)"
  unfolding settled_acc_def
proof (intro conjI allI impI)
  show "''.'' \<notin> set (p # acc)" using assms(1,2) by (simp add: settled_acc_def)
  fix a x b assume eq: "p # acc = a @ ''..'' # x # b"
  show "x = ''..'' \<or> x = ''/''"
  proof (cases a)
    case Nil
    then show ?thesis using eq assms(3) by auto
  next
    case (Cons c cs)
    then show ?thesis using eq assms(1) by (auto simp: settled_acc_def)
  qed
qed

lemma collapse_settled: "settled_acc acc \<Longrightarrow> settled_acc (rev (collapse acc ps))"
proof (induction acc ps rule: collapse.induct)
  case (2 acc q qs)
  then show ?case by (auto simp: settled_tl settled_Cons)
qed simp

lemma collapse_fixed: "settled_acc (rev ps @ acc) \<Longrightarrow> collapse acc ps = rev acc @ ps"
proof (induction ps arbitrary: acc)
  case (Cons p ps)
  have "p \<noteq> ''.''" using Cons.prems by (auto simp: settled_acc_def)
  moreover have "p = ''..'' \<Longrightarrow> acc = [] \<or> hd acc \<in> {''..'', ''/''}"
    using Cons.prems unfolding settled_acc_def by (cases acc) auto
  moreover have "collapse (p # acc) ps = rev (p # acc) @ ps"
    using Cons.prems by (intro Cons.IH) simp
  ultimately show ?case by auto
qed simp

lemma collapse_idem: "collapse [] (collapse [] ps) = collapse [] ps"
  using collapse_fixed [of "collapse [] ps" "[]"] collapse_settled [OF settled_Nil, of ps] by simp

end
