(* ===== verification/Documents.thy ===== *)
theory Documents
  imports Paths Suppressions
begin

text \<open>
  What a configuration file says before it is composed (src/src/ici/config/documents.py), and the
  effective values composition makes of it (the classes of src/src/ici/config/composition.py).
\<close>

section \<open>Documents\<close>

record workspace_settings =
  wt_name :: "string sourced option"
  wt_profile :: "string sourced option"
  wt_origin :: origin

record suppression_body =
  sb_fingerprint :: "string sourced option"
  sb_rule :: "string sourced option"
  sb_path :: "string sourced option"
  sb_component :: "string sourced option"
  sb_reason :: "string sourced option"
  sb_origin :: origin

record tool_setting =
  tl_id :: string
  tl_source :: "string sourced option"
  tl_config :: "declared_path option"
  tl_path :: "declared_path option"
  tl_origin :: origin

record build_declaration =
  bn_id :: string
  bn_system :: "string sourced option"
  bn_project :: "declared_path option"
  bn_directory :: "declared_path option"
  bn_variant :: "string sourced option"
  bn_prepare :: "string sourced option"
  bn_artifacts :: "source_glob list"
  bn_origin :: origin

record python_settings =
  py_executable :: "executable option"
  py_type_provider :: "string sourced option"
  py_test_tools :: "string sourced option"
  py_test_paths :: "source_glob list"
  py_origin :: origin

record cpp_settings =
  cq_qt :: "bool sourced option"
  cq_origin :: origin

record integration_output =
  io_path :: "declared_path option"
  io_kind :: "string sourced option"
  io_min_size :: "int sourced option"
  io_origin :: origin

record integration_case =
  ic_name :: "string sourced option"
  ic_argv :: "string list sourced option"
  ic_expected_exit :: "int sourced option"
  ic_stdout_contains :: "string list"
  ic_stderr_contains :: "string list"
  ic_stdout_not_contains :: "string list"
  ic_stderr_not_contains :: "string list"
  ic_timeout_seconds :: "pyfloat sourced option"
  ic_env :: "(string \<times> string sourced) list"
  ic_requires :: "string list"
  ic_python_targets :: "(string \<times> executable) list"
  ic_output_artifacts :: "integration_output list"
  ic_required :: "bool sourced option"
  ic_origin :: origin

record component_body =
  cb_id :: "string sourced option"
  cb_root :: "declared_path option"
  cb_languages :: "string list sourced option"
  cb_build :: "string sourced option"
  cb_sources :: "source_glob list"
  cb_include :: "source_glob list"
  cb_exclude :: "source_glob list"
  cb_python :: "python_settings option"
  cb_cpp :: "cpp_settings option"
  cb_origin :: origin
  cb_checks :: "check_setting list"
  cb_needs :: "string list sourced option"
  cb_vendor :: "source_glob list"
  cb_external :: "string list sourced option"
  cb_integrations :: "integration_case list"

record publish_body =
  pb_repo :: "string sourced option"
  pb_api_url :: "string sourced option"
  pb_server_url :: "string sourced option"
  pb_branch :: "string sourced option"
  pb_token_env :: "string sourced option"
  pb_origin :: origin

record component_reference =
  cx_id :: "string sourced"
  cx_config :: declared_path
  cx_origin :: origin

datatype component_entry = Inline component_body | Reference component_reference

record root_document =
  rd_path :: string
  rd_schema_version :: "int sourced"
  rd_workspace :: workspace_settings
  rd_checks :: "check_setting list"
  rd_tools :: "tool_setting list"
  rd_builds :: "build_declaration list"
  rd_components :: "component_entry list"
  rd_suppressions :: "suppression_body list"
  rd_publish :: "publish_body option"

definition references :: "root_document \<Rightarrow> component_reference list" where
  "references doc =
     concat (map (\<lambda>e. case e of Reference r \<Rightarrow> [r] | Inline b \<Rightarrow> []) (rd_components doc))"

definition inline_bodies :: "root_document \<Rightarrow> component_body list" where
  "inline_bodies doc =
     concat (map (\<lambda>e. case e of Reference r \<Rightarrow> [] | Inline b \<Rightarrow> [b]) (rd_components doc))"

record component_document =
  cd_path :: string
  cd_schema_version :: "int sourced"
  cd_component :: component_body

section \<open>Effective values\<close>

record eff_output =
  eo_path :: string
  eo_kind :: string
  eo_min_size :: int

record eff_case =
  ek_name :: string
  ek_argv :: "string list"
  ek_expected_exit :: int
  ek_stdout_contains :: "string list"
  ek_stderr_contains :: "string list"
  ek_stdout_not_contains :: "string list"
  ek_stderr_not_contains :: "string list"
  ek_timeout_seconds :: pyfloat
  ek_env :: "(string \<times> string) list"
  ek_requires :: "string list"
  ek_python_targets :: "(string \<times> string) list"
  ek_output_artifacts :: "eff_output list"
  ek_required :: bool
  ek_declared_in :: string

record eff_component =
  ec_id :: string
  ec_root :: "string decided"
  ec_languages :: "string list decided"
  ec_checks :: "effective_check list"
  ec_build :: "string decided option"
  ec_sources :: "string list"
  ec_include :: "string list"
  ec_exclude :: "string list"
  ec_vendor :: "string list"
  ec_test_paths :: "string list"
  ec_needs :: "string list decided option"
  ec_external :: "string list decided option"
  ec_declared_in :: string
  ec_python_executable :: "string decided option"
  ec_python_type_provider :: "string decided option"
  ec_integrations :: "eff_case list"

record eff_build =
  eb_id :: string
  eb_system :: "string decided option"
  eb_directory :: "string decided option"
  eb_definition :: "string decided option"
  eb_variant :: "string decided"
  eb_prepare :: "string decided option"
  eb_artifacts :: "string list"
  eb_declared_in :: string

record eff_publish =
  ep_repo :: string
  ep_api_url :: string
  ep_server_url :: string
  ep_branch :: string
  ep_token_env :: string
  ep_declared :: bool

record eff_config =
  wc_workspace_name :: "string decided option"
  wc_profile :: "string decided option"
  wc_checks :: "effective_check list"
  wc_components :: "eff_component list"
  wc_builds :: "eff_build list"
  wc_suppressions :: "eff_suppression list"
  wc_publish :: "eff_publish option"
  wc_scope_kind :: scope_kind

definition check_of :: "eff_component \<Rightarrow> string \<Rightarrow> effective_check option" where
  "check_of c check_id = List.find (\<lambda>k. ef_id k = check_id) (ec_checks c)"

definition component_named :: "eff_config \<Rightarrow> string \<Rightarrow> eff_component option" where
  "component_named config component_id =
     List.find (\<lambda>c. ec_id c = component_id) (wc_components config)"

end
