(* ===== verification/Composition.thy ===== *)
theory Composition
  imports Documents Representation
begin

text \<open>
  Composing the documents of a workspace into one configuration
  (src/src/ici/config/composition.py).  A function that appends to the problem list returns its
  value with the problems it adds, in order; \<open>collect\<close> at the end refuses a composition with any.
\<close>

section \<open>Values with problems\<close>

definition report_then :: "'a reported \<Rightarrow> ('a \<Rightarrow> 'b reported) \<Rightarrow> 'b reported" where
  "report_then m f = (case m of (x, ps) \<Rightarrow> (case f x of (y, qs) \<Rightarrow> (y, ps @ qs)))"

fun report_map :: "('a \<Rightarrow> 'b reported) \<Rightarrow> 'a list \<Rightarrow> 'b list reported" where
  "report_map f [] = ([], [])"
| "report_map f (x # xs) =
     report_then (f x) (\<lambda>y. report_then (report_map f xs) (\<lambda>ys. (y # ys, [])))"

definition report_if :: "bool \<Rightarrow> config_problem \<Rightarrow> config_problem list" where
  "report_if c p = (if c then [p] else [])"

lemma report_then_pair [simp]: "report_then (x, ps) f = (fst (f x), ps @ snd (f x))"
  by (simp add: report_then_def split: prod.splits)

lemma fst_report_then [simp]: "fst (report_then m f) = fst (f (fst m))"
  by (cases m) simp

lemma snd_report_then [simp]: "snd (report_then m f) = snd m @ snd (f (fst m))"
  by (cases m) simp

lemma fst_report_map [simp]: "fst (report_map f xs) = map (\<lambda>x. fst (f x)) xs"
  by (induction xs) auto

lemma snd_report_map [simp]: "snd (report_map f xs) = concat (map (\<lambda>x. snd (f x)) xs)"
  by (induction xs) auto

section \<open>Anchoring\<close>

definition virtual :: "pure_path \<Rightarrow> pure_path" where
  "virtual p = (if absolute p then p else slash (PurePath ''/'' []) p)"

definition escapes :: "(string \<Rightarrow> bool) \<Rightarrow> string \<Rightarrow> declared_path \<Rightarrow> config_problem" where
  "escapes printable what d =
     \<lparr>cf_message = what @ '' escapes the workspace root: '' @ repr_str printable (dp_raw d),
      cf_origin = dp_origin d,
      cf_hint = Some ''keep it inside the workspace, or name an external input''\<rparr>"

definition inside :: "pure_path \<Rightarrow> pure_path \<Rightarrow> pure_path option" where
  "inside base anchored =
     (case relative_to anchored base of
        None \<Rightarrow> None
      | Some r \<Rightarrow> if ''..'' \<in> set (path_parts r) then None else Some r)"

definition anchor ::
    "(string \<Rightarrow> bool) \<Rightarrow> declared_path option \<Rightarrow> string \<Rightarrow> pure_path \<Rightarrow> (string \<Rightarrow> string option) \<Rightarrow> string
     \<Rightarrow> string reported" where
  "anchor printable declared declaring_file workspace_dir env what =
     (case declared of
        None \<Rightarrow> (''.'', [])
      | Some d \<Rightarrow>
          report_then (resolve_from d (virtual (parent (pure declaring_file))) env) (\<lambda>anchored.
          let base = virtual workspace_dir in
          if anchored = base then (''.'', [])
          else
            (case inside base anchored of
               None \<Rightarrow> (dp_raw d, [escapes printable what d])
             | Some relative \<Rightarrow> (path_text relative, []))))"

text \<open>Where an external input or an interpreter is: inside, relative to the workspace.\<close>

definition placed :: "pure_path \<Rightarrow> pure_path \<Rightarrow> pure_path \<Rightarrow> string" where
  "placed declaring base candidate =
     (let anchored = normalise (if absolute candidate then candidate else slash declaring candidate) in
      case inside base anchored of
        None \<Rightarrow> path_text anchored
      | Some relative \<Rightarrow>
          if absolute candidate \<and> base = PurePath ''/'' [] then path_text anchored
          else path_text relative)"

definition external_inputs ::
    "component_body \<Rightarrow> string \<Rightarrow> pure_path \<Rightarrow> (string \<Rightarrow> string option)
     \<Rightarrow> string list decided option reported" where
  "external_inputs body declared_in workspace_dir env =
     (case cb_external body of
        None \<Rightarrow> (None, [])
      | Some ex \<Rightarrow>
          report_then
            (report_map (\<lambda>(index, raw).
               report_then (substitute (origin_item (so_origin ex) index) env raw) (\<lambda>substituted.
               (placed (virtual (parent (pure declared_in))) (virtual workspace_dir)
                  (pure substituted), [])))
               (enumerate 0 (so_value ex))) (\<lambda>resolved.
          (Some \<lparr>dc_value = resolved, dc_origin = so_origin ex, dc_layer = L_COMPONENT\<rparr>, [])))"

definition interpreter ::
    "executable \<Rightarrow> pure_path \<Rightarrow> (string \<Rightarrow> string option) \<Rightarrow> string reported" where
  "interpreter x workspace_dir env =
     (if searches_path x then (xb_raw x, [])
      else
        report_then (substitute (xb_origin x) env (xb_raw x)) (\<lambda>substituted.
        (placed (virtual (parent (pure (og_file (xb_origin x))))) (virtual workspace_dir)
           (pure substituted), [])))"

section \<open>Builds\<close>

definition optional_at :: "'a sourced option \<Rightarrow> layer \<Rightarrow> 'a decided option" where
  "optional_at value layer =
     map_option (\<lambda>v. \<lparr>dc_value = so_value v, dc_origin = so_origin v, dc_layer = layer\<rparr>) value"

definition build_path ::
    "(string \<Rightarrow> bool) \<Rightarrow> declared_path option \<Rightarrow> string sourced option \<Rightarrow> string \<Rightarrow> pure_path
     \<Rightarrow> (string \<Rightarrow> string option) \<Rightarrow> string \<Rightarrow> string decided option reported" where
  "build_path printable declared override declaring_file workspace_dir env what =
     (let at_root =
          map_option (\<lambda>d. \<lparr>dc_value = dp_raw d, dc_origin = dp_origin d, dc_layer = L_ROOT\<rparr>) declared in
      case decide at_root override L_LOCAL of
        None \<Rightarrow> (None, [])
      | Some d \<Rightarrow>
          report_then
            (anchor printable (Some \<lparr>dp_raw = dc_value d, dp_origin = dc_origin d\<rparr>) declaring_file
               workspace_dir env what) (\<lambda>r.
          (Some \<lparr>dc_value = r, dc_origin = dc_origin d, dc_layer = dc_layer d\<rparr>, [])))"

text \<open>A text between single quotes, as a literal message has it.\<close>

definition single :: "string \<Rightarrow> string" where
  "single s = CHR 0x27 # s @ [CHR 0x27]"

definition prepare_word :: "(string \<Rightarrow> bool) \<Rightarrow> build_declaration \<Rightarrow> string decided option reported" where
  "prepare_word printable b =
     (case bn_prepare b of
        None \<Rightarrow> (None, [])
      | Some p \<Rightarrow>
          (Some \<lparr>dc_value = so_value p, dc_origin = so_origin p, dc_layer = L_ROOT\<rparr>,
           report_if (so_value p \<noteq> ''explicit'')
             \<lparr>cf_message = ''prepare must be '' @ single ''explicit'' @ '', not '' @ repr_str printable (so_value p),
              cf_origin = so_origin p,
              cf_hint = Some (''ici does not invent configure commands; '' @ single ''explicit''
                @ '' means the user runs the named step themselves'')\<rparr>))"

definition artifact_ok :: "string \<Rightarrow> bool" where
  "artifact_ok raw \<longleftrightarrow>
     (let parsed = pure raw in
      \<not> (absolute parsed \<or> ''..'' \<in> set (path_parts parsed) \<or> CHR 0x5C \<in> set raw
         \<or> path_text parsed \<noteq> raw))"

definition artifact_problem :: "(string \<Rightarrow> bool) \<Rightarrow> source_glob \<Rightarrow> config_problem" where
  "artifact_problem printable g =
     \<lparr>cf_message = ''artifact glob '' @ repr_str printable (sg_raw g)
        @ '' must be a canonical relative pattern inside the build directory'',
      cf_origin = sg_origin g,
      cf_hint = Some ''artifacts anchor at the build's own directory''\<rparr>"

definition build_artifacts :: "(string \<Rightarrow> bool) \<Rightarrow> build_declaration \<Rightarrow> string list reported" where
  "build_artifacts printable b =
     (map sg_raw (filter (\<lambda>g. artifact_ok (sg_raw g)) (bn_artifacts b)),
      map (artifact_problem printable) (filter (\<lambda>g. \<not> artifact_ok (sg_raw g)) (bn_artifacts b)))"

type_synonym overlay = "(string \<times> string sourced) list"

definition compose_build ::
    "(string \<Rightarrow> bool) \<Rightarrow> pure_path \<Rightarrow> overlay \<Rightarrow> (string \<Rightarrow> string option) \<Rightarrow> build_declaration \<Rightarrow> eff_build reported" where
  "compose_build printable workspace_dir overlay env b =
     report_then
       (build_path printable (bn_directory b) (map_of overlay (''builds.'' @ bn_id b @ ''.directory''))
          (og_file (bn_origin b)) workspace_dir env ''build directory'') (\<lambda>directory.
     report_then
       (build_path printable (bn_project b) (map_of overlay (''builds.'' @ bn_id b @ ''.project''))
          (og_file (bn_origin b)) workspace_dir env ''build project'') (\<lambda>project.
     report_then (prepare_word printable b) (\<lambda>prepare.
     report_then (build_artifacts printable b) (\<lambda>artifacts.
     (\<lparr>eb_id = bn_id b, eb_system = optional_at (bn_system b) L_ROOT, eb_directory = directory,
       eb_definition = project,
       eb_variant =
         (case optional_at (bn_variant b) L_ROOT of
            Some v \<Rightarrow> v
          | None \<Rightarrow> \<lparr>dc_value = ''default'', dc_origin = DEFAULTS_ORIGIN, dc_layer = L_DEFAULTS\<rparr>),
       eb_prepare = prepare, eb_artifacts = artifacts, eb_declared_in = og_file (bn_origin b)\<rparr>, [])))))"

end
