(* ===== verification/Components.thy ===== *)
theory Components
  imports Composition
begin

text \<open>
  Composing the components of a workspace, and the configuration as a whole
  (src/src/ici/config/composition.py).
\<close>

section \<open>Interpreters, checkers and integration cases\<close>

definition python_executable ::
    "string \<Rightarrow> component_body \<Rightarrow> overlay \<Rightarrow> pure_path \<Rightarrow> (string \<Rightarrow> string option)
     \<Rightarrow> string decided option reported" where
  "python_executable component_id body overlay workspace_dir env =
     (let declared = Option.bind (cb_python body) py_executable;
          written = map_of overlay (''components.'' @ component_id @ ''.python.executable'');
          override = (case written of None \<Rightarrow> None
                      | Some v \<Rightarrow> if so_value v = [] then None else Some v);
          problems = (case written of None \<Rightarrow> []
                      | Some v \<Rightarrow> report_if (so_value v = [])
                          \<lparr>cf_message = ''a python executable must not be empty'',
                           cf_origin = so_origin v, cf_hint = None\<rparr>);
          chosen = (case override of
                      Some v \<Rightarrow> Some (\<lparr>xb_raw = so_value v, xb_origin = so_origin v\<rparr>, L_LOCAL)
                    | None \<Rightarrow> map_option (\<lambda>d. (d, L_COMPONENT)) declared) in
      (case chosen of
         None \<Rightarrow> (None, problems)
       | Some (x, layer) \<Rightarrow>
           report_then ((), problems) (\<lambda>_.
           report_then (interpreter x workspace_dir env) (\<lambda>value.
           (Some \<lparr>dc_value = value, dc_origin = xb_origin x, dc_layer = layer\<rparr>, [])))))"

definition TYPE_PROVIDERS :: "string list" where
  "TYPE_PROVIDERS = [''mypy'', ''ty'']"

definition python_type_provider ::
    "string \<Rightarrow> component_body \<Rightarrow> overlay \<Rightarrow> string decided option reported" where
  "python_type_provider component_id body overlay =
     (let declared = Option.bind (cb_python body) py_type_provider;
          override = map_of overlay (''components.'' @ component_id @ ''.python.type_provider'');
          chosen = (case override of Some v \<Rightarrow> Some (v, L_LOCAL)
                    | None \<Rightarrow> map_option (\<lambda>d. (d, L_COMPONENT)) declared) in
      (case chosen of
         None \<Rightarrow> (None, [])
       | Some (v, layer) \<Rightarrow>
           if so_value v \<notin> set TYPE_PROVIDERS
           then (None, [\<lparr>cf_message = ''type_provider must be one of '' @ join '', '' TYPE_PROVIDERS,
                         cf_origin = so_origin v, cf_hint = None\<rparr>])
           else (Some \<lparr>dc_value = so_value v, dc_origin = so_origin v, dc_layer = layer\<rparr>, [])))"

definition value_or :: "'a \<Rightarrow> 'a sourced option \<Rightarrow> 'a" where
  "value_or otherwise s = (case s of None \<Rightarrow> otherwise | Some v \<Rightarrow> so_value v)"

definition compose_outputs ::
    "(string \<Rightarrow> bool) \<Rightarrow> string \<Rightarrow> integration_case \<Rightarrow> string \<Rightarrow> pure_path
     \<Rightarrow> (string \<Rightarrow> string option) \<Rightarrow> eff_output list reported" where
  "compose_outputs printable name c declared_in workspace_dir env =
     report_map (\<lambda>output.
       report_then
         (anchor printable (io_path output) declared_in workspace_dir env
            (''integration case '' @ repr_str printable name @ '' output'')) (\<lambda>path.
       (\<lparr>eo_path = path, eo_kind = value_or ''other'' (io_kind output),
         eo_min_size = value_or 1 (io_min_size output)\<rparr>, [])))
       (filter (\<lambda>output. io_path output \<noteq> None) (ic_output_artifacts c))"

definition compose_case ::
    "(string \<Rightarrow> bool) \<Rightarrow> integration_case \<Rightarrow> string \<Rightarrow> string list \<Rightarrow> string \<Rightarrow> pure_path
     \<Rightarrow> (string \<Rightarrow> string option) \<Rightarrow> eff_case reported" where
  "compose_case printable c name argv declared_in workspace_dir env =
     report_then
       (report_map (\<lambda>(target, x).
          report_then (interpreter x workspace_dir env) (\<lambda>value. ((target, value), [])))
          (ic_python_targets c)) (\<lambda>targets.
     report_then (compose_outputs printable name c declared_in workspace_dir env) (\<lambda>outputs.
     (\<lparr>ek_name = name, ek_argv = argv, ek_expected_exit = value_or 0 (ic_expected_exit c),
       ek_stdout_contains = ic_stdout_contains c, ek_stderr_contains = ic_stderr_contains c,
       ek_stdout_not_contains = ic_stdout_not_contains c,
       ek_stderr_not_contains = ic_stderr_not_contains c,
       ek_timeout_seconds = value_or (Fin 30) (ic_timeout_seconds c),
       ek_env = map (\<lambda>(n, v). (n, so_value v)) (ic_env c), ek_requires = ic_requires c,
       ek_python_targets = targets, ek_output_artifacts = outputs,
       ek_required = value_or True (ic_required c), ek_declared_in = declared_in\<rparr>, [])))"

fun compose_cases ::
    "(string \<Rightarrow> bool) \<Rightarrow> string \<Rightarrow> pure_path \<Rightarrow> (string \<Rightarrow> string option)
     \<Rightarrow> integration_case list \<Rightarrow> eff_case list reported" where
  "compose_cases printable declared_in workspace_dir env [] = ([], [])"
| "compose_cases printable declared_in workspace_dir env (c # cs) =
     (case (ic_name c, ic_argv c) of
        (Some name, Some argv) \<Rightarrow>
          report_then
            (compose_case printable c (so_value name) (so_value argv) declared_in workspace_dir env)
            (\<lambda>k. report_then (compose_cases printable declared_in workspace_dir env cs) (\<lambda>ks.
            (k # ks, [])))
      | _ \<Rightarrow> compose_cases printable declared_in workspace_dir env cs)"

section \<open>One component\<close>

definition needs_id :: "component_body \<Rightarrow> config_problem" where
  "needs_id body =
     \<lparr>cf_message = ''a component must have an id'', cf_origin = cb_origin body, cf_hint = None\<rparr>"

definition needs_root :: "component_body \<Rightarrow> config_problem" where
  "needs_root body =
     \<lparr>cf_message = ''a component must have a root'',
      cf_origin = origin_child (cb_origin body) ''root'', cf_hint = None\<rparr>"

definition needs_languages :: "component_body \<Rightarrow> config_problem" where
  "needs_languages body =
     \<lparr>cf_message = ''a component must declare a language'',
      cf_origin = origin_child (cb_origin body) ''languages'', cf_hint = None\<rparr>"

definition component_id_of :: "string option \<Rightarrow> component_body \<Rightarrow> string" where
  "component_id_of identifier body =
     (case identifier of
        Some i \<Rightarrow> if i = [] then value_or [] (cb_id body) else i
      | None \<Rightarrow> value_or [] (cb_id body))"

definition incomplete :: "string \<Rightarrow> component_body \<Rightarrow> config_problem list" where
  "incomplete component_id body =
     report_if (component_id = []) (needs_id body)
     @ report_if (cb_root body = None) (needs_root body)
     @ report_if (cb_languages body = None) (needs_languages body)"

definition globs_in :: "string \<Rightarrow> source_glob list \<Rightarrow> string list" where
  "globs_in component_root globs = map (\<lambda>g. resolve_glob g (pure component_root)) globs"

definition compose_component ::
    "(string \<Rightarrow> bool) \<Rightarrow> component_body \<Rightarrow> string \<Rightarrow> check_setting list \<Rightarrow> effective_check list
     \<Rightarrow> overlay \<Rightarrow> string option \<Rightarrow> pure_path \<Rightarrow> (string \<Rightarrow> string option)
     \<Rightarrow> eff_component reported" where
  "compose_component printable body declared_in root_settings workspace_checks overlay identifier
     workspace_dir env =
     (let component_id = component_id_of identifier body in
      report_then ((), incomplete component_id body) (\<lambda>_.
      report_then
        (anchor printable (cb_root body) declared_in workspace_dir env ''component root'') (\<lambda>placed_at.
      report_then
        (component_checks component_id (cb_checks body) root_settings workspace_checks) (\<lambda>checks.
      report_then (external_inputs body declared_in workspace_dir env) (\<lambda>external.
      report_then (python_executable component_id body overlay workspace_dir env) (\<lambda>interpreted.
      report_then (python_type_provider component_id body overlay) (\<lambda>provider.
      report_then (compose_cases printable declared_in workspace_dir env (cb_integrations body)) (\<lambda>cases.
      (\<lparr>ec_id = component_id,
        ec_root =
          \<lparr>dc_value = placed_at,
           dc_origin = (case cb_root body of Some d \<Rightarrow> dp_origin d | None \<Rightarrow> cb_origin body),
           dc_layer = L_COMPONENT\<rparr>,
        ec_languages =
          \<lparr>dc_value = value_or [] (cb_languages body),
           dc_origin = (case cb_languages body of Some l \<Rightarrow> so_origin l | None \<Rightarrow> cb_origin body),
           dc_layer = L_COMPONENT\<rparr>,
        ec_checks = checks, ec_build = optional_at (cb_build body) L_COMPONENT,
        ec_sources = globs_in placed_at (cb_sources body),
        ec_include = globs_in placed_at (cb_include body),
        ec_exclude = globs_in placed_at (cb_exclude body),
        ec_vendor = globs_in placed_at (cb_vendor body),
        ec_test_paths =
          globs_in placed_at (case cb_python body of Some p \<Rightarrow> py_test_paths p | None \<Rightarrow> []),
        ec_needs = optional_at (cb_needs body) L_COMPONENT, ec_external = external,
        ec_declared_in = declared_in, ec_python_executable = interpreted,
        ec_python_type_provider = provider, ec_integrations = cases\<rparr>, [])))))))))"

section \<open>The workspace\<close>

definition unread_child :: "component_reference \<Rightarrow> config_problem" where
  "unread_child r =
     \<lparr>cf_message = ''the file registered for '' @ so_value (cx_id r) @ '' was not read'',
      cf_origin = dp_origin (cx_config r),
      cf_hint = Some ''composition does not open files; pass the child document in''\<rparr>"

text \<open>\<open>_follow\<close>: the reference supplies the id a child file does not carry.\<close>

definition follow ::
    "(string \<times> component_document) list \<Rightarrow> component_reference
     \<Rightarrow> (component_body \<times> string) list reported" where
  "follow children r =
     (case map_of children (so_value (cx_id r)) of
        None \<Rightarrow> ([], [unread_child r])
      | Some d \<Rightarrow> ([((cd_component d)\<lparr>cb_id := Some (cx_id r)\<rparr>, cd_path d)], []))"

definition bodies ::
    "root_document \<Rightarrow> (string \<times> component_document) list \<Rightarrow> (component_body \<times> string) list reported" where
  "bodies doc children =
     report_then
       (report_map (\<lambda>entry. case entry of Reference r \<Rightarrow> follow children r
                            | Inline body \<Rightarrow> ([(body, rd_path doc)], []))
          (rd_components doc)) (\<lambda>found. (concat found, []))"

definition compose_suppressions :: "root_document \<Rightarrow> eff_suppression list" where
  "compose_suppressions doc =
     map (\<lambda>body.
       \<lparr>es_fingerprint = value_or [] (sb_fingerprint body), es_rule = value_or [] (sb_rule body),
        es_path =
          (case sb_path body of
             None \<Rightarrow> []
           | Some p \<Rightarrow> if strip (so_value p) = [] then [] else path_text (normalise (pure (so_value p)))),
        es_component = value_or [] (sb_component body), es_reason = value_or [] (sb_reason body),
        es_declared_in = og_file (sb_origin body)\<rparr>)
       (rd_suppressions doc)"

definition rstrip_slash :: "string \<Rightarrow> string" where
  "rstrip_slash s = rev (dropWhile (\<lambda>c. c = CHR ''/'') (rev s))"

definition compose_publish :: "publish_body option \<Rightarrow> eff_publish option" where
  "compose_publish published =
     map_option (\<lambda>body.
       \<lparr>ep_repo = value_or [] (pb_repo body),
        ep_api_url = rstrip_slash (value_or [] (pb_api_url body)),
        ep_server_url = rstrip_slash (value_or [] (pb_server_url body)),
        ep_branch =
          (case pb_branch body of
             Some b \<Rightarrow> if strip (so_value b) = [] then ''gh-pages'' else so_value b
           | None \<Rightarrow> ''gh-pages''),
        ep_token_env = value_or ''GITHUB_TOKEN'' (pb_token_env body), ep_declared = True\<rparr>) published"

definition compose_parts ::
    "(string \<Rightarrow> bool) \<Rightarrow> root_document \<Rightarrow> (string \<times> component_document) list \<Rightarrow> overlay
     \<Rightarrow> (string \<Rightarrow> string option) \<Rightarrow> (eff_build list \<times> eff_component list) reported" where
  "compose_parts printable doc children overlay env =
     (let workspace_dir = parent (pure (rd_path doc));
          workspace_checks = map workspace_check (rd_checks doc) in
      report_then (report_map (compose_build printable workspace_dir overlay env) (rd_builds doc)) (\<lambda>builds.
      report_then (bodies doc children) (\<lambda>found.
      report_then
        (report_map (\<lambda>(body, declared_in).
           compose_component printable body declared_in (rd_checks doc) workspace_checks overlay None
             workspace_dir env) found) (\<lambda>components.
      ((builds, components), [])))))"

text \<open>\<open>compose\<close>: every problem of every part, or the configuration.\<close>

definition compose ::
    "(string \<Rightarrow> bool) \<Rightarrow> root_document \<Rightarrow> (string \<times> component_document) list \<Rightarrow> overlay
     \<Rightarrow> (string \<Rightarrow> string option) \<Rightarrow> config_problem list + eff_config" where
  "compose printable doc children overlay env =
     (let ((builds, components), problems) = compose_parts printable doc children overlay env in
      if problems \<noteq> [] then Inl problems
      else Inr
        \<lparr>wc_workspace_name = optional_at (wt_name (rd_workspace doc)) L_ROOT,
         wc_profile = optional_at (wt_profile (rd_workspace doc)) L_ROOT,
         wc_checks = map workspace_check (rd_checks doc), wc_components = components,
         wc_builds = builds, wc_suppressions = compose_suppressions doc,
         wc_publish = compose_publish (rd_publish doc), wc_scope_kind = FULL\<rparr>)"

definition compose_standalone ::
    "(string \<Rightarrow> bool) \<Rightarrow> component_document \<Rightarrow> string \<Rightarrow> (string \<Rightarrow> string option)
     \<Rightarrow> config_problem list + eff_config" where
  "compose_standalone printable document component_id env =
     (let (component, problems) =
        compose_component printable (cd_component document) (cd_path document) [] [] []
          (Some component_id) (parent (pure (cd_path document))) env in
      if problems \<noteq> [] then Inl problems
      else Inr
        \<lparr>wc_workspace_name = None, wc_profile = None, wc_checks = [], wc_components = [component],
         wc_builds = [], wc_suppressions = [], wc_publish = None, wc_scope_kind = STANDALONE\<rparr>)"

section \<open>The digest of the policy\<close>

definition policy_check :: "effective_check \<Rightarrow> pyval" where
  "policy_check k =
     PDict [(''id'', PStr (ef_id k)), (''enabled'', PBool (dc_value (ef_enabled k))),
       (''required'', PBool (dc_value (ef_required k)))]"

definition policy_payload :: "eff_config \<Rightarrow> pyval" where
  "policy_payload config =
     PDict
       [(''checks'', PList (map policy_check (wc_checks config))),
        (''components'', PList (map (\<lambda>c.
           PDict
             [(''id'', PStr (ec_id c)),
              (''languages'', PList (map PStr (dc_value (ec_languages c)))),
              (''checks'', PList (map policy_check (ec_checks c)))]) (wc_components config))),
        (''suppressions'', PList (map (\<lambda>i.
           PDict
             [(''fingerprint'', PStr (es_fingerprint i)), (''rule'', PStr (es_rule i)),
              (''path'', PStr (es_path i)), (''component'', PStr (es_component i))])
           (wc_suppressions config)))]"

definition policy_digest :: "(string \<Rightarrow> string) \<Rightarrow> eff_config \<Rightarrow> string result" where
  "policy_digest sha config =
     bindr (dumps (\<lambda>q. []) (policy_payload config)) (\<lambda>encoded.
     Inr (''sha256:'' @ sha (ascii_text encoded)))"

end
