(* ===== verification/Composition_Facts.thy ===== *)
theory Composition_Facts
  imports Components
begin

text \<open>
  What composition does with paths and policy: an anchored path names a place inside the
  workspace, and a composed component depends on what was declared, not on where.
\<close>

section \<open>Anchored paths\<close>

definition good_names :: "string list \<Rightarrow> bool" where
  "good_names ps \<longleftrightarrow> (\<forall>p \<in> set ps. p \<noteq> [] \<and> CHR ''/'' \<notin> set p \<and> p \<noteq> ''.'')"

lemma good_append [simp]: "good_names (ps @ qs) \<longleftrightarrow> good_names ps \<and> good_names qs"
  by (auto simp: good_names_def)

definition good_path :: "pure_path \<Rightarrow> bool" where
  "good_path p \<longleftrightarrow> path_root p \<in> {[], ''/'', ''//''} \<and> good_names (path_names p)"

lemma good_pure: "good_path (pure s)"
  using posix_parts_names by (auto simp: good_path_def good_names_def pure_def root_of_def)

lemma good_parent: "good_path p \<Longrightarrow> good_path (parent p)"
  by (auto simp: good_path_def good_names_def parent_def dest: in_set_butlastD)

lemma good_slash: "good_path a \<Longrightarrow> good_path b \<Longrightarrow> good_path (slash a b)"
  by (simp add: good_path_def slash_def)

lemma good_virtual: "good_path p \<Longrightarrow> good_path (virtual p)"
  by (auto simp: good_path_def virtual_def slash_def absolute_def)

lemma plain_good: "plain_names ps \<longleftrightarrow> good_names ps \<and> ''..'' \<notin> set ps"
  by (auto simp: plain_names_def good_names_def)

lemma absolute_virtual: "absolute (virtual p)"
  by (simp add: virtual_def slash_def absolute_def)

text \<open>The loop of \<open>_normalise\<close> keeps a part of what it had and adds parts of what it reads.\<close>

lemma collapse_split:
  "\<exists>k zs. collapse acc ps = take k (rev acc) @ zs \<and> set zs \<subseteq> {p \<in> set ps. p \<noteq> ''.''}"
proof (induction acc ps rule: collapse.induct)
  case (1 acc)
  have "collapse acc [] = take (length acc) (rev acc) @ []" by simp
  then show ?case by (metis empty_subsetI list.set(1))
next
  case (2 acc q qs)
  consider (dot) "q = ''.''" | (pop) "q \<noteq> ''.''" "q = ''..'' \<and> acc \<noteq> [] \<and> hd acc \<notin> {''..'', ''/''}"
    | (push) "q \<noteq> ''.''" "\<not> (q = ''..'' \<and> acc \<noteq> [] \<and> hd acc \<notin> {''..'', ''/''})" by blast
  then show ?case
  proof cases
    case dot
    then show ?thesis using 2(1) by fastforce
  next
    case pop
    then obtain k zs where kz: "collapse (tl acc) qs = take k (rev (tl acc)) @ zs"
      "set zs \<subseteq> {p \<in> set qs. p \<noteq> ''.''}" using 2(2) by blast
    obtain a as where "acc = a # as" using pop by (cases acc) auto
    then have "take k (rev (tl acc)) = take (min k (length (tl acc))) (rev acc)"
      by (cases "k \<le> length as") auto
    then show ?thesis using kz pop by fastforce
  next
    case push
    then obtain k zs where kz: "collapse (q # acc) qs = take k (rev (q # acc)) @ zs"
      "set zs \<subseteq> {p \<in> set qs. p \<noteq> ''.''}" using 2(3) by blast
    have "take k (rev (q # acc)) = take k (rev acc) @ take (k - length acc) [q]" by simp
    then have "collapse acc (q # qs) = take k (rev acc) @ (take (k - length acc) [q] @ zs)"
      using kz push by auto
    moreover have "set (take (k - length acc) [q] @ zs) \<subseteq> {p \<in> set (q # qs). p \<noteq> ''.''}"
      using kz push(1) by (cases "k - length acc") auto
    ultimately show ?thesis by blast
  qed
qed

lemma path_names_from_parts:
  "path_names (from_parts ps) = (if ps \<noteq> [] \<and> hd ps \<in> {''/'', ''//''} then tl ps else ps)"
  by (cases ps) (auto simp: from_parts_def)

lemma good_subset: "set qs \<subseteq> set ps \<Longrightarrow> good_names ps \<Longrightarrow> good_names qs"
  by (auto simp: good_names_def)

lemma good_normalise:
  assumes "good_path p"
  shows "good_names (path_names (normalise p))"
proof -
  have good: "good_names (path_names p)" using assms by (simp add: good_path_def)
  let ?c = "collapse [] (path_parts p)"
  have "good_names ?c \<or> (\<exists>r zs. ?c = r # zs \<and> r \<in> {''/'', ''//''} \<and> good_names zs)"
  proof (cases "path_root p = []")
    case True
    have "set ?c \<subseteq> set (path_names p)"
      using True collapse_names [of _ "[]" "path_names p"] by (auto simp: path_parts_def)
    then show ?thesis using good good_subset by blast
  next
    case False
    let ?r = "path_root p"
    have r: "?r \<in> {''/'', ''//''}" using assms False by (simp add: good_path_def)
    then have "?c = collapse [?r] (path_names p)" by (auto simp: path_parts_def)
    moreover obtain k zs where kz: "collapse [?r] (path_names p) = take k [?r] @ zs"
        "set zs \<subseteq> {q \<in> set (path_names p). q \<noteq> ''.''}"
      using collapse_split [of "[?r]" "path_names p"] by auto
    moreover have "good_names zs" using kz(2) good good_subset [of zs "path_names p"] by blast
    ultimately show ?thesis using r by (cases k) auto
  qed
  then show ?thesis
  proof
    assume "good_names ?c"
    then show ?thesis
      using good_subset [of "tl ?c" ?c] set_subset_Cons
      by (cases ?c) (auto simp: normalise_def path_names_from_parts)
  qed (auto simp: normalise_def path_names_from_parts)
qed

text \<open>A text that names a place inside the directory it is read from.\<close>

definition stays_inside :: "string \<Rightarrow> bool" where
  "stays_inside r \<longleftrightarrow> \<not> absolute (pure r) \<and> ''..'' \<notin> set (path_names (pure r))
     \<and> normalise (pure r) = pure r \<and> path_text (pure r) = r"

lemma normalise_plain: "plain_names ps \<Longrightarrow> normalise (PurePath [] ps) = PurePath [] ps"
proof -
  assume plain: "plain_names ps"
  have "\<forall>p \<in> set ps. p \<noteq> ''/'' \<and> p \<noteq> ''//''"
  proof
    fix p assume "p \<in> set ps"
    then have "CHR ''/'' \<notin> set p" using plain by (simp add: plain_names_def)
    then show "p \<noteq> ''/'' \<and> p \<noteq> ''//''" by auto
  qed
  then have "from_parts ps = PurePath [] ps" by (cases ps) (simp_all add: from_parts_def)
  moreover have "collapse [] ps = ps" using collapse_plain [OF plain, of "[]"] by simp
  ultimately show ?thesis by (simp add: normalise_def path_parts_def)
qed

lemma stays_inside_text:
  assumes "plain_names ps"
  shows "stays_inside (path_text (PurePath [] ps))" "pure (path_text (PurePath [] ps)) = PurePath [] ps"
proof -
  show pure: "pure (path_text (PurePath [] ps)) = PurePath [] ps"
    using assms by (intro pure_path_text) (auto simp: plain_names_def)
  show "stays_inside (path_text (PurePath [] ps))"
    using assms pure by (auto simp: stays_inside_def absolute_def normalise_plain plain_names_def)
qed

lemma relative_to_Some:
  "relative_to p base = Some r \<longleftrightarrow>
     path_root p = path_root base \<and> path_root r = [] \<and> path_names p = path_names base @ path_names r"
proof
  assume "relative_to p base = Some r"
  then show "path_root p = path_root base \<and> path_root r = [] \<and> path_names p = path_names base @ path_names r"
    by (auto simp: relative_to_def split: if_splits) (metis append_take_drop_id)
qed (cases r, simp add: relative_to_def)

lemma inside_Some:
  assumes "inside base p = Some r" "good_names (path_names p)"
  shows "plain_names (path_names r)" "r = PurePath [] (path_names r)" "absolute base \<Longrightarrow> slash base r = p"
proof -
  have rel: "relative_to p base = Some r" and dots: "''..'' \<notin> set (path_parts r)"
    using assms(1) by (auto simp: inside_def split: option.splits if_splits)
  note eqs = rel [unfolded relative_to_Some]
  show "r = PurePath [] (path_names r)" using eqs by (cases r) auto
  show "plain_names (path_names r)"
    using assms(2) eqs dots by (simp add: plain_good path_parts_def)
  show "slash base r = p" if "absolute base"
    using eqs by (cases p) (simp add: slash_def absolute_def)
qed

lemma resolve_from_quiet:
  assumes "resolve_from d dir env = (p, [])"
  shows "\<exists>t. substitute (dp_origin d) env (dp_raw d) = (t, []) \<and> \<not> absolute (pure t)
    \<and> p = normalise (slash dir (pure t))"
  using assms by (auto simp: resolve_from_def Let_def split: prod.splits if_splits)

text \<open>Without a problem, the anchored text names the very place the declaration does, inside.\<close>

lemma anchor_inside:
  assumes "anchor printable (Some d) file dir env what = (r, [])"
  shows "stays_inside r"
    and "slash (virtual dir) (pure r) = fst (resolve_from d (virtual (parent (pure file))) env)"
proof -
  let ?from = "virtual (parent (pure file))" and ?base = "virtual dir"
  obtain p ps where p: "resolve_from d ?from env = (p, ps)" by force
  from assms p have ps: "ps = []" by (auto simp: anchor_def Let_def split: option.splits if_splits)
  then obtain t where t: "p = normalise (slash ?from (pure t))"
    using resolve_from_quiet p by blast
  have good: "good_names (path_names p)"
    unfolding t by (intro good_normalise good_slash good_virtual good_parent good_pure)
  have dot: "pure ''.'' = PurePath [] []" by (simp add: pure_def root_of_def startswith_def posix_parts_def)
  have "stays_inside r \<and> slash ?base (pure r) = p"
  proof (cases "p = ?base")
    case True
    then have "r = ''.''" using assms p by (simp add: anchor_def Let_def)
    then show ?thesis using True stays_inside_text [of "[]"]
      by (simp add: dot path_text_def plain_names_def slash_def absolute_def)
  next
    case False
    then obtain q where q: "inside ?base p = Some q" "r = path_text q"
      using assms p by (auto simp: anchor_def Let_def split: option.splits)
    then show ?thesis
      using inside_Some [OF q(1) good] stays_inside_text [of "path_names q"] absolute_virtual by metis
  qed
  with p show "stays_inside r" "slash ?base (pure r) = fst (resolve_from d ?from env)" by auto
qed

lemma anchor_none: "anchor printable None file dir env what = (''.'', [])"
  by (simp add: anchor_def)

lemma anchor_stays_inside: "anchor printable d file dir env what = (r, []) \<Longrightarrow> stays_inside r"
  using anchor_inside(1) stays_inside_text(1) [of "[]"]
  by (cases d) (auto simp: anchor_none path_text_def plain_names_def)

section \<open>One place written from two files\<close>

lemma substitute_plain: "CHR ''$'' \<notin> set s \<Longrightarrow> substitute og env s = (s, [])"
proof (induction s)
  case (Cons c cs)
  then have "env_match (c # cs) = None" by (auto simp: env_match_def startswith_def)
  with Cons show ?case by simp
qed simp

lemma normalise_append:
  assumes "good_path p" "plain_names (path_names p)" "plain_names ps"
  shows "normalise (PurePath (path_root p) (path_names p @ ps)) = PurePath (path_root p) (path_names p @ ps)"
proof (cases "path_root p = []")
  case True
  with assms show ?thesis by (simp add: normalise_plain plain_good)
next
  case False
  let ?r = "path_root p" and ?ns = "path_names p @ ps"
  have "plain_names ?ns" using assms by (auto simp: plain_good)
  then have "collapse [?r] ?ns = ?r # ?ns" by (simp add: collapse_plain)
  moreover have "?r \<noteq> ''.''" "?r \<noteq> ''..''" "?r = ''/'' \<or> ?r = ''//''"
    using assms(1) False by (auto simp: good_path_def)
  ultimately show ?thesis
    using False by (auto simp: normalise_def path_parts_def from_parts_def)
qed

lemma anchor_named:
  assumes D: "plain_names (path_names (virtual D))" "good_path D"
    and decl: "parent (pure file) = slash D (PurePath [] ks)"
    and raw: "dp_raw d = path_text (PurePath [] ms)" "CHR ''$'' \<notin> set (dp_raw d)"
    and plain: "plain_names ks" "plain_names ms"
  shows "anchor printable (Some d) file D env what = (path_text (PurePath [] (ks @ ms)), [])"
proof -
  let ?V = "virtual D"
  have V: "good_path ?V" "absolute ?V" using D good_virtual absolute_virtual by auto
  have "virtual (slash D (PurePath [] ks)) = PurePath (path_root ?V) (path_names ?V @ ks)"
    by (cases D) (simp add: virtual_def slash_def absolute_def)
  then have start: "virtual (parent (pure file)) = PurePath (path_root ?V) (path_names ?V @ ks)"
    using decl by simp
  have parsed: "pure (dp_raw d) = PurePath [] ms"
    using raw(1) stays_inside_text(2) [OF plain(2)] by simp
  have both: "plain_names (ks @ ms)" using plain by (auto simp: plain_good)
  have place: "resolve_from d (virtual (parent (pure file))) env =
      (PurePath (path_root ?V) (path_names ?V @ ks @ ms), [])"
    using normalise_append [OF V(1) D(1) both] substitute_plain [OF raw(2)] start parsed
    by (simp add: resolve_from_def slash_def absolute_def)
  show ?thesis
  proof (cases "ks @ ms = []")
    case True
    then have "PurePath (path_root ?V) (path_names ?V @ ks @ ms) = ?V" by simp
    then show ?thesis using True place by (simp add: anchor_def Let_def path_text_def)
  next
    case False
    have "inside ?V (PurePath (path_root ?V) (path_names ?V @ ks @ ms)) = Some (PurePath [] (ks @ ms))"
      using both by (simp add: inside_def relative_to_def path_parts_def plain_good)
    moreover have "PurePath (path_root ?V) (path_names ?V @ ks @ ms) \<noteq> ?V"
      using False by (cases ?V) auto
    ultimately show ?thesis using place by (simp add: anchor_def Let_def)
  qed
qed

end
