(* ===== verification/Inline_Files.thy ===== *)
theory Inline_Files
  imports Composition_Facts
begin

text \<open>
  A component declared in the root document and one declared in its own file compose to the same
  component.  What is compared is every value with the layer that decided it; the origins say where
  a value was written, and that is what differs.
\<close>

section \<open>Forgetting where a value was written\<close>

definition erase :: "'a decided \<Rightarrow> 'a decided" where
  "erase d = \<lparr>dc_value = dc_value d, dc_origin = DEFAULTS_ORIGIN, dc_layer = dc_layer d\<rparr>"

definition said :: "'a sourced \<Rightarrow> 'a sourced" where
  "said s = \<lparr>so_value = so_value s, so_origin = DEFAULTS_ORIGIN\<rparr>"

definition said_glob :: "source_glob \<Rightarrow> source_glob" where
  "said_glob g = \<lparr>sg_raw = sg_raw g, sg_origin = DEFAULTS_ORIGIN\<rparr>"

definition said_executable :: "executable \<Rightarrow> executable" where
  "said_executable x = \<lparr>xb_raw = xb_raw x, xb_origin = DEFAULTS_ORIGIN\<rparr>"

definition said_check :: "check_setting \<Rightarrow> check_setting" where
  "said_check st =
     \<lparr>st_id = st_id st, st_enabled = map_option said (st_enabled st),
        st_required = map_option said (st_required st), st_origin = DEFAULTS_ORIGIN, st_exemptions = []\<rparr>"

definition said_python :: "python_settings \<Rightarrow> python_settings" where
  "said_python p =
     \<lparr>py_executable = map_option said_executable (py_executable p),
       py_type_provider = map_option said (py_type_provider p),
       py_test_tools = map_option said (py_test_tools p),
       py_test_paths = map said_glob (py_test_paths p), py_origin = DEFAULTS_ORIGIN\<rparr>"

text \<open>What a body says but its root, its external inputs and its integration cases.\<close>

definition said_body :: "component_body \<Rightarrow> component_body" where
  "said_body b =
     \<lparr>cb_id = map_option said (cb_id b), cb_root = None,
       cb_languages = map_option said (cb_languages b), cb_build = map_option said (cb_build b),
       cb_sources = map said_glob (cb_sources b), cb_include = map said_glob (cb_include b),
       cb_exclude = map said_glob (cb_exclude b),
       cb_python = map_option said_python (cb_python b), cb_cpp = None,
       cb_origin = DEFAULTS_ORIGIN, cb_checks = map said_check (cb_checks b),
       cb_needs = map_option said (cb_needs b), cb_vendor = map said_glob (cb_vendor b),
       cb_external = None, cb_integrations = []\<rparr>"

definition erase_check :: "effective_check \<Rightarrow> effective_check" where
  "erase_check k = k\<lparr>ef_enabled := erase (ef_enabled k), ef_required := erase (ef_required k)\<rparr>"

definition erase_component :: "eff_component \<Rightarrow> eff_component" where
  "erase_component c =
     c\<lparr>ec_root := erase (ec_root c), ec_languages := erase (ec_languages c),
       ec_checks := map erase_check (ec_checks c), ec_build := map_option erase (ec_build c),
       ec_needs := map_option erase (ec_needs c), ec_external := map_option erase (ec_external c),
       ec_declared_in := [], ec_python_executable := map_option erase (ec_python_executable c),
       ec_python_type_provider := map_option erase (ec_python_type_provider c)\<rparr>"

definition erase_config :: "eff_config \<Rightarrow> eff_config" where
  "erase_config config = config\<lparr>wc_components := map erase_component (wc_components config)\<rparr>"

section \<open>Checks\<close>

lemma erase_simps [simp]:
  "dc_value (erase d) = dc_value d" "dc_layer (erase d) = dc_layer d" "so_value (said s) = so_value s"
  by (simp_all add: erase_def said_def)

lemma erase_decide_from:
  "erase (decide_from d c l) = decide_from (erase d) (map_option said c) l"
  by (cases c) (auto simp: decide_from_def decide_def erase_def said_def)

lemma erase_adjust:
  "erase_check (fst (adjust cid base a rs)) = fst (adjust cid (erase_check base) (said_check a) rs)"
  "snd (adjust cid (erase_check base) (said_check a) rs) = [] \<longleftrightarrow> snd (adjust cid base a rs) = []"
  by (auto simp: adjust_def Let_def erase_check_def said_check_def erase_decide_from
      split: option.splits)

abbreviation erase_map :: "(string \<times> effective_check) list \<Rightarrow> (string \<times> effective_check) list" where
  "erase_map m \<equiv> map (\<lambda>(k, c). (k, erase_check c)) m"

lemma dict_set_erase: "erase_map (dict_set k c m) = dict_set k (erase_check c) (erase_map m)"
  by (induction m) auto

lemma map_of_erase: "map_of (erase_map m) k = map_option erase_check (map_of m k)"
  by (induction m) auto

lemma erase_fresh: "erase_check (fresh_check i) = fresh_check i"
  by (simp add: erase_check_def fresh_check_def erase_def default_enabled_def default_required_def)

lemma said_check_id [simp]: "st_id (said_check a) = st_id a"
  by (simp add: said_check_def)

lemma erase_check_id [simp]: "ef_id (erase_check k) = ef_id k"
  by (simp add: erase_check_def)

lemma erase_adjust_all:
  "(ps = [] \<longleftrightarrow> qs = []) \<Longrightarrow>
   erase_map (fst (adjust_all cid settings as (m, ps)))
     = fst (adjust_all cid settings (map said_check as) (erase_map m, qs))
   \<and> (snd (adjust_all cid settings as (m, ps)) = []
        \<longleftrightarrow> snd (adjust_all cid settings (map said_check as) (erase_map m, qs)) = [])"
proof (induction as arbitrary: m ps qs)
  case (Cons a as)
  define b where "b = (case map_of m (st_id a) of Some c \<Rightarrow> c | None \<Rightarrow> fresh_check (st_id a))"
  have b: "(case map_of (erase_map m) (st_id a) of Some c \<Rightarrow> c
      | None \<Rightarrow> fresh_check (st_id (said_check a))) = erase_check b"
    by (simp add: b_def map_of_erase erase_fresh split: option.split)
  obtain c xs where c: "adjust cid b a (map_of settings (st_id a)) = (c, xs)" by force
  obtain d ys where d: "adjust cid (erase_check b) (said_check a) (map_of settings (st_id a)) = (d, ys)"
    by force
  have "d = erase_check c" "ys = [] \<longleftrightarrow> xs = []"
    using erase_adjust [of cid b a "map_of settings (st_id a)"] c d by auto
  then show ?case
    using Cons.IH [of "ps @ xs" "qs @ ys" "dict_set (st_id a) c m"] Cons.prems
    by (simp add: Let_def b c d b_def [symmetric] dict_set_erase)
qed simp

lemma erase_dict_of: "dict_of ef_id (map erase_check ks) = erase_map (dict_of ef_id ks)"
proof -
  have "fold (\<lambda>x d. dict_set (ef_id x) x d) (map erase_check ks) (erase_map m)
      = erase_map (fold (\<lambda>x d. dict_set (ef_id x) x d) ks m)" for m
    by (induction ks arbitrary: m) (simp_all add: dict_set_erase [symmetric])
  from this [of "[]"] show ?thesis by (simp add: dict_of_def)
qed


lemma erase_component_checks:
  "map erase_check (fst (component_checks cid as roots ks))
     = fst (component_checks cid (map said_check as) roots (map erase_check ks))"
  "snd (component_checks cid as roots ks) = []
     \<longleftrightarrow> snd (component_checks cid (map said_check as) roots (map erase_check ks)) = []"
proof -
  define m where "m = fst (adjust_all cid (dict_of st_id roots) as (dict_of ef_id ks, []))"
  have all: "erase_map m = fst (adjust_all cid (dict_of st_id roots) (map said_check as)
        (dict_of ef_id (map erase_check ks), []))"
    "snd (adjust_all cid (dict_of st_id roots) as (dict_of ef_id ks, [])) = []
      \<longleftrightarrow> snd (adjust_all cid (dict_of st_id roots) (map said_check as)
            (dict_of ef_id (map erase_check ks), [])) = []"
    using erase_adjust_all [of "[]" "[]" cid "dict_of st_id roots" as "dict_of ef_id ks"]
    by (simp_all add: m_def erase_dict_of)
  have keys: "map fst (erase_map m) = map fst m" by (induction m) auto
  have "erase_check (the (map_of m k)) = the (map_of (erase_map m) k)" if "k \<in> set (map fst m)" for k
  proof -
    have "map_of m k \<noteq> None" using that by (simp add: map_of_eq_None_iff)
    then show ?thesis by (auto simp: map_of_erase)
  qed
  then have "map erase_check (map (\<lambda>k. the (map_of m k)) (sort (map fst m)))
      = map (\<lambda>k. the (map_of (erase_map m) k)) (sort (map fst (erase_map m)))"
    unfolding keys by simp
  with all show "map erase_check (fst (component_checks cid as roots ks))
     = fst (component_checks cid (map said_check as) roots (map erase_check ks))"
    "snd (component_checks cid as roots ks) = []
     \<longleftrightarrow> snd (component_checks cid (map said_check as) roots (map erase_check ks)) = []"
    by (simp_all add: component_checks_def Let_def split_beta m_def)
qed

section \<open>A component\<close>

lemma report_pair: "m = (fst m, snd m)"
  by simp

lemma said_value_or: "value_or x (map_option said s) = value_or x s"
  by (cases s) (auto simp: value_or_def)

lemma said_fields:
  assumes "said_body a = said_body b"
  shows "map_option said (cb_id a) = map_option said (cb_id b)"
    "map_option said (cb_languages a) = map_option said (cb_languages b)"
    "map_option said (cb_build a) = map_option said (cb_build b)"
    "map said_glob (cb_sources a) = map said_glob (cb_sources b)"
    "map said_glob (cb_include a) = map said_glob (cb_include b)"
    "map said_glob (cb_exclude a) = map said_glob (cb_exclude b)"
    "map said_glob (cb_vendor a) = map said_glob (cb_vendor b)"
    "map_option said_python (cb_python a) = map_option said_python (cb_python b)"
    "map said_check (cb_checks a) = map said_check (cb_checks b)"
    "map_option said (cb_needs a) = map_option said (cb_needs b)"
  using assms by (simp_all add: said_body_def)

lemma said_value:
  "map_option said s = map_option said t \<Longrightarrow> value_or x s = value_or x t"
  "map_option said s = map_option said t \<Longrightarrow>
     map_option erase (optional_at s l) = map_option erase (optional_at t l)"
  by (cases s; cases t; simp add: value_or_def said_def optional_at_def erase_def)+

lemma said_globs:
  "map said_glob gs = map said_glob hs \<Longrightarrow> globs_in r gs = globs_in r hs"
proof (induction gs arbitrary: hs)
  case (Cons g gs)
  then obtain h hs' where h: "hs = h # hs'" "said_glob g = said_glob h" by (cases hs) auto
  then have "sg_raw g = sg_raw h" by (cases g; cases h) (simp add: said_glob_def)
  then show ?case using Cons h by (simp add: globs_in_def resolve_glob_def)
qed (simp add: globs_in_def)

lemma said_test_paths:
  "map_option said_python p = map_option said_python q \<Longrightarrow>
     globs_in r (case p of Some s \<Rightarrow> py_test_paths s | None \<Rightarrow> [])
       = globs_in r (case q of Some s \<Rightarrow> py_test_paths s | None \<Rightarrow> [])"
  by (cases p; cases q) (auto simp: said_python_def intro: said_globs)

definition interpreter_on_path :: "component_body \<Rightarrow> bool" where
  "interpreter_on_path b =
     (case Option.bind (cb_python b) py_executable of None \<Rightarrow> True | Some x \<Rightarrow> searches_path x)"

lemma said_chosen:
  assumes "map_option said_python p = map_option said_python q"
  shows "map_option xb_raw (Option.bind p py_executable) = map_option xb_raw (Option.bind q py_executable)"
    "map_option so_value (Option.bind p py_type_provider) = map_option so_value (Option.bind q py_type_provider)"
proof -
  have raw: "map_option xb_raw (map_option said_executable x) = map_option xb_raw x" for x
    by (cases x) (auto simp: said_executable_def)
  have val: "map_option so_value (map_option said x) = map_option so_value x" for x :: "string sourced option"
    by (cases x) auto
  show "map_option xb_raw (Option.bind p py_executable) = map_option xb_raw (Option.bind q py_executable)"
    using assms raw by (cases p; cases q; simp add: said_python_def) metis
  show "map_option so_value (Option.bind p py_type_provider) = map_option so_value (Option.bind q py_type_provider)"
    using assms val by (cases p; cases q; simp add: said_python_def) metis
qed

lemma same_executable:
  assumes "map_option said_python (cb_python a) = map_option said_python (cb_python b)"
    and "interpreter_on_path a" "interpreter_on_path b"
  shows "map_option erase (fst (python_executable i a ov D env))
      = map_option erase (fst (python_executable i b ov D env))"
    "snd (python_executable i a ov D env) = snd (python_executable i b ov D env)"
proof -
  have raw: "map_option xb_raw (Option.bind (cb_python a) py_executable)
      = map_option xb_raw (Option.bind (cb_python b) py_executable)"
    using said_chosen(1) [OF assms(1)] .
  then show "map_option erase (fst (python_executable i a ov D env))
      = map_option erase (fst (python_executable i b ov D env))"
    "snd (python_executable i a ov D env) = snd (python_executable i b ov D env)"
    using assms(2,3)
    by (cases "Option.bind (cb_python a) py_executable"; cases "Option.bind (cb_python b) py_executable";
        auto simp: python_executable_def Let_def interpreter_on_path_def interpreter_def erase_def
          split: option.splits)+
qed

lemma same_provider:
  assumes "map_option said_python (cb_python a) = map_option said_python (cb_python b)"
  shows "map_option erase (fst (python_type_provider i a ov)) = map_option erase (fst (python_type_provider i b ov))"
    "snd (python_type_provider i a ov) = [] \<longleftrightarrow> snd (python_type_provider i b ov) = []"
  using said_chosen(2) [OF assms]
  by (cases "Option.bind (cb_python a) py_type_provider"; cases "Option.bind (cb_python b) py_type_provider";
      auto simp: python_type_provider_def Let_def erase_def split: option.splits)+

lemma same_incomplete:
  assumes "said_body a = said_body b" "cb_root a \<noteq> None" "cb_root b \<noteq> None"
  shows "incomplete i a = [] \<longleftrightarrow> incomplete i b = []"
proof -
  have "cb_languages a = None \<longleftrightarrow> cb_languages b = None"
    using said_fields(2) [OF assms(1)] by (metis map_option_is_None)
  then show ?thesis using assms(2,3) by (auto simp: incomplete_def report_if_def)
qed

lemma compose_component_fst:
  "fst (compose_component printable body file roots ks ov i D env) =
     \<lparr>ec_id = component_id_of i body,
      ec_root = \<lparr>dc_value = fst (anchor printable (cb_root body) file D env ''component root''),
        dc_origin = (case cb_root body of Some d \<Rightarrow> dp_origin d | None \<Rightarrow> cb_origin body),
        dc_layer = L_COMPONENT\<rparr>,
      ec_languages = \<lparr>dc_value = value_or [] (cb_languages body),
        dc_origin = (case cb_languages body of Some l \<Rightarrow> so_origin l | None \<Rightarrow> cb_origin body),
        dc_layer = L_COMPONENT\<rparr>,
      ec_checks = fst (component_checks (component_id_of i body) (cb_checks body) roots ks),
      ec_build = optional_at (cb_build body) L_COMPONENT,
      ec_sources = globs_in (fst (anchor printable (cb_root body) file D env ''component root'')) (cb_sources body),
      ec_include = globs_in (fst (anchor printable (cb_root body) file D env ''component root'')) (cb_include body),
      ec_exclude = globs_in (fst (anchor printable (cb_root body) file D env ''component root'')) (cb_exclude body),
      ec_vendor = globs_in (fst (anchor printable (cb_root body) file D env ''component root'')) (cb_vendor body),
      ec_test_paths = globs_in (fst (anchor printable (cb_root body) file D env ''component root''))
        (case cb_python body of Some p \<Rightarrow> py_test_paths p | None \<Rightarrow> []),
      ec_needs = optional_at (cb_needs body) L_COMPONENT,
      ec_external = fst (external_inputs body file D env), ec_declared_in = file,
      ec_python_executable = fst (python_executable (component_id_of i body) body ov D env),
      ec_python_type_provider = fst (python_type_provider (component_id_of i body) body ov),
      ec_integrations = fst (compose_cases printable file D env (cb_integrations body))\<rparr>"
  by (simp add: compose_component_def Let_def)

lemma compose_component_snd:
  "snd (compose_component printable body file roots ks ov i D env) =
     incomplete (component_id_of i body) body
     @ snd (anchor printable (cb_root body) file D env ''component root'')
     @ snd (component_checks (component_id_of i body) (cb_checks body) roots ks)
     @ snd (external_inputs body file D env)
     @ snd (python_executable (component_id_of i body) body ov D env)
     @ snd (python_type_provider (component_id_of i body) body ov)
     @ snd (compose_cases printable file D env (cb_integrations body))"
  by (simp add: compose_component_def Let_def)

lemma same_component:
  assumes same: "said_body a = said_body b"
    and placed: "anchor printable (cb_root a) file_a D env ''component root'' = (r, [])"
      "anchor printable (cb_root b) file_b D env ''component root'' = (r, [])"
      "cb_root a \<noteq> None" "cb_root b \<noteq> None"
    and plain: "interpreter_on_path a" "interpreter_on_path b" "cb_external a = None"
      "cb_external b = None" "cb_integrations a = []" "cb_integrations b = []"
  shows "erase_component (fst (compose_component printable a file_a roots ks ov i D env))
      = erase_component (fst (compose_component printable b file_b roots ks ov i D env))"
    and "snd (compose_component printable a file_a roots ks ov i D env) = []
      \<longleftrightarrow> snd (compose_component printable b file_b roots ks ov i D env) = []"
proof -
  note f = said_fields [OF same]
  have ids: "component_id_of i a = component_id_of i b"
    using said_value(1) [OF f(1), of "[]"] by (simp add: component_id_of_def split: option.split)
  let ?i = "component_id_of i b"
  have checks: "map erase_check (fst (component_checks ?i (cb_checks a) roots ks))
      = map erase_check (fst (component_checks ?i (cb_checks b) roots ks))"
    "snd (component_checks ?i (cb_checks a) roots ks) = []
      \<longleftrightarrow> snd (component_checks ?i (cb_checks b) roots ks) = []"
    using erase_component_checks [of ?i "cb_checks a" roots ks]
      erase_component_checks [of ?i "cb_checks b" roots ks] f(9) by simp_all
  have langs: "value_or [] (cb_languages a) = value_or [] (cb_languages b)"
    by (rule said_value(1) [OF f(2)])
  show "erase_component (fst (compose_component printable a file_a roots ks ov i D env))
      = erase_component (fst (compose_component printable b file_b roots ks ov i D env))"
    using checks(1) same_executable(1) [OF f(8) plain(1,2)] same_provider(1) [OF f(8)]
      said_value(2) [OF f(3)] said_value(2) [OF f(10)] said_globs [OF f(4)] said_globs [OF f(5)]
      said_globs [OF f(6)] said_globs [OF f(7)] said_test_paths [OF f(8)]
    by (simp add: compose_component_fst erase_component_def ids placed langs plain external_inputs_def
        erase_def [of "\<lparr>dc_value = _, dc_origin = _, dc_layer = _\<rparr>"])
  show "snd (compose_component printable a file_a roots ks ov i D env) = []
      \<longleftrightarrow> snd (compose_component printable b file_b roots ks ov i D env) = []"
    using checks(2) same_incomplete [OF same placed(3,4)] same_executable(2) [OF f(8) plain(1,2)]
      same_provider(2) [OF f(8)]
    by (simp add: compose_component_snd ids placed plain external_inputs_def)
qed

end
