(* ===== verification/Composition_Samples.thy ===== *)
theory Composition_Samples
  imports Components
begin

text \<open>
  A workspace for the witnesses: one build, one component declared inline or in a file of its own,
  one check the root requires.
\<close>

definition at_root :: "string \<Rightarrow> origin" where
  "at_root key = \<lparr>og_file = ''/repo/ici.toml'', og_key = key\<rparr>"

definition at_child :: "string \<Rightarrow> origin" where
  "at_child key = \<lparr>og_file = ''/repo/libs/core/ici.toml'', og_key = key\<rparr>"

definition core_body :: "(string \<Rightarrow> origin) \<Rightarrow> string \<Rightarrow> string sourced option \<Rightarrow> component_body" where
  "core_body here where_at i =
     \<lparr>cb_id = i, cb_root = Some \<lparr>dp_raw = where_at, dp_origin = here ''root''\<rparr>,
      cb_languages = Some \<lparr>so_value = [''python''], so_origin = here ''languages''\<rparr>, cb_build = None,
      cb_sources = [\<lparr>sg_raw = ''**/*.py'', sg_origin = here ''sources''\<rparr>], cb_include = [], cb_exclude = [],
      cb_python = Some \<lparr>py_executable = Some \<lparr>xb_raw = ''python3'', xb_origin = here ''python''\<rparr>,
        py_type_provider = None, py_test_tools = None, py_test_paths = [], py_origin = here ''python''\<rparr>,
      cb_cpp = None, cb_origin = here [],
      cb_checks = [\<lparr>st_id = ''lint'', st_enabled = None,
        st_required = Some \<lparr>so_value = True, so_origin = here ''checks''\<rparr>, st_origin = here ''checks'',
        st_exemptions = []\<rparr>],
      cb_needs = None, cb_vendor = [], cb_external = None, cb_integrations = []\<rparr>"

definition core_id :: "string sourced" where
  "core_id = \<lparr>so_value = ''core'', so_origin = at_root ''id''\<rparr>"

definition inline_core :: component_body where
  "inline_core = core_body at_root ''libs/core'' (Some core_id)"

definition core_reference :: component_reference where
  "core_reference = \<lparr>cx_id = core_id,
     cx_config = \<lparr>dp_raw = ''libs/core/ici.toml'', dp_origin = at_root ''config''\<rparr>,
     cx_origin = at_root ''components''\<rparr>"

definition core_document :: component_document where
  "core_document = \<lparr>cd_path = ''/repo/libs/core/ici.toml'',
     cd_schema_version = \<lparr>so_value = 2, so_origin = at_child ''schema''\<rparr>,
     cd_component = core_body at_child ''.'' None\<rparr>"

definition required_lint :: check_setting where
  "required_lint = \<lparr>st_id = ''lint'', st_enabled = None,
     st_required = Some \<lparr>so_value = True, so_origin = at_root ''checks.lint''\<rparr>,
     st_origin = at_root ''checks.lint'', st_exemptions = []\<rparr>"

definition cmake_build :: build_declaration where
  "cmake_build = \<lparr>bn_id = ''main'', bn_system = None, bn_project = None,
     bn_directory = Some \<lparr>dp_raw = ''out/../build'', dp_origin = at_root ''builds.main''\<rparr>,
     bn_variant = None, bn_prepare = None, bn_artifacts = [], bn_origin = at_root ''builds.main''\<rparr>"

definition sample_root :: "component_entry list \<Rightarrow> root_document" where
  "sample_root entries = \<lparr>rd_path = ''/repo/ici.toml'',
     rd_schema_version = \<lparr>so_value = 2, so_origin = at_root ''schema''\<rparr>,
     rd_workspace = \<lparr>wt_name = None, wt_profile = None, wt_origin = at_root ''workspace''\<rparr>,
     rd_checks = [required_lint], rd_tools = [], rd_builds = [cmake_build], rd_components = entries,
     rd_suppressions = [], rd_publish = None\<rparr>"

definition sample_children :: "(string \<times> component_document) list" where
  "sample_children = [(''core'', core_document)]"

definition moved_build :: overlay where
  "moved_build = [(''builds.main.directory'', \<lparr>so_value = ''fast/build'', so_origin = at_root ''local''\<rparr>)]"

definition sample_config :: "overlay \<Rightarrow> eff_config" where
  "sample_config overlay =
     projr (compose (\<lambda>p. True) (sample_root [Inline inline_core]) [] overlay (\<lambda>name. None))"

lemma sample_composed:
  "compose (\<lambda>p. True) (sample_root [Inline inline_core]) [] [] (\<lambda>name. None) = Inr (sample_config [])"
  "compose (\<lambda>p. True) (sample_root [Inline inline_core]) [] moved_build (\<lambda>name. None)
     = Inr (sample_config moved_build)"
  by code_simp+

lemma sample_values:
  "map (dc_value \<circ> ec_root) (wc_components (sample_config [])) = [''libs/core'']"
  "map (map_option dc_value \<circ> eb_directory) (wc_builds (sample_config [])) = [Some ''build'']"
  "map (map_option dc_value \<circ> eb_directory) (wc_builds (sample_config moved_build)) = [Some ''fast/build'']"
  "map ec_id (wc_components (sample_config [])) = [''core'']"
  by code_simp+

end
