(* ===== verification/Composition_Properties.thy ===== *)
theory Composition_Properties
  imports Inline_Files Composition_Samples
begin

text \<open>
  The properties of composition as a whole: where a component is stored does not matter, a
  requirement of the root survives, a composed path stays inside the workspace, and a local overlay
  moves paths and nothing else.
\<close>

section \<open>What a composed configuration is made of\<close>

definition composed_builds ::
    "(string \<Rightarrow> bool) \<Rightarrow> root_document \<Rightarrow> overlay \<Rightarrow> (string \<Rightarrow> string option) \<Rightarrow> eff_build reported list" where
  "composed_builds printable doc overlay env =
     map (compose_build printable (parent (pure (rd_path doc))) overlay env) (rd_builds doc)"

definition composed_components ::
    "(string \<Rightarrow> bool) \<Rightarrow> root_document \<Rightarrow> (string \<times> component_document) list \<Rightarrow> overlay
     \<Rightarrow> (string \<Rightarrow> string option) \<Rightarrow> eff_component reported list" where
  "composed_components printable doc children overlay env =
     map (\<lambda>(body, declared_in).
       compose_component printable body declared_in (rd_checks doc) (map workspace_check (rd_checks doc))
         overlay None (parent (pure (rd_path doc))) env) (fst (bodies doc children))"

lemma compose_parts_eq:
  "compose_parts printable doc children overlay env =
     ((map fst (composed_builds printable doc overlay env),
       map fst (composed_components printable doc children overlay env)),
      concat (map snd (composed_builds printable doc overlay env)) @ snd (bodies doc children)
      @ concat (map snd (composed_components printable doc children overlay env)))"
  by (rule prod_eqI)
    (simp_all add: compose_parts_def Let_def composed_builds_def composed_components_def comp_def
      case_prod_unfold)

lemma compose_Inr:
  "compose printable doc children overlay env = Inr config \<longleftrightarrow>
     (\<forall>b \<in> set (composed_builds printable doc overlay env). snd b = [])
     \<and> snd (bodies doc children) = []
     \<and> (\<forall>c \<in> set (composed_components printable doc children overlay env). snd c = [])
     \<and> config =
        \<lparr>wc_workspace_name = optional_at (wt_name (rd_workspace doc)) L_ROOT,
         wc_profile = optional_at (wt_profile (rd_workspace doc)) L_ROOT,
         wc_checks = map workspace_check (rd_checks doc),
         wc_components = map fst (composed_components printable doc children overlay env),
         wc_builds = map fst (composed_builds printable doc overlay env),
         wc_suppressions = compose_suppressions doc,
         wc_publish = compose_publish (rd_publish doc), wc_scope_kind = FULL\<rparr>"
  by (auto simp: compose_def compose_parts_eq)

lemma composed_component:
  assumes "compose printable doc children overlay env = Inr config" "c \<in> set (wc_components config)"
  obtains body path where "compose_component printable body path (rd_checks doc)
    (map workspace_check (rd_checks doc)) overlay None (parent (pure (rd_path doc))) env = (c, [])"
proof -
  from assms obtain k where "k \<in> set (composed_components printable doc children overlay env)"
      "fst k = c" "snd k = []" unfolding compose_Inr by auto
  moreover from this have "k = (c, [])" by (simp add: prod_eq_iff)
  ultimately show ?thesis using that by (auto simp: composed_components_def)
qed

section \<open>Requirements\<close>

text \<open>C11: a requirement of the root survives composition: in a configuration composed without a problem,
  every component still requires each check the root requires, or the root exempted it by name.\<close>

theorem required_stays_required:
  assumes "compose printable doc children overlay env = Inr config"
    and "distinct (map st_id (rd_checks doc))" "st \<in> set (rd_checks doc)"
    and "dc_value (ef_required (workspace_check st))"
    and "c \<in> set (wc_components config)"
  shows "\<exists>k \<in> set (ec_checks c). ef_id k = st_id st \<and>
    (dc_value (ef_required k) \<or> exemption_for st (ec_id c) \<noteq> None)"
proof -
  obtain body path where c: "compose_component printable body path (rd_checks doc)
      (map workspace_check (rd_checks doc)) overlay None (parent (pure (rd_path doc))) env = (c, [])"
    using composed_component assms(1,5) .
  let ?i = "component_id_of None body"
  have "snd (component_checks ?i (cb_checks body) (rd_checks doc) (map workspace_check (rd_checks doc))) = []"
    using arg_cong [OF c, of snd] by (simp add: compose_component_snd)
  moreover have "ec_checks c = fst (component_checks ?i (cb_checks body) (rd_checks doc)
      (map workspace_check (rd_checks doc)))" "ec_id c = ?i"
    using arg_cong [OF c, of fst] by (auto simp: compose_component_fst)
  ultimately have "component_checks (ec_id c) (cb_checks body) (rd_checks doc)
      (map workspace_check (rd_checks doc)) = (ec_checks c, [])" by (simp add: prod_eq_iff)
  then show ?thesis using component_checks_required assms(2-4) by blast
qed

theorem required_stays_required_witness:
  "\<exists>k \<in> set (ec_checks (hd (wc_components (sample_config [])))). ef_id k = ''lint'' \<and>
    (dc_value (ef_required k) \<or> exemption_for required_lint ''core'' \<noteq> None)"
proof -
  have "hd (wc_components (sample_config [])) \<in> set (wc_components (sample_config []))"
      "ec_id (hd (wc_components (sample_config []))) = ''core''"
    using sample_values(4) by (cases "wc_components (sample_config [])"; auto)+
  moreover have "dc_value (ef_required (workspace_check required_lint))" by code_simp
  ultimately show ?thesis
    using required_stays_required [OF sample_composed(1), of required_lint
        "hd (wc_components (sample_config []))"]
    by (simp add: sample_root_def required_lint_def)
qed

section \<open>Paths stay inside\<close>

lemma anchored_inside:
  "snd (anchor printable d path D env what) = [] \<Longrightarrow> stays_inside (fst (anchor printable d path D env what))"
  by (metis anchor_stays_inside prod.collapse)

lemma build_path_inside:
  "snd (build_path printable d v path D env what) = [] \<Longrightarrow>
     pred_option (\<lambda>d. stays_inside (dc_value d)) (fst (build_path printable d v path D env what))"
  by (auto simp: build_path_def Let_def anchored_inside split: option.splits)

lemma compose_case_outputs:
  assumes "compose_case printable c name argv path D env = (k, [])" "o' \<in> set (ek_output_artifacts k)"
  shows "stays_inside (eo_path o')"
proof -
  let ?os = "compose_outputs printable name c path D env"
  have "snd ?os = []" using arg_cong [OF assms(1), of snd] by (simp add: compose_case_def)
  moreover have "ek_output_artifacts k = fst ?os"
    using arg_cong [OF assms(1), of fst] by (auto simp: compose_case_def)
  ultimately show ?thesis
    using assms(2) by (auto simp: compose_outputs_def anchored_inside)
qed

lemma compose_cases_outputs:
  "compose_cases printable path D env cs = (ks, []) \<Longrightarrow> k \<in> set ks \<Longrightarrow> o' \<in> set (ek_output_artifacts k)
    \<Longrightarrow> stays_inside (eo_path o')"
proof (induction cs arbitrary: ks)
  case (Cons c cs)
  show ?case
  proof (cases "ic_name c = None \<or> ic_argv c = None")
    case True
    then show ?thesis using Cons by (auto split: option.splits)
  next
    case False
    then obtain n a where na: "ic_name c = Some n" "ic_argv c = Some a" by auto
    let ?c = "compose_case printable c (so_value n) (so_value a) path D env"
      and ?cs = "compose_cases printable path D env cs"
    have "snd ?c = []" "snd ?cs = []" "ks = fst ?c # fst ?cs"
      using Cons.prems(1) na by (auto simp: prod_eq_iff)
    then have "k = fst ?c \<or> k \<in> set (fst ?cs)" "?c = (fst ?c, [])" "?cs = (fst ?cs, [])"
      using Cons.prems(2) by (auto simp: prod_eq_iff)
    then show ?thesis using compose_case_outputs Cons.IH Cons.prems(3) by metis
  qed
qed simp

lemma composed_component_inside:
  assumes "compose_component printable body path roots ks ov i D env = (c, [])"
  shows "stays_inside (dc_value (ec_root c))"
    and "list_all (\<lambda>k. list_all (\<lambda>a. stays_inside (eo_path a)) (ek_output_artifacts k)) (ec_integrations c)"
proof -
  let ?a = "anchor printable (cb_root body) path D env ''component root''"
    and ?k = "compose_cases printable path D env (cb_integrations body)"
  have "snd ?a = []" "snd ?k = []"
    using arg_cong [OF assms, of snd] by (simp_all add: compose_component_snd)
  then have quiet: "?a = (fst ?a, [])" "?k = (fst ?k, [])" by (simp_all add: prod_eq_iff)
  have c: "dc_value (ec_root c) = fst ?a" "ec_integrations c = fst ?k"
    using arg_cong [OF assms, of fst] by (auto simp: compose_component_fst)
  show "stays_inside (dc_value (ec_root c))" unfolding c(1) by (rule anchor_stays_inside [OF quiet(1)])
  show "list_all (\<lambda>k. list_all (\<lambda>a. stays_inside (eo_path a)) (ek_output_artifacts k)) (ec_integrations c)"
    using compose_cases_outputs [OF quiet(2)] by (simp add: c(2) list_all_iff)
qed

lemma composed_build_inside:
  assumes "compose_build printable D ov env b = (e, [])"
  shows "pred_option (\<lambda>d. stays_inside (dc_value d)) (eb_directory e)"
    "pred_option (\<lambda>d. stays_inside (dc_value d)) (eb_definition e)"
proof -
  let ?d = "build_path printable (bn_directory b) (map_of ov (''builds.'' @ bn_id b @ ''.directory''))
      (og_file (bn_origin b)) D env ''build directory''"
    and ?p = "build_path printable (bn_project b) (map_of ov (''builds.'' @ bn_id b @ ''.project''))
      (og_file (bn_origin b)) D env ''build project''"
  have "snd ?d = []" "snd ?p = []"
    using arg_cong [OF assms, of snd] by (simp_all add: compose_build_def)
  moreover have "eb_directory e = fst ?d" "eb_definition e = fst ?p"
    using arg_cong [OF assms, of fst] by (auto simp: compose_build_def)
  ultimately show "pred_option (\<lambda>d. stays_inside (dc_value d)) (eb_directory e)"
    "pred_option (\<lambda>d. stays_inside (dc_value d)) (eb_definition e)"
    using build_path_inside by metis+
qed

lemma composed_build:
  assumes "compose printable doc children overlay env = Inr config" "e \<in> set (wc_builds config)"
  obtains b where "b \<in> set (rd_builds doc)"
    "compose_build printable (parent (pure (rd_path doc))) overlay env b = (e, [])"
proof -
  from assms obtain k where "k \<in> set (composed_builds printable doc overlay env)"
      "fst k = e" "snd k = []" unfolding compose_Inr by auto
  moreover from this have "k = (e, [])" by (simp add: prod_eq_iff)
  ultimately show ?thesis using that by (auto simp: composed_builds_def)
qed

text \<open>C12: in a configuration composed without a problem, the root of every component, every directory and
  project of a build and every output an integration case claims is a canonical text that names a
  place inside the workspace: relative, without a parent step, and a fixed point of normalisation.\<close>

theorem composed_paths_stay_inside:
  assumes "compose printable doc children overlay env = Inr config"
  shows "list_all (\<lambda>c. stays_inside (dc_value (ec_root c))
      \<and> list_all (\<lambda>k. list_all (\<lambda>a. stays_inside (eo_path a)) (ek_output_artifacts k)) (ec_integrations c))
      (wc_components config)
    \<and> list_all (\<lambda>b. pred_option (\<lambda>d. stays_inside (dc_value d)) (eb_directory b)
      \<and> pred_option (\<lambda>d. stays_inside (dc_value d)) (eb_definition b)) (wc_builds config)"
  using composed_component [OF assms] composed_build [OF assms] composed_component_inside
    composed_build_inside unfolding list_all_iff by metis

theorem composed_paths_stay_inside_witness:
  "stays_inside ''libs/core'' \<and> stays_inside ''build''"
  using composed_paths_stay_inside [OF sample_composed(1)] sample_values(1,2)
  by (auto simp: list_all_iff)

section \<open>Overlays and environments\<close>

text \<open>What is left of a configuration without what a local overlay may set.\<close>

definition unmoved :: "eff_config \<Rightarrow> eff_config" where
  "unmoved config =
     config\<lparr>wc_builds := map (\<lambda>b. b\<lparr>eb_directory := None, eb_definition := None\<rparr>) (wc_builds config),
       wc_components := map (\<lambda>c. c\<lparr>ec_python_executable := None, ec_python_type_provider := None\<rparr>)
         (wc_components config)\<rparr>"

text \<open>C13: a local overlay moves the directory and the project of a build and the interpreter and the
  checker of a component, and nothing else: two compositions of the same documents under different
  overlays agree on every other value.\<close>

theorem overlay_moves_only:
  assumes "compose printable doc children overlay env = Inr config"
    and "compose printable doc children overlay' env = Inr config'"
  shows "unmoved config = unmoved config'"
proof -
  have builds: "map (\<lambda>b. b\<lparr>eb_directory := None, eb_definition := None\<rparr>)
        (map fst (composed_builds printable doc overlay env))
      = map (\<lambda>b. b\<lparr>eb_directory := None, eb_definition := None\<rparr>)
        (map fst (composed_builds printable doc overlay' env))"
    by (simp add: composed_builds_def compose_build_def)
  have components: "map (\<lambda>c. c\<lparr>ec_python_executable := None, ec_python_type_provider := None\<rparr>)
        (map fst (composed_components printable doc children overlay env))
      = map (\<lambda>c. c\<lparr>ec_python_executable := None, ec_python_type_provider := None\<rparr>)
        (map fst (composed_components printable doc children overlay' env))"
    by (simp add: composed_components_def compose_component_fst split_beta)
  show ?thesis
    using assms builds components unfolding compose_Inr unmoved_def by simp
qed

theorem overlay_moves_only_witness:
  "unmoved (sample_config []) = unmoved (sample_config moved_build)"
  by (rule overlay_moves_only [OF sample_composed])

lemma same_policy_checks:
  "map (\<lambda>c. (ec_id c, dc_value (ec_languages c), ec_checks c))
      (map fst (composed_components printable doc children overlay env))
   = map (\<lambda>c. (ec_id c, dc_value (ec_languages c), ec_checks c))
      (map fst (composed_components printable doc children overlay' env'))"
  by (simp add: composed_components_def compose_component_fst split_beta)

lemma policy_payload_cong:
  assumes "wc_checks a = wc_checks b" "wc_suppressions a = wc_suppressions b"
    and "map (\<lambda>c. (ec_id c, dc_value (ec_languages c), ec_checks c)) (wc_components a)
      = map (\<lambda>c. (ec_id c, dc_value (ec_languages c), ec_checks c)) (wc_components b)"
  shows "policy_payload a = policy_payload b"
proof -
  let ?f = "\<lambda>(i, ls, ks). PDict [(''id'', PStr i), (''languages'', PList (map PStr ls)),
      (''checks'', PList (map policy_check ks))]"
  have "map ?f (map (\<lambda>c. (ec_id c, dc_value (ec_languages c), ec_checks c)) (wc_components a))
      = map ?f (map (\<lambda>c. (ec_id c, dc_value (ec_languages c), ec_checks c)) (wc_components b))"
    using assms(3) by simp
  then show ?thesis using assms(1,2) by (simp add: policy_payload_def comp_def)
qed

text \<open>the digest of the policy does not depend on the machine: neither the local overlay nor the
  environment that fills in the declared paths changes it.\<close>

theorem policy_ignores_the_machine:
  assumes "compose printable doc children overlay env = Inr config"
    and "compose printable doc children overlay' env' = Inr config'"
  shows "policy_digest sha config = policy_digest sha config'"
proof -
  have "policy_payload config = policy_payload config'"
    by (rule policy_payload_cong)
      (use assms same_policy_checks [of printable doc children overlay env overlay' env'] in
        \<open>auto simp: compose_Inr\<close>)
  then show ?thesis by (simp add: policy_digest_def)
qed

theorem policy_ignores_the_machine_witness:
  "policy_digest (\<lambda>t. ''0'') (sample_config []) = policy_digest (\<lambda>t. ''0'') (sample_config moved_build)"
  by (rule policy_ignores_the_machine [OF sample_composed])

section \<open>Where a component is stored\<close>

text \<open>
  A component moved from the root document to a file of its own: below the directory of the root by
  the names \<open>ns\<close>, with the root ''.'', and otherwise saying what the inline body says.  The body has
  no external input and no integration case, and its interpreter is looked up on the path, since
  those are anchored to the file that declares them.
\<close>

definition moved_to_file ::
    "root_document \<Rightarrow> component_body \<Rightarrow> component_reference \<Rightarrow> component_document \<Rightarrow> string list \<Rightarrow> bool" where
  "moved_to_file doc body reference child ns =
     (let D = parent (pure (rd_path doc)); moved = cd_component child in
      plain_names (path_names (virtual D)) \<and> plain_names ns
      \<and> parent (pure (cd_path child)) = slash D (PurePath [] ns)
      \<and> map_option dp_raw (cb_root body) = Some (path_text (PurePath [] ns))
      \<and> CHR ''$'' \<notin> set (path_text (PurePath [] ns))
      \<and> map_option dp_raw (cb_root moved) = Some ''.''
      \<and> said_body (moved\<lparr>cb_id := Some (cx_id reference)\<rparr>) = said_body body
      \<and> interpreter_on_path body \<and> interpreter_on_path moved
      \<and> cb_external body = None \<and> cb_external moved = None
      \<and> cb_integrations body = [] \<and> cb_integrations moved = [])"

lemma moved_component:
  assumes moved: "moved_to_file doc body reference child ns"
  defines "D \<equiv> parent (pure (rd_path doc))"
    and "body' \<equiv> (cd_component child)\<lparr>cb_id := Some (cx_id reference)\<rparr>"
  shows "erase_component (fst (compose_component printable body (rd_path doc) roots ks ov i D env))
      = erase_component (fst (compose_component printable body' (cd_path child) roots ks ov i D env))"
    and "snd (compose_component printable body (rd_path doc) roots ks ov i D env) = []
      \<longleftrightarrow> snd (compose_component printable body' (cd_path child) roots ks ov i D env) = []"
proof -
  note m = moved [unfolded moved_to_file_def Let_def, folded D_def body'_def]
  obtain d e where roots: "cb_root body = Some d" "dp_raw d = path_text (PurePath [] ns)"
      "cb_root body' = Some e" "dp_raw e = ''.''"
    using m by (auto simp: body'_def)
  have good: "good_path D" unfolding D_def by (intro good_parent good_pure)
  have self: "slash D (PurePath [] []) = D" by (cases D) (simp add: slash_def absolute_def)
  have dot: "dp_raw e = path_text (PurePath [] [])" "CHR ''$'' \<notin> set (dp_raw e)"
    using roots(4) by (simp_all add: path_text_def)
  have "anchor printable (Some d) (rd_path doc) D env ''component root''
      = (path_text (PurePath [] ([] @ ns)), [])"
    by (rule anchor_named) (use m roots good self in \<open>simp_all add: D_def plain_names_def\<close>)
  moreover have "anchor printable (Some e) (cd_path child) D env ''component root''
      = (path_text (PurePath [] (ns @ [])), [])"
    by (rule anchor_named [OF _ good _ dot]) (use m in \<open>simp_all add: plain_names_def\<close>)
  ultimately have places: "anchor printable (cb_root body) (rd_path doc) D env ''component root''
        = (path_text (PurePath [] ns), [])"
      "anchor printable (cb_root body') (cd_path child) D env ''component root''
        = (path_text (PurePath [] ns), [])"
    using roots by simp_all
  have same: "said_body body = said_body body'" using m by simp
  have rest: "cb_root body \<noteq> None" "cb_root body' \<noteq> None" "interpreter_on_path body"
      "interpreter_on_path body'" "cb_external body = None" "cb_external body' = None"
      "cb_integrations body = []" "cb_integrations body' = []"
    using m roots by (simp_all add: body'_def interpreter_on_path_def)
  note sc = same_component [OF same places rest]
  show "erase_component (fst (compose_component printable body (rd_path doc) roots ks ov i D env))
      = erase_component (fst (compose_component printable body' (cd_path child) roots ks ov i D env))"
    by (rule sc(1))
  show "snd (compose_component printable body (rd_path doc) roots ks ov i D env) = []
      \<longleftrightarrow> snd (compose_component printable body' (cd_path child) roots ks ov i D env) = []"
    by (rule sc(2))
qed

text \<open>The bodies of a document, one entry after the other.\<close>

definition entry_bodies ::
    "root_document \<Rightarrow> (string \<times> component_document) list \<Rightarrow> component_entry
     \<Rightarrow> (component_body \<times> string) list reported" where
  "entry_bodies doc children entry =
     (case entry of Reference r \<Rightarrow> follow children r | Inline body \<Rightarrow> ([(body, rd_path doc)], []))"

lemma bodies_eq:
  "bodies doc children =
     (concat (map (\<lambda>e. fst (entry_bodies doc children e)) (rd_components doc)),
      concat (map (\<lambda>e. snd (entry_bodies doc children e)) (rd_components doc)))"
  by (rule prod_eqI) (simp_all add: bodies_def entry_bodies_def)



end
