(* ===== verification/Filesystem.thy ===== *)
theory Filesystem
  imports Paths
begin

text \<open>
  What the execution modules ask of a POSIX file system: directories, files and symbolic links,
  with the resolution of links, and the calls that change it.  A place is the list of names below
  the root directory.  \<open>links\<close> bounds the links one resolution follows.
\<close>

section \<open>Nodes and resolution\<close>

type_synonym place = "string list"

datatype node = File (file_bytes: string) | Dir | Link string

type_synonym filesys = "place \<Rightarrow> node option"

definition node_at :: "filesys \<Rightarrow> place \<Rightarrow> node option" where
  "node_at fs p = (if p = [] then Some Dir else fs p)"

text \<open>
  Resolution of the names \<open>ps\<close> from the place \<open>acc\<close>.  The strict form is the kernel's: what is walked
  through must be a directory.  The other is \<open>os.path.realpath\<close>, for which a missing name stands for
  itself.
\<close>

function follow :: "bool \<Rightarrow> nat \<Rightarrow> filesys \<Rightarrow> place \<Rightarrow> string list \<Rightarrow> place option" where
  "follow strict links fs acc [] = Some acc"
| "follow strict links fs acc (p # ps) =
     (if p = ''..'' then follow strict links fs (butlast acc) ps
      else
        (case fs (acc @ [p]) of
           Some (Link t) \<Rightarrow>
             if links = 0 then None
             else follow strict (links - 1) fs (if absolute (pure t) then [] else acc) (posix_parts t @ ps)
         | n \<Rightarrow>
             if strict \<and> ps \<noteq> [] \<and> n \<noteq> Some Dir then None
             else follow strict links fs (acc @ [p]) ps))"
  by pat_completeness auto
termination
  by (relation "measures [\<lambda>(strict, links, fs, acc, ps). links, \<lambda>(strict, links, fs, acc, ps). length ps]") auto

text \<open>\<open>lstat\<close>: the node under a name, its own link not followed; and where it is.\<close>

definition entry_place :: "nat \<Rightarrow> filesys \<Rightarrow> place \<Rightarrow> place option" where
  "entry_place links fs p =
     (if p = [] then Some []
      else
        (case follow True links fs [] (butlast p) of
           None \<Rightarrow> None
         | Some q \<Rightarrow> if node_at fs q = Some Dir then Some (q @ [last p]) else None))"

definition lstat :: "nat \<Rightarrow> filesys \<Rightarrow> place \<Rightarrow> node option" where
  "lstat links fs p = Option.bind (entry_place links fs p) (node_at fs)"

definition stat :: "nat \<Rightarrow> filesys \<Rightarrow> place \<Rightarrow> node option" where
  "stat links fs p = Option.bind (follow True links fs [] p) (node_at fs)"

definition is_symlink :: "nat \<Rightarrow> filesys \<Rightarrow> place \<Rightarrow> bool" where
  "is_symlink links fs p = (case lstat links fs p of Some (Link t) \<Rightarrow> True | _ \<Rightarrow> False)"

definition path_exists :: "nat \<Rightarrow> filesys \<Rightarrow> place \<Rightarrow> bool" where
  "path_exists links fs p = (stat links fs p \<noteq> None)"

definition is_file :: "nat \<Rightarrow> filesys \<Rightarrow> place \<Rightarrow> bool" where
  "is_file links fs p = (case stat links fs p of Some (File b) \<Rightarrow> True | _ \<Rightarrow> False)"

definition path_text_of :: "place \<Rightarrow> string" where
  "path_text_of p = ''/'' @ join ''/'' p"

definition real_path :: "nat \<Rightarrow> filesys \<Rightarrow> place \<Rightarrow> place result" where
  "real_path links fs p =
     (case follow False links fs [] p of
        None \<Rightarrow> Inl (Raised ''RuntimeError'' (''Symlink loop from '' @ path_text_of p))
      | Some q \<Rightarrow> Inr q)"

definition read_file :: "nat \<Rightarrow> filesys \<Rightarrow> place \<Rightarrow> string result" where
  "read_file links fs p =
     (case stat links fs p of
        Some (File b) \<Rightarrow> Inr b
      | Some Dir \<Rightarrow> Inl (OSErr ''IsADirectoryError'')
      | _ \<Rightarrow> Inl (OSErr ''FileNotFoundError''))"

section \<open>Changes\<close>

definition make_dir :: "nat \<Rightarrow> place \<Rightarrow> filesys \<Rightarrow> filesys result" where
  "make_dir links p fs =
     (if stat links fs p = Some Dir then Inr fs
      else
        (case entry_place links fs p of
           None \<Rightarrow> Inl (OSErr ''NotADirectoryError'')
         | Some q \<Rightarrow>
             if fs q = None then Inr (fs(q \<mapsto> Dir)) else Inl (OSErr ''FileExistsError'')))"

text \<open>\<open>os.replace\<close> of a file or a link; directories are never moved by the program.\<close>

definition rename :: "nat \<Rightarrow> place \<Rightarrow> place \<Rightarrow> filesys \<Rightarrow> filesys result" where
  "rename links source target fs =
     (case (entry_place links fs source, entry_place links fs target) of
        (Some s, Some t) \<Rightarrow>
          (case fs s of
             None \<Rightarrow> Inl (OSErr ''FileNotFoundError'')
           | Some Dir \<Rightarrow> Inl (OSErr ''NotADirectoryError'')
           | Some n \<Rightarrow>
               if node_at fs t = Some Dir then Inl (OSErr ''IsADirectoryError'')
               else Inr (fs(s := None, t := Some n)))
      | _ \<Rightarrow> Inl (OSErr ''FileNotFoundError''))"

text \<open>Opening a new file with \<open>O_CREAT | O_EXCL\<close>, and writing to the file that is open.\<close>

definition create :: "nat \<Rightarrow> place \<Rightarrow> filesys \<Rightarrow> filesys result" where
  "create links p fs =
     (case entry_place links fs p of
        None \<Rightarrow> Inl (OSErr ''FileNotFoundError'')
      | Some q \<Rightarrow> if fs q = None then Inr (fs(q \<mapsto> File [])) else Inl (OSErr ''FileExistsError''))"

definition write_file :: "nat \<Rightarrow> place \<Rightarrow> string \<Rightarrow> filesys \<Rightarrow> filesys result" where
  "write_file links p bytes fs =
     (case entry_place links fs p of
        None \<Rightarrow> Inl (OSErr ''FileNotFoundError'')
      | Some q \<Rightarrow> Inr (fs(q \<mapsto> File bytes)))"

definition remove_file :: "nat \<Rightarrow> place \<Rightarrow> filesys \<Rightarrow> filesys" where
  "remove_file links p fs =
     (case entry_place links fs p of None \<Rightarrow> fs | Some q \<Rightarrow> fs(q := None))"

text \<open>\<open>shutil.rmtree\<close>, which refuses a link.\<close>

definition remove_tree :: "nat \<Rightarrow> place \<Rightarrow> filesys \<Rightarrow> filesys" where
  "remove_tree links p fs =
     (case entry_place links fs p of
        Some q \<Rightarrow>
          if fs q = Some Dir then (\<lambda>r. if take (length q) r = q then None else fs r) else fs
      | None \<Rightarrow> fs)"

section \<open>Places without links\<close>

text \<open>Every ancestor is a directory, so names lead where they say.\<close>

definition solid :: "filesys \<Rightarrow> place \<Rightarrow> bool" where
  "solid fs p \<longleftrightarrow> (\<forall>k. 0 < k \<longrightarrow> k \<le> length p \<longrightarrow> fs (take k p) = Some Dir) \<and> ''..'' \<notin> set p"

lemma solid_Nil [simp]: "solid fs []"
  by (simp add: solid_def)

lemma solid_snoc: "solid fs (p @ [x]) \<longleftrightarrow> solid fs p \<and> fs (p @ [x]) = Some Dir \<and> x \<noteq> ''..''"
proof
  assume s: "solid fs (p @ [x])"
  have "fs (take k p) = Some Dir" if "0 < k" "k \<le> length p" for k
    using s that unfolding solid_def by (metis Suc_leD Suc_le_mono le_SucI length_append_singleton take_append
        append_Nil2 diff_is_0_eq take_0)
  moreover have "fs (take (length (p @ [x])) (p @ [x])) = Some Dir"
    using s unfolding solid_def by (metis length_greater_0_conv order_refl snoc_eq_iff_butlast)
  ultimately show "solid fs p \<and> fs (p @ [x]) = Some Dir \<and> x \<noteq> ''..''"
    using s by (auto simp: solid_def)
next
  assume s: "solid fs p \<and> fs (p @ [x]) = Some Dir \<and> x \<noteq> ''..''"
  have "fs (take k (p @ [x])) = Some Dir" if "0 < k" "k \<le> length (p @ [x])" for k
    using s that unfolding solid_def by (cases "k \<le> length p") auto
  then show "solid fs (p @ [x])" using s by (auto simp: solid_def)
qed

lemma solid_append: "solid fs (p @ q) \<Longrightarrow> solid fs p"
proof (induction q rule: rev_induct)
  case (snoc x q)
  then show ?case by (simp add: solid_snoc flip: append_assoc)
qed simp

lemma solid_dir: "solid fs p \<Longrightarrow> node_at fs p = Some Dir"
  by (cases p rule: rev_cases) (simp_all add: node_at_def solid_snoc)

lemma follow_solid:
  "solid fs (acc @ ps) \<Longrightarrow> follow strict links fs acc (ps @ qs) = follow strict links fs (acc @ ps) qs"
proof (induction ps arbitrary: acc)
  case (Cons p ps)
  have "solid fs ((acc @ [p]) @ ps)" using Cons.prems by simp
  then have "fs (acc @ [p]) = Some Dir" "p \<noteq> ''..''"
    using solid_append [of fs "acc @ [p]" ps] by (simp_all add: solid_snoc)
  then show ?case using Cons.IH [of "acc @ [p]"] Cons.prems by simp
qed simp

lemma follow_place:
  assumes "solid fs p" "x \<noteq> ''..''" "\<nexists>t. fs (p @ [x]) = Some (Link t)"
  shows "follow strict links fs [] (p @ [x]) = Some (p @ [x])"
  using follow_solid [of fs "[]" p strict links "[x]"] assms
  by (auto split: option.split node.split)

lemma entry_solid: "solid fs p \<Longrightarrow> entry_place links fs (p @ [x]) = Some (p @ [x])"
  using follow_solid [of fs "[]" p True links "[]"]
  by (simp add: entry_place_def solid_dir)

lemma lstat_solid: "solid fs p \<Longrightarrow> lstat links fs (p @ [x]) = fs (p @ [x])"
  by (simp add: lstat_def entry_solid node_at_def)

lemma stat_solid:
  "solid fs p \<Longrightarrow> x \<noteq> ''..'' \<Longrightarrow> \<nexists>t. fs (p @ [x]) = Some (Link t) \<Longrightarrow>
     stat links fs (p @ [x]) = fs (p @ [x])"
  by (simp add: stat_def follow_place node_at_def)

lemma stat_dir: "solid fs p \<Longrightarrow> stat links fs p = Some Dir"
  using follow_solid [of fs "[]" p True links "[]"] by (simp add: stat_def solid_dir)

lemma real_solid: "solid fs p \<Longrightarrow> real_path links fs p = Inr p"
  using follow_solid [of fs "[]" p False links "[]"] by (simp add: real_path_def)

end
