(* ===== verification/Outputs.thy ===== *)
theory Outputs
  imports Filesystem Process Codec
begin

text \<open>
  Where a task may write, and the manifest of what it produced (src/src/ici/execution/outputs.py,
  manifest.py).  An action takes the file system with its history to an answer and the file system
  it leaves, whether or not it raised; the history is what another process could have seen.
\<close>

section \<open>Actions on the disk\<close>

record disk =
  dk_now :: filesys
  dk_seen :: "filesys list"

type_synonym 'a action = "disk \<Rightarrow> 'a result \<times> disk"

definition act_return :: "'a \<Rightarrow> 'a action" where
  "act_return x d = (Inr x, d)"

definition act_raise :: "exn \<Rightarrow> 'a action" where
  "act_raise e d = (Inl e, d)"

definition act_then :: "'a action \<Rightarrow> ('a \<Rightarrow> 'b action) \<Rightarrow> 'b action" where
  "act_then m k d = (case m d of (Inl e, d') \<Rightarrow> (Inl e, d') | (Inr x, d') \<Rightarrow> k x d')"

text \<open>A question, which changes nothing.\<close>

definition act_ask :: "(filesys \<Rightarrow> 'a result) \<Rightarrow> 'a action" where
  "act_ask f d = (f (dk_now d), d)"

text \<open>One system call that changes the disk.\<close>

definition act_set :: "filesys \<Rightarrow> disk \<Rightarrow> disk" where
  "act_set fs d = \<lparr>dk_now = fs, dk_seen = dk_now d # dk_seen d\<rparr>"

definition act_change :: "(filesys \<Rightarrow> filesys result) \<Rightarrow> unit action" where
  "act_change f d = (case f (dk_now d) of Inl e \<Rightarrow> (Inl e, d) | Inr fs \<Rightarrow> (Inr (), act_set fs d))"

text \<open>\<open>try: ... finally\<close> with a clean-up that cannot fail.\<close>

definition act_finally :: "'a action \<Rightarrow> (filesys \<Rightarrow> filesys) \<Rightarrow> 'a action" where
  "act_finally m f d = (case m d of (r, d') \<Rightarrow> (r, act_set (f (dk_now d')) d'))"

text \<open>The same, the clean-up only when the block raised.\<close>

definition act_on_error :: "'a action \<Rightarrow> (filesys \<Rightarrow> filesys) \<Rightarrow> 'a action" where
  "act_on_error m f d =
     (case m d of (Inl e, d') \<Rightarrow> (Inl e, act_set (f (dk_now d')) d') | (Inr x, d') \<Rightarrow> (Inr x, d'))"

fun act_each :: "('a \<Rightarrow> unit action) \<Rightarrow> 'a list \<Rightarrow> unit action" where
  "act_each f [] = act_return ()"
| "act_each f (x # xs) = act_then (f x) (\<lambda>_. act_each f xs)"

text \<open>\<open>mkdir(parents=True, exist_ok=True)\<close>: the missing ancestors first, each a call of its own.\<close>

definition make_dirs :: "nat \<Rightarrow> place \<Rightarrow> unit action" where
  "make_dirs links p = act_each (\<lambda>k. act_change (make_dir links (take (Suc k) p))) [0..<length p]"

section \<open>Output roots\<close>

fun normpath_names :: "string list \<Rightarrow> string list \<Rightarrow> string list" where
  "normpath_names acc [] = rev acc"
| "normpath_names acc (p # ps) =
     (if p = ''..'' then normpath_names (tl acc) ps else normpath_names (p # acc) ps)"

text \<open>\<open>os.path.normpath\<close> of an absolute path.\<close>

definition normpath :: "string list \<Rightarrow> place" where
  "normpath ps = normpath_names [] ps"

definition OutputRoot_init :: "pure_path \<Rightarrow> place result" where
  "OutputRoot_init p =
     raise_if (\<not> absolute p)
       (PathRefused ''an output root must be absolute, got {}'' [path_text p])
    (Inr (normpath (path_names p)))"

definition lies_inside :: "place \<Rightarrow> place \<Rightarrow> bool" where
  "lies_inside candidate base = (take (length base) candidate = base)"

fun walk_output :: "nat \<Rightarrow> filesys \<Rightarrow> string \<Rightarrow> place \<Rightarrow> string list \<Rightarrow> place result" where
  "walk_output links fs relative walked [] = Inr walked"
| "walk_output links fs relative walked (p # ps) =
     raise_if (is_symlink links fs (walked @ [p]))
       (PathRefused ''{} goes through the symlink {}'' [relative, path_text_of (walked @ [p])])
    (walk_output links fs relative (walked @ [p]) ps)"

function nearest_existing :: "nat \<Rightarrow> filesys \<Rightarrow> place \<Rightarrow> place" where
  "nearest_existing links fs p =
     (if p = [] \<or> path_exists links fs p then p else nearest_existing links fs (butlast p))"
  by pat_completeness auto
termination
  by (relation "measure (\<lambda>(links, fs, p). length p)") auto

declare nearest_existing.simps [simp del]

definition resolved_parent :: "nat \<Rightarrow> filesys \<Rightarrow> place \<Rightarrow> place result" where
  "resolved_parent links fs target = real_path links fs (nearest_existing links fs (butlast target))"

text \<open>\<open>OutputRoot.resolve\<close>.\<close>

definition resolve_output :: "nat \<Rightarrow> filesys \<Rightarrow> place \<Rightarrow> string \<Rightarrow> place result" where
  "resolve_output links fs base relative =
     (let parts = path_names (pure relative) in
      raise_if (absolute (pure relative))
        (PathRefused ''{} is absolute; task output is relative to its root'' [relative])
     (raise_if (parts = []) (PathRefused ''a task output needs a name'' [])
     (raise_if (''..'' \<in> set parts) (PathRefused ''{} climbs out of its root'' [relative])
     (bindr (walk_output links fs relative base parts) (\<lambda>walked.
      let settled = normpath walked in
      raise_if (\<not> lies_inside settled base)
        (PathRefused ''{} resolves to {}, outside {}'' [relative, path_text_of settled, path_text_of base])
     (bindr (resolved_parent links fs settled) (\<lambda>landing.
      bindr (real_path links fs base) (\<lambda>real_base.
      raise_if (\<not> lies_inside landing real_base)
        (PathRefused ''{} would be written to {}, outside {}''
          [relative, path_text_of landing, path_text_of real_base])
     (Inr settled)))))))))"

definition prepare_output :: "nat \<Rightarrow> place \<Rightarrow> string \<Rightarrow> place action" where
  "prepare_output links base relative =
     act_then (act_ask (\<lambda>fs. resolve_output links fs base relative)) (\<lambda>target.
     act_then (make_dirs links (butlast target)) (\<lambda>_. act_return target))"

definition holds :: "nat \<Rightarrow> filesys \<Rightarrow> place \<Rightarrow> place \<Rightarrow> bool result" where
  "holds links fs base target =
     bindr (real_path links fs base) (\<lambda>real_base. Inr (lies_inside (normpath target) real_base))"

section \<open>Manifests\<close>

definition MANIFEST_SCHEMA :: string where
  "MANIFEST_SCHEMA = ''ici.next.task-manifest/v1''"

record artifact =
  af_path :: string
  af_size :: int
  af_digest :: string

record manifest =
  mf_task :: string
  mf_outcome :: string
  mf_exit_code :: int
  mf_interpretation :: string
  mf_artifacts :: "artifact list"
  mf_run :: string
  mf_identity :: string

definition manifest_text_field :: "(string \<times> pyval) list \<Rightarrow> string \<Rightarrow> string result" where
  "manifest_text_field data key =
     (case py_get data key of
        PStr s \<Rightarrow> Inr s
      | v \<Rightarrow> Inl (MalformedManifest ''{} must be text, got {}'' [key, type_name v]))"

definition whole_number :: "(string \<times> pyval) list \<Rightarrow> string \<Rightarrow> int result" where
  "whole_number data key =
     (case py_get data key of
        PInt i \<Rightarrow> Inr i
      | v \<Rightarrow> Inl (MalformedManifest ''{} must be a whole number, got {}'' [key, type_name v]))"

definition artifact_to_dict :: "artifact \<Rightarrow> pyval" where
  "artifact_to_dict a =
     PDict [(''path'', PStr (af_path a)), (''size'', PInt (af_size a)), (''digest'', PStr (af_digest a))]"

definition artifact_from_dict :: "(string \<times> pyval) list \<Rightarrow> artifact result" where
  "artifact_from_dict data =
     bindr (manifest_text_field data ''path'') (\<lambda>path.
     bindr (whole_number data ''size'') (\<lambda>size.
     bindr (manifest_text_field data ''digest'') (\<lambda>digest.
     Inr \<lparr>af_path = path, af_size = size, af_digest = digest\<rparr>)))"

definition manifest_to_dict :: "manifest \<Rightarrow> pyval" where
  "manifest_to_dict m =
     PDict
       ([(''schema'', PStr MANIFEST_SCHEMA), (''task'', PStr (mf_task m)),
         (''outcome'', PStr (mf_outcome m)), (''exit_code'', PInt (mf_exit_code m)),
         (''interpretation'', PStr (mf_interpretation m)),
         (''artifacts'', PList (map artifact_to_dict (mf_artifacts m)))]
        @ (if mf_run m = [] then [] else [(''run'', PStr (mf_run m))])
        @ (if mf_identity m = [] then [] else [(''identity'', PStr (mf_identity m))]))"

text \<open>\<open>str\<close> of a value that is no text is the interpreter's.\<close>

definition py_str :: "(pyval \<Rightarrow> string) \<Rightarrow> pyval \<Rightarrow> string" where
  "py_str show_value v = (case v of PStr s \<Rightarrow> s | _ \<Rightarrow> show_value v)"

fun read_artifacts :: "nat \<Rightarrow> pyval list \<Rightarrow> artifact list result" where
  "read_artifacts index [] = Inr []"
| "read_artifacts index (v # vs) =
     (case v of
        PDict data \<Rightarrow>
          bindr (artifact_from_dict data) (\<lambda>a.
          bindr (read_artifacts (Suc index) vs) (\<lambda>rest. Inr (a # rest)))
      | _ \<Rightarrow>
          Inl (MalformedManifest ''artifact {} must be a table, got {}'' [show_nat index, type_name v]))"

definition manifest_from_dict :: "(pyval \<Rightarrow> string) \<Rightarrow> (string \<times> pyval) list \<Rightarrow> manifest result" where
  "manifest_from_dict show_value data =
     raise_if (py_get data ''schema'' \<noteq> PStr MANIFEST_SCHEMA)
       (MalformedManifest ''{!r} is not {}'' [py_str show_value (py_get data ''schema''), MANIFEST_SCHEMA])
    (case py_get_default data ''artifacts'' (PList []) of
       PList listed \<Rightarrow>
         bindr (read_artifacts 0 listed) (\<lambda>artifacts.
         bindr (manifest_text_field data ''task'') (\<lambda>task.
         bindr (manifest_text_field data ''outcome'') (\<lambda>oc.
         bindr (whole_number data ''exit_code'') (\<lambda>code.
         bindr (manifest_text_field data ''interpretation'') (\<lambda>interpretation.
         Inr \<lparr>mf_task = task, mf_outcome = oc, mf_exit_code = code,
              mf_interpretation = interpretation, mf_artifacts = artifacts,
              mf_run = py_str show_value (py_get_default data ''run'' (PStr [])),
              mf_identity = py_str show_value (py_get_default data ''identity'' (PStr []))\<rparr>)))))
     | v \<Rightarrow> Inl (MalformedManifest ''artifacts must be a list, got {}'' [type_name v]))"

text \<open>\<open>json.dumps(indent=2, sort_keys=True, ensure_ascii=False)\<close>.\<close>

definition indent_of :: "nat \<Rightarrow> string" where
  "indent_of level = CHR 0x0A # replicate (2 * level) CHR '' ''"

definition laid_out :: "char \<Rightarrow> char \<Rightarrow> nat \<Rightarrow> string list \<Rightarrow> string" where
  "laid_out opening closing level items =
     (if items = [] then [opening, closing]
      else opening # indent_of (Suc level) @ join ('','' @ indent_of (Suc level)) items
        @ indent_of level @ [closing])"

fun pretty :: "(rat \<Rightarrow> string) \<Rightarrow> nat \<Rightarrow> pyval \<Rightarrow> string" where
  "pretty float_repr level PNone = ''null''"
| "pretty float_repr level (PBool b) = (if b then ''true'' else ''false'')"
| "pretty float_repr level (PInt i) = show_int i"
| "pretty float_repr level (PFloat (Fin q)) = float_repr q"
| "pretty float_repr level (PFloat PosInf) = ''Infinity''"
| "pretty float_repr level (PFloat NegInf) = ''-Infinity''"
| "pretty float_repr level (PFloat NaN) = ''NaN''"
| "pretty float_repr level (PStr s) = quote_string s"
| "pretty float_repr level (PList vs) =
     laid_out CHR ''['' CHR '']'' level (map (pretty float_repr (Suc level)) vs)"
| "pretty float_repr level (PTuple vs) =
     laid_out CHR ''['' CHR '']'' level (map (pretty float_repr (Suc level)) vs)"
| "pretty float_repr level (PDict kvs) =
     laid_out CHR ''{'' CHR ''}'' level
       (map (\<lambda>(k, t). quote_string k @ '': '' @ t)
         (sort_key fst (map (\<lambda>kv. (fst kv, pretty float_repr (Suc level) (snd kv))) kvs)))"

definition manifest_json :: "manifest \<Rightarrow> string" where
  "manifest_json m = pretty (\<lambda>q. []) 0 (manifest_to_dict m) @ [CHR 0x0A]"

record manifest_verification =
  mv_missing :: "string list"
  mv_altered :: "string list"

definition is_complete :: "manifest_verification \<Rightarrow> bool" where
  "is_complete v = (mv_missing v = [] \<and> mv_altered v = [])"

definition verification_text :: "manifest_verification \<Rightarrow> string" where
  "verification_text v =
     (if is_complete v then ''every artifact is present and unchanged''
      else join ''; ''
        ((if mv_missing v = [] then [] else [''missing: '' @ join '', '' (mv_missing v)])
         @ (if mv_altered v = [] then [] else [''altered: '' @ join '', '' (mv_altered v)])))"

definition digest_of_file :: "(string \<Rightarrow> string) \<Rightarrow> string \<Rightarrow> string" where
  "digest_of_file sha bytes = ''sha256:'' @ sha bytes"

fun describe_artifacts ::
    "(string \<Rightarrow> string) \<Rightarrow> nat \<Rightarrow> filesys \<Rightarrow> place \<Rightarrow> string list \<Rightarrow> artifact list result" where
  "describe_artifacts sha links fs base [] = Inr []"
| "describe_artifacts sha links fs base (name # names) =
     bindr (resolve_output links fs base name) (\<lambda>target.
     raise_if (\<not> is_file links fs target)
       (NotPromotable ''{} was listed as produced but is not there'' [name])
    (bindr (read_file links fs target) (\<lambda>bytes.
     bindr (describe_artifacts sha links fs base names) (\<lambda>rest.
     Inr (\<lparr>af_path = name, af_size = int (length bytes), af_digest = digest_of_file sha bytes\<rparr> # rest)))))"

fun interpretation_value :: "interpretation_of_run \<Rightarrow> string" where
  "interpretation_value IN_SUCCEEDED = ''succeeded''"
| "interpretation_value FOUND_FINDINGS = ''found-findings''"
| "interpretation_value IN_FAILED = ''failed''"
| "interpretation_value DID_NOT_RUN = ''did-not-run''"

definition describe_outputs ::
    "(string \<Rightarrow> string) \<Rightarrow> nat \<Rightarrow> filesys \<Rightarrow> place \<Rightarrow> task_outcome \<Rightarrow> string list
     \<Rightarrow> exit_contract option \<Rightarrow> string \<Rightarrow> string \<Rightarrow> manifest result" where
  "describe_outputs sha links fs base oc produced contract run_id identity =
     (let interpretation =
        read_contract (case contract of Some c \<Rightarrow> c | None \<Rightarrow> STRICT) oc in
      raise_if (\<not> is_an_answer interpretation)
        (NotPromotable (''{} {}{} '' @ em_dash @ '' not a cacheable result'')
          [ps_name (to_spec oc), outcome_value (to_outcome oc),
           if to_detail oc = [] then [] else '': '' @ to_detail oc])
     (bindr (describe_artifacts sha links fs base produced) (\<lambda>artifacts.
      Inr \<lparr>mf_task = ps_name (to_spec oc), mf_outcome = outcome_value (to_outcome oc),
           mf_exit_code = to_exit_code oc, mf_interpretation = interpretation_value interpretation,
           mf_artifacts = artifacts, mf_run = run_id, mf_identity = identity\<rparr>)))"

text \<open>
  The staged file gets a name from the draws of \<open>secrets.token_hex\<close>; a name that is taken is drawn
  again.  A list of draws that ends first stands for a source that never gives a free name.
\<close>

definition staged_name :: "place \<Rightarrow> string \<Rightarrow> place" where
  "staged_name directory token = directory @ [''.manifest-'' @ token]"

fun staged_file :: "nat \<Rightarrow> place \<Rightarrow> string list \<Rightarrow> place action" where
  "staged_file links directory [] = act_raise (Raised ''no free name'' [])"
| "staged_file links directory (token # tokens) =
     (\<lambda>d. let staged = staged_name directory token in
        case act_change (create links staged) d of
          (Inr _, d') \<Rightarrow> (Inr staged, d')
        | (Inl e, d') \<Rightarrow>
            if e = OSErr ''FileExistsError'' then staged_file links directory tokens d' else (Inl e, d'))"

definition publish_manifest :: "nat \<Rightarrow> string list \<Rightarrow> manifest \<Rightarrow> place \<Rightarrow> place action" where
  "publish_manifest links tokens m destination =
     act_then (make_dirs links (butlast destination)) (\<lambda>_.
     act_then (staged_file links (butlast destination) tokens) (\<lambda>staged.
     act_then
       (act_on_error
         (act_then (act_change (write_file links staged (manifest_json m))) (\<lambda>_.
          act_change (rename links staged destination)))
         (remove_file links staged)) (\<lambda>_.
     act_return destination)))"

fun verify_artifacts ::
    "(string \<Rightarrow> string) \<Rightarrow> nat \<Rightarrow> filesys \<Rightarrow> place \<Rightarrow> artifact list \<Rightarrow> manifest_verification result" where
  "verify_artifacts sha links fs base [] = Inr \<lparr>mv_missing = [], mv_altered = []\<rparr>"
| "verify_artifacts sha links fs base (a # rest) =
     (case resolve_output links fs base (af_path a) of
        Inl e \<Rightarrow>
          if is_value_error e
          then bindr (verify_artifacts sha links fs base rest) (\<lambda>v.
               Inr (v\<lparr>mv_missing := af_path a # mv_missing v\<rparr>))
          else Inl e
      | Inr target \<Rightarrow>
          if \<not> is_file links fs target
          then bindr (verify_artifacts sha links fs base rest) (\<lambda>v.
               Inr (v\<lparr>mv_missing := af_path a # mv_missing v\<rparr>))
          else
            bindr (read_file links fs target) (\<lambda>bytes.
            bindr (verify_artifacts sha links fs base rest) (\<lambda>v.
            Inr (if int (length bytes) \<noteq> af_size a \<or> digest_of_file sha bytes \<noteq> af_digest a
                 then v\<lparr>mv_altered := af_path a # mv_altered v\<rparr> else v))))"

definition verify_manifest ::
    "(string \<Rightarrow> string) \<Rightarrow> nat \<Rightarrow> filesys \<Rightarrow> manifest \<Rightarrow> place \<Rightarrow> manifest_verification result" where
  "verify_manifest sha links fs m base = verify_artifacts sha links fs base (mf_artifacts m)"

text \<open>\<open>read\<close>: the JSON reader \<open>loads\<close> is an argument.\<close>

definition read_manifest ::
    "(pyval \<Rightarrow> string) \<Rightarrow> (string \<Rightarrow> pyval result) \<Rightarrow> nat \<Rightarrow> filesys \<Rightarrow> place \<Rightarrow> manifest result" where
  "read_manifest show_value loads links fs destination =
     bindr (read_file links fs destination) (\<lambda>bytes.
     bindr (loads bytes) (\<lambda>v.
     case v of PDict data \<Rightarrow> manifest_from_dict show_value data
     | _ \<Rightarrow> Inl (Raised ''AttributeError'' (type_name v @ '' object has no attribute get''))))"

end
