(* ===== verification/Production.thy ===== *)
theory Production
  imports Outputs
begin

text \<open>
  Running a task and publishing what it made (src/src/ici/execution/production.py).  The tool is an
  argument that may do anything to the file system; whether the lock was obtained and the names
  drawn for private files are arguments too.
\<close>

section \<open>The parts\<close>

definition STAGING_DIRECTORY :: string where
  "STAGING_DIRECTORY = ''.ici-staging''"

definition LOCK_NAME :: string where
  "LOCK_NAME = ''output.lock''"

definition DEFAULT_MANIFEST_NAME :: string where
  "DEFAULT_MANIFEST_NAME = ''manifest.json''"

record production =
  pn_outcome :: "task_outcome option"
  pn_manifest :: "manifest option"
  pn_published :: "place option"
  pn_refusal :: string

definition promoted :: "production \<Rightarrow> bool" where
  "promoted p = (pn_published p \<noteq> None)"

definition production_text :: "production \<Rightarrow> string" where
  "production_text p =
     (case (promoted p, pn_manifest p) of
        (True, Some m) \<Rightarrow>
          mf_task m @ '': '' @ show_nat (length (mf_artifacts m)) @ '' artifact(s) published''
      | _ \<Rightarrow> if pn_refusal p = [] then ''nothing was published'' else pn_refusal p)"

text \<open>\<open>TaskOutcome.__str__\<close>.\<close>

definition outcome_text :: "task_outcome \<Rightarrow> string" where
  "outcome_text r =
     (if ran_to_completion (to_outcome r)
      then ps_name (to_spec r) @ '' exited '' @ show_int (to_exit_code r)
      else ps_name (to_spec r) @ '' '' @ outcome_value (to_outcome r)
        @ (if to_detail r = [] then [] else '': '' @ to_detail r))"

text \<open>\<open>_staged_output\<close>.\<close>

fun walk_staged :: "nat \<Rightarrow> filesys \<Rightarrow> string \<Rightarrow> place \<Rightarrow> string list \<Rightarrow> place result" where
  "walk_staged links fs name walked [] = Inr walked"
| "walk_staged links fs name walked (p # ps) =
     raise_if (is_symlink links fs (walked @ [p]))
       (ValueError ''{} was written as a symlink ({}) and is not published''
         [name, path_text_of (walked @ [p])])
    (walk_staged links fs name (walked @ [p]) ps)"

definition staged_output :: "nat \<Rightarrow> filesys \<Rightarrow> place \<Rightarrow> string \<Rightarrow> place result" where
  "staged_output links fs staged name =
     raise_if (absolute (pure name) \<or> ''..'' \<in> set (path_names (pure name)))
       (ValueError ''{} is not a name inside the task's working directory'' [name])
    (walk_staged links fs name staged (path_names (pure name)))"

fun refusal_of_names :: "nat \<Rightarrow> filesys \<Rightarrow> place \<Rightarrow> string list \<Rightarrow> string" where
  "refusal_of_names links fs staged [] = []"
| "refusal_of_names links fs staged (name # names) =
     (case staged_output links fs staged name of
        Inl e \<Rightarrow> exn_text e
      | Inr target \<Rightarrow>
          if \<not> is_file links fs target
          then name @ '' was expected but the tool did not write it''
          else refusal_of_names links fs staged names)"

text \<open>\<open>_refusal\<close>; the empty string when the run may be promoted.\<close>

definition refusal_of ::
    "nat \<Rightarrow> filesys \<Rightarrow> place \<Rightarrow> task_outcome \<Rightarrow> string list \<Rightarrow> exit_contract option \<Rightarrow> string" where
  "refusal_of links fs staged oc produces contract =
     (if \<not> is_an_answer (read_contract (case contract of Some c \<Rightarrow> c | None \<Rightarrow> STRICT) oc)
      then outcome_text oc @ '' '' @ em_dash @ '' not a cacheable result''
      else refusal_of_names links fs staged produces)"

section \<open>Producing\<close>

text \<open>A tool: what \<open>run_task\<close> answers, and the file system it leaves.\<close>

type_synonym tool = "process_spec \<Rightarrow> filesys \<Rightarrow> task_outcome result \<times> filesys"

definition run_tool :: "tool \<Rightarrow> process_spec \<Rightarrow> task_outcome action" where
  "run_tool tool spec d = (case tool spec (dk_now d) of (r, fs) \<Rightarrow> (r, act_set fs d))"

text \<open>\<open>mkdtemp\<close>: a fresh directory below the staging area.\<close>

fun make_staging :: "nat \<Rightarrow> place \<Rightarrow> string list \<Rightarrow> place action" where
  "make_staging links area [] = act_raise (OSErr ''FileExistsError'')"
| "make_staging links area (n # ns) =
     (\<lambda>d. let staged = area @ [''task-'' @ n] in
        if lstat links (dk_now d) staged = None
        then (case act_change (make_dir links staged) d of
                (Inr _, d') \<Rightarrow> (Inr staged, d') | (Inl e, d') \<Rightarrow> (Inl e, d'))
        else make_staging links area ns d)"

definition promote_one :: "nat \<Rightarrow> place \<Rightarrow> place \<Rightarrow> string \<Rightarrow> unit action" where
  "promote_one links base staged name =
     act_then (prepare_output links base name) (\<lambda>target.
     act_change (rename links (staged @ path_names (pure name)) target))"

text \<open>The arguments of \<open>produce\<close>.\<close>

record order =
  or_spec :: process_spec
  or_base :: place
  or_produces :: "string list"
  or_contract :: "exit_contract option"
  or_manifest_name :: string

definition published_as :: "(string \<Rightarrow> string) \<Rightarrow> nat \<Rightarrow> string list \<Rightarrow> order \<Rightarrow> task_outcome \<Rightarrow> place
     \<Rightarrow> production action" where
  "published_as sha links tokens q oc staged =
     act_then (act_each (promote_one links (or_base q) staged) (or_produces q)) (\<lambda>_.
     act_then (act_ask (\<lambda>fs. describe_outputs sha links fs (or_base q) oc (or_produces q)
       (or_contract q) [] [])) (\<lambda>m.
     act_then (prepare_output links (or_base q) (or_manifest_name q)) (\<lambda>destination.
     act_then (publish_manifest links tokens m destination) (\<lambda>published.
     act_return \<lparr>pn_outcome = Some oc, pn_manifest = Some m, pn_published = Some published,
       pn_refusal = []\<rparr>))))"

definition refused_production :: "task_outcome option \<Rightarrow> string \<Rightarrow> production" where
  "refused_production oc text =
     \<lparr>pn_outcome = oc, pn_manifest = None, pn_published = None, pn_refusal = text\<rparr>"

definition produce_in ::
    "(string \<Rightarrow> string) \<Rightarrow> nat \<Rightarrow> string list \<Rightarrow> tool \<Rightarrow> order \<Rightarrow> place \<Rightarrow> production action" where
  "produce_in sha links tokens tool q staged =
     act_then (run_tool tool ((or_spec q)\<lparr>ps_cwd := Some (path_text_of staged)\<rparr>)) (\<lambda>oc.
     act_then (act_ask (\<lambda>fs. Inr (refusal_of links fs staged oc (or_produces q) (or_contract q)))) (\<lambda>why.
     if why \<noteq> [] then act_return (refused_production (Some oc) why)
     else published_as sha links tokens q oc staged))"

text \<open>\<open>_produce_holding_the_lock\<close>.\<close>

definition produce_locked ::
    "(string \<Rightarrow> string) \<Rightarrow> nat \<Rightarrow> string list \<Rightarrow> string list \<Rightarrow> tool \<Rightarrow> order \<Rightarrow> production action" where
  "produce_locked sha links names tokens tool q =
     (let area = or_base q @ [STAGING_DIRECTORY] in
      act_then (make_dirs links area) (\<lambda>_.
      act_then (make_staging links area names) (\<lambda>staged.
      act_finally (produce_in sha links tokens tool q staged) (remove_tree links staged))))"

text \<open>Opening the lock file, which is created when it is not there; a dangling link is refused.\<close>

definition open_lock :: "nat \<Rightarrow> place \<Rightarrow> unit action" where
  "open_lock links lock =
     act_change (\<lambda>fs. case stat links fs lock of
        None \<Rightarrow> create links lock fs
      | Some Dir \<Rightarrow> Inl (OSErr ''IsADirectoryError'')
      | Some n \<Rightarrow> Inr fs)"

text \<open>\<open>locked\<close> is \<open>None\<close> when \<open>exclusive\<close> got the lock, or the text of its \<open>Unlocked\<close>.\<close>

definition produce ::
    "(string \<Rightarrow> string) \<Rightarrow> nat \<Rightarrow> string list \<Rightarrow> string list \<Rightarrow> tool \<Rightarrow> string option \<Rightarrow> order
     \<Rightarrow> production action" where
  "produce sha links names tokens tool locked q =
     (let area = or_base q @ [STAGING_DIRECTORY] in
      act_then (make_dirs links area) (\<lambda>_.
      act_then (open_lock links (area @ [LOCK_NAME])) (\<lambda>_.
      case locked of
        Some why \<Rightarrow> act_return (refused_production None why)
      | None \<Rightarrow> produce_locked sha links names tokens tool q)))"

end
