(* ===== verification/Production_Facts.thy ===== *)
theory Production_Facts
  imports Production
begin

text \<open>
  What the actions leave on the disk: directories stay, only the named files change, and a name that
  was checked leads where it says.
\<close>

section \<open>Actions that return\<close>

lemma act_then_Inr:
  "act_then m k d = (Inr y, d'') \<longleftrightarrow> (\<exists>x d'. m d = (Inr x, d') \<and> k x d' = (Inr y, d''))"
  by (auto simp: act_then_def split: prod.splits sum.splits)

lemma act_simps:
  "act_return x d = (r, d') \<longleftrightarrow> r = Inr x \<and> d' = d"
  "act_ask f d = (r, d') \<longleftrightarrow> f (dk_now d) = r \<and> d' = d"
  by (auto simp: act_return_def act_ask_def)

lemma act_change_Inr:
  "act_change f d = (Inr u, d') \<longleftrightarrow> (\<exists>fs. f (dk_now d) = Inr fs \<and> d' = act_set fs d)"
  by (auto simp: act_change_def split: sum.splits)

lemma act_set_now [simp]: "dk_now (act_set fs d) = fs"
  by (simp add: act_set_def)

lemma act_each_append:
  "act_each f (xs @ ys) d = act_then (act_each f xs) (\<lambda>_. act_each f ys) d"
  by (induction xs arbitrary: d)
    (auto simp: act_then_def act_return_def split: prod.splits sum.splits)

lemma act_each_invariant:
  assumes step: "\<And>x d d' u. x \<in> set xs \<Longrightarrow> P (dk_now d) \<Longrightarrow> f x d = (Inr u, d') \<Longrightarrow> P (dk_now d')"
    and "P (dk_now d)" "act_each f xs d = (Inr u, d')"
  shows "P (dk_now d')"
  using assms
proof (induction xs arbitrary: d)
  case Nil
  then show ?case by (simp add: act_simps)
next
  case (Cons x xs)
  from Cons.prems(3) obtain v e where e: "f x d = (Inr v, e)" "act_each f xs e = (Inr u, d')"
    by (auto simp: act_then_Inr)
  then have "P (dk_now e)" using Cons.prems(1,2) by (meson list.set_intros(1))
  then show ?case using Cons.IH [of e] Cons.prems(1) e(2) by (meson list.set_intros(2))
qed

section \<open>Trees\<close>

definition tree :: "filesys \<Rightarrow> bool" where
  "tree fs \<longleftrightarrow> (\<forall>p x. fs (p @ [x]) \<noteq> None \<longrightarrow> node_at fs p = Some Dir)"

text \<open>Everything there stays, but what is no directory at the places \<open>X\<close>.\<close>

definition stays :: "place set \<Rightarrow> filesys \<Rightarrow> filesys \<Rightarrow> bool" where
  "stays X fs fs' \<longleftrightarrow> (\<forall>p n. fs p = Some n \<longrightarrow> n = Dir \<or> p \<notin> X \<longrightarrow> fs' p = Some n)"

lemma stays_refl: "stays X fs fs"
  by (simp add: stays_def)

lemma stays_trans: "stays X fs fs' \<Longrightarrow> stays Y fs' fs'' \<Longrightarrow> stays (X \<union> Y) fs fs''"
  unfolding stays_def by blast

lemma stays_mono: "stays X fs fs' \<Longrightarrow> X \<subseteq> Y \<Longrightarrow> stays Y fs fs'"
  by (auto simp: stays_def)

lemma stays_solid: "stays X fs fs' \<Longrightarrow> solid fs p \<Longrightarrow> solid fs' p"
  by (auto simp: stays_def solid_def)

lemma entry_parent: "entry_place links fs p = Some q \<Longrightarrow> q = [] \<or> (\<exists>r x. q = r @ [x] \<and> node_at fs r = Some Dir)"
  by (auto simp: entry_place_def split: if_splits option.splits)

lemma tree_set:
  assumes "tree fs" "entry_place links fs p = Some q" "node_at fs q \<noteq> Some Dir" "n = Some Dir \<longrightarrow> fs q = None"
  shows "tree (fs(q := n))"
  unfolding tree_def
proof (intro allI impI)
  fix r x assume ex: "(fs(q := n)) (r @ [x]) \<noteq> None"
  have q: "q \<noteq> []" using assms(3) by (auto simp: node_at_def)
  then obtain r' y where q': "q = r' @ [y]" "node_at fs r' = Some Dir" using entry_parent assms(2) by blast
  have "node_at fs r = Some Dir"
  proof (cases "r @ [x] = q")
    case True
    then show ?thesis using q' by simp
  next
    case False
    then show ?thesis using ex assms(1) unfolding tree_def by (metis fun_upd_other)
  qed
  moreover have "r \<noteq> q" using calculation assms(3) by auto
  ultimately show "node_at (fs(q := n)) r = Some Dir" by (simp add: node_at_def split: if_splits)
qed

lemma make_dir_Inr:
  assumes "make_dir links p fs = Inr fs'"
  shows "fs' = fs \<and> stat links fs p = Some Dir
    \<or> (\<exists>q. entry_place links fs p = Some q \<and> fs q = None \<and> fs' = fs(q \<mapsto> Dir))"
  using assms by (auto simp: make_dir_def split: if_splits option.splits)

lemma make_dir_kept:
  assumes "make_dir links p fs = Inr fs'" "tree fs" "p \<noteq> []"
  shows "stays {} fs fs'" "tree fs'"
proof -
  show "stays {} fs fs'" using make_dir_Inr [OF assms(1)] by (auto simp: stays_def)
  show "tree fs'"
  proof (cases "fs' = fs")
    case False
    then obtain q where q: "entry_place links fs p = Some q" "fs q = None" "fs' = fs(q \<mapsto> Dir)"
      using make_dir_Inr [OF assms(1)] by blast
    have "q \<noteq> []" using q(1) assms(3) by (auto simp: entry_place_def split: option.splits if_splits)
    then show ?thesis using tree_set [OF assms(2) q(1), of "Some Dir"] q by (simp add: node_at_def)
  qed (use assms in simp)
qed

lemma make_dir_solid:
  assumes "make_dir links (p @ [x]) fs = Inr fs'" "solid fs p" "x \<noteq> ''..''" "\<nexists>t. fs (p @ [x]) = Some (Link t)"
  shows "solid fs' (p @ [x])" "fs' = fs \<or> fs (p @ [x]) = None \<and> fs' = fs(p @ [x] \<mapsto> Dir)"
proof -
  show change: "fs' = fs \<or> fs (p @ [x]) = None \<and> fs' = fs(p @ [x] \<mapsto> Dir)"
    using make_dir_Inr [OF assms(1)] by (auto simp: entry_solid [OF assms(2)])
  have "stays {} fs fs'" using change by (auto simp: stays_def)
  moreover have "fs' (p @ [x]) = Some Dir"
    using make_dir_Inr [OF assms(1)] stat_solid [OF assms(2-4)] by (auto simp: entry_solid [OF assms(2)])
  ultimately show "solid fs' (p @ [x])" using stays_solid assms(2,3) by (simp add: solid_snoc)
qed

text \<open>The ancestors of a name without links: created, and nothing else changed.\<close>

definition linkless :: "filesys \<Rightarrow> place \<Rightarrow> bool" where
  "linkless fs p \<longleftrightarrow> (\<forall>k t. 0 < k \<longrightarrow> k \<le> length p \<longrightarrow> fs (take k p) \<noteq> Some (Link t)) \<and> ''..'' \<notin> set p"

lemma make_dirs_solid:
  assumes "make_dirs links p d = (Inr u, d')" "linkless (dk_now d) p" "tree (dk_now d)"
  shows "solid (dk_now d') p \<and> stays {} (dk_now d) (dk_now d') \<and> tree (dk_now d')
    \<and> (\<forall>x. \<not> lies_inside p x \<longrightarrow> dk_now d' x = dk_now d x)"
proof -
  let ?f = "\<lambda>k. act_change (make_dir links (take (Suc k) p))"
  have main: "n \<le> length p \<Longrightarrow> act_each ?f [0..<n] d = (Inr v, e) \<Longrightarrow>
      solid (dk_now e) (take n p) \<and> stays {} (dk_now d) (dk_now e) \<and> tree (dk_now e)
      \<and> linkless (dk_now e) p \<and> (\<forall>x. \<not> lies_inside p x \<longrightarrow> dk_now e x = dk_now d x)" for n v e
  proof (induction n arbitrary: v e)
    case 0
    then show ?case using assms(2,3) by (simp add: act_simps stays_refl)
  next
    case (Suc n)
    from Suc.prems(2) obtain w c where c: "act_each ?f [0..<n] d = (Inr w, c)"
        and e: "act_each ?f [n] c = (Inr v, e)"
      by (auto simp: act_each_append act_then_Inr)
    note IH = Suc.IH [OF _ c]
    have n: "n < length p" "take (Suc n) p = take n p @ [p ! n]"
      using Suc.prems(1) by (simp_all add: take_Suc_conv_app_nth)
    from e obtain fs where fs: "make_dir links (take n p @ [p ! n]) (dk_now c) = Inr fs" "dk_now e = fs"
      unfolding n(2) [symmetric] by (auto simp: act_then_Inr act_simps act_change_Inr)
    have nolink: "\<nexists>t. dk_now c (take n p @ [p ! n]) = Some (Link t)" "p ! n \<noteq> ''..''"
    proof -
      have free: "linkless (dk_now c) p" using IH n(1) by simp
      then show "\<nexists>t. dk_now c (take n p @ [p ! n]) = Some (Link t)"
        using n(1) unfolding linkless_def n(2) [symmetric] by (meson Suc_leI zero_less_Suc)
      show "p ! n \<noteq> ''..''" using free nth_mem [OF n(1)] by (auto simp: linkless_def)
    qed
    have s: "solid fs (take (Suc n) p)"
        "fs = dk_now c \<or> dk_now c (take (Suc n) p) = None \<and> fs = (dk_now c)(take (Suc n) p \<mapsto> Dir)"
      using make_dir_solid [OF fs(1) _ nolink(2,1)] IH n by auto
    have "stays {} (dk_now c) fs" "tree fs"
      using make_dir_kept [OF fs(1)] IH n(1) by auto
    moreover have "linkless fs p" using s(2) IH n(1) by (auto simp: linkless_def split: if_splits)
    moreover have "lies_inside p (take (Suc n) p)"
      using n(1) by (simp add: lies_inside_def min_absorb2 Suc_leI)
    ultimately show ?case
      using s IH n(1) fs(2) stays_trans [of "{}" "dk_now d" "dk_now c" "{}" fs] by auto
  qed
  from main [of "length p" u d'] assms(1) show ?thesis by (simp add: make_dirs_def)
qed

lemma rename_Inr:
  assumes "rename links s t fs = Inr fs'"
  obtains s' t' n where "entry_place links fs s = Some s'" "entry_place links fs t = Some t'"
    "fs s' = Some n" "n \<noteq> Dir" "node_at fs t' \<noteq> Some Dir" "fs' = fs(s' := None, t' := Some n)"
  using assms by (auto simp: rename_def split: option.splits node.splits if_splits)

lemma rename_kept:
  assumes "rename links s t fs = Inr fs'" "tree fs"
  shows "tree fs'" "entry_place links fs s = Some s' \<Longrightarrow> entry_place links fs t = Some t' \<Longrightarrow> stays {s', t'} fs fs'"
proof -
  obtain s'' t'' n where r: "entry_place links fs s = Some s''" "entry_place links fs t = Some t''"
      "fs s'' = Some n" "n \<noteq> Dir" "node_at fs t'' \<noteq> Some Dir" "fs' = fs(s'' := None, t'' := Some n)"
    using rename_Inr [OF assms(1)] .
  show "entry_place links fs s = Some s' \<Longrightarrow> entry_place links fs t = Some t' \<Longrightarrow> stays {s', t'} fs fs'"
    using r by (auto simp: stays_def node_at_def split: if_splits)
  show "tree fs'"
    unfolding tree_def
  proof (intro allI impI)
    fix p x assume ex: "fs' (p @ [x]) \<noteq> None"
    have t: "t'' \<noteq> []" using r(5) by (auto simp: node_at_def)
    then obtain q y where q: "t'' = q @ [y]" "node_at fs q = Some Dir" using entry_parent r(2) by blast
    have "node_at fs p = Some Dir"
    proof (cases "p @ [x] = t''")
      case False
      then have "fs (p @ [x]) \<noteq> None" using ex r(6) by (auto split: if_splits)
      then show ?thesis using assms(2) unfolding tree_def by blast
    qed (use q in simp)
    moreover have "p \<noteq> t''" using calculation r(5) by auto
    moreover have "p = [] \<or> p \<noteq> s''" using calculation r(3,4) by (auto simp: node_at_def)
    ultimately show "node_at fs' p = Some Dir" using r(6) by (simp add: node_at_def split: if_splits)
  qed
qed

section \<open>Names that were checked\<close>

lemma walk_output_Inr:
  "walk_output links fs rel w ps = Inr r \<longleftrightarrow>
     r = w @ ps \<and> (\<forall>k. 0 < k \<longrightarrow> k \<le> length ps \<longrightarrow> \<not> is_symlink links fs (w @ take k ps))"
proof (induction ps arbitrary: w)
  case (Cons p ps)
  have "(\<forall>k. 0 < k \<longrightarrow> k \<le> length (p # ps) \<longrightarrow> \<not> is_symlink links fs (w @ take k (p # ps)))
      \<longleftrightarrow> \<not> is_symlink links fs (w @ [p])
        \<and> (\<forall>k. 0 < k \<longrightarrow> k \<le> length ps \<longrightarrow> \<not> is_symlink links fs ((w @ [p]) @ take k ps))"
    (is "?all \<longleftrightarrow> ?first \<and> ?rest")
  proof
    assume all: ?all
    have ?first using all [rule_format, of 1] by simp
    moreover have ?rest
    proof (intro allI impI)
      fix k assume "0 < k" "k \<le> length ps"
      then show "\<not> is_symlink links fs ((w @ [p]) @ take k ps)"
        using all [rule_format, of "Suc k"] by simp
    qed
    ultimately show "?first \<and> ?rest" ..
  next
    assume both: "?first \<and> ?rest"
    show ?all
    proof (intro allI impI)
      fix k assume k: "0 < k" "k \<le> length (p # ps)"
      then show "\<not> is_symlink links fs (w @ take k (p # ps))"
        using both by (cases "k = 1") (auto simp: take_Cons' dest: spec [of _ "k - 1"])
    qed
  qed
  then show ?case using Cons.IH [of "w @ [p]"] by (auto simp: raise_if_Inr)
qed auto

lemma normpath_plain: "''..'' \<notin> set ps \<Longrightarrow> normpath_names acc ps = rev acc @ ps"
  by (induction ps arbitrary: acc) auto

definition checked_name :: "string \<Rightarrow> bool" where
  "checked_name name \<longleftrightarrow> \<not> absolute (pure name) \<and> path_names (pure name) \<noteq> []
     \<and> ''..'' \<notin> set (path_names (pure name))"

lemma resolve_output_Inr:
  assumes "resolve_output links fs base name = Inr t" "solid fs base"
  shows "checked_name name" "t = base @ path_names (pure name)"
    "\<And>k. 0 < k \<Longrightarrow> k \<le> length (path_names (pure name)) \<Longrightarrow>
       \<not> is_symlink links fs (base @ take k (path_names (pure name)))"
proof -
  let ?ps = "path_names (pure name)"
  have c: "checked_name name" "t = normpath (base @ ?ps)"
      "\<forall>k. 0 < k \<longrightarrow> k \<le> length ?ps \<longrightarrow> \<not> is_symlink links fs (base @ take k ?ps)"
    using assms(1)
    by (auto simp: resolve_output_def Let_def raise_if_Inr bindr_Inr walk_output_Inr checked_name_def)
  moreover have "''..'' \<notin> set (base @ ?ps)"
    using c(1) assms(2) by (simp add: checked_name_def solid_def)
  ultimately show "checked_name name" "t = base @ ?ps"
    "\<And>k. 0 < k \<Longrightarrow> k \<le> length ?ps \<Longrightarrow> \<not> is_symlink links fs (base @ take k ?ps)"
    by (simp_all add: normpath_def normpath_plain)
qed

text \<open>Below a solid base, where no name is a link by \<open>lstat\<close>, there is no link at all.\<close>

lemma no_links_below:
  assumes "tree fs" "solid fs base" "''..'' \<notin> set ps"
    and links: "\<And>k. 0 < k \<Longrightarrow> k \<le> length ps \<Longrightarrow> \<not> is_symlink links fs (base @ take k ps)"
  shows "0 < k \<Longrightarrow> k \<le> length ps \<Longrightarrow> fs (base @ take k ps) \<noteq> Some (Link t)
    \<and> (fs (base @ take k ps) = Some Dir \<longrightarrow> solid fs (base @ take k ps))"
proof (induction k)
  case (Suc k)
  have split: "base @ take (Suc k) ps = (base @ take k ps) @ [ps ! k]" "ps ! k \<noteq> ''..''"
    using Suc.prems assms(3) by (simp add: take_Suc_conv_app_nth, metis Suc_le_eq nth_mem)
  show ?case
  proof (cases "k = 0 \<or> fs (base @ take k ps) = Some Dir")
    case True
    then have s: "solid fs (base @ take k ps)" using Suc assms(2) by (cases "k = 0") auto
    moreover have "fs (base @ take (Suc k) ps) \<noteq> Some (Link t)"
    proof
      assume "fs (base @ take (Suc k) ps) = Some (Link t)"
      then have "is_symlink links fs (base @ take (Suc k) ps)"
        unfolding split(1) using lstat_solid [OF s] by (simp add: is_symlink_def)
      then show False using links Suc.prems by blast
    qed
    ultimately show ?thesis unfolding split(1) using split(2) by (simp add: solid_snoc del: append_assoc)
  next
    case False
    then have "node_at fs (base @ take k ps) \<noteq> Some Dir"
      using Suc.prems by (auto simp: node_at_def)
    then have "fs (base @ take (Suc k) ps) = None"
      using assms(1) unfolding tree_def split(1) by blast
    then show ?thesis by simp
  qed
qed simp

lemma solid_take: "solid fs p \<Longrightarrow> solid fs (take k p)"
  using solid_append [of fs "take k p" "drop k p"] by simp

lemma linkless_below:
  assumes "tree fs" "solid fs base" "''..'' \<notin> set ps"
    and links: "\<And>k. 0 < k \<Longrightarrow> k \<le> length ps \<Longrightarrow> \<not> is_symlink links fs (base @ take k ps)"
  shows "linkless fs (base @ take n ps)"
  unfolding linkless_def
proof (intro conjI allI impI)
  show "''..'' \<notin> set (base @ take n ps)"
    using assms(2,3) by (auto simp: solid_def dest: in_set_takeD)
  fix k :: nat and t assume k: "0 < k" "k \<le> length (base @ take n ps)"
  show "fs (take k (base @ take n ps)) \<noteq> Some (Link t)"
  proof (cases "k \<le> length base")
    case True
    then show ?thesis using assms(2) k by (simp add: solid_def)
  next
    case False
    then have "take k (base @ take n ps) = base @ take (k - length base) ps"
      using k by (simp add: min_absorb2)
    then show ?thesis using no_links_below [OF assms, of "k - length base"] False k by simp
  qed
qed

end
