(* ===== verification/Production_Runs.thy ===== *)
theory Production_Runs
  imports Production_Facts
begin

text \<open>
  A production from its parts: what is described is on the disk, publishing writes one name, and a
  manifest verifies as long as the files it names stay.
\<close>

section \<open>Preparing and moving\<close>

lemma solid_stays: "stays X fs fs' \<Longrightarrow> solid fs p \<Longrightarrow> solid fs' p"
  by (rule stays_solid)

lemma butlast_below: "ps \<noteq> [] \<Longrightarrow> butlast (base @ ps) = base @ take (length ps - 1) ps"
  by (simp add: butlast_append) (simp add: butlast_conv_take)

lemma prepare_Inr:
  assumes "prepare_output links base name d = (Inr t, d')" "tree (dk_now d)" "solid (dk_now d) base"
  shows "checked_name name" "t = base @ path_names (pure name)"
    "solid (dk_now d') (base @ butlast (path_names (pure name)))"
    "stays {} (dk_now d) (dk_now d')" "tree (dk_now d')"
proof -
  let ?ps = "path_names (pure name)"
  from assms(1) obtain u where r: "resolve_output links (dk_now d) base name = Inr t"
      and m: "make_dirs links (butlast t) d = (Inr u, d')"
    by (auto simp: prepare_output_def act_then_Inr act_simps)
  note c = resolve_output_Inr [OF r assms(3)]
  show "checked_name name" "t = base @ ?ps" by (rule c)+
  have ps: "?ps \<noteq> []" "''..'' \<notin> set ?ps" using c(1) by (simp_all add: checked_name_def)
  have b: "butlast t = base @ take (length ?ps - 1) ?ps" unfolding c(2) by (rule butlast_below [OF ps(1)])
  have "linkless (dk_now d) (butlast t)"
    unfolding b by (rule linkless_below [OF assms(2,3) ps(2) c(3)])
  note md = make_dirs_solid [OF m this assms(2)]
  show "solid (dk_now d') (base @ butlast ?ps)" "stays {} (dk_now d) (dk_now d')" "tree (dk_now d')"
    using md unfolding b by (simp_all add: butlast_conv_take)
qed

lemma prepared_place:
  assumes "prepare_output links base name d = (Inr t, d')" "tree (dk_now d)" "solid (dk_now d) base"
  shows "lies_inside t base \<and> t \<noteq> base \<and> entry_place links (dk_now d') t = Some t
    \<and> \<not> is_symlink links (dk_now d') t
    \<and> (\<forall>p. \<not> lies_inside p base \<longrightarrow> node_at (dk_now d') p = node_at (dk_now d) p)"
proof -
  let ?ps = "path_names (pure name)"
  from assms(1) obtain u where r: "resolve_output links (dk_now d) base name = Inr t"
      and m: "make_dirs links (butlast t) d = (Inr u, d')"
    by (auto simp: prepare_output_def act_then_Inr act_simps)
  note c = resolve_output_Inr [OF r assms(3)]
  note pr = prepare_Inr [OF assms]
  have ps: "?ps \<noteq> []" "''..'' \<notin> set ?ps" using c(1) by (simp_all add: checked_name_def)
  have b: "butlast t = base @ take (length ?ps - 1) ?ps" unfolding c(2) by (rule butlast_below [OF ps(1)])
  have "linkless (dk_now d) (butlast t)"
    unfolding b by (rule linkless_below [OF assms(2,3) ps(2) c(3)])
  note md = make_dirs_solid [OF m this assms(2)]
  have t: "t = (base @ butlast ?ps) @ [last ?ps]" using c(2) ps(1) by simp
  have entry: "entry_place links (dk_now d') t = Some t" unfolding t by (rule entry_solid [OF pr(3)])
  have "dk_now d t \<noteq> Some (Link k)" for k
    using no_links_below [OF assms(2,3) ps(2) c(3), of "length ?ps"] ps(1) c(2) by simp
  moreover have "butlast t \<noteq> t" unfolding t by (metis butlast_snoc append_self_conv list.distinct(1))
  then have "\<not> lies_inside (butlast t) t" by (simp add: lies_inside_def)
  ultimately have "dk_now d' t \<noteq> Some (Link k)" for k using md by metis
  moreover have "t \<noteq> []" by (simp add: t)
  ultimately have "\<not> is_symlink links (dk_now d') t"
    by (auto simp: is_symlink_def lstat_def entry node_at_def split: option.splits node.splits)
  moreover have "node_at (dk_now d') p = node_at (dk_now d) p" if p: "\<not> lies_inside p base" for p
  proof (cases "lies_inside (butlast t) p \<and> p \<noteq> []")
    case True
    then have pre: "p = take (length p) (butlast t)" by (simp add: lies_inside_def)
    have "take (length base) (take n (base @ r)) = base" if "length base \<le> n" for n and r :: place
      using that by (simp add: min_def)
    then have "length p < length base"
      using p pre unfolding b lies_inside_def by (metis not_le)
    with pre have "p = take (length p) base" unfolding b by simp
    then have "solid (dk_now d) p" using solid_take [OF assms(3)] by metis
    then show ?thesis using pr(4) stays_solid solid_dir by metis
  next
    case False
    then show ?thesis using md by (auto simp: node_at_def)
  qed
  ultimately show ?thesis using entry c(2) ps(1) by (simp add: lies_inside_def)
qed

lemma rename_dirs: "rename links s t fs = Inr fs' \<Longrightarrow> stays UNIV fs fs'"
  by (erule rename_Inr) (auto simp: stays_def node_at_def split: if_splits)

lemma promote_one_Inr:
  assumes "promote_one links base staged name d = (Inr u, d')" "tree (dk_now d)" "solid (dk_now d) base"
  shows "tree (dk_now d')" "stays UNIV (dk_now d) (dk_now d')"
proof -
  from assms(1) obtain t e where e: "prepare_output links base name d = (Inr t, e)"
      "rename links (staged @ path_names (pure name)) t (dk_now e) = Inr (dk_now d')"
    by (auto simp: promote_one_def act_then_Inr act_change_Inr)
  note p = prepare_Inr [OF e(1) assms(2,3)]
  show "tree (dk_now d')" by (rule rename_kept(1) [OF e(2) p(5)])
  show "stays UNIV (dk_now d) (dk_now d')"
    using stays_trans [OF p(4) rename_dirs [OF e(2)]] by simp
qed

lemma promote_each:
  assumes "act_each (promote_one links base staged) names d = (Inr u, d')"
    and "tree (dk_now d)" "solid (dk_now d) area" "solid (dk_now d) base"
  shows "tree (dk_now d') \<and> solid (dk_now d') area \<and> solid (dk_now d') base"
proof (rule act_each_invariant [where P = "\<lambda>fs. tree fs \<and> solid fs area \<and> solid fs base"])
  show "act_each (promote_one links base staged) names d = (Inr u, d')" by (rule assms(1))
  show "tree (dk_now d) \<and> solid (dk_now d) area \<and> solid (dk_now d) base" using assms by blast
qed (use promote_one_Inr solid_stays in blast)

section \<open>Files that are where their name says\<close>

lemma strict_stops:
  assumes "solid fs p" "x \<noteq> ''..''" "fs (p @ [x]) \<noteq> Some Dir" "\<nexists>t. fs (p @ [x]) = Some (Link t)" "qs \<noteq> []"
  shows "follow True links fs [] (p @ x # qs) = None"
  using follow_solid [of fs "[]" p True links "x # qs"] assms
  by (auto split: option.split node.split)

lemma stat_below:
  assumes "tree fs" "solid fs base" "''..'' \<notin> set ps" "ps \<noteq> []"
    and links: "\<And>k. 0 < k \<Longrightarrow> k \<le> length ps \<Longrightarrow> \<not> is_symlink links fs (base @ take k ps)"
    and n: "stat links fs (base @ ps) = Some n"
  shows "solid fs (base @ butlast ps)" "fs (base @ ps) = Some n"
proof -
  note free = no_links_below [OF assms(1-3) links]
  have below: "k < length ps \<Longrightarrow> solid fs (base @ take k ps)" for k
  proof (induction k)
    case (Suc k)
    have split: "base @ take (Suc k) ps = (base @ take k ps) @ [ps ! k]"
        "base @ ps = (base @ take k ps) @ ps ! k # drop (Suc k) ps"
      using Suc.prems by (simp_all add: take_Suc_conv_app_nth id_take_nth_drop [symmetric])
    have x: "ps ! k \<noteq> ''..''" using Suc.prems assms(3) by (metis Suc_lessD nth_mem)
    have "fs ((base @ take k ps) @ [ps ! k]) = Some Dir"
    proof (rule ccontr)
      assume no: "fs ((base @ take k ps) @ [ps ! k]) \<noteq> Some Dir"
      have "\<nexists>t. fs ((base @ take k ps) @ [ps ! k]) = Some (Link t)"
        using free [of "Suc k"] Suc.prems unfolding split(1) by simp
      then have "follow True links fs [] (base @ ps) = None"
        unfolding split(2) using strict_stops [OF Suc.IH x no] Suc.prems by simp
      then show False using n by (simp add: stat_def)
    qed
    then show ?case unfolding split(1) solid_snoc using Suc x by simp
  qed (simp add: assms(2))
  have butlast: "base @ butlast ps = base @ take (length ps - 1) ps" by (simp add: butlast_conv_take)
  show s: "solid fs (base @ butlast ps)"
    unfolding butlast by (rule below) (use assms(4) in simp)
  have eq: "base @ ps = (base @ butlast ps) @ [last ps]" using assms(4) by simp
  have "\<nexists>t. fs (base @ ps) = Some (Link t)" using free [of "length ps"] assms(4) by simp
  moreover have "last ps \<noteq> ''..''" using assms(3,4) last_in_set by fastforce
  ultimately show "fs (base @ ps) = Some n"
    using n stat_solid [OF s, of "last ps" links] unfolding eq by simp
qed

definition held :: "(string \<Rightarrow> string) \<Rightarrow> filesys \<Rightarrow> place \<Rightarrow> artifact \<Rightarrow> bool" where
  "held sha fs base a \<longleftrightarrow> checked_name (af_path a)
     \<and> solid fs (base @ butlast (path_names (pure (af_path a))))
     \<and> (\<exists>b. fs (base @ path_names (pure (af_path a))) = Some (File b)
          \<and> af_size a = int (length b) \<and> af_digest a = digest_of_file sha b)"

lemma is_file_iff: "is_file links fs p \<longleftrightarrow> (\<exists>b. stat links fs p = Some (File b))"
  by (auto simp: is_file_def split: option.splits node.splits)

lemma read_file_iff: "read_file links fs p = Inr b \<longleftrightarrow> stat links fs p = Some (File b)"
  by (auto simp: read_file_def split: option.splits node.splits)

lemma described_held:
  "describe_artifacts sha links fs base names = Inr as \<Longrightarrow> tree fs \<Longrightarrow> solid fs base \<Longrightarrow>
     map af_path as = names \<and> (\<forall>a \<in> set as. held sha fs base a)"
proof (induction names arbitrary: as)
  case (Cons name names)
  from Cons.prems(1) obtain t b rest where r: "resolve_output links fs base name = Inr t"
      and b: "stat links fs t = Some (File b)"
      and rest: "describe_artifacts sha links fs base names = Inr rest"
      and as: "as = \<lparr>af_path = name, af_size = int (length b), af_digest = digest_of_file sha b\<rparr> # rest"
    by (auto simp: bindr_Inr raise_if_Inr read_file_iff)
  note c = resolve_output_Inr [OF r Cons.prems(3)]
  let ?ps = "path_names (pure name)"
  have ps: "?ps \<noteq> []" "''..'' \<notin> set ?ps" using c(1) by (simp_all add: checked_name_def)
  note s = stat_below [OF Cons.prems(2,3) ps(2,1) c(3) b [unfolded c(2)]]
  then have "held sha fs base \<lparr>af_path = name, af_size = int (length b), af_digest = digest_of_file sha b\<rparr>"
    using c(1) by (simp add: held_def)
  then show ?case using Cons.IH [OF rest Cons.prems(2,3)] as by simp
qed simp

text \<open>Conversely, a file that is where its name says is accepted.\<close>

lemma file_place:
  assumes "checked_name name" "solid fs (base @ butlast (path_names (pure name)))"
    and "fs (base @ path_names (pure name)) = Some (File b)"
  shows "resolve_output links fs base name = Inr (base @ path_names (pure name))"
    "stat links fs (base @ path_names (pure name)) = Some (File b)"
proof -
  let ?ps = "path_names (pure name)"
  have ps: "?ps \<noteq> []" "''..'' \<notin> set ?ps" "\<not> absolute (pure name)"
    using assms(1) by (simp_all add: checked_name_def)
  have eq: "base @ ?ps = (base @ butlast ?ps) @ [last ?ps]" using ps by simp
  have last: "last ?ps \<noteq> ''..''" using ps last_in_set by fastforce
  have base: "solid fs base" using assms(2) by (rule solid_append)
  show "stat links fs (base @ ?ps) = Some (File b)"
    using stat_solid [OF assms(2) last] assms(3) unfolding eq by simp
  have walk: "\<not> is_symlink links fs (base @ take k ?ps)" if k: "0 < k" "k \<le> length ?ps" for k
  proof (cases "k = length ?ps")
    case True
    then show ?thesis
      using lstat_solid [OF assms(2), of links "last ?ps"] assms(3) ps(1)
      by (simp add: is_symlink_def)
  next
    case False
    then have "take k ?ps = take k (butlast ?ps)" using k by (simp add: butlast_conv_take)
    then have s: "solid fs (base @ take k ?ps)"
      using solid_append [of fs "base @ take k (butlast ?ps)" "drop k (butlast ?ps)"] assms(2) by simp
    obtain x xs where "take k ?ps = xs @ [x]" using k ps(1) by (cases "take k ?ps" rule: rev_cases) auto
    then show ?thesis
      using s lstat_solid [of fs "base @ xs" links x] by (simp add: solid_snoc is_symlink_def flip: append_assoc)
  qed
  have dots: "''..'' \<notin> set (base @ ?ps)" using base ps(2) by (simp add: solid_def)
  have "resolved_parent links fs (base @ ?ps) = Inr (base @ butlast ?ps)"
    using ps(1) stat_dir [OF assms(2), of links] real_solid [OF assms(2), of links]
    by (simp add: resolved_parent_def butlast_append nearest_existing.simps [of links fs "base @ butlast ?ps"]
        path_exists_def)
  then show "resolve_output links fs base name = Inr (base @ ?ps)"
    using ps walk dots real_solid [OF base, of links]
    by (simp add: resolve_output_def Let_def bindr_Inr raise_if_Inr walk_output_Inr normpath_def
        normpath_plain lies_inside_def)
qed

lemma held_verifies:
  "\<forall>a \<in> set as. held sha fs base a \<Longrightarrow>
     verify_artifacts sha links fs base as = Inr \<lparr>mv_missing = [], mv_altered = []\<rparr>"
proof (induction as)
  case (Cons a as)
  then obtain b where b: "checked_name (af_path a)" "solid fs (base @ butlast (path_names (pure (af_path a))))"
      "fs (base @ path_names (pure (af_path a))) = Some (File b)" "af_size a = int (length b)"
      "af_digest a = digest_of_file sha b"
    by (auto simp: held_def)
  then show ?case using Cons file_place [OF b(1-3), of links] by (simp add: is_file_iff read_file_def)
qed simp

lemma held_stays:
  assumes "held sha fs base a" "stays X fs fs'" "base @ path_names (pure (af_path a)) \<notin> X"
  shows "held sha fs' base a"
  using assms stays_solid [OF assms(2)] unfolding held_def stays_def by blast

section \<open>Publishing\<close>

text \<open>All the states of the disk from one to another, the first included.\<close>

definition during :: "(filesys \<Rightarrow> bool) \<Rightarrow> disk \<Rightarrow> disk \<Rightarrow> bool" where
  "during P d d' \<longleftrightarrow> (\<exists>states. dk_seen d' = states @ dk_seen d \<and> (\<forall>fs \<in> set states. P fs)) \<and> P (dk_now d')"

lemma during_refl: "P (dk_now d) \<Longrightarrow> during P d d"
  by (simp add: during_def)

lemma during_set: "P (dk_now d) \<Longrightarrow> P fs \<Longrightarrow> during P d (act_set fs d)"
  unfolding during_def act_set_def by (rule conjI, rule exI [of _ "[dk_now d]"]) simp_all

lemma during_trans:
  assumes "during P d e" "during P e d'"
  shows "during P d d'"
proof -
  obtain xs ys where "dk_seen e = xs @ dk_seen d" "dk_seen d' = ys @ dk_seen e"
      "\<forall>fs \<in> set xs. P fs" "\<forall>fs \<in> set ys. P fs" "P (dk_now d')"
    using assms unfolding during_def by blast
  then have "dk_seen d' = (ys @ xs) @ dk_seen d" "\<forall>fs \<in> set (ys @ xs). P fs" "P (dk_now d')" by auto
  then show ?thesis unfolding during_def by blast
qed

lemma make_dirs_there:
  assumes "solid (dk_now d) p" "make_dirs links p d = (r, d')"
  shows "r = Inr () \<and> dk_now d' = dk_now d \<and> during (\<lambda>fs. fs = dk_now d) d d'"
proof -
  let ?f = "\<lambda>k. act_change (make_dir links (take (Suc k) p))"
  have "set ks \<subseteq> {..<length p} \<Longrightarrow> dk_now e = dk_now d \<Longrightarrow> act_each ?f ks e = (r, d') \<Longrightarrow>
      r = Inr () \<and> dk_now d' = dk_now d \<and> during (\<lambda>fs. fs = dk_now d) e d'" for ks e
  proof (induction ks arbitrary: e)
    case Nil
    then show ?case by (simp add: act_simps during_refl)
  next
    case (Cons k ks)
    have "stat links (dk_now e) (take (Suc k) p) = Some Dir"
      using stat_dir [OF solid_take [OF assms(1)]] Cons.prems(2) by simp
    then have "?f k e = (Inr (), act_set (dk_now d) e)"
      using Cons.prems(2) by (simp add: act_change_def make_dir_def)
    then have "act_each ?f ks (act_set (dk_now d) e) = (r, d')"
      using Cons.prems(3) by (simp add: act_then_def)
    then show ?case
      using Cons.IH [of "act_set (dk_now d) e"] Cons.prems(1,2)
        during_trans [OF during_set [of "\<lambda>fs. fs = dk_now d" e "dk_now d"]] by simp
  qed
  from this [of "[0..<length p]" d] assms(2) show ?thesis
    by (simp add: make_dirs_def atLeast0LessThan)
qed

lemma staged_file_cases:
  assumes "staged_file links directory tokens d = (r, d')" "solid (dk_now d) directory"
  obtains (none) e where "r = Inl e" "d' = d"
  | (made) token where "token \<in> set tokens" "r = Inr (staged_name directory token)"
      "dk_now d (staged_name directory token) = None"
      "d' = act_set ((dk_now d)(staged_name directory token \<mapsto> File [])) d"
  using assms
proof (induction tokens arbitrary: thesis)
  case Nil
  then show ?case by (auto simp: act_raise_def)
next
  case (Cons t ts)
  let ?s = "staged_name directory t"
  have new: "create links ?s (dk_now d)
      = (if dk_now d ?s = None then Inr ((dk_now d)(?s \<mapsto> File [])) else Inl (OSErr ''FileExistsError''))"
    by (simp add: create_def staged_name_def entry_solid [OF Cons.prems(4)])
  show ?case
  proof (cases "dk_now d ?s = None")
    case True
    have "r = Inr ?s" "d' = act_set ((dk_now d)(?s \<mapsto> File [])) d"
      using Cons.prems(3) new True by (auto simp: act_change_def Let_def)
    then show ?thesis using True by (intro Cons.prems(2) [of t]) (simp_all add: fun_upd_def)
  next
    case False
    then have "create links ?s (dk_now d) = Inl (OSErr ''FileExistsError'')" using new by simp
    then have again: "staged_file links directory ts d = (r, d')"
      using Cons.prems(3) by (simp add: act_change_def Let_def)
    show ?thesis
    proof (rule Cons.IH [OF _ _ again Cons.prems(4)], goal_cases)
      case (1 e)
      then show ?case by (rule Cons.prems(1))
    next
      case (2 token)
      show ?case by (rule Cons.prems(2) [OF _ 2(2-4)]) (simp add: 2(1))
    qed
  qed
qed

text \<open>A published manifest: at its name the old content or the new one, at every moment.\<close>

lemma publish_steps:
  assumes "publish_manifest links tokens m dest d = (r, d')"
    and solid: "solid (dk_now d) (butlast dest)" and dest: "dest \<noteq> []"
    and drawn: "last dest \<notin> (\<lambda>t. ''.manifest-'' @ t) ` set tokens"
  shows "during (\<lambda>fs. fs dest = dk_now d dest \<or> fs dest = Some (File (manifest_json m))) d d'"
    and "r = Inr p \<Longrightarrow> p = dest \<and> dk_now d' = (dk_now d)(dest \<mapsto> File (manifest_json m))
      \<and> dk_now d dest \<noteq> Some Dir"
    and "r = Inl e \<Longrightarrow> dk_now d' dest = dk_now d dest"
proof -
  let ?json = "manifest_json m"
  let ?P = "\<lambda>fs. fs dest = dk_now d dest \<or> fs dest = Some (File ?json)"
  let ?dir = "butlast dest"
  have dest_eq: "dest = ?dir @ [last dest]" using dest by simp
  obtain c where c: "make_dirs links ?dir d = (Inr (), c)" "dk_now c = dk_now d"
      "during (\<lambda>fs. fs = dk_now d) d c"
    using make_dirs_there [OF solid] by (metis surj_pair)
  have dc: "during ?P d c" using c(3) by (auto simp: during_def)
  have sc: "solid (dk_now c) ?dir" using solid c(2) by simp
  obtain s c' where s: "staged_file links ?dir tokens c = (s, c')" by force
  define tail where "tail = (\<lambda>staged. act_on_error
        (act_then (act_change (write_file links staged ?json)) (\<lambda>_.
          act_change (rename links staged dest)))
        (remove_file links staged))"
  have "publish_manifest links tokens m dest d = (case s of Inl e \<Rightarrow> (Inl e, c')
      | Inr staged \<Rightarrow> act_then (tail staged) (\<lambda>_. act_return dest) c')"
    by (simp add: publish_manifest_def act_then_def tail_def c(1) s split: sum.split)
  then have run: "(r, d') = (case s of Inl e \<Rightarrow> (Inl e, c')
      | Inr staged \<Rightarrow> act_then (tail staged) (\<lambda>_. act_return dest) c')" using assms(1) by simp
  have goal: "during ?P d d' \<and> (r = Inr p \<longrightarrow>
        p = dest \<and> dk_now d' = (dk_now d)(dest \<mapsto> File ?json) \<and> dk_now d dest \<noteq> Some Dir)
      \<and> (r = Inl e \<longrightarrow> dk_now d' dest = dk_now d dest)"
    using s sc
  proof (cases rule: staged_file_cases)
    case (none e)
    then show ?thesis using run dc c(2) by simp
  next
    case (made token)
    let ?q = "staged_name ?dir token" and ?fs = "dk_now d"
    have q: "?q \<noteq> dest" using made(1) drawn dest_eq unfolding staged_name_def by (metis imageI last_snoc)
    have c': "c' = act_set (?fs(?q \<mapsto> File [])) c" using made(4) c(2) by simp
    have free: "?fs ?q = None" using made(3) c(2) by simp
    have st: "stays {} ?fs (?fs(?q \<mapsto> File []))" "stays {} ?fs (?fs(?q \<mapsto> File ?json))"
      using free by (simp_all add: stays_def)
    note s1 = stays_solid [OF st(1) solid] and s2 = stays_solid [OF st(2) solid]
    have written: "write_file links ?q ?json (?fs(?q \<mapsto> File [])) = Inr (?fs(?q \<mapsto> File ?json))"
      using entry_solid [OF s1, of links] by (simp add: write_file_def staged_name_def)
    define e2 where "e2 = act_set (?fs(?q \<mapsto> File ?json)) c'"
    have entries: "entry_place links (?fs(?q \<mapsto> File ?json)) ?q = Some ?q"
        "entry_place links (?fs(?q \<mapsto> File ?json)) dest = Some dest"
      using entry_solid [OF s2, of links] dest_eq unfolding staged_name_def by metis+
    have upto: "during ?P d e2"
    proof -
      have "during ?P c c'" unfolding c' by (rule during_set) (use q c(2) in simp_all)
      moreover have "during ?P c' e2" unfolding e2_def by (rule during_set) (use q c' in simp_all)
      ultimately show ?thesis using dc during_trans by blast
    qed
    show ?thesis
    proof (cases "?fs dest = Some Dir")
      case True
      then have "rename links ?q dest (?fs(?q \<mapsto> File ?json)) = Inl (OSErr ''IsADirectoryError'')"
        using entries q dest by (simp add: rename_def node_at_def)
      then have d': "r = Inl (OSErr ''IsADirectoryError'')" "d' = act_set (remove_file links ?q (dk_now e2)) e2"
        using run made(2) written
        by (simp_all add: tail_def act_on_error_def act_then_def act_change_def c' e2_def)
      have "remove_file links ?q (dk_now e2) dest = ?fs dest"
        using q by (simp add: remove_file_def entries e2_def)
      then show ?thesis using d' during_trans [OF upto during_set] upto by (simp add: e2_def q during_def)
    next
      case False
      then have ren: "rename links ?q dest (?fs(?q \<mapsto> File ?json)) = Inr (?fs(dest \<mapsto> File ?json))"
        using entries q dest free by (simp add: rename_def node_at_def fun_upd_twist fun_upd_idem)
      then have d': "r = Inr dest" "d' = act_set (?fs(dest \<mapsto> File ?json)) e2"
        using run made(2) written
        by (simp_all add: tail_def act_on_error_def act_then_def act_change_def act_return_def c' e2_def)
      have "during ?P e2 d'" unfolding d'(2) by (rule during_set) (use q in \<open>simp_all add: e2_def\<close>)
      then show ?thesis using d' during_trans [OF upto] False by auto
    qed
  qed
  then show "during ?P d d'"
    and "r = Inr p \<Longrightarrow> p = dest \<and> dk_now d' = (dk_now d)(dest \<mapsto> File ?json)
      \<and> dk_now d dest \<noteq> Some Dir"
    and "r = Inl e \<Longrightarrow> dk_now d' dest = dk_now d dest" by simp_all
qed

section \<open>The staging area\<close>

lemma lies_inside_append [simp]: "lies_inside (p @ q) p"
  by (simp add: lies_inside_def)

lemma lies_inside_iff: "lies_inside p q \<longleftrightarrow> (\<exists>r. p = q @ r)"
  unfolding lies_inside_def by (metis append_eq_conv_conj append_take_drop_id)

lemma lies_inside_trans: "lies_inside p q \<Longrightarrow> lies_inside q r \<Longrightarrow> lies_inside p r"
  by (auto simp: lies_inside_iff)

lemma remove_tree_outside:
  assumes "solid fs area" "\<not> lies_inside p area"
  shows "remove_tree links (area @ [x]) fs p = fs p"
proof -
  have "\<not> lies_inside p (area @ [x])" using assms(2) by (auto simp: lies_inside_iff)
  then show ?thesis by (simp add: remove_tree_def entry_solid [OF assms(1)] lies_inside_def)
qed

definition outside :: "place \<Rightarrow> filesys \<Rightarrow> filesys \<Rightarrow> bool" where
  "outside area fs fs' \<longleftrightarrow> (\<forall>p. \<not> lies_inside p area \<longrightarrow> fs' p = fs p)"

text \<open>The same except inside the area and on the way to it.\<close>

definition beside :: "place \<Rightarrow> filesys \<Rightarrow> filesys \<Rightarrow> bool" where
  "beside area fs fs' \<longleftrightarrow> (\<forall>p. \<not> lies_inside p area \<longrightarrow> \<not> lies_inside area p \<longrightarrow> fs' p = fs p)"

lemma make_staging_Inr:
  assumes "make_staging links area names d = (Inr staged, d')" "tree (dk_now d) \<and> solid (dk_now d) area"
  shows "\<exists>n. staged = area @ [''task-'' @ n] \<and> tree (dk_now d') \<and> solid (dk_now d') area
    \<and> outside area (dk_now d) (dk_now d')"
  using assms
proof (induction names)
  case (Cons n ns)
  show ?case
  proof (cases "lstat links (dk_now d) (area @ [''task-'' @ n]) = None")
    case True
    then obtain fs where md: "make_dir links (area @ [''task-'' @ n]) (dk_now d) = Inr fs"
        "staged = area @ [''task-'' @ n]" "d' = act_set fs d"
      using Cons.prems(1) by (auto simp: Let_def act_change_def split: sum.splits)
    then have "stays {} (dk_now d) fs" "tree fs" using make_dir_kept Cons.prems(2) by blast+
    moreover have "outside area (dk_now d) fs"
      using make_dir_Inr [OF md(1)] Cons.prems(2) by (auto simp: outside_def entry_solid)
    ultimately show ?thesis using \<open>staged = _\<close> \<open>d' = _\<close> Cons.prems(2) stays_solid by auto
  next
    case False
    then have "make_staging links area ns d = (Inr staged, d')"
      using Cons.prems(1) by (simp only: make_staging.simps Let_def if_False)
    then show ?thesis using Cons by blast
  qed
qed (simp add: act_raise_def)

lemma create_kept:
  "create links p fs = Inr fs' \<Longrightarrow> tree fs \<Longrightarrow> p \<noteq> [] \<Longrightarrow> tree fs' \<and> stays {} fs fs'"
  by (auto simp: create_def stays_def node_at_def entry_place_def intro!: tree_set
      split: option.splits if_splits)

lemma open_lock_Inr:
  assumes "open_lock links (area @ [x]) d = (Inr u, d')" "tree (dk_now d) \<and> solid (dk_now d) area"
  shows "tree (dk_now d') \<and> solid (dk_now d') area \<and> outside area (dk_now d) (dk_now d')"
proof -
  have "dk_now d' = dk_now d \<or> create links (area @ [x]) (dk_now d) = Inr (dk_now d')"
    using assms(1) by (auto simp: open_lock_def act_change_Inr split: option.splits node.splits)
  moreover have "outside area fs fs'" if "create links (area @ [x]) fs = Inr fs'" "solid fs area" for fs fs'
    using that by (auto simp: create_def entry_solid outside_def split: if_splits)
  moreover have "outside area fs fs" for fs by (simp add: outside_def)
  ultimately show ?thesis using create_kept [of links "area @ [x]" "dk_now d"] assms(2) stays_solid by auto
qed

lemma solid_outside: "outside area fs fs' \<Longrightarrow> \<not> lies_inside p area \<Longrightarrow> solid fs p \<Longrightarrow> solid fs' p"
proof -
  assume a: "outside area fs fs'" "\<not> lies_inside p area" "solid fs p"
  have "\<not> lies_inside (take k p) area" for k
    using a(2) lies_inside_trans [of p "take k p" area] lies_inside_append [of "take k p" "drop k p"] by auto
  then show ?thesis using a(1,3) by (simp add: outside_def solid_def)
qed

lemma held_outside:
  assumes "held sha fs base a" "outside area fs fs'" "\<not> lies_inside (base @ path_names (pure (af_path a))) area"
  shows "held sha fs' base a"
proof -
  let ?ps = "path_names (pure (af_path a))"
  have "?ps \<noteq> []" using assms(1) by (simp add: held_def checked_name_def)
  then have "base @ ?ps = (base @ butlast ?ps) @ [last ?ps]" by simp
  then have "\<not> lies_inside (base @ butlast ?ps) area"
    using assms(3) lies_inside_trans lies_inside_append by metis
  then show ?thesis
    using assms solid_outside [OF assms(2)] by (auto simp: held_def outside_def)
qed

section \<open>A promoted run\<close>

text \<open>The names a caller may ask for: none in the staging area, and the manifest apart.\<close>

definition order_ok :: "order \<Rightarrow> bool" where
  "order_ok q \<longleftrightarrow>
     list_all (\<lambda>n. take 1 (path_names (pure n)) \<noteq> [STAGING_DIRECTORY]) (or_manifest_name q # or_produces q)
     \<and> list_all (\<lambda>n. path_names (pure n) \<noteq> path_names (pure (or_manifest_name q))) (or_produces q)
     \<and> \<not> startswith (path_name (or_manifest_name q)) ''.manifest-''"

text \<open>Whatever else the tool does, it leaves the root and the staging area directories.\<close>

definition leaves_area :: "tool \<Rightarrow> place \<Rightarrow> bool" where
  "leaves_area tool base \<longleftrightarrow>
     (\<forall>s fs. tree fs \<longrightarrow> solid fs (base @ [STAGING_DIRECTORY]) \<longrightarrow>
        tree (snd (tool s fs)) \<and> solid (snd (tool s fs)) (base @ [STAGING_DIRECTORY]))"

text \<open>The disk a production starts from: its root is reached without links.\<close>

definition disk_ok :: "filesys \<Rightarrow> place \<Rightarrow> bool" where
  "disk_ok fs base \<longleftrightarrow> tree fs \<and> linkless fs (base @ [STAGING_DIRECTORY])"

lemma area_below:
  assumes "take 1 ps \<noteq> [x]"
  shows "\<not> lies_inside (base @ ps) (base @ [x])"
  using assms by (cases ps) (auto simp: lies_inside_iff)

definition manifest_in_place :: "filesys \<Rightarrow> place \<Rightarrow> string \<Rightarrow> manifest \<Rightarrow> bool" where
  "manifest_in_place fs base name m \<longleftrightarrow> checked_name name
     \<and> solid fs (base @ butlast (path_names (pure name)))
     \<and> fs (base @ path_names (pure name)) = Some (File (manifest_json m))"

lemma path_name_last: "path_names (pure n) \<noteq> [] \<Longrightarrow> path_name n = last (path_names (pure n))"
  by (simp add: path_name_def pure_def)

lemma published_as_Inr:
  assumes run: "published_as sha links tokens q oc staged d = (Inr p, d')"
    and disk: "tree (dk_now d)" "solid (dk_now d) (or_base q @ [STAGING_DIRECTORY])" and ok: "order_ok q"
  shows "\<exists>m. p = \<lparr>pn_outcome = Some oc, pn_manifest = Some m,
        pn_published = Some (or_base q @ path_names (pure (or_manifest_name q))), pn_refusal = []\<rparr>
      \<and> map af_path (mf_artifacts m) = or_produces q
      \<and> (\<forall>a \<in> set (mf_artifacts m). held sha (dk_now d') (or_base q) a)
      \<and> manifest_in_place (dk_now d') (or_base q) (or_manifest_name q) m
      \<and> solid (dk_now d') (or_base q @ [STAGING_DIRECTORY])"
proof -
  let ?b = "or_base q" and ?name = "or_manifest_name q"
  let ?mp = "path_names (pure ?name)"
  from run obtain d1 m dest d2 d3 pub where
      d1: "act_each (promote_one links ?b staged) (or_produces q) d = (Inr (), d1)" and
      m: "describe_outputs sha links (dk_now d1) ?b oc (or_produces q) (or_contract q) [] [] = Inr m" and
      d2: "prepare_output links ?b ?name d1 = (Inr dest, d2)" and
      d3: "publish_manifest links tokens m dest d2 = (Inr pub, d')" and
      p: "p = \<lparr>pn_outcome = Some oc, pn_manifest = Some m, pn_published = Some pub, pn_refusal = []\<rparr>"
    by (auto simp: published_as_def act_then_Inr act_simps)
  have base: "solid (dk_now d) ?b" using disk(2) by (rule solid_append)
  note s1 = promote_each [OF d1 disk(1,2) base]
  then have tree1: "tree (dk_now d1)" and base1: "solid (dk_now d1) ?b" by blast+
  have as: "map af_path (mf_artifacts m) = or_produces q"
      "\<forall>a \<in> set (mf_artifacts m). held sha (dk_now d1) ?b a"
    using m described_held [OF _ tree1 base1]
    by (auto simp: describe_outputs_def Let_def raise_if_Inr bindr_Inr)
  note pr = prepare_Inr [OF d2 tree1 base1]
  have mp: "?mp \<noteq> []" using pr(1) by (simp add: checked_name_def)
  have dest: "dest \<noteq> []" "butlast dest = ?b @ butlast ?mp" "last dest = path_name ?name"
    using pr(2) mp by (simp_all add: butlast_append path_name_last)
  have drawn: "last dest \<notin> (\<lambda>t. ''.manifest-'' @ t) ` set tokens"
    using ok dest(3) by (auto simp: order_ok_def startswith_def)
  note pub = publish_steps(2) [OF d3 _ dest(1) drawn refl, unfolded dest(2), OF pr(3)]
  have stays3: "stays {dest} (dk_now d2) (dk_now d')" using pub by (auto simp: stays_def)
  have held3: "held sha (dk_now d') ?b a" if a: "a \<in> set (mf_artifacts m)" for a
  proof -
    have "af_path a \<in> set (or_produces q)" using a as(1) by (metis image_eqI set_map)
    then have "?b @ path_names (pure (af_path a)) \<noteq> dest"
      using ok pr(2) by (auto simp: order_ok_def list_all_iff)
    then show ?thesis using as(2) a held_stays [OF _ pr(4)] held_stays [OF _ stays3] by simp
  qed
  have "manifest_in_place (dk_now d') ?b ?name m"
    using pr(1,2) pub stays_solid [OF stays3 pr(3)] by (simp add: manifest_in_place_def)
  moreover have "solid (dk_now d') (?b @ [STAGING_DIRECTORY])"
    using s1 stays_solid [OF pr(4)] stays_solid [OF stays3] by blast
  ultimately show ?thesis using p pub pr(2) as(1) held3 by auto
qed

lemma produce_in_Inr:
  assumes run: "produce_in sha links tokens tool q staged d = (Inr p, d')"
    and start: "tree (dk_now d)" "solid (dk_now d) (or_base q @ [STAGING_DIRECTORY])"
    and tool: "leaves_area tool (or_base q)" and ok: "order_ok q"
  shows "solid (dk_now d') (or_base q @ [STAGING_DIRECTORY])
    \<and> (if promoted p
       then \<exists>m. pn_manifest p = Some m \<and> map af_path (mf_artifacts m) = or_produces q
        \<and> (\<forall>a \<in> set (mf_artifacts m). held sha (dk_now d') (or_base q) a)
        \<and> manifest_in_place (dk_now d') (or_base q) (or_manifest_name q) m
       else \<exists>s. dk_now d' = snd (tool s (dk_now d)))"
proof -
  let ?s = "(or_spec q)\<lparr>ps_cwd := Some (path_text_of staged)\<rparr>"
  from run obtain oc d1 where d1: "run_tool tool ?s d = (Inr oc, d1)"
      and rest: "(if refusal_of links (dk_now d1) staged oc (or_produces q) (or_contract q) \<noteq> []
        then act_return (refused_production (Some oc)
          (refusal_of links (dk_now d1) staged oc (or_produces q) (or_contract q)))
        else published_as sha links tokens q oc staged) d1 = (Inr p, d')"
    by (auto simp: produce_in_def act_then_Inr act_simps)
  have now: "dk_now d1 = snd (tool ?s (dk_now d))"
    using d1 by (auto simp: run_tool_def split: prod.splits)
  then have disk: "tree (dk_now d1)" "solid (dk_now d1) (or_base q @ [STAGING_DIRECTORY])"
    using tool start by (simp_all add: leaves_area_def)
  show ?thesis
  proof (cases "refusal_of links (dk_now d1) staged oc (or_produces q) (or_contract q) = []")
    case True
    then have "published_as sha links tokens q oc staged d1 = (Inr p, d')" using rest by simp
    from published_as_Inr [OF this disk ok] show ?thesis by (auto simp: promoted_def)
  next
    case False
    then have "p = refused_production (Some oc)
        (refusal_of links (dk_now d1) staged oc (or_produces q) (or_contract q))" "d' = d1"
      using rest by (simp_all add: act_simps)
    then show ?thesis using disk now by (auto simp: promoted_def refused_production_def)
  qed
qed

lemma produce_Inr:
  assumes run: "produce sha links names tokens tool None q d = (Inr p, d')"
    and start: "disk_ok (dk_now d) (or_base q)"
    and tool: "leaves_area tool (or_base q)" and ok: "order_ok q"
  shows "if promoted p
      then \<exists>m. pn_manifest p = Some m \<and> map af_path (mf_artifacts m) = or_produces q
        \<and> (\<forall>a \<in> set (mf_artifacts m). held sha (dk_now d') (or_base q) a)
        \<and> manifest_in_place (dk_now d') (or_base q) (or_manifest_name q) m
      else \<exists>s fs. outside (or_base q @ [STAGING_DIRECTORY]) (snd (tool s fs)) (dk_now d')
        \<and> beside (or_base q @ [STAGING_DIRECTORY]) (dk_now d) fs"
proof -
  let ?area = "or_base q @ [STAGING_DIRECTORY]"
  from run obtain da db d0 d1 staged where
      da: "make_dirs links ?area d = (Inr (), da)" and
      db: "open_lock links (?area @ [LOCK_NAME]) da = (Inr (), db)" and
      d0: "make_dirs links ?area db = (Inr (), d0)" and
      staged: "make_staging links ?area names d0 = (Inr staged, d1)" and
      fin: "act_finally (produce_in sha links tokens tool q staged) (remove_tree links staged) d1 = (Inr p, d')"
    by (auto simp: produce_def produce_locked_def Let_def act_then_Inr act_simps)
  have a: "tree (dk_now da) \<and> solid (dk_now da) ?area" "beside ?area (dk_now d) (dk_now da)"
    using make_dirs_solid [OF da] start by (simp_all add: disk_ok_def beside_def)
  then have b: "tree (dk_now db) \<and> solid (dk_now db) ?area" "outside ?area (dk_now da) (dk_now db)"
    using open_lock_Inr [OF db] by blast+
  have "dk_now d0 = dk_now db" using make_dirs_there [OF _ d0] b by blast
  then obtain n where n: "staged = ?area @ [''task-'' @ n]" and d1: "tree (dk_now d1)" "solid (dk_now d1) ?area"
      and c: "outside ?area (dk_now db) (dk_now d1)"
    using make_staging_Inr [OF staged] b(1) by auto
  have beside: "beside ?area (dk_now d) (dk_now d1)"
    using a(2) b(2) c by (simp add: beside_def outside_def)
  from fin obtain d2 where d2: "produce_in sha links tokens tool q staged d1 = (Inr p, d2)"
      and d': "dk_now d' = remove_tree links staged (dk_now d2)"
    by (auto simp: act_finally_def split: prod.splits)
  note r = produce_in_Inr [OF d2 d1 tool ok]
  have out: "outside ?area (dk_now d2) (dk_now d')"
    unfolding outside_def d' n using r remove_tree_outside by blast
  have "take 1 (path_names (pure (or_manifest_name q))) \<noteq> [STAGING_DIRECTORY]"
    using ok by (simp add: order_ok_def)
  note name = area_below [OF this, of "or_base q"]
  have below: "\<not> lies_inside (or_base q @ path_names (pure x)) ?area" if "x \<in> set (or_produces q)" for x
    using ok that by (intro area_below) (auto simp: order_ok_def list_all_iff)
  show ?thesis
  proof (cases "promoted p")
    case True
    then obtain m where m: "pn_manifest p = Some m" "map af_path (mf_artifacts m) = or_produces q"
        "\<forall>a \<in> set (mf_artifacts m). held sha (dk_now d2) (or_base q) a"
        "manifest_in_place (dk_now d2) (or_base q) (or_manifest_name q) m"
      using r by auto
    have "held sha (dk_now d') (or_base q) a" if a: "a \<in> set (mf_artifacts m)" for a
    proof -
      have "af_path a \<in> set (or_produces q)" using a m(2) by (metis image_eqI set_map)
      then show ?thesis using held_outside [OF _ out below] m(3) a by blast
    qed
    moreover have "manifest_in_place (dk_now d') (or_base q) (or_manifest_name q) m"
    proof -
      let ?mp = "path_names (pure (or_manifest_name q))"
      have "?mp \<noteq> []" using m(4) by (simp add: manifest_in_place_def checked_name_def)
      then have "or_base q @ ?mp = (or_base q @ butlast ?mp) @ [last ?mp]" by simp
      then have "\<not> lies_inside (or_base q @ butlast ?mp) ?area"
        using name lies_inside_trans lies_inside_append by metis
      then show ?thesis
        using m(4) name out solid_outside [OF out] by (auto simp: manifest_in_place_def outside_def)
    qed
    ultimately show ?thesis using True m by auto
  next
    case False
    then obtain s where s: "dk_now d2 = snd (tool s (dk_now d1))" using r by auto
    have "\<exists>s fs. outside ?area (snd (tool s fs)) (dk_now d') \<and> beside ?area (dk_now d) fs"
      using out beside unfolding s by blast
    then show ?thesis using False by simp
  qed
qed

end
