(* ===== verification/Production_Properties.thy ===== *)
theory Production_Properties
  imports Production_Runs
begin

text \<open>
  The properties of producing and publishing, with a tool that writes one report as the sample.
\<close>

section \<open>A sample\<close>

definition sample_base :: place where
  "sample_base = [''out'']"

definition sample_disk :: "(place \<times> node) list \<Rightarrow> disk" where
  "sample_disk nodes = \<lparr>dk_now = map_of (([''out''], Dir) # nodes), dk_seen = []\<rparr>"

definition report_spec :: process_spec where
  "report_spec = \<lparr>ps_argv = [''lint''], ps_name = ''lint'', ps_cwd = None, ps_environment = [],
     ps_timeout = 10, ps_output_limit = 100, ps_work_dirs = [], ps_grace = 1\<rparr>"

definition report_outcome :: "int \<Rightarrow> process_spec \<Rightarrow> task_outcome" where
  "report_outcome code s = \<lparr>to_spec = s, to_outcome = FINISHED, to_exit_code = code, to_stdout = [],
     to_stderr = [], to_duration = Fin 0, to_detail = [], to_truncated = False, to_cleanup = None\<rparr>"

text \<open>It writes the given files where it runs, unless something is in the way.\<close>

fun write_reports :: "place \<Rightarrow> (string \<times> string) list \<Rightarrow> filesys \<Rightarrow> filesys" where
  "write_reports here [] fs = fs"
| "write_reports here ((name, bytes) # files) fs =
     write_reports here files
       (if fs (here @ [name]) = None \<and> node_at fs here = Some Dir then fs(here @ [name] \<mapsto> File bytes) else fs)"

definition report_tool :: "int \<Rightarrow> (string \<times> string) list \<Rightarrow> tool" where
  "report_tool code files s fs =
     (Inr (report_outcome code s),
      write_reports (case ps_cwd s of Some c \<Rightarrow> posix_parts c | None \<Rightarrow> []) files fs)"

definition report_order :: "string list \<Rightarrow> order" where
  "report_order produces = \<lparr>or_spec = report_spec, or_base = sample_base, or_produces = produces,
     or_contract = None, or_manifest_name = DEFAULT_MANIFEST_NAME\<rparr>"

definition plain_digest :: "string \<Rightarrow> string" where
  "plain_digest bytes = bytes"

definition sample_production :: "(place \<times> node) list \<Rightarrow> int \<Rightarrow> (string \<times> string) list \<Rightarrow> string list
     \<Rightarrow> production result \<times> disk" where
  "sample_production nodes code files produces =
     produce plain_digest 40 [''a''] [''b''] (report_tool code files) None (report_order produces)
       (sample_disk nodes)"

lemma tree_write:
  assumes "tree fs" "node_at fs here = Some Dir" "fs (here @ [x]) = None"
  shows "tree (fs(here @ [x] \<mapsto> File b))"
  unfolding tree_def
proof (intro allI impI)
  fix p y assume ex: "(fs(here @ [x] \<mapsto> File b)) (p @ [y]) \<noteq> None"
  have "node_at fs p = Some Dir"
  proof (cases "p @ [y] = here @ [x]")
    case True
    then show ?thesis using assms(2) by simp
  next
    case False
    then have "fs (p @ [y]) \<noteq> None" using ex by (simp only: fun_upd_other not_False_eq_True)
    then show ?thesis using assms(1) by (simp only: tree_def)
  qed
  then show "node_at (fs(here @ [x] \<mapsto> File b)) p = Some Dir"
    using assms(3) by (auto simp: node_at_def split: if_splits)
qed

lemma write_reports_ok:
  "tree fs \<Longrightarrow> solid fs p \<Longrightarrow> tree (write_reports here files fs) \<and> solid (write_reports here files fs) p"
proof (induction files arbitrary: fs)
  case (Cons f files)
  obtain name bytes where f: "f = (name, bytes)" by force
  show ?case
  proof (cases "fs (here @ [name]) = None \<and> node_at fs here = Some Dir")
    case True
    let ?fs = "fs(here @ [name] \<mapsto> File bytes)"
    have eq: "write_reports here (f # files) fs = write_reports here files ?fs"
      using True f by simp
    have "stays {} fs ?fs" using True by (auto simp: stays_def)
    then have "solid ?fs p" using Cons.prems(2) stays_solid by blast
    moreover have "tree ?fs" using True Cons.prems(1) tree_write by blast
    ultimately show ?thesis unfolding eq using Cons.IH by blast
  next
    case False
    then have "write_reports here (f # files) fs = write_reports here files fs" using f by auto
    then show ?thesis using Cons by simp
  qed
qed simp

lemma report_leaves_area: "leaves_area (report_tool code files) base"
  using write_reports_ok by (simp add: leaves_area_def report_tool_def)

lemma sample_disk_tree: "tree (dk_now (sample_disk []))"
  by (auto simp: tree_def node_at_def sample_disk_def split: if_splits)

lemma sample_disk_ok: "disk_ok (dk_now (sample_disk [])) (or_base (report_order produces))"
  by (auto simp: disk_ok_def sample_disk_def report_order_def sample_base_def tree_def node_at_def
      linkless_def take_Cons' STAGING_DIRECTORY_def split: if_splits)

lemma sample_order_ok: "order_ok (report_order [''report.txt''])"
  by code_simp

declare manifest_json_def [code del]

definition report_manifest :: "string \<Rightarrow> manifest" where
  "report_manifest bytes =
     \<lparr>mf_task = ''lint'', mf_outcome = ''finished'', mf_exit_code = 0,
      mf_interpretation = ''succeeded'',
      mf_artifacts = [\<lparr>af_path = ''report.txt'', af_size = int (length bytes),
        af_digest = digest_of_file plain_digest bytes\<rparr>],
      mf_run = [], mf_identity = []\<rparr>"

lemma sample_promoted:
  "case fst (sample_production [] 0 [(''report.txt'', ''ok'')] [''report.txt'']) of
     Inl e \<Rightarrow> False
   | Inr p \<Rightarrow> promoted p \<and> pn_manifest p = Some (report_manifest ''ok'')"
  by code_simp

lemma sample_refused:
  "case fst (sample_production [] 1 [(''report.txt'', ''ok'')] [''report.txt'']) of
     Inl e \<Rightarrow> False | Inr p \<Rightarrow> \<not> promoted p"
  by code_simp

section \<open>Producing\<close>



text \<open>C29: A promoted run leaves what its manifest says: on the disk it leaves, the manifest stands under
  its name and verifies, whatever the tool did besides, as long as the tool left the root and the
  staging area directories and no output was asked for under the name of the manifest or of the
  staging area.\<close>

theorem promoted_output_verifies:
  assumes "produce sha links names tokens tool None q d = (Inr p, d')" "promoted p"
    and "disk_ok (dk_now d) (or_base q)" "leaves_area tool (or_base q)" "order_ok q"
  shows "\<exists>m. pn_manifest p = Some m \<and> map af_path (mf_artifacts m) = or_produces q
    \<and> verify_manifest sha links (dk_now d') m (or_base q) = Inr \<lparr>mv_missing = [], mv_altered = []\<rparr>
    \<and> read_file links (dk_now d') (or_base q @ path_names (pure (or_manifest_name q)))
        = Inr (manifest_json m)"
proof -
  obtain m where m: "pn_manifest p = Some m" "map af_path (mf_artifacts m) = or_produces q"
      "\<forall>a \<in> set (mf_artifacts m). held sha (dk_now d') (or_base q) a"
      "manifest_in_place (dk_now d') (or_base q) (or_manifest_name q) m"
    using produce_Inr [OF assms(1,3-5)] assms(2) by auto
  then show ?thesis
    using held_verifies [OF m(3), of links]
      file_place(2) [of "or_manifest_name q" "dk_now d'" "or_base q" "manifest_json m" links]
    by (auto simp: verify_manifest_def read_file_iff manifest_in_place_def)
qed

theorem promoted_output_verifies_witness:
  "verify_manifest plain_digest 40
     (dk_now (snd (sample_production [] 0 [(''report.txt'', ''ok'')] [''report.txt''])))
     (report_manifest ''ok'') sample_base = Inr \<lparr>mv_missing = [], mv_altered = []\<rparr>"
proof -
  obtain p d' where run: "sample_production [] 0 [(''report.txt'', ''ok'')] [''report.txt''] = (Inr p, d')"
      and p: "promoted p" "pn_manifest p = Some (report_manifest ''ok'')"
    using sample_promoted
    by (cases "sample_production [] 0 [(''report.txt'', ''ok'')] [''report.txt'']") (auto split: sum.splits)
  show ?thesis
    using promoted_output_verifies [OF run [unfolded sample_production_def] p(1) sample_disk_ok
        report_leaves_area sample_order_ok] p(2) run
    by (auto simp: report_order_def)
qed

text \<open>C32: A run that is not promoted publishes nothing: outside the staging area the disk is exactly what
  the tool left behind, and the tool was started on a disk where nothing had changed but the
  directories down to the staging area.\<close>

theorem refused_run_publishes_nothing:
  assumes "produce sha links names tokens tool None q d = (Inr p, d')" "\<not> promoted p"
    and "disk_ok (dk_now d) (or_base q)" "leaves_area tool (or_base q)" "order_ok q"
  shows "\<exists>s fs. outside (or_base q @ [STAGING_DIRECTORY]) (snd (tool s fs)) (dk_now d')
    \<and> beside (or_base q @ [STAGING_DIRECTORY]) (dk_now d) fs"
  using produce_Inr [OF assms(1,3-5)] assms(2) by simp

theorem refused_run_publishes_nothing_witness:
  "\<exists>s fs. outside [''out'', STAGING_DIRECTORY] (snd (report_tool 1 [(''report.txt'', ''ok'')] s fs))
     (dk_now (snd (sample_production [] 1 [(''report.txt'', ''ok'')] [''report.txt''])))
   \<and> beside [''out'', STAGING_DIRECTORY] (dk_now (sample_disk [])) fs"
proof -
  obtain p d' where run: "sample_production [] 1 [(''report.txt'', ''ok'')] [''report.txt''] = (Inr p, d')"
      and p: "\<not> promoted p"
    using sample_refused
    by (cases "sample_production [] 1 [(''report.txt'', ''ok'')] [''report.txt'']") (auto split: sum.splits)
  show ?thesis
    using refused_run_publishes_nothing [OF run [unfolded sample_production_def] p sample_disk_ok
        report_leaves_area sample_order_ok] run
    by (simp add: report_order_def sample_base_def)
qed



section \<open>What a reader can see\<close>

definition published_before :: "(place \<times> node) list" where
  "published_before =
     [([''out'', ''report.txt''], File ''old''),
      ([''out'', ''manifest.json''], File (manifest_json (report_manifest ''old'')))]"

definition second_run :: "production result \<times> disk" where
  "second_run = sample_production published_before 0 [(''report.txt'', ''new'')] [''report.txt'']"

definition mixture :: "filesys \<Rightarrow> bool" where
  "mixture fs \<longleftrightarrow> fs [''out'', ''manifest.json''] = Some (File (manifest_json (report_manifest ''old'')))
     \<and> verify_manifest plain_digest 40 fs (report_manifest ''old'') sample_base
       = Inr \<lparr>mv_missing = [], mv_altered = [''report.txt'']\<rparr>"

lemma mixture_moment: "4 < length (dk_seen (snd second_run)) \<and> mixture (dk_seen (snd second_run) ! 4)"
  by code_simp


text \<open>A link waiting at the second of two destinations: the call raises, the first artifact is already
  replaced, and the old manifest stands.\<close>

lemma produce_raises_half_way:
  "case sample_production (([''out'', ''b.txt''], Link ''elsewhere'') # ([''out'', ''a.txt''], File ''old'') # []) 0
      [(''a.txt'', ''new''), (''b.txt'', ''new'')] [''a.txt'', ''b.txt''] of
     (Inl (PathRefused t args), d) \<Rightarrow> dk_now d [''out'', ''a.txt''] = Some (File ''new'')
   | _ \<Rightarrow> False"
  by code_simp

text \<open>A manifest reads back as it was written.\<close>

lemma manifest_reads_back:
  "case manifest_to_dict m of PDict data \<Rightarrow> manifest_from_dict show_value data = Inr m | _ \<Rightarrow> False"
proof -
  have "read_artifacts n (map artifact_to_dict as) = Inr as" for n as
    by (induction as arbitrary: n)
      (auto simp: artifact_to_dict_def artifact_from_dict_def manifest_text_field_def whole_number_def py_get_def
          py_get_default_def)
  then show ?thesis
    by (auto simp: manifest_to_dict_def manifest_from_dict_def manifest_text_field_def whole_number_def py_get_def
        py_get_default_def py_str_def raise_if_def)
qed

end
