(* ===== verification/Import_Graph.thy ===== *)
theory Import_Graph
  imports Paths Representation
begin

text \<open>
  The dependency graphs whose cycles are reported (src/src/ici/analysis/cycles.py): Python modules
  by their imports, C++ files by their quoted includes.  The parser, the files' texts and the
  resolution of symbolic links are arguments.
\<close>

section \<open>Python modules\<close>

text \<open>\<open>path.with_suffix("")\<close> on the last name.\<close>

definition without_suffix :: "string \<Rightarrow> string" where
  "without_suffix name =
     (let tail = takeWhile (\<lambda>c. c \<noteq> CHR ''.'') (rev name);
          stem = take (length name - length tail - 1) name in
      if CHR ''.'' \<in> set name \<and> tail \<noteq> [] \<and> stem \<noteq> [] then stem else name)"

definition drop_suffix :: "pure_path \<Rightarrow> pure_path result" where
  "drop_suffix p =
     (if path_names p = [] then Inl (ValueError ''{!r} has an empty name'' [path_text p])
      else Inr (PurePath (path_root p) (butlast (path_names p) @ [without_suffix (last (path_names p))])))"

fun python_module_name :: "pure_path \<Rightarrow> pure_path list \<Rightarrow> string option result" where
  "python_module_name py_file [] = Inr None"
| "python_module_name py_file (src_dir # dirs) =
     (case relative_to py_file src_dir of
        None \<Rightarrow> python_module_name py_file dirs
      | Some rel \<Rightarrow>
          bindr (drop_suffix rel) (\<lambda>bare.
          let parts = path_parts bare;
              kept = (if parts \<noteq> [] \<and> last parts = ''__init__'' then butlast parts else parts) in
          Inr (if kept = [] then None else Some (join ''.'' kept))))"

type_synonym module_index = "(pure_path \<times> string) list \<times> (string \<times> pure_path) list"

fun module_index :: "pure_path list \<Rightarrow> pure_path list \<Rightarrow> module_index \<Rightarrow> module_index result" where
  "module_index source_dirs [] index = Inr index"
| "module_index source_dirs (f # fs) index =
     bindr (python_module_name f source_dirs) (\<lambda>name.
     module_index source_dirs fs
       (case name of
          Some m \<Rightarrow> if m = [] then index else (dict_set f m (fst index), dict_set m f (snd index))
        | None \<Rightarrow> index))"

text \<open>The nodes of a syntax tree in the order of \<open>ast.walk\<close>.\<close>

datatype ast_node = Import "string list" | ImportFrom "string option" | OtherNode

fun imported_module_names :: "ast_node list \<Rightarrow> string list" where
  "imported_module_names [] = []"
| "imported_module_names (Import names # nodes) = names @ imported_module_names nodes"
| "imported_module_names (ImportFrom (Some m) # nodes) =
     (if m = [] then imported_module_names nodes else m # imported_module_names nodes)"
| "imported_module_names (ImportFrom None # nodes) = imported_module_names nodes"
| "imported_module_names (OtherNode # nodes) = imported_module_names nodes"

definition resolved_import_targets ::
    "(string \<Rightarrow> bool) \<Rightarrow> string \<Rightarrow> (string \<times> pure_path) list \<Rightarrow> string list" where
  "resolved_import_targets stdlib target modules =
     (if target \<in> fst ` set modules then [target]
      else if stdlib (hd (split_char CHR ''.'' target)) then []
      else filter (\<lambda>known. endswith known (''.'' @ target) \<or> known = target) (map fst modules))"

text \<open>\<open>graph[k].update(vs)\<close>: a set, listed without repetition.\<close>

definition add_edges :: "'a \<Rightarrow> 'a list \<Rightarrow> ('a \<times> 'a list) list \<Rightarrow> ('a \<times> 'a list) list" where
  "add_edges k vs g = dict_set k (remdups (dict_values g k @ vs)) g"

fun syntax_error :: "exn \<Rightarrow> bool" where
  "syntax_error (OSErr _) = True"
| "syntax_error (Raised cls _) = (cls = ''SyntaxError'')"
| "syntax_error _ = False"

fun add_imports ::
    "(string \<Rightarrow> bool) \<Rightarrow> (pure_path \<Rightarrow> ast_node list result) \<Rightarrow> module_index \<Rightarrow> pure_path list
     \<Rightarrow> (string \<times> string list) list \<Rightarrow> (string \<times> string list) list result" where
  "add_imports stdlib parse index [] g = Inr g"
| "add_imports stdlib parse index (f # fs) g =
     (case map_of (fst index) f of
        None \<Rightarrow> add_imports stdlib parse index fs g
      | Some importer \<Rightarrow>
          (case parse f of
             Inl e \<Rightarrow> if syntax_error e then add_imports stdlib parse index fs g else Inl e
           | Inr nodes \<Rightarrow>
               add_imports stdlib parse index fs
                 (fold (\<lambda>t g. add_edges importer (resolved_import_targets stdlib t (snd index)) g)
                   (imported_module_names nodes) g)))"

definition build_python_graph ::
    "(string \<Rightarrow> bool) \<Rightarrow> (pure_path \<Rightarrow> ast_node list result) \<Rightarrow> pure_path list \<Rightarrow> pure_path list
     \<Rightarrow> ((string \<times> string list) list \<times> (string \<times> pure_path) list) result" where
  "build_python_graph stdlib parse source_dirs files =
     bindr (module_index source_dirs files ([], [])) (\<lambda>index.
     bindr (add_imports stdlib parse index files (map (\<lambda>m. (fst m, [])) (snd index))) (\<lambda>g.
     Inr (g, snd index)))"

section \<open>C++ includes\<close>

record include_diagnostic =
  di_source :: pure_path
  di_line :: nat
  di_include :: string
  di_candidates :: "pure_path list"
  di_snippet :: string

definition diagnostic_kind :: "include_diagnostic \<Rightarrow> string" where
  "diagnostic_kind d = (if di_candidates d \<noteq> [] then ''ambiguous'' else ''unresolved'')"

definition include_parts :: "string \<Rightarrow> string list" where
  "include_parts name =
     (let normalized = map (\<lambda>c. if c = CHR 0x5C then CHR ''/'' else c) name;
          parts = path_parts (pure normalized) in
      if parts = [] \<or> startswith normalized ''/'' \<or> ''..'' \<in> set parts then []
      else filter (\<lambda>p. p \<noteq> [] \<and> p \<noteq> ''.'') parts)"

definition include_matches :: "pure_path \<Rightarrow> string list \<Rightarrow> bool" where
  "include_matches candidate wanted =
     (wanted \<noteq> [] \<and> length wanted \<le> length (path_parts candidate)
      \<and> drop (length (path_parts candidate) - length wanted) (path_parts candidate) = wanted)"

definition matching_includes :: "string \<Rightarrow> pure_path list \<Rightarrow> pure_path list" where
  "matching_includes name files =
     (let wanted = include_parts name in
      if wanted = [] then [] else filter (\<lambda>candidate. include_matches candidate wanted) files)"

definition resolve_include :: "string \<Rightarrow> pure_path list \<Rightarrow> pure_path option" where
  "resolve_include name files =
     (case matching_includes name files of [target] \<Rightarrow> Some target | _ \<Rightarrow> None)"

text \<open>
  The matches of \<open>#include\s*["]([^"]+)["]\<close>, each as the text before it, the name, the matched text
  and the text after it.
\<close>

definition skip_space :: "string \<Rightarrow> string" where
  "skip_space s = concat (dropWhile is_space (code_points s))"

definition include_match :: "string \<Rightarrow> (string \<times> string) option" where
  "include_match s =
     (if \<not> startswith s ''#include'' then None
      else
        (case skip_space (drop 8 s) of
           [] \<Rightarrow> None
         | q # r \<Rightarrow>
             if q \<noteq> CHR 0x22 then None
             else
               (let name = takeWhile (\<lambda>c. c \<noteq> CHR 0x22) r; after = dropWhile (\<lambda>c. c \<noteq> CHR 0x22) r in
                if name \<noteq> [] \<and> after \<noteq> [] then Some (name, tl after) else None)))"

lemma skip_space_shorter: "length (skip_space s) \<le> length s"
proof -
  have "length (concat (dropWhile P ws)) \<le> length (concat ws)" for P and ws :: "string list"
    by (induction ws) auto
  then show ?thesis using concat_code_points by (metis skip_space_def)
qed

lemma include_match_shorter:
  assumes "include_match s = Some (name, rest)"
  shows "length rest < length s"
proof -
  obtain q r where r: "skip_space (drop 8 s) = q # r"
      and rest: "rest = tl (dropWhile (\<lambda>c. c \<noteq> CHR 0x22) r)" "startswith s ''#include''"
    using assms by (auto simp: include_match_def Let_def split: if_splits list.splits)
  have "length rest \<le> length r" using rest(1) length_dropWhile_le [of "\<lambda>c. c \<noteq> CHR 0x22" r] by simp
  moreover have "length (q # r) \<le> length s - 8" using skip_space_shorter [of "drop 8 s"] r by simp
  ultimately show ?thesis by simp
qed

function find_includes :: "string \<Rightarrow> string \<Rightarrow> (string \<times> string \<times> string \<times> string) list" where
  "find_includes before [] = []"
| "find_includes before (c # cs) =
     (case include_match (c # cs) of
        None \<Rightarrow> find_includes (before @ [c]) cs
      | Some (name, rest) \<Rightarrow>
          (let matched = take (length (c # cs) - length rest) (c # cs) in
           (before, name, matched, rest) # find_includes (before @ matched) rest))"
  by pat_completeness auto
termination
  by (relation "measure (\<lambda>(before, s). length s)") (auto dest: include_match_shorter)

definition last_line :: "string \<Rightarrow> string" where
  "last_line s = rev (takeWhile (\<lambda>c. c \<noteq> CHR 0x0A) (rev s))"

definition unresolved_include ::
    "pure_path \<Rightarrow> pure_path list \<Rightarrow> string \<times> string \<times> string \<times> string \<Rightarrow> include_diagnostic" where
  "unresolved_include f files m =
     (case m of (before, name, matched, rest) \<Rightarrow>
      \<lparr>di_source = f, di_line = length (filter (\<lambda>c. c = CHR 0x0A) before) + 1, di_include = name,
       di_candidates = matching_includes name files,
       di_snippet = strip (last_line before @ matched @ takeWhile (\<lambda>c. c \<noteq> CHR 0x0A) rest)\<rparr>)"

record cpp_graph =
  cg_graph :: "(pure_path \<times> pure_path list) list"
  cg_known :: "(pure_path \<times> pure_path) list"
  cg_diagnostics :: "include_diagnostic list"
  cg_resolved :: nat

definition add_include ::
    "(pure_path \<Rightarrow> pure_path) \<Rightarrow> pure_path list \<Rightarrow> pure_path \<Rightarrow> string \<times> string \<times> string \<times> string
     \<Rightarrow> cpp_graph \<Rightarrow> cpp_graph" where
  "add_include resolve files f m cg =
     (case resolve_include (fst (snd m)) files of
        Some target \<Rightarrow>
          cg\<lparr>cg_resolved := cg_resolved cg + 1,
             cg_graph := (if resolve target \<noteq> resolve f
                then add_edges (resolve f) [resolve target] (cg_graph cg) else cg_graph cg)\<rparr>
      | None \<Rightarrow> cg\<lparr>cg_diagnostics := cg_diagnostics cg @ [unresolved_include f files m]\<rparr>)"

definition add_cpp_file ::
    "(pure_path \<Rightarrow> pure_path) \<Rightarrow> (pure_path \<Rightarrow> string option) \<Rightarrow> pure_path list \<Rightarrow> pure_path
     \<Rightarrow> cpp_graph \<Rightarrow> cpp_graph" where
  "add_cpp_file resolve read files f cg =
     (let cg' = cg\<lparr>cg_known := dict_set (resolve f) f (cg_known cg),
                   cg_graph := dict_set (resolve f) [] (cg_graph cg)\<rparr> in
      case read f of
        None \<Rightarrow> cg'
      | Some content \<Rightarrow> fold (add_include resolve files f) (find_includes [] content) cg')"

definition build_cpp_graph ::
    "(pure_path \<Rightarrow> pure_path) \<Rightarrow> (pure_path \<Rightarrow> string option) \<Rightarrow> pure_path list \<Rightarrow> cpp_graph" where
  "build_cpp_graph resolve read files =
     fold (add_cpp_file resolve read files) files
       \<lparr>cg_graph = [], cg_known = [], cg_diagnostics = [], cg_resolved = 0\<rparr>"

end
