(* ===== verification/Strong_Components.thy ===== *)
theory Strong_Components
  imports Cycles
begin

text \<open>
  The search for strongly connected components (\<open>_find_cycles_tarjan\<close> of
  src/src/ici/analysis/cycles.py): Tarjan's algorithm with an explicit work list.  A graph is a
  dictionary in insertion order; the successors of a node are listed in the order the interpreter
  iterates over its set.
\<close>

section \<open>The algorithm\<close>

type_synonym 'a graph = "('a \<times> 'a list) list"

record 'a tarjan =
  tj_counter :: nat
  tj_stack :: "'a list"
  tj_on_stack :: "'a set"
  tj_indices :: "'a \<Rightarrow> nat option"
  tj_lowlink :: "'a \<Rightarrow> nat"
  tj_cycles :: "'a list list"

definition tarjan_start :: "'a tarjan" where
  "tarjan_start = \<lparr>tj_counter = 0, tj_stack = [], tj_on_stack = {}, tj_indices = (\<lambda>x. None),
     tj_lowlink = (\<lambda>x. 0), tj_cycles = []\<rparr>"

definition enter :: "'a \<Rightarrow> 'a tarjan \<Rightarrow> 'a tarjan" where
  "enter node st = st
     \<lparr>tj_indices := (tj_indices st)(node \<mapsto> tj_counter st),
      tj_lowlink := (tj_lowlink st)(node := tj_counter st),
      tj_counter := tj_counter st + 1,
      tj_stack := node # tj_stack st,
      tj_on_stack := insert node (tj_on_stack st)\<rparr>"

text \<open>Popping down to the node; the last branch is never taken.\<close>

fun pop_until :: "'a \<Rightarrow> 'a list \<Rightarrow> 'a list \<times> 'a list" where
  "pop_until node (member # rest) =
     (if member = node then ([member], rest)
      else (case pop_until node rest of (component, below) \<Rightarrow> (member # component, below)))"
| "pop_until node [] = ([], [])"

definition lower :: "'a \<Rightarrow> nat \<Rightarrow> 'a tarjan \<Rightarrow> 'a tarjan" where
  "lower node i st = st\<lparr>tj_lowlink := (tj_lowlink st)(node := min (tj_lowlink st node) i)\<rparr>"

text \<open>A node whose successors are exhausted: its component, if it is the root of one.\<close>

definition leave :: "'a graph \<Rightarrow> 'a \<Rightarrow> 'a tarjan \<Rightarrow> 'a tarjan" where
  "leave g node st =
     (if tj_indices st node = Some (tj_lowlink st node)
      then
        (case pop_until node (tj_stack st) of (component, below) \<Rightarrow>
         st\<lparr>tj_stack := below, tj_on_stack := tj_on_stack st - set component,
            tj_cycles := tj_cycles st @
              (if length component > 1 \<or> node \<in> set (dict_values g node) then [component] else [])\<rparr>)
      else st)"

definition unseen :: "'a graph \<Rightarrow> ('a \<times> 'a list) list \<Rightarrow> 'a tarjan \<Rightarrow> 'a set" where
  "unseen g work st = (\<Union>p \<in> set g. set (snd p)) \<union> (\<Union>p \<in> set work. set (snd p)) - dom (tj_indices st)"

lemma finite_unseen [simp]: "finite (unseen g work st)"
  by (simp add: unseen_def)

lemma dict_values_subset: "set (dict_values g x) \<subseteq> (\<Union>p \<in> set g. set (snd p))"
proof (cases "map_of g x")
  case (Some vs)
  then have "(x, vs) \<in> set g" by (rule map_of_SomeD)
  then show ?thesis using Some by (force simp: dict_values_def)
qed (simp add: dict_values_def)

text \<open>The \<open>while work\<close> loop; the \<open>for\<close> loop inside it goes on where it stopped, one neighbour a step.\<close>

function explore :: "'a graph \<Rightarrow> 'a tarjan \<Rightarrow> ('a \<times> 'a list) list \<Rightarrow> 'a tarjan" where
  "explore g st [] = st"
| "explore g st ((node, dep # neighbors) # work) =
     (if tj_indices st dep = None
      then explore g (enter dep st) ((dep, dict_values g dep) # (node, neighbors) # work)
      else if dep \<in> tj_on_stack st
      then explore g (lower node (the (tj_indices st dep)) st) ((node, neighbors) # work)
      else explore g st ((node, neighbors) # work))"
| "explore g st ((node, []) # work) =
     explore g
       (leave g node
         (case work of [] \<Rightarrow> st | (up, _) # _ \<Rightarrow> lower up (tj_lowlink st node) st)) work"
  by pat_completeness auto
termination
proof (relation "measures
    [\<lambda>(g, st, work). card (unseen g work st), \<lambda>(g, st, work). length (concat (map snd work)),
     \<lambda>(g, st, work). length work]", goal_cases)
  case (2 g st node dep neighbors work)
  have "unseen g ((dep, dict_values g dep) # (node, neighbors) # work) (enter dep st)
      \<subset> unseen g ((node, dep # neighbors) # work) st"
    using 2 dict_values_subset [of g dep] by (auto simp: unseen_def enter_def)
  then show ?case by (simp add: psubset_card_mono)
next
  case (3 g st node dep neighbors work)
  have "unseen g ((node, neighbors) # work) (lower node (the (tj_indices st dep)) st)
      = unseen g ((node, dep # neighbors) # work) st"
    using 3 by (auto simp: unseen_def lower_def)
  then show ?case by simp
next
  case (4 g st node dep neighbors work)
  have "unseen g ((node, neighbors) # work) st = unseen g ((node, dep # neighbors) # work) st"
    using 4 by (auto simp: unseen_def)
  then show ?case by simp
next
  case (5 g st node work)
  have "unseen g work (leave g node (case work of [] \<Rightarrow> st | (up, _) # _ \<Rightarrow> lower up (tj_lowlink st node) st))
      = unseen g ((node, []) # work) st"
    by (auto simp: unseen_def leave_def lower_def split: list.splits prod.splits)
  then show ?case by simp
qed simp

definition explore_from :: "'a graph \<Rightarrow> 'a \<Rightarrow> 'a tarjan \<Rightarrow> 'a tarjan" where
  "explore_from g start st =
     (if tj_indices st start \<noteq> None then st
      else explore g (enter start st) [(start, dict_values g start)])"

definition find_cycles_tarjan :: "'a graph \<Rightarrow> 'a list list" where
  "find_cycles_tarjan g = tj_cycles (fold (explore_from g) (map fst g) tarjan_start)"

end
