(* ===== verification/Strong_Components_Facts.thy ===== *)
theory Strong_Components_Facts
  imports Strong_Components
begin

text \<open>
  The search finds the strongly connected components.  The nodes on the stack fall into segments,
  one for each node on the path being explored; every node of a segment is reached from the path
  node that starts it, reaches a node further down unless it starts a segment, and has no edge to
  a node below the lowlink of its segment.
\<close>

section \<open>The invariant\<close>

definition succs :: "'a graph \<Rightarrow> 'a \<Rightarrow> 'a set" where
  "succs g x = set (dict_values g x)"

definition edges :: "'a graph \<Rightarrow> ('a \<times> 'a) set" where
  "edges g = {(x, y). y \<in> succs g x}"

definition idx :: "'a tarjan \<Rightarrow> 'a \<Rightarrow> nat" where
  "idx st x = the (tj_indices st x)"

abbreviation on_stack :: "'a tarjan \<Rightarrow> 'a set" where
  "on_stack st \<equiv> set (tj_stack st)"

abbreviation seen :: "'a tarjan \<Rightarrow> 'a set" where
  "seen st \<equiv> dom (tj_indices st)"

definition settled :: "'a tarjan \<Rightarrow> 'a set" where
  "settled st = seen st - on_stack st"

definition stack_ok :: "'a tarjan \<Rightarrow> bool" where
  "stack_ok st \<longleftrightarrow> tj_on_stack st = on_stack st \<and> on_stack st \<subseteq> seen st
     \<and> (\<forall>x \<in> seen st. idx st x < tj_counter st)
     \<and> sorted_wrt (\<lambda>x y. idx st y < idx st x) (tj_stack st)"

definition work_ok :: "'a graph \<Rightarrow> 'a tarjan \<Rightarrow> ('a \<times> 'a list) list \<Rightarrow> bool" where
  "work_ok g st work \<longleftrightarrow>
     sorted_wrt (\<lambda>x y. idx st y < idx st x) (map fst work)
     \<and> fst ` set work \<subseteq> on_stack st
     \<and> (if work = [] then tj_stack st = []
        else tj_stack st \<noteq> [] \<and> last (tj_stack st) = fst (last work))
     \<and> (\<forall>(x, rest) \<in> set work. set rest \<subseteq> succs g x \<and> succs g x - set rest \<subseteq> seen st)
     \<and> (\<forall>x \<in> on_stack st - fst ` set work. succs g x \<subseteq> seen st)
     \<and> (\<forall>x \<in> settled st. succs g x \<subseteq> settled st)"

definition reach_ok :: "'a graph \<Rightarrow> 'a tarjan \<Rightarrow> ('a \<times> 'a list) list \<Rightarrow> bool" where
  "reach_ok g st work \<longleftrightarrow>
     (\<forall>x \<in> fst ` set work. \<forall>y \<in> on_stack st. idx st x \<le> idx st y \<longrightarrow> (x, y) \<in> (edges g)\<^sup>*)
     \<and> (\<forall>x \<in> on_stack st - fst ` set work. \<exists>y \<in> on_stack st. idx st y < idx st x \<and> (x, y) \<in> (edges g)\<^sup>*)
     \<and> (\<forall>x \<in> fst ` set work. tj_lowlink st x \<le> idx st x
          \<and> (\<exists>y \<in> on_stack st. idx st y = tj_lowlink st x \<and> (x, y) \<in> (edges g)\<^sup>*))"

text \<open>The lowlink of a path node bounds what the nodes of its segment, below \<open>bound\<close>, point to.\<close>

definition bounds :: "'a graph \<Rightarrow> 'a tarjan \<Rightarrow> nat \<Rightarrow> 'a \<times> 'a list \<Rightarrow> bool" where
  "bounds g st bound p \<longleftrightarrow>
     (\<forall>x \<in> on_stack st. idx st (fst p) \<le> idx st x \<longrightarrow> idx st x < bound \<longrightarrow>
        (\<forall>y \<in> succs g x. y \<in> on_stack st \<longrightarrow> (x = fst p \<longrightarrow> y \<notin> set (snd p)) \<longrightarrow>
           tj_lowlink st (fst p) \<le> idx st y))"

fun segments_ok :: "'a graph \<Rightarrow> 'a tarjan \<Rightarrow> nat \<Rightarrow> ('a \<times> 'a list) list \<Rightarrow> bool" where
  "segments_ok g st bound [] = True"
| "segments_ok g st bound (p # work) =
     (bounds g st bound p \<and> segments_ok g st (idx st (fst p)) work)"

definition cycles_ok :: "'a graph \<Rightarrow> 'a tarjan \<Rightarrow> bool" where
  "cycles_ok g st \<longleftrightarrow>
     distinct (concat (tj_cycles st)) \<and> set (concat (tj_cycles st)) \<subseteq> settled st
     \<and> (\<forall>c \<in> set (tj_cycles st). \<forall>x \<in> set c. \<forall>y. y \<in> set c \<longleftrightarrow> (x, y) \<in> (edges g)\<^sup>* \<and> (y, x) \<in> (edges g)\<^sup>*)
     \<and> (\<forall>c \<in> set (tj_cycles st). \<forall>x \<in> set c. (x, x) \<in> (edges g)\<^sup>+)
     \<and> (\<forall>x \<in> settled st. (x, x) \<in> (edges g)\<^sup>+ \<longrightarrow> x \<in> set (concat (tj_cycles st)))
     \<and> [] \<notin> set (tj_cycles st)"

definition search_ok :: "'a graph \<Rightarrow> 'a tarjan \<Rightarrow> ('a \<times> 'a list) list \<Rightarrow> bool" where
  "search_ok g st work \<longleftrightarrow> stack_ok st \<and> work_ok g st work \<and> reach_ok g st work
     \<and> segments_ok g st (tj_counter st) work \<and> cycles_ok g st"

lemma sorted_distinct: "sorted_wrt (\<lambda>x y. (f y :: nat) < f x) xs \<Longrightarrow> distinct xs"
  by (induction xs) auto

lemma sorted_wrt_cong_on:
  "(\<And>x. x \<in> set xs \<Longrightarrow> f x = (g x :: nat)) \<Longrightarrow>
     sorted_wrt (\<lambda>x y. f y < f x) xs = sorted_wrt (\<lambda>x y. g y < g x) xs"
  by (induction xs) auto

lemma sorted_last: "sorted_wrt (\<lambda>x y. (f y :: nat) < f x) xs \<Longrightarrow> x \<in> set xs \<Longrightarrow> f (last xs) \<le> f x"
  by (induction xs) (auto split: if_splits simp: less_imp_le)

lemma stack_inj:
  assumes "stack_ok st" "x \<in> on_stack st" "y \<in> on_stack st" "idx st x = idx st y"
  shows "x = y"
proof -
  have "sorted_wrt (\<lambda>x y. (f y :: nat) < f x) xs \<Longrightarrow> x \<in> set xs \<Longrightarrow> y \<in> set xs \<Longrightarrow> f x = f y \<Longrightarrow> x = y"
    for f :: "'a \<Rightarrow> nat" and xs
    by (induction xs) auto
  then show ?thesis using assms unfolding stack_ok_def by blast
qed

section \<open>Entering a node\<close>

lemma enter_fields [simp]:
  "tj_stack (enter x st) = x # tj_stack st" "tj_on_stack (enter x st) = insert x (tj_on_stack st)"
  "tj_indices (enter x st) = (tj_indices st)(x \<mapsto> tj_counter st)"
  "tj_counter (enter x st) = tj_counter st + 1" "tj_cycles (enter x st) = tj_cycles st"
  "tj_lowlink (enter x st) = (tj_lowlink st)(x := tj_counter st)"
  by (simp_all add: enter_def)

lemma idx_enter: "idx (enter x st) y = (if y = x then tj_counter st else idx st y)"
  by (simp add: idx_def)

lemma settled_enter: "x \<notin> seen st \<Longrightarrow> settled (enter x st) = settled st"
  by (auto simp: settled_def)

text \<open>What was seen keeps its place, and the new node is above everything on the stack.\<close>

lemma enter_seen:
  assumes "stack_ok st" "x \<notin> seen st" "y \<in> on_stack st"
  shows "y \<noteq> x" "idx (enter x st) y = idx st y" "idx st y < tj_counter st"
proof -
  have y: "y \<in> seen st" using assms by (auto simp: stack_ok_def)
  then show "y \<noteq> x" using assms(2) by blast
  then show "idx (enter x st) y = idx st y" by (simp add: idx_enter)
  show "idx st y < tj_counter st" using assms(1) y by (simp add: stack_ok_def)
qed

lemma stack_ok_enter:
  assumes "stack_ok st" "x \<notin> seen st"
  shows "stack_ok (enter x st)"
proof -
  note seen = enter_seen [OF assms]
  have "sorted_wrt (\<lambda>x' y. idx (enter x st) y < idx (enter x st) x') (tj_stack (enter x st))"
    using assms(1) seen(2,3) sorted_wrt_cong_on [of "tj_stack st" "idx (enter x st)" "idx st"]
    by (auto simp: stack_ok_def) (simp add: idx_enter)
  moreover have "\<forall>y \<in> seen (enter x st). idx (enter x st) y < tj_counter (enter x st)"
    using assms(1) by (auto simp: stack_ok_def idx_enter less_Suc_eq)
  ultimately show ?thesis using assms by (auto simp: stack_ok_def)
qed

lemma work_ok_enter:
  assumes "stack_ok st" "x \<notin> seen st" "work_ok g st ((v, x # rest) # work)"
  shows "work_ok g (enter x st) ((x, dict_values g x) # (v, rest) # work)"
proof -
  note seen = enter_seen [OF assms(1,2)]
  have path: "fst ` set ((v, rest) # work) \<subseteq> on_stack st" using assms(3) by (auto simp: work_ok_def)
  have "sorted_wrt (\<lambda>x y. idx st y < idx st x) (map fst ((v, rest) # work))"
    using assms(3) by (simp add: work_ok_def)
  then have "sorted_wrt (\<lambda>y z. idx (enter x st) z < idx (enter x st) y) (map fst ((v, rest) # work))"
    using path seen(2)
    by (subst sorted_wrt_cong_on [where g = "idx st"]) auto
  moreover have "\<forall>p \<in> set ((v, rest) # work). idx (enter x st) (fst p) < idx (enter x st) x"
    using path seen by (force simp: idx_enter)
  moreover have "\<forall>y \<in> on_stack (enter x st) - fst ` set ((x, dict_values g x) # (v, rest) # work).
      succs g y \<subseteq> seen (enter x st)"
    using assms(3) by (auto simp: work_ok_def)
  moreover have "\<forall>(y, r) \<in> set ((x, dict_values g x) # (v, rest) # work).
      set r \<subseteq> succs g y \<and> succs g y - set r \<subseteq> seen (enter x st)"
    using assms(3) by (auto simp: work_ok_def succs_def)
  ultimately show ?thesis
    using assms(3) path settled_enter [OF assms(2)] by (auto simp: work_ok_def)
qed

lemma reach_ok_enter:
  assumes "stack_ok st" "x \<notin> seen st" "work_ok g st ((v, x # rest) # work)" "reach_ok g st ((v, x # rest) # work)"
  shows "reach_ok g (enter x st) ((x, dict_values g x) # (v, rest) # work)"
proof -
  note seen = enter_seen [OF assms(1,2)]
  have path: "fst ` set ((v, rest) # work) \<subseteq> on_stack st" using assms(3) by (auto simp: work_ok_def)
  have edge: "(v, x) \<in> edges g" using assms(3) by (auto simp: work_ok_def edges_def)
  have sorted: "\<forall>p \<in> set work. idx st (fst p) < idx st v" using assms(3) by (auto simp: work_ok_def)
  have below: "\<forall>y \<in> fst ` set ((v, rest) # work). \<forall>z \<in> on_stack st. idx st y \<le> idx st z \<longrightarrow> (y, z) \<in> (edges g)\<^sup>*"
    using assms(4) by (simp add: reach_ok_def)
  have "(y, x) \<in> (edges g)\<^sup>*" if y: "y \<in> fst ` set ((v, rest) # work)" for y
  proof -
    have "idx st y \<le> idx st v" using y sorted by (auto simp: less_imp_le)
    moreover have "v \<in> on_stack st" using path by simp
    ultimately have "(y, v) \<in> (edges g)\<^sup>*" using below [rule_format, OF y] by blast
    then show ?thesis using edge by simp
  qed
  note to_x = this
  have "\<forall>y \<in> fst ` set ((x, dict_values g x) # (v, rest) # work). \<forall>z \<in> on_stack (enter x st).
      idx (enter x st) y \<le> idx (enter x st) z \<longrightarrow> (y, z) \<in> (edges g)\<^sup>*"
  proof (intro ballI impI)
    fix y z assume y: "y \<in> fst ` set ((x, dict_values g x) # (v, rest) # work)"
      and z: "z \<in> on_stack (enter x st)" "idx (enter x st) y \<le> idx (enter x st) z"
    show "(y, z) \<in> (edges g)\<^sup>*"
    proof (cases "z = x")
      case True
      then show ?thesis using y to_x by (cases "y = x") auto
    next
      case False
      then have z': "z \<in> on_stack st" using z(1) by simp
      have "y \<noteq> x" using z(2) seen(2,3) [OF z'] by (auto simp: idx_enter)
      then have y': "y \<in> fst ` set ((v, rest) # work)" using y by auto
      then have "y \<in> on_stack st" using path by blast
      then show ?thesis using below [rule_format, OF y' z'] z(2) seen(2) [OF z'] seen(2) [of y] by simp
    qed
  qed
  moreover have "\<forall>y \<in> on_stack (enter x st) - fst ` set ((x, dict_values g x) # (v, rest) # work).
      \<exists>z \<in> on_stack (enter x st). idx (enter x st) z < idx (enter x st) y \<and> (y, z) \<in> (edges g)\<^sup>*"
  proof
    fix y assume "y \<in> on_stack (enter x st) - fst ` set ((x, dict_values g x) # (v, rest) # work)"
    then have y: "y \<in> on_stack st - fst ` set ((v, x # rest) # work)" by auto
    then obtain z where "z \<in> on_stack st" "idx st z < idx st y" "(y, z) \<in> (edges g)\<^sup>*"
      using assms(4) unfolding reach_ok_def by blast
    then show "\<exists>z \<in> on_stack (enter x st). idx (enter x st) z < idx (enter x st) y \<and> (y, z) \<in> (edges g)\<^sup>*"
      using seen(2) y by (intro bexI [of _ z]) auto
  qed
  moreover have "\<forall>y \<in> fst ` set ((x, dict_values g x) # (v, rest) # work).
      tj_lowlink (enter x st) y \<le> idx (enter x st) y
      \<and> (\<exists>z \<in> on_stack (enter x st). idx (enter x st) z = tj_lowlink (enter x st) y \<and> (y, z) \<in> (edges g)\<^sup>*)"
  proof
    fix y assume y: "y \<in> fst ` set ((x, dict_values g x) # (v, rest) # work)"
    show "tj_lowlink (enter x st) y \<le> idx (enter x st) y
      \<and> (\<exists>z \<in> on_stack (enter x st). idx (enter x st) z = tj_lowlink (enter x st) y \<and> (y, z) \<in> (edges g)\<^sup>*)"
    proof (cases "y = x")
      case False
      then have y: "y \<in> fst ` set ((v, x # rest) # work)" "y \<in> on_stack st" using y path by auto
      then obtain z where "tj_lowlink st y \<le> idx st y" "z \<in> on_stack st" "idx st z = tj_lowlink st y"
          "(y, z) \<in> (edges g)\<^sup>*"
        using assms(4) unfolding reach_ok_def by blast
      then show ?thesis using seen y False by auto
    qed (simp add: idx_enter)
  qed
  ultimately show ?thesis unfolding reach_ok_def by blast
qed

lemma bounds_enter:
  assumes "stack_ok st" "x \<notin> seen st" "fst p \<in> on_stack st" "bounds g st b (fst p, x # snd p)" "b \<le> tj_counter st"
    and "tj_lowlink st (fst p) \<le> idx st (fst p)"
  shows "bounds g (enter x st) b p"
  unfolding bounds_def
proof (intro ballI impI)
  note seen = enter_seen [OF assms(1,2)]
  have p: "fst p \<noteq> x" using seen(1) assms(3) by simp
  fix y z
  assume y: "y \<in> on_stack (enter x st)" "idx (enter x st) (fst p) \<le> idx (enter x st) y" "idx (enter x st) y < b"
    and z: "z \<in> succs g y" "z \<in> on_stack (enter x st)" "y = fst p \<longrightarrow> z \<notin> set (snd p)"
  have "y \<noteq> x" using y(3) assms(5) by (auto simp: idx_enter)
  then have y': "y \<in> on_stack st" "idx st (fst p) \<le> idx st y" "idx st y < b"
    using y seen(2) assms(3) p by (auto simp: idx_enter)
  show "tj_lowlink (enter x st) (fst p) \<le> idx (enter x st) z"
  proof (cases "z = x")
    case True
    then show ?thesis using seen(3) [OF assms(3)] assms(6) p by (simp add: idx_enter)
  next
    case False
    then have "tj_lowlink st (fst p) \<le> idx st z"
      using assms(4) y' z unfolding bounds_def by auto
    then show ?thesis using False p by (simp add: idx_enter)
  qed
qed

lemma segments_ok_enter:
  assumes "stack_ok st" "x \<notin> seen st" "fst ` set work \<subseteq> on_stack st"
    and "\<forall>p \<in> set work. tj_lowlink st (fst p) \<le> idx st (fst p)"
  shows "segments_ok g st b work \<Longrightarrow> b \<le> tj_counter st \<Longrightarrow> segments_ok g (enter x st) b work"
  using assms(3,4)
proof (induction work arbitrary: b)
  case (Cons p work)
  note seen = enter_seen [OF assms(1,2)]
  have p: "fst p \<in> on_stack st" using Cons.prems by simp
  have "bounds g st b (fst p, x # snd p)" using Cons.prems(1) by (simp add: bounds_def)
  then have "bounds g (enter x st) b p" using bounds_enter [OF assms(1,2) p] Cons.prems by simp
  moreover have "segments_ok g (enter x st) (idx st (fst p)) work"
    using Cons.IH [of "idx st (fst p)"] Cons.prems seen(3) [OF p] by simp
  ultimately show ?case using seen(2) [OF p] by simp
qed simp

lemma search_ok_enter:
  assumes "search_ok g st ((v, x # rest) # work)" "tj_indices st x = None"
  shows "search_ok g (enter x st) ((x, dict_values g x) # (v, rest) # work)"
proof -
  have ok: "stack_ok st" "work_ok g st ((v, x # rest) # work)" "reach_ok g st ((v, x # rest) # work)"
      "segments_ok g st (tj_counter st) ((v, x # rest) # work)" "cycles_ok g st"
    using assms(1) by (simp_all add: search_ok_def)
  have new: "x \<notin> seen st" using assms(2) by auto
  note seen = enter_seen [OF ok(1) new]
  have path: "v \<in> on_stack st" "fst ` set work \<subseteq> on_stack st" using ok(2) by (auto simp: work_ok_def)
  have low: "\<forall>p \<in> set ((v, x # rest) # work). tj_lowlink st (fst p) \<le> idx st (fst p)"
    using ok(3) by (auto simp: reach_ok_def)
  have "bounds g (enter x st) b (x, dict_values g x)" for b
  proof (unfold bounds_def, intro ballI impI)
    fix y z assume y: "y \<in> on_stack (enter x st)" "idx (enter x st) (fst (x, dict_values g x)) \<le> idx (enter x st) y"
      and z: "z \<in> succs g y" "y = fst (x, dict_values g x) \<longrightarrow> z \<notin> set (snd (x, dict_values g x))"
    have "y = x" using y seen(2,3) [of y] by (auto simp: idx_enter)
    then show "tj_lowlink (enter x st) (fst (x, dict_values g x)) \<le> idx (enter x st) z"
      using z by (simp add: succs_def)
  qed
  moreover have "bounds g (enter x st) (tj_counter st) (v, rest)"
    using bounds_enter [OF ok(1) new, of "(v, rest)"] path(1) ok(4) low by simp
  moreover have "segments_ok g (enter x st) (idx st v) work"
    using segments_ok_enter [OF ok(1) new path(2)] ok(4) low seen(3) [OF path(1)] by (simp add: less_imp_le)
  moreover have "cycles_ok g (enter x st)"
    using ok(5) settled_enter [OF new] by (simp add: cycles_ok_def)
  ultimately show ?thesis
    using stack_ok_enter [OF ok(1) new] work_ok_enter [OF ok(1) new ok(2)]
      reach_ok_enter [OF ok(1) new ok(2,3)] seen(1,2) [OF path(1)]
    by (simp add: search_ok_def idx_enter)
qed

text \<open>The first node of a search.\<close>

lemma search_ok_first:
  assumes "search_ok g st []" "tj_indices st x = None"
  shows "search_ok g (enter x st) [(x, dict_values g x)]"
proof -
  have ok: "stack_ok st" "work_ok g st []" "cycles_ok g st" using assms(1) by (simp_all add: search_ok_def)
  have new: "x \<notin> seen st" using assms(2) by auto
  have empty: "tj_stack st = []" using ok(2) by (simp add: work_ok_def)
  have "work_ok g (enter x st) [(x, dict_values g x)]"
    using ok(2) settled_enter [OF new] by (simp add: work_ok_def succs_def)
  moreover have "reach_ok g (enter x st) [(x, dict_values g x)]"
    using empty by (simp add: reach_ok_def idx_enter)
  moreover have "bounds g (enter x st) (tj_counter (enter x st)) (x, dict_values g x)"
    using empty by (auto simp: bounds_def succs_def)
  moreover have "cycles_ok g (enter x st)" using ok(3) settled_enter [OF new] by (simp add: cycles_ok_def)
  ultimately show ?thesis using stack_ok_enter [OF ok(1) new] by (simp add: search_ok_def)
qed

section \<open>Looking at a neighbour that was seen\<close>

lemma lower_fields [simp]:
  "tj_stack (lower x i st) = tj_stack st" "tj_on_stack (lower x i st) = tj_on_stack st"
  "tj_indices (lower x i st) = tj_indices st" "tj_counter (lower x i st) = tj_counter st"
  "tj_cycles (lower x i st) = tj_cycles st" "idx (lower x i st) = idx st" "settled (lower x i st) = settled st"
  "tj_lowlink (lower x i st) = (tj_lowlink st)(x := min (tj_lowlink st x) i)"
  by (simp_all add: lower_def idx_def settled_def fun_eq_iff)

lemma stack_ok_lower [simp]: "stack_ok (lower x i st) = stack_ok st"
  by (simp add: stack_ok_def)

lemma cycles_ok_lower [simp]: "cycles_ok g (lower x i st) = cycles_ok g st"
  by (simp add: cycles_ok_def)

lemma work_ok_lower [simp]: "work_ok g (lower x i st) work = work_ok g st work"
  by (simp add: work_ok_def)

text \<open>A lowlink may fall to the index of what the node reaches.\<close>

lemma reach_ok_lower:
  assumes "reach_ok g st work" "y \<in> on_stack st" "idx st y = i" "(x, y) \<in> (edges g)\<^sup>*"
  shows "reach_ok g (lower x i st) work"
proof -
  have "tj_lowlink (lower x i st) z \<le> idx st z
      \<and> (\<exists>w \<in> on_stack st. idx st w = tj_lowlink (lower x i st) z \<and> (z, w) \<in> (edges g)\<^sup>*)"
    if z: "z \<in> fst ` set work" for z
  proof -
    obtain w where w: "tj_lowlink st z \<le> idx st z" "w \<in> on_stack st" "idx st w = tj_lowlink st z"
        "(z, w) \<in> (edges g)\<^sup>*"
      using assms(1) z unfolding reach_ok_def by blast
    then show ?thesis using assms(2-4) by (auto simp: min_def)
  qed
  then show ?thesis using assms(1) by (simp add: reach_ok_def)
qed

lemma bounds_lower: "bounds g st b p \<Longrightarrow> bounds g (lower x i st) b p"
  unfolding bounds_def by (auto simp: min_le_iff_disj)

lemma segments_ok_lower: "segments_ok g st b work \<Longrightarrow> segments_ok g (lower x i st) b work"
  by (induction work arbitrary: b) (auto simp: bounds_lower)

lemma work_ok_next:
  "work_ok g st ((v, x # rest) # work) \<Longrightarrow> x \<in> seen st \<Longrightarrow> work_ok g st ((v, rest) # work)"
  by (auto simp: work_ok_def)

lemma reach_ok_next: "reach_ok g st ((v, x # rest) # work) = reach_ok g st ((v, rest) # work)"
  by (simp add: reach_ok_def)

lemma search_ok_skip:
  assumes "search_ok g st ((v, x # rest) # work)" "tj_indices st x \<noteq> None" "x \<notin> tj_on_stack st"
  shows "search_ok g st ((v, rest) # work)"
proof -
  have "x \<notin> on_stack st" using assms(1,3) by (simp add: search_ok_def stack_ok_def)
  then have "bounds g st (tj_counter st) (v, rest)"
    using assms(1) by (auto simp: search_ok_def bounds_def)
  then show ?thesis
    using assms(1,2) work_ok_next [of g st v x rest work] by (auto simp: search_ok_def reach_ok_next)
qed

lemma search_ok_back:
  assumes "search_ok g st ((v, x # rest) # work)" "tj_indices st x = Some i" "x \<in> tj_on_stack st"
  shows "search_ok g (lower v i st) ((v, rest) # work)"
proof -
  have x: "x \<in> on_stack st" using assms(1,3) by (simp add: search_ok_def stack_ok_def)
  have i: "idx st x = i" using assms(2) by (simp add: idx_def)
  have edge: "(v, x) \<in> edges g" using assms(1) by (auto simp: search_ok_def work_ok_def edges_def)
  have "bounds g (lower v i st) (tj_counter st) (v, rest)"
    using assms(1) i by (auto simp: search_ok_def bounds_def min_le_iff_disj)
  moreover have "reach_ok g (lower v i st) ((v, rest) # work)"
    using reach_ok_lower [OF _ x i] edge assms(1) by (auto simp: search_ok_def reach_ok_next)
  ultimately show ?thesis
    using assms(1,2) work_ok_next [of g st v x rest work]
    by (auto simp: search_ok_def segments_ok_lower)
qed

section \<open>Leaving a node\<close>

lemma closed_reaches:
  assumes "\<And>x. x \<in> X \<Longrightarrow> succs g x \<subseteq> X" "(x, y) \<in> (edges g)\<^sup>*" "x \<in> X"
  shows "y \<in> X"
  using assms(2,3) by (induction rule: rtrancl_induct) (use assms(1) in \<open>auto simp: edges_def\<close>)

definition lowered :: "'a \<Rightarrow> 'a tarjan \<Rightarrow> ('a \<times> 'a list) list \<Rightarrow> 'a tarjan" where
  "lowered v st work = (case work of [] \<Rightarrow> st | (up, _) # _ \<Rightarrow> lower up (tj_lowlink st v) st)"

lemma search_ok_lowered:
  assumes "search_ok g st ((v, []) # work)"
  shows "search_ok g (lowered v st work) ((v, []) # work)"
    "work \<noteq> [] \<Longrightarrow> tj_lowlink (lowered v st work) (fst (hd work)) \<le> tj_lowlink (lowered v st work) v"
proof -
  have ok: "stack_ok st" "work_ok g st ((v, []) # work)" "reach_ok g st ((v, []) # work)"
      "segments_ok g st (tj_counter st) ((v, []) # work)" "cycles_ok g st"
    using assms by (simp_all add: search_ok_def)
  show "search_ok g (lowered v st work) ((v, []) # work)"
  proof (cases work)
    case (Cons p w)
    have up: "idx st (fst p) < idx st v" "v \<in> on_stack st" "fst p \<in> fst ` set ((v, []) # work)"
      using ok(2) Cons by (auto simp: work_ok_def)
    have to_v: "(fst p, v) \<in> (edges g)\<^sup>*" using ok(3) up unfolding reach_ok_def by (meson less_imp_le)
    obtain y where y: "y \<in> on_stack st" "idx st y = tj_lowlink st v" "(v, y) \<in> (edges g)\<^sup>*"
      using ok(3) by (auto simp: reach_ok_def)
    have "reach_ok g (lower (fst p) (tj_lowlink st v) st) ((v, []) # work)"
      using reach_ok_lower [OF ok(3) y(1,2)] to_v y(3) by (meson rtrancl_trans)
    moreover have "segments_ok g (lower (fst p) (tj_lowlink st v) st) (tj_counter st) ((v, []) # work)"
      using segments_ok_lower [OF ok(4)] .
    ultimately show ?thesis
      using ok by (cases p) (simp add: lowered_def Cons search_ok_def)
  qed (use assms in \<open>simp add: lowered_def\<close>)
  show "work \<noteq> [] \<Longrightarrow> tj_lowlink (lowered v st work) (fst (hd work)) \<le> tj_lowlink (lowered v st work) v"
    by (cases work) (auto simp: lowered_def)
qed

text \<open>The node is not the root of its component: its segment joins the one below.\<close>

lemma search_ok_join:
  assumes "search_ok g st ((v, []) # work)" "tj_lowlink st v \<noteq> idx st v"
    and low: "work \<noteq> [] \<Longrightarrow> tj_lowlink st (fst (hd work)) \<le> tj_lowlink st v"
  shows "search_ok g st work"
proof -
  have ok: "stack_ok st" "work_ok g st ((v, []) # work)" "reach_ok g st ((v, []) # work)"
      "segments_ok g st (tj_counter st) ((v, []) # work)" "cycles_ok g st"
    using assms(1) by (simp_all add: search_ok_def)
  obtain y where y: "y \<in> on_stack st" "idx st y = tj_lowlink st v" "(v, y) \<in> (edges g)\<^sup>*"
      "tj_lowlink st v < idx st v"
    using ok(3) assms(2) by (auto simp: reach_ok_def)
  have work: "work \<noteq> []"
  proof
    assume "work = []"
    then have "last (tj_stack st) = v" using ok(2) by (simp add: work_ok_def)
    then have "idx st v \<le> idx st y" using sorted_last [of "idx st" "tj_stack st" y] ok(1) y(1)
      by (simp add: stack_ok_def)
    then show False using y by simp
  qed
  then obtain p w where p: "work = p # w" by (cases work) auto
  have seg: "bounds g st (tj_counter st) (v, [])" "bounds g st (idx st v) p" "segments_ok g st (idx st (fst p)) w"
    using ok(4) p by simp_all
  have v: "v \<noteq> fst p" "idx st (fst p) < idx st v" using ok(2) p by (auto simp: work_ok_def)
  have "bounds g st (tj_counter st) p"
  proof (unfold bounds_def, intro ballI impI)
    fix x z assume x: "x \<in> on_stack st" "idx st (fst p) \<le> idx st x" "idx st x < tj_counter st"
      and z: "z \<in> succs g x" "z \<in> on_stack st" "x = fst p \<longrightarrow> z \<notin> set (snd p)"
    show "tj_lowlink st (fst p) \<le> idx st z"
    proof (cases "idx st x < idx st v")
      case True
      then show ?thesis using seg(2) x z by (simp add: bounds_def)
    next
      case False
      then have "tj_lowlink st v \<le> idx st z" using seg(1) x z by (simp add: bounds_def)
      then show ?thesis using low [OF work] p by simp
    qed
  qed
  moreover have "work_ok g st work" using ok(2) work by (auto simp: work_ok_def)
  moreover have "reach_ok g st work"
  proof -
    have "\<exists>y \<in> on_stack st. idx st y < idx st x \<and> (x, y) \<in> (edges g)\<^sup>*"
      if "x \<in> on_stack st - fst ` set work" for x
    proof (cases "x = v")
      case True
      then show ?thesis using y by (intro bexI [of _ y]) auto
    next
      case False
      then have "x \<in> on_stack st - fst ` set ((v, []) # work)" using that by auto
      then show ?thesis using ok(3) unfolding reach_ok_def by blast
    qed
    then show ?thesis using ok(3) by (simp add: reach_ok_def)
  qed
  ultimately show ?thesis using ok seg(3) p by (simp add: search_ok_def)
qed

lemma pop_until_split:
  assumes "sorted_wrt (\<lambda>x y. (f y :: nat) < f x) xs" "v \<in> set xs" "pop_until v xs = (c, b)"
  shows "xs = c @ b" "set c = {x \<in> set xs. f v \<le> f x}" "set b = {x \<in> set xs. f x < f v}"
  using assms
proof (induction xs arbitrary: c)
  case (Cons x xs)
  {
    case 1
    then show ?case using Cons.IH(1) by (cases "x = v") (auto split: prod.splits)
  next
    case 2
    then show ?case
      using Cons.IH(2) less_imp_le [of "f v" "f x"] by (cases "x = v") (auto split: prod.splits)
  next
    case 3
    then show ?case using Cons.IH(3) by (cases "x = v") (auto split: prod.splits)
  }
qed auto

text \<open>The node is the root of its component, which is what is above it on the stack.\<close>

lemma search_ok_pop:
  assumes "search_ok g st ((v, []) # work)" "tj_lowlink st v = idx st v"
  shows "search_ok g (leave g v st) work"
proof -
  have ok: "stack_ok st" "work_ok g st ((v, []) # work)" "reach_ok g st ((v, []) # work)"
      "segments_ok g st (tj_counter st) ((v, []) # work)" "cycles_ok g st"
    using assms(1) by (simp_all add: search_ok_def)
  have v: "v \<in> on_stack st" "v \<in> seen st" using ok(1,2) by (auto simp: work_ok_def stack_ok_def)
  have sorted: "sorted_wrt (\<lambda>x y. idx st y < idx st x) (tj_stack st)" using ok(1) by (simp add: stack_ok_def)
  obtain c b where pop: "pop_until v (tj_stack st) = (c, b)" by force
  note split = pop_until_split [OF sorted v(1) pop]
  let ?st = "leave g v st"
  have dist: "distinct (c @ b)" using sorted_distinct [OF sorted] split(1) by simp
  have root: "tj_indices st v = Some (tj_lowlink st v)" using assms(2) v(2) by (auto simp: idx_def)
  have st: "tj_stack ?st = b" "tj_on_stack ?st = tj_on_stack st - set c" "tj_indices ?st = tj_indices st"
      "tj_counter ?st = tj_counter st" "tj_lowlink ?st = tj_lowlink st"
      "tj_cycles ?st = tj_cycles st @ (if length c > 1 \<or> v \<in> succs g v then [c] else [])"
    using root pop by (simp_all add: leave_def succs_def)
  then have idx: "idx ?st = idx st" by (simp add: idx_def fun_eq_iff)
  have settled: "settled ?st = settled st \<union> set c"
    using dist ok(1) split(1) st(1,3) by (auto simp: settled_def stack_ok_def)
  have path: "x \<in> set b" "idx st x < idx st v" if "x \<in> fst ` set work" for x
    using ok(2) that split(3) by (auto simp: work_ok_def)
  have v_in: "v \<in> set c" using split(2) v(1) by simp
  have closed_settled: "succs g x \<subseteq> settled st" if "x \<in> settled st" for x
    using ok(2) that by (simp add: work_ok_def)
  have closed: "succs g x \<subseteq> settled st \<union> set c" if x: "x \<in> settled st \<union> set c" for x
  proof (cases "x \<in> settled st")
    case False
    then have x: "x \<in> set c" "x \<in> on_stack st" "idx st v \<le> idx st x" using x split(2) by auto
    have "x \<notin> fst ` set work" using path(2) [of x] x(3) by auto
    then have all_seen: "succs g x \<subseteq> seen st" using ok(2) x(2) by (auto simp: work_ok_def)
    show ?thesis
    proof
      fix y assume y: "y \<in> succs g x"
      show "y \<in> settled st \<union> set c"
      proof (cases "y \<in> on_stack st")
        case True
        have "idx st x < tj_counter st" using ok(1) x(2) by (auto simp: stack_ok_def)
        then have "tj_lowlink st v \<le> idx st y" using ok(4) x y True by (simp add: bounds_def)
        then show ?thesis using assms(2) True split(2) by simp
      qed (use all_seen y in \<open>auto simp: settled_def\<close>)
    qed
  qed (use closed_settled in blast)
  have from_v: "(v, x) \<in> (edges g)\<^sup>*" if "x \<in> set c" for x
    using ok(3) that split(2) by (simp add: reach_ok_def)
  have to_v: "x \<in> set c \<Longrightarrow> (x, v) \<in> (edges g)\<^sup>*" for x
  proof (induction "idx st x" arbitrary: x rule: less_induct)
    case less
    show ?case
    proof (cases "x = v")
      case False
      have x: "x \<in> on_stack st" "idx st v \<le> idx st x" using less.prems split(2) by auto
      then have "x \<in> on_stack st - fst ` set ((v, []) # work)" using path(2) [of x] False by auto
      then obtain y where y: "y \<in> on_stack st" "idx st y < idx st x" "(x, y) \<in> (edges g)\<^sup>*"
        using ok(3) unfolding reach_ok_def by blast
      have "y \<in> settled st \<union> set c" using closed_reaches [OF closed y(3)] less.prems by blast
      then have "y \<in> set c" using y(1) by (auto simp: settled_def)
      then show ?thesis using less.hyps [OF y(2)] y(3) by (meson rtrancl_trans)
    qed simp
  qed
  have scc: "y \<in> set c \<longleftrightarrow> (x, y) \<in> (edges g)\<^sup>* \<and> (y, x) \<in> (edges g)\<^sup>*" if x: "x \<in> set c" for x y
  proof
    assume "y \<in> set c"
    then show "(x, y) \<in> (edges g)\<^sup>* \<and> (y, x) \<in> (edges g)\<^sup>*" using x from_v to_v by (meson rtrancl_trans)
  next
    assume both: "(x, y) \<in> (edges g)\<^sup>* \<and> (y, x) \<in> (edges g)\<^sup>*"
    have "x \<notin> settled st" using x split(2) by (simp add: settled_def)
    then have "y \<notin> settled st" using closed_reaches [OF closed_settled] both by blast
    moreover have "y \<in> settled st \<union> set c" using closed_reaches [OF closed] both x by blast
    ultimately show "y \<in> set c" by blast
  qed
  have alone: "set c = {v}" if "\<not> length c > 1"
    using that v_in by (cases c) auto
  have circular: "(x, x) \<in> (edges g)\<^sup>+" if "length c > 1 \<or> v \<in> succs g v" "x \<in> set c" for x
  proof (cases "length c > 1")
    case True
    have "c \<noteq> [x]" using True by auto
    then have "\<exists>y \<in> set c. y \<noteq> x" using dist that(2) by (cases c; cases "tl c") auto
    then obtain y where y: "y \<in> set c" "y \<noteq> x" by blast
    have "(x, y) \<in> (edges g)\<^sup>+" using scc [OF that(2), of y] y rtranclD [of x y "edges g"] by blast
    then show ?thesis using scc [OF that(2), of y] y(1) by (meson trancl_rtrancl_trancl)
  next
    case False
    then show ?thesis using that alone by (auto simp: edges_def)
  qed
  have straight: "(v, v) \<notin> (edges g)\<^sup>+" if "\<not> (length c > 1 \<or> v \<in> succs g v)"
  proof
    assume "(v, v) \<in> (edges g)\<^sup>+"
    then obtain z where z: "(v, z) \<in> edges g" "(z, v) \<in> (edges g)\<^sup>*" by (meson tranclD)
    then have "z \<in> settled st" using closed [of v] v_in alone that by (auto simp: edges_def)
    then have "v \<in> settled st" using closed_reaches [OF closed_settled z(2)] by blast
    then show False using v(1) by (simp add: settled_def)
  qed
  have "stack_ok ?st"
    using ok(1) sorted split(1) st dist idx
    by (auto simp: stack_ok_def sorted_wrt_append)
  moreover have "work_ok g ?st work"
  proof -
    have "if work = [] then b = [] else b \<noteq> [] \<and> last b = fst (last work)"
    proof (cases "work = []")
      case True
      then have "last (c @ b) = v" using ok(2) split(1) by (simp add: work_ok_def)
      then have "b = []" using dist v_in by (cases "b = []") auto
      then show ?thesis using True by simp
    next
      case False
      then have "fst (last work) \<in> set b" using path(1) by simp
      then have "b \<noteq> []" by auto
      moreover have "last (c @ b) = fst (last work)" using False ok(2) split(1) by (simp add: work_ok_def)
      ultimately show ?thesis using False by simp
    qed
    moreover have "fst ` set work \<subseteq> set b" using path(1) by blast
    moreover have "\<forall>x \<in> set b - fst ` set work. succs g x \<subseteq> seen st"
      using ok(2) split(3) by (auto simp: work_ok_def)
    ultimately show ?thesis
      using ok(2) closed by (simp add: work_ok_def st idx settled)
  qed
  moreover have "reach_ok g ?st work"
    unfolding reach_ok_def st idx
  proof (intro conjI ballI impI)
    fix x y assume "x \<in> fst ` set work" "y \<in> set b" "idx st x \<le> idx st y"
    then have "x \<in> fst ` set ((v, []) # work)" "y \<in> on_stack st" "idx st x \<le> idx st y"
      using split(3) by auto
    then show "(x, y) \<in> (edges g)\<^sup>*" using ok(3) unfolding reach_ok_def by blast
  next
    fix x assume x: "x \<in> set b - fst ` set work"
    then have "x \<in> on_stack st - fst ` set ((v, []) # work)" using split(3) by auto
    then obtain y where "y \<in> on_stack st" "idx st y < idx st x" "(x, y) \<in> (edges g)\<^sup>*"
      using ok(3) unfolding reach_ok_def by blast
    then show "\<exists>y \<in> set b. idx st y < idx st x \<and> (x, y) \<in> (edges g)\<^sup>*"
      using x split(3) by (intro bexI [of _ y]) auto
  next
    fix x assume x: "x \<in> fst ` set work"
    then have "x \<in> fst ` set ((v, []) # work)" by simp
    then obtain y where y: "tj_lowlink st x \<le> idx st x" "y \<in> on_stack st" "idx st y = tj_lowlink st x"
        "(x, y) \<in> (edges g)\<^sup>*"
      using ok(3) unfolding reach_ok_def by blast
    then show "\<exists>y \<in> set b. idx st y = tj_lowlink st x \<and> (x, y) \<in> (edges g)\<^sup>*"
      using path(2) [OF x] split(3) by (intro bexI [of _ y]) auto
    show "tj_lowlink st x \<le> idx st x" by (fact y(1))
  qed
  moreover have "segments_ok g ?st (tj_counter ?st) work"
  proof -
    have shrink: "segments_ok g st k ws \<Longrightarrow> segments_ok g ?st k ws" for k ws
      using split(3) by (induction ws arbitrary: k) (auto simp: bounds_def st idx)
    have "segments_ok g ?st (idx st v) work" using ok(4) shrink by simp
    then show ?thesis using split(3) by (cases work) (auto simp: bounds_def st idx)
  qed
  moreover have "cycles_ok g ?st"
  proof -
    have old: "set (concat (tj_cycles st)) \<subseteq> settled st" "distinct (concat (tj_cycles st))"
      using ok(5) by (simp_all add: cycles_ok_def)
    have "set c \<inter> settled st = {}" using split(2) by (auto simp: settled_def)
    then have "distinct (concat (tj_cycles ?st)) \<and> set (concat (tj_cycles ?st)) \<subseteq> settled ?st"
      using old dist by (auto simp: st settled)
    moreover have "\<forall>d \<in> set (tj_cycles ?st). \<forall>x \<in> set d. \<forall>y.
        y \<in> set d \<longleftrightarrow> (x, y) \<in> (edges g)\<^sup>* \<and> (y, x) \<in> (edges g)\<^sup>*"
    proof (intro ballI allI)
      fix d x y assume d: "d \<in> set (tj_cycles ?st)" "x \<in> set d"
      show "y \<in> set d \<longleftrightarrow> (x, y) \<in> (edges g)\<^sup>* \<and> (y, x) \<in> (edges g)\<^sup>*"
      proof (cases "d \<in> set (tj_cycles st)")
        case True
        then show ?thesis using ok(5) d(2) unfolding cycles_ok_def by blast
      next
        case False
        then have "d = c" using d(1) by (auto simp: st split: if_splits)
        then show ?thesis using scc d(2) by blast
      qed
    qed
    moreover have "\<forall>d \<in> set (tj_cycles ?st). \<forall>x \<in> set d. (x, x) \<in> (edges g)\<^sup>+"
      using ok(5) circular unfolding cycles_ok_def st by (auto split: if_splits)
    moreover have "x \<in> set (concat (tj_cycles ?st))" if x: "x \<in> settled ?st" "(x, x) \<in> (edges g)\<^sup>+" for x
    proof (cases "x \<in> settled st")
      case True
      then show ?thesis using ok(5) x(2) by (simp add: cycles_ok_def st)
    next
      case False
      then have c: "x \<in> set c" using x(1) settled by blast
      then have "length c > 1 \<or> v \<in> succs g v" using straight alone x(2) by (metis singletonD)
      then show ?thesis using c by (simp add: st)
    qed
    moreover have "[] \<notin> set (tj_cycles ?st)" using ok(5) v_in by (auto simp: cycles_ok_def st split: if_splits)
    ultimately show ?thesis unfolding cycles_ok_def by blast
  qed
  ultimately show ?thesis by (simp add: search_ok_def)
qed

section \<open>The whole search\<close>

lemma search_ok_leave:
  assumes "search_ok g st ((v, []) # work)"
  shows "search_ok g (leave g v (lowered v st work)) work"
proof (cases "tj_lowlink (lowered v st work) v = idx (lowered v st work) v")
  case True
  show ?thesis by (rule search_ok_pop [OF search_ok_lowered(1) [OF assms] True])
next
  case False
  have "v \<in> seen (lowered v st work)"
    using search_ok_lowered(1) [OF assms] by (auto simp: search_ok_def work_ok_def stack_ok_def)
  then have "leave g v (lowered v st work) = lowered v st work"
    using False by (auto simp: leave_def idx_def)
  moreover have "search_ok g (lowered v st work) work"
    by (rule search_ok_join [OF search_ok_lowered(1) [OF assms] False search_ok_lowered(2) [OF assms]])
  ultimately show ?thesis by simp
qed

lemma search_ok_explore: "search_ok g st work \<Longrightarrow> search_ok g (explore g st work) []"
proof (induction g st work rule: explore.induct)
  case (2 g st node dep neighbors work)
  consider "tj_indices st dep = None" | i where "tj_indices st dep = Some i" by (cases "tj_indices st dep") auto
  then show ?case
  proof cases
    case 1
    then show ?thesis using "2.IH"(1) "2.prems" search_ok_enter [of g st node dep neighbors work] by simp
  next
    case (2 i)
    then show ?thesis
      using "2.IH"(2,3) "2.prems" search_ok_back [of g st node dep neighbors work i]
        search_ok_skip [of g st node dep neighbors work] by simp
  qed
next
  case (3 g st node work)
  then show ?case using search_ok_leave [of g st node work] by (simp add: lowered_def)
qed simp

lemma explore_seen: "seen st \<subseteq> seen (explore g st work)"
proof (induction g st work rule: explore.induct)
  case (3 g st node work)
  have "seen (leave g node (case work of [] \<Rightarrow> st | (up, _) # _ \<Rightarrow> lower up (tj_lowlink st node) st)) = seen st"
    by (auto simp: leave_def split: list.splits prod.splits)
  then show ?case using 3 by simp
next
  case (2 g st node dep neighbors work)
  show ?case
  proof (cases "tj_indices st dep = None")
    case True
    have "seen st \<subseteq> seen (enter dep st)" by auto
    then show ?thesis using "2.IH"(1) [OF True] True by (simp only: explore.simps(2) if_True refl)
  next
    case False
    then obtain i where "tj_indices st dep = Some i" by blast
    then show ?thesis using "2.IH"(2,3) by (cases "dep \<in> tj_on_stack st") simp_all
  qed
qed simp

lemma search_ok_start: "search_ok g tarjan_start []"
  by (simp add: search_ok_def stack_ok_def work_ok_def reach_ok_def cycles_ok_def tarjan_start_def settled_def)

lemma search_ok_all:
  "search_ok g st [] \<Longrightarrow>
     search_ok g (fold (explore_from g) xs st) [] \<and> set xs \<union> seen st \<subseteq> seen (fold (explore_from g) xs st)"
proof (induction xs arbitrary: st)
  case (Cons x xs)
  have "search_ok g (explore_from g x st) [] \<and> insert x (seen st) \<subseteq> seen (explore_from g x st)"
  proof (cases "tj_indices st x = None")
    case True
    have "insert x (seen st) \<subseteq> seen (explore g (enter x st) [(x, dict_values g x)])"
      using explore_seen [of "enter x st" g "[(x, dict_values g x)]"] by auto
    then show ?thesis
      using True search_ok_explore [OF search_ok_first [OF Cons.prems True]] by (simp add: explore_from_def)
  qed (use Cons.prems in \<open>auto simp: explore_from_def\<close>)
  then have "search_ok g (fold (explore_from g) xs (explore_from g x st)) []"
      "set xs \<union> seen (explore_from g x st) \<subseteq> seen (fold (explore_from g) xs (explore_from g x st))"
      "insert x (seen st) \<subseteq> seen (explore_from g x st)"
    using Cons.IH [of "explore_from g x st"] by blast+
  then show ?case unfolding fold_Cons comp_apply list.set(2) by blast
qed simp

lemma tarjan_cycles_ok: "cycles_ok g (fold (explore_from g) (map fst g) tarjan_start)"
  using search_ok_all [OF search_ok_start, of g "map fst g"] by (simp add: search_ok_def)

lemma tarjan_cycle:
  assumes "c \<in> set (find_cycles_tarjan g)"
  shows "c \<noteq> []" "x \<in> set c \<Longrightarrow> (x, x) \<in> (edges g)\<^sup>+"
    "x \<in> set c \<Longrightarrow> y \<in> set c \<longleftrightarrow> (x, y) \<in> (edges g)\<^sup>* \<and> (y, x) \<in> (edges g)\<^sup>*"
  using tarjan_cycles_ok [of g] assms unfolding cycles_ok_def find_cycles_tarjan_def by blast+

text \<open>
  The lists found are disjoint, and two nodes are in one of them exactly when each reaches the other
  by one step or more.
\<close>

theorem tarjan_components:
  "distinct (concat (find_cycles_tarjan g))"
  "(\<exists>c \<in> set (find_cycles_tarjan g). x \<in> set c \<and> y \<in> set c)
     \<longleftrightarrow> (x, y) \<in> (edges g)\<^sup>+ \<and> (y, x) \<in> (edges g)\<^sup>+"
proof -
  let ?st = "fold (explore_from g) (map fst g) tarjan_start"
  have all: "search_ok g ?st []" "set (map fst g) \<subseteq> seen ?st"
    using search_ok_all [OF search_ok_start, of g "map fst g"] by blast+
  then have cycles: "cycles_ok g ?st" and "tj_stack ?st = []" by (simp_all add: search_ok_def work_ok_def)
  then have settled: "set (map fst g) \<subseteq> settled ?st" using all(2) by (simp add: settled_def)
  show "distinct (concat (find_cycles_tarjan g))"
    using cycles by (simp add: cycles_ok_def find_cycles_tarjan_def)
  show "(\<exists>c \<in> set (find_cycles_tarjan g). x \<in> set c \<and> y \<in> set c)
     \<longleftrightarrow> (x, y) \<in> (edges g)\<^sup>+ \<and> (y, x) \<in> (edges g)\<^sup>+"
  proof
    assume "\<exists>c \<in> set (find_cycles_tarjan g). x \<in> set c \<and> y \<in> set c"
    then obtain c where c: "c \<in> set (tj_cycles ?st)" "x \<in> set c" "y \<in> set c"
      by (auto simp: find_cycles_tarjan_def)
    then have "(x, x) \<in> (edges g)\<^sup>+" "(x, y) \<in> (edges g)\<^sup>*" "(y, x) \<in> (edges g)\<^sup>*"
      using cycles unfolding cycles_ok_def by blast+
    then show "(x, y) \<in> (edges g)\<^sup>+ \<and> (y, x) \<in> (edges g)\<^sup>+"
      by (meson rtrancl_trancl_trancl trancl_rtrancl_trancl)
  next
    assume both: "(x, y) \<in> (edges g)\<^sup>+ \<and> (y, x) \<in> (edges g)\<^sup>+"
    then have loop: "(x, x) \<in> (edges g)\<^sup>+" by (meson trancl_trans)
    then obtain z where "(x, z) \<in> edges g" by (meson tranclD)
    then have "dict_values g x \<noteq> []" by (auto simp: edges_def succs_def)
    then have "x \<in> set (map fst g)"
      by (auto simp: dict_values_def split: option.splits dest: map_of_SomeD intro: rev_image_eqI)
    then have "x \<in> set (concat (tj_cycles ?st))" using settled cycles loop unfolding cycles_ok_def by blast
    then obtain c where c: "c \<in> set (tj_cycles ?st)" "x \<in> set c" by auto
    have "y \<in> set c" using cycles c both unfolding cycles_ok_def by (meson trancl_into_rtrancl)
    then show "\<exists>c \<in> set (find_cycles_tarjan g). x \<in> set c \<and> y \<in> set c"
      using c by (auto simp: find_cycles_tarjan_def)
  qed
qed

end
