(* ===== verification/Cycle_Paths.thy ===== *)
theory Cycle_Paths
  imports Strong_Components_Facts
begin

text \<open>
  A cycle along real edges inside a component (\<open>_find_actual_cycle_path\<close> of
  src/src/ici/analysis/cycles.py): a depth-first search with backtracking over the simple paths from
  a node.  The path and the set \<open>visiting\<close> are the nodes of the frames.
\<close>

section \<open>The search\<close>

text \<open>What is left to try: each neighbour in a frame, weighted by the paths that can still follow.\<close>

fun pending :: "nat \<Rightarrow> 'a list \<Rightarrow> ('a \<times> 'a list) list \<Rightarrow> nat" where
  "pending k scc [] = 0"
| "pending k scc ((node, rest) # frames) =
     length rest * k ^ card (set scc - set (node # map fst frames)) + 1 + pending k scc frames"

definition fan_out :: "'a graph \<Rightarrow> nat" where
  "fan_out g = sum_list (map (\<lambda>p. length (snd p)) g) + 2"

lemma fan_out_bound: "length (dict_values g x) + 2 \<le> fan_out g"
proof (cases "map_of g x")
  case (Some vs)
  then have "(x, vs) \<in> set g" by (rule map_of_SomeD)
  then have "length vs \<in> set (map (\<lambda>p. length (snd p)) g)" by force
  then show ?thesis using Some by (simp add: dict_values_def fan_out_def member_le_sum_list)
qed (simp add: dict_values_def fan_out_def)

lemma pending_descend:
  assumes "n \<in> set scc" "n \<notin> set (map fst ((node, ns) # frames))" "length ms + 2 \<le> k"
  shows "pending k scc ((n, ms) # (node, ns) # frames) < pending k scc ((node, n # ns) # frames)"
proof -
  let ?P = "set (map fst ((node, ns) # frames))"
  have "set scc - set (n # map fst ((node, ns) # frames)) = set scc - ?P - {n}" by auto
  moreover have "n \<in> set scc - ?P" using assms(1,2) by simp
  ultimately have card: "card (set scc - ?P) = Suc (card (set scc - set (n # map fst ((node, ns) # frames))))"
    by (metis card.remove finite_Diff finite_set)
  let ?f = "card (set scc - set (n # map fst ((node, ns) # frames)))"
  have pos: "1 \<le> k ^ ?f" using assms(3) by simp
  have "length ms * k ^ ?f + 2 * k ^ ?f \<le> k * k ^ ?f"
    using assms(3) by (metis mult_le_mono1 distrib_right)
  then have "length ms * k ^ ?f + 1 < k * k ^ ?f" using pos by linarith
  then show ?thesis using card by simp
qed

function close_path :: "'a graph \<Rightarrow> 'a \<Rightarrow> 'a list \<Rightarrow> ('a \<times> 'a list) list \<Rightarrow> 'a list option" where
  "close_path g start scc [] = None"
| "close_path g start scc ((node, n # ns) # frames) =
     (if n \<notin> set scc then close_path g start scc ((node, ns) # frames)
      else if n = start then Some (rev (map fst ((node, ns) # frames)))
      else if n \<in> set (map fst ((node, ns) # frames)) then close_path g start scc ((node, ns) # frames)
      else close_path g start scc ((n, dict_values g n) # (node, ns) # frames))"
| "close_path g start scc ((node, []) # frames) = close_path g start scc frames"
  by pat_completeness auto
termination
proof (relation "measure (\<lambda>(g, start, scc, frames). pending (fan_out g) scc frames)", goal_cases)
  case (4 g start scc node n ns frames)
  then show ?case using pending_descend [OF _ _ fan_out_bound, of n scc node ns frames g n] by simp
qed (auto simp: fan_out_def)

definition find_actual_cycle_path :: "('a \<Rightarrow> string) \<Rightarrow> 'a \<Rightarrow> 'a list \<Rightarrow> 'a graph \<Rightarrow> 'a list" where
  "find_actual_cycle_path str start scc g =
     (case close_path g start scc [(start, dict_values g start)] of
        Some path \<Rightarrow> path
      | None \<Rightarrow> sort_key str (remdups scc))"

section \<open>What it finds\<close>

definition frames_ok :: "'a graph \<Rightarrow> 'a \<Rightarrow> 'a list \<Rightarrow> ('a \<times> 'a list) list \<Rightarrow> bool" where
  "frames_ok g start scc frames \<longleftrightarrow>
     distinct (map fst frames) \<and> path_in (edges g) (rev (map fst frames))
     \<and> set (map fst frames) \<subseteq> insert start (set scc)
     \<and> (frames \<noteq> [] \<longrightarrow> fst (last frames) = start)
     \<and> (\<forall>(x, rest) \<in> set frames. set rest \<subseteq> succs g x)"

lemma close_path_sound:
  "close_path g start scc frames = Some c \<Longrightarrow> frames_ok g start scc frames \<Longrightarrow>
     distinct c \<and> cycle_in (edges g) c \<and> set c \<subseteq> insert start (set scc) \<and> hd c = start"
proof (induction g start scc frames rule: close_path.induct)
  case (2 g start scc node n ns frames)
  let ?frames = "(node, ns) # frames"
  have ok: "frames_ok g start scc ?frames" "(node, n) \<in> edges g"
    using "2.prems"(2) by (auto simp: frames_ok_def edges_def)
  consider "n \<notin> set scc" | "n \<in> set scc" "n = start"
    | "n \<in> set scc" "n \<noteq> start" "n \<in> set (map fst ?frames)"
    | "n \<in> set scc" "n \<noteq> start" "n \<notin> set (map fst ?frames)" by blast
  then show ?case
  proof cases
    case 1
    then show ?thesis using "2.IH"(1) "2.prems"(1) ok(1) by simp
  next
    case 2
    then have c: "c = rev (map fst ?frames)" using "2.prems"(1) by simp
    have "hd c = start"
      using ok(1) unfolding c frames_ok_def by (simp add: hd_rev last_map del: rev.simps list.map)
    moreover have "last c = node" unfolding c by simp
    ultimately show ?thesis using ok 2 c by (simp add: frames_ok_def cycle_in_def)
  next
    case 3
    then show ?thesis using "2.IH"(2) "2.prems"(1) ok(1) by simp
  next
    case 4
    have "frames_ok g start scc ((n, dict_values g n) # ?frames)"
      using ok 4 unfolding frames_ok_def by (auto simp: path_in_append succs_def)
    then show ?thesis using "2.IH"(3) "2.prems"(1) 4 by simp
  qed
next
  case (3 g start scc node frames)
  have "frames_ok g start scc frames"
    using "3.prems"(2) by (auto simp: frames_ok_def path_in_append split: if_splits)
  then show ?case using 3 by simp
qed simp

text \<open>A simple way from a neighbour back to the start that avoids the nodes of the path.\<close>

definition closes :: "'a graph \<Rightarrow> 'a \<Rightarrow> 'a list \<Rightarrow> 'a set \<Rightarrow> 'a list \<Rightarrow> bool" where
  "closes g start scc P way \<longleftrightarrow>
     way \<noteq> [] \<and> distinct way \<and> path_in (edges g) way \<and> set way \<subseteq> set scc \<and> set way \<inter> P = {}
     \<and> (last way, start) \<in> edges g"

definition dead_end :: "'a graph \<Rightarrow> 'a \<Rightarrow> 'a list \<Rightarrow> 'a set \<Rightarrow> 'a list \<Rightarrow> bool" where
  "dead_end g start scc P rest \<longleftrightarrow>
     (\<forall>n \<in> set rest. n \<in> set scc \<longrightarrow> n \<noteq> start \<and> (\<forall>way. closes g start scc P way \<longrightarrow> hd way \<noteq> n))"

fun dead_ends :: "'a graph \<Rightarrow> 'a \<Rightarrow> 'a list \<Rightarrow> ('a \<times> 'a list) list \<Rightarrow> bool" where
  "dead_ends g start scc [] = True"
| "dead_ends g start scc ((node, rest) # frames) =
     (dead_end g start scc (set (map fst ((node, rest) # frames))) rest \<and> dead_ends g start scc frames)"

lemma dead_end_descend:
  assumes "dead_end g start scc (insert n P) (dict_values g n)" "n \<notin> P" "n \<noteq> start" "start \<in> set scc"
  shows "closes g start scc P way \<Longrightarrow> hd way \<noteq> n"
proof
  assume way: "closes g start scc P way" and hd: "hd way = n"
  then obtain more where m: "way = n # more" by (cases way) (auto simp: closes_def)
  show False
  proof (cases more)
    case Nil
    then have "start \<in> set (dict_values g n)" using way m by (simp add: closes_def edges_def succs_def)
    then show False using assms(1,4) by (auto simp: dead_end_def)
  next
    case (Cons k ks)
    then have "closes g start scc (insert n P) more" "k \<in> set scc" "k \<in> set (dict_values g n)"
      using way m by (auto simp: closes_def edges_def succs_def)
    then show False using assms(1) Cons unfolding dead_end_def by (metis list.sel(1))
  qed
qed

lemma close_path_complete:
  "close_path g start scc frames = None \<Longrightarrow> start \<in> set scc \<Longrightarrow> dead_ends g start scc frames"
proof (induction g start scc frames rule: close_path.induct)
  case (2 g start scc node n ns frames)
  let ?frames = "(node, ns) # frames"
  let ?P = "set (map fst ?frames)"
  consider "n \<notin> set scc" | "n \<in> set scc" "n = start"
    | "n \<in> set scc" "n \<noteq> start" "n \<in> ?P" | "n \<in> set scc" "n \<noteq> start" "n \<notin> ?P" by blast
  then show ?case
  proof cases
    case 1
    then have "dead_ends g start scc ?frames" using "2.IH"(1) "2.prems" by simp
    then show ?thesis using 1 by (simp add: dead_end_def)
  next
    case 2
    then show ?thesis using "2.prems"(1) by simp
  next
    case 3
    then have rest: "dead_ends g start scc ?frames" using "2.IH"(2) "2.prems" by simp
    have "hd way \<noteq> n" if "closes g start scc ?P way" for way
      using that 3(3) by (cases way) (auto simp: closes_def)
    then show ?thesis using rest 3(2) by (simp add: dead_end_def)
  next
    case 4
    then have rest: "dead_ends g start scc ((n, dict_values g n) # ?frames)"
      using "2.IH"(3) "2.prems" by simp
    then have "dead_end g start scc (insert n ?P) (dict_values g n)" by simp
    then have "hd way \<noteq> n" if "closes g start scc ?P way" for way
      using dead_end_descend [OF _ 4(3,2) "2.prems"(2)] that by blast
    then show ?thesis using rest 4(2) by (simp add: dead_end_def)
  qed
qed (simp_all add: dead_end_def)

text \<open>In a strongly connected component every way back can be made simple.\<close>

definition component_of :: "'a graph \<Rightarrow> 'a list \<Rightarrow> bool" where
  "component_of g scc \<longleftrightarrow>
     (\<forall>x \<in> set scc. \<forall>y. y \<in> set scc \<longleftrightarrow> (x, y) \<in> (edges g)\<^sup>* \<and> (y, x) \<in> (edges g)\<^sup>*)"

lemma component_member:
  "component_of g scc \<Longrightarrow> x \<in> set scc \<Longrightarrow> (x, y) \<in> (edges g)\<^sup>* \<Longrightarrow> (y, x) \<in> (edges g)\<^sup>* \<Longrightarrow> y \<in> set scc"
  unfolding component_of_def by blast

lemma way_back:
  assumes "component_of g scc" "start \<in> set scc"
  shows "(x, start) \<in> (edges g)\<^sup>* \<Longrightarrow> (start, x) \<in> (edges g)\<^sup>* \<Longrightarrow> x \<noteq> start \<Longrightarrow>
    \<exists>way. closes g start scc {start} way \<and> hd way = x"
proof (induction rule: converse_rtrancl_induct)
  case (step x z)
  have x: "x \<in> set scc"
    using component_member [OF assms step.prems(1)] step.hyps converse_rtrancl_into_rtrancl by metis
  show ?case
  proof (cases "z = start")
    case True
    then have "closes g start scc {start} [x]" using step.hyps(1) step.prems(2) x by (simp add: closes_def)
    then show ?thesis by force
  next
    case False
    have "(start, z) \<in> (edges g)\<^sup>*" using step.prems(1) step.hyps(1) by simp
    then obtain way where way: "closes g start scc {start} way" "hd way = z" using step.IH False by blast
    show ?thesis
    proof (cases "x \<in> set way")
      case True
      let ?way = "dropWhile (\<lambda>y. y \<noteq> x) way"
      have ne: "?way \<noteq> []" using True by (simp add: dropWhile_eq_Nil_conv)
      then have "hd ?way = x" using hd_dropWhile [of "\<lambda>y. y \<noteq> x" way] by blast
      moreover have "last ?way = last way" using ne by (metis last_appendR takeWhile_dropWhile_id)
      ultimately have "closes g start scc {start} ?way"
        using way(1) ne by (auto simp: closes_def path_in_dropWhile dest: set_dropWhileD)
      then show ?thesis using \<open>hd ?way = x\<close> by blast
    next
      case False
      then have "closes g start scc {start} (x # way)"
        using way step.hyps(1) step.prems(2) x by (cases way) (auto simp: closes_def)
      then show ?thesis by force
    qed
  qed
qed simp

theorem cycle_path_found:
  assumes "component_of g scc" "start \<in> set scc" "(start, start) \<in> (edges g)\<^sup>+"
  shows "distinct (find_actual_cycle_path str start scc g)
    \<and> cycle_in (edges g) (find_actual_cycle_path str start scc g)
    \<and> set (find_actual_cycle_path str start scc g) \<subseteq> set scc \<and> hd (find_actual_cycle_path str start scc g) = start"
proof -
  let ?frames = "[(start, dict_values g start)]"
  have "close_path g start scc ?frames \<noteq> None"
  proof
    assume "close_path g start scc ?frames = None"
    then have dead: "dead_end g start scc {start} (dict_values g start)"
      using close_path_complete [OF _ assms(2), of g ?frames] by simp
    obtain n where n: "(start, n) \<in> edges g" "(n, start) \<in> (edges g)\<^sup>*" using assms(3) by (meson tranclD)
    have "n \<in> set scc" using component_member [OF assms(1,2)] n by blast
    moreover have "n \<in> set (dict_values g start)" using n(1) by (simp add: edges_def succs_def)
    ultimately have "n \<noteq> start" "\<not> (\<exists>way. closes g start scc {start} way \<and> hd way = n)"
      using dead unfolding dead_end_def by blast+
    then show False using way_back [OF assms(1,2) n(2)] n(1) by blast
  qed
  then obtain c where c: "close_path g start scc ?frames = Some c" by blast
  have "frames_ok g start scc ?frames" by (simp add: frames_ok_def succs_def)
  then show ?thesis
    using close_path_sound [OF c] c assms(2) by (simp add: find_actual_cycle_path_def insert_absorb)
qed

end
