(* ===== verification/Cycle_Check.thy ===== *)
theory Cycle_Check
  imports Import_Graph Cycle_Paths Observations
begin

text \<open>
  The cycle check of a component (src/src/ici/languages/cycles.py) and the targets of the earlier
  engine (src/src/ici/analysis/cycles.py).  \<open>iter\<close> is the order in which the interpreter iterates
  over a set of successors.
\<close>

section \<open>The check\<close>

record cycle_request =
  cy_language :: string
  cy_root :: pure_path
  cy_files :: "pure_path list"
  cy_task_id :: string
  cy_component_id :: string

definition CYCLES_PROVIDER :: string where
  "CYCLES_PROVIDER = ''ici.cycles''"

definition relative_text :: "pure_path \<Rightarrow> pure_path \<Rightarrow> string" where
  "relative_text p base = (case relative_to p base of Some r \<Rightarrow> path_text r | None \<Rightarrow> path_text p)"

definition cycle_fingerprint :: "(string \<Rightarrow> string) \<Rightarrow> string \<Rightarrow> string list \<Rightarrow> string" where
  "cycle_fingerprint sha1 language members =
     ''cycle-'' @ take 16 (sha1 (language @ '':'' @ join '':'' members))"

definition cycle_span :: "pure_path \<Rightarrow> pure_path \<Rightarrow> source_span result" where
  "cycle_span base p = SourceSpan_init (PStr (relative_text p base)) (PInt 1) PNone PNone PNone (PStr [])"

definition cycle_finding ::
    "cycle_request \<Rightarrow> string \<Rightarrow> string \<Rightarrow> string \<Rightarrow> string \<Rightarrow> source_span list \<Rightarrow> evidence_level
     \<Rightarrow> finding result" where
  "cycle_finding rq fingerprint rule message confidence spans evidence =
     Finding_init (PStr fingerprint) (PStr rule) (PStr message) (PStr ''medium'') (PStr confidence)
       (hd spans) (PStr CYCLES_PROVIDER) (PStr []) (PStr []) (PStr []) (PTuple []) (tl spans)
       (if cy_component_id rq = [] then PNone else PStr (cy_component_id rq)) PNone PNone
       (PStr (cy_task_id rq)) evidence no_suppression (PTuple [])"

definition ordered :: "('a list \<Rightarrow> 'a list) \<Rightarrow> 'a graph \<Rightarrow> 'a graph" where
  "ordered iter g = map (\<lambda>(n, vs). (n, iter vs)) g"

definition import_chain :: "string list \<Rightarrow> string" where
  "import_chain members = join '' -> '' (members @ take 1 members)"

text \<open>The loop over the components; one without a file is passed over.\<close>

fun python_cycle_findings ::
    "(string \<Rightarrow> string) \<Rightarrow> cycle_request \<Rightarrow> (string \<times> pure_path) list \<Rightarrow> string list list
     \<Rightarrow> finding list result" where
  "python_cycle_findings sha1 rq modules [] = Inr []"
| "python_cycle_findings sha1 rq modules (members # others) =
     bindr (mapr (cycle_span (cy_root rq)) (List.map_filter (map_of modules) members)) (\<lambda>spans.
     if spans = [] then python_cycle_findings sha1 rq modules others
     else
       bindr (cycle_finding rq (cycle_fingerprint sha1 (cy_language rq) members) ''cycle.import''
                (''import cycle: '' @ import_chain members) ''high'' spans MEASURED) (\<lambda>f.
       bindr (python_cycle_findings sha1 rq modules others) (\<lambda>fs. Inr (f # fs))))"

definition cycles_observation ::
    "cycle_request \<Rightarrow> finding list \<Rightarrow> evidence_level \<Rightarrow> string list \<Rightarrow> observation result" where
  "cycles_observation rq findings evidence limitations =
     bindr (Measurement_init (PStr ''cycles_found'') (PInt (int (length findings))) (PStr ''cycles'')
              PNone PNone evidence) (\<lambda>m.
     Observation_init (PStr (cy_task_id rq)) (PStr CYCLES_PROVIDER) SUCCEEDED findings [m] PNone PNone
       (PBool False) (PBool False) PNone (PTuple []) (strs limitations))"

definition measure_python ::
    "(string list \<Rightarrow> string list) \<Rightarrow> (string \<Rightarrow> bool) \<Rightarrow> (pure_path \<Rightarrow> ast_node list result)
     \<Rightarrow> (string \<Rightarrow> string) \<Rightarrow> cycle_request \<Rightarrow> observation result" where
  "measure_python iter stdlib parse sha1 rq =
     bindr (build_python_graph stdlib parse [cy_root rq] (cy_files rq)) (\<lambda>(g, modules).
     bindr (python_cycle_findings sha1 rq modules (find_cycles_tarjan (ordered iter g))) (\<lambda>fs.
     cycles_observation rq fs MEASURED []))"

fun cpp_cycle_findings ::
    "(string \<Rightarrow> string) \<Rightarrow> cycle_request \<Rightarrow> pure_path list list \<Rightarrow> finding list result" where
  "cpp_cycle_findings sha1 rq [] = Inr []"
| "cpp_cycle_findings sha1 rq (members # others) =
     bindr (mapr (cycle_span (cy_root rq)) members) (\<lambda>spans.
     bindr (cycle_finding rq (cycle_fingerprint sha1 (cy_language rq) (map path_text members))
              ''cycle.include''
              (''include cycle: '' @ join '' -> ''
                 (map (\<lambda>p. relative_text p (cy_root rq)) (members @ [hd members])))
              ''low'' spans ESTIMATED) (\<lambda>f.
     bindr (cpp_cycle_findings sha1 rq others) (\<lambda>fs. Inr (f # fs))))"

definition heuristic_limitation :: string where
  "heuristic_limitation = ''include resolution is a path-suffix heuristic '' @ em_dash
     @ '' compiler search order and generated headers are not modelled''"

definition diagnostic_limitation :: "(string \<Rightarrow> bool) \<Rightarrow> pure_path \<Rightarrow> include_diagnostic \<Rightarrow> string" where
  "diagnostic_limitation printable base d =
     diagnostic_kind d @ '' include '' @ repr_str printable (di_include d) @ '' at ''
     @ relative_text (di_source d) base @ '':'' @ show_nat (di_line d)"

definition measure_cpp ::
    "(pure_path list \<Rightarrow> pure_path list) \<Rightarrow> (string \<Rightarrow> bool) \<Rightarrow> (pure_path \<Rightarrow> pure_path)
     \<Rightarrow> (pure_path \<Rightarrow> string option) \<Rightarrow> (string \<Rightarrow> string) \<Rightarrow> cycle_request \<Rightarrow> observation result" where
  "measure_cpp iter printable resolve read sha1 rq =
     (let cg = build_cpp_graph resolve read (cy_files rq) in
      bindr (cpp_cycle_findings sha1 rq (find_cycles_tarjan (ordered iter (cg_graph cg)))) (\<lambda>fs.
      cycles_observation rq fs ESTIMATED
        (heuristic_limitation # map (diagnostic_limitation printable (cy_root rq)) (cg_diagnostics cg))))"

definition measure_cycles ::
    "(string list \<Rightarrow> string list) \<Rightarrow> (pure_path list \<Rightarrow> pure_path list) \<Rightarrow> (string \<Rightarrow> bool)
     \<Rightarrow> (pure_path \<Rightarrow> ast_node list result) \<Rightarrow> (string \<Rightarrow> bool) \<Rightarrow> (pure_path \<Rightarrow> pure_path)
     \<Rightarrow> (pure_path \<Rightarrow> string option) \<Rightarrow> (string \<Rightarrow> string) \<Rightarrow> cycle_request \<Rightarrow> observation result" where
  "measure_cycles iter_names iter_paths stdlib parse printable resolve read sha1 rq =
     (if cy_language rq = ''cpp'' then measure_cpp iter_paths printable resolve read sha1 rq
      else measure_python iter_names stdlib parse sha1 rq)"

section \<open>The earlier engine's targets\<close>

datatype engine_status = ENGINE_PASS | ENGINE_WARN | ENGINE_FAIL | ENGINE_ERROR | ENGINE_SKIP

record inspection_target =
  it_file_path :: string
  it_start_line :: nat
  it_target_name :: string
  it_status :: engine_status
  it_message :: string
  it_snippet :: string
  it_metrics :: "(string \<times> pyval) list"

definition str_list :: "string list \<Rightarrow> pyval" where
  "str_list ss = PList (map PStr ss)"

definition python_cycle_target ::
    "pure_path \<Rightarrow> (string \<times> string list) list \<Rightarrow> (string \<times> pure_path) list \<Rightarrow> string list
     \<Rightarrow> inspection_target option" where
  "python_cycle_target base g modules component =
     (let nodes = find_actual_cycle_path (\<lambda>m. m) (Min (set component)) component g in
      case map_of modules (hd nodes) of
        None \<Rightarrow> None
      | Some first_file \<Rightarrow>
          Some \<lparr>it_file_path = relative_text first_file base, it_start_line = 1,
            it_target_name = ''Cycle:'' @ show_nat (length nodes), it_status = ENGINE_WARN,
            it_message = ''Python import cycle ('' @ show_nat (length nodes) @ '' modules): ''
              @ join '' -> '' (nodes @ [hd nodes]),
            it_snippet = [], it_metrics = [(''modules'', str_list nodes)]\<rparr>)"

definition append_python_cycle_targets ::
    "pure_path \<Rightarrow> (string \<times> string list) list \<Rightarrow> (string \<times> pure_path) list \<Rightarrow> string list list
     \<Rightarrow> inspection_target list \<Rightarrow> nat \<Rightarrow> inspection_target list" where
  "append_python_cycle_targets base g modules cycles targets max_reported =
     targets @ List.map_filter (python_cycle_target base g modules) (take max_reported cycles)"

type_synonym cycle_entry = "pure_path list \<times> pure_path graph \<times> string list"

fun add_cycle_entry ::
    "string \<Rightarrow> pure_path graph \<Rightarrow> pure_path list \<Rightarrow> cycle_entry list \<Rightarrow> cycle_entry list" where
  "add_cycle_entry configuration g component [] = [(component, g, [configuration])]"
| "add_cycle_entry configuration g component ((c, h, configurations) # entries) =
     (if set c = set component
      then (c, h, if configuration \<in> set configurations then configurations
                  else configurations @ [configuration]) # entries
      else (c, h, configurations) # add_cycle_entry configuration g component entries)"

definition compiler_cycle_entries :: "(string \<times> pure_path graph) list \<Rightarrow> cycle_entry list" where
  "compiler_cycle_entries graphs =
     fold (\<lambda>(configuration, g) entries.
       fold (add_cycle_entry configuration g) (find_cycles_tarjan g) entries) graphs []"

definition first_by_text :: "pure_path list \<Rightarrow> pure_path" where
  "first_by_text ps = hd (sort_key path_text ps)"

definition file_name :: "pure_path \<Rightarrow> string" where
  "file_name p = (if path_names p = [] then [] else last (path_names p))"

definition cpp_cycle_target ::
    "pure_path \<Rightarrow> (pure_path \<times> pure_path) list \<Rightarrow> cycle_entry \<Rightarrow> inspection_target" where
  "cpp_cycle_target base known entry =
     (case entry of (component, g, configurations) \<Rightarrow>
      let files = find_actual_cycle_path path_text (first_by_text component) component g;
          first_file = (case map_of known (hd files) of Some f \<Rightarrow> f | None \<Rightarrow> hd files) in
      \<lparr>it_file_path = relative_text first_file base, it_start_line = 1,
       it_target_name = ''CppCycle:'' @ show_nat (length files), it_status = ENGINE_WARN,
       it_message = ''C++ include cycle ('' @ show_nat (length files) @ '' files): ''
         @ join '' -> '' (map file_name (files @ [hd files])),
       it_snippet = [],
       it_metrics = [(''files'', str_list (map path_text files)),
                     (''configurations'', str_list configurations)]\<rparr>)"

definition append_cpp_cycle_targets ::
    "pure_path \<Rightarrow> (pure_path \<times> pure_path) list \<Rightarrow> cycle_entry list \<Rightarrow> inspection_target list \<Rightarrow> nat
     \<Rightarrow> inspection_target list" where
  "append_cpp_cycle_targets base known entries targets max_reported =
     targets @ map (cpp_cycle_target base known) (take max_reported entries)"

definition ambiguous_message :: "string \<Rightarrow> nat \<Rightarrow> string" where
  "ambiguous_message name n =
     ''Quoted include '' @ [CHR 0x22] @ name @ [CHR 0x22] @ '' matches '' @ show_nat n
     @ '' project files; no dependency edge was guessed''"

definition unresolved_message :: "string \<Rightarrow> string" where
  "unresolved_message name =
     ''Quoted include '' @ [CHR 0x22] @ name @ [CHR 0x22]
     @ '' has no project-file match; it may be generated or supplied by compiler include paths''"

definition include_target :: "pure_path \<Rightarrow> include_diagnostic \<Rightarrow> inspection_target" where
  "include_target base d =
     (let candidates = map (\<lambda>c. relative_text c base) (di_candidates d);
          ambiguous = (diagnostic_kind d = ''ambiguous'') in
      \<lparr>it_file_path = relative_text (di_source d) base, it_start_line = di_line d,
       it_target_name = (if ambiguous then ''CppIncludeAmbiguous'' else ''CppIncludeUnresolved''),
       it_status = ENGINE_WARN,
       it_message = (if ambiguous then ambiguous_message (di_include d) (length candidates)
                     else unresolved_message (di_include d)),
       it_snippet = di_snippet d,
       it_metrics = [(''include'', PStr (di_include d)), (''candidates'', str_list candidates),
                     (''resolution'', PStr ''unique_project_path_suffix'')]\<rparr>)"

definition append_include_diagnostic_targets ::
    "pure_path \<Rightarrow> include_diagnostic list \<Rightarrow> inspection_target list \<Rightarrow> nat \<Rightarrow> inspection_target list" where
  "append_include_diagnostic_targets base diagnostics targets max_reported =
     targets @ map (include_target base) (take max_reported diagnostics)"

end
