(* ===== verification/Cycle_Properties.thy ===== *)
theory Cycle_Properties
  imports Cycle_Check
begin

text \<open>
  The cycles a component's check reports are the strongly connected parts of its import or include
  graph, whatever the order in which the sets of the graph are iterated over.
\<close>

section \<open>Graphs\<close>

lemma dict_values_set [simp]: "dict_values (dict_set k v g) x = (if x = k then v else dict_values g x)"
  by (simp add: dict_values_def)

lemma edges_dict_set: "edges (dict_set k vs g) = {(x, y) \<in> edges g. x \<noteq> k} \<union> {k} \<times> set vs"
  by (auto simp: edges_def succs_def split: if_splits)

lemma edges_add: "edges (add_edges k vs g) = edges g \<union> {k} \<times> set vs"
  by (auto simp: add_edges_def edges_dict_set) (auto simp: edges_def succs_def)

lemma dict_values_map: "f [] = [] \<Longrightarrow> dict_values (map (\<lambda>(n, vs). (n, f vs)) g) x = f (dict_values g x)"
  by (induction g) (auto simp: dict_values_def)

lemma edges_ordered:
  assumes "\<And>xs. set (iter xs) = set xs"
  shows "edges (ordered iter g) = edges g"
proof -
  have "iter [] = []" using assms [of "[]"] by simp
  then show ?thesis using assms by (simp add: edges_def succs_def ordered_def dict_values_map)
qed

lemma keys_ordered: "fst ` set (ordered iter g) = fst ` set g"
  by (force simp: ordered_def)

lemma edge_source: "(x, y) \<in> edges g \<Longrightarrow> x \<in> fst ` set g"
  using map_of_eq_None_iff [of g x] by (cases "map_of g x") (auto simp: edges_def succs_def dict_values_def)

section \<open>Python modules\<close>

lemma keys_add: "k \<in> fst ` set g \<Longrightarrow> fst ` set (add_edges k vs g) = fst ` set g"
  by (auto simp: add_edges_def)

lemma module_index_keys:
  "module_index dirs fs index = Inr index' \<Longrightarrow> snd ` set (fst index) \<subseteq> fst ` set (snd index) \<Longrightarrow>
     snd ` set (fst index') \<subseteq> fst ` set (snd index')"
proof (induction fs arbitrary: index)
  case (Cons f fs)
  have grow: "snd ` set (dict_set f m d) \<subseteq> insert m (snd ` set d)" for m and d :: "(pure_path \<times> string) list"
    by (induction f m d rule: dict_set.induct) auto
  from Cons.prems(1) obtain name where name: "python_module_name f dirs = Inr name"
    and rest: "module_index dirs fs
       (case name of
          Some m \<Rightarrow> if m = [] then index else (dict_set f m (fst index), dict_set m f (snd index))
        | None \<Rightarrow> index) = Inr index'"
    by (auto simp: bindr_Inr)
  show ?case
  proof (cases "\<exists>m. name = Some m \<and> m \<noteq> []")
    case True
    then obtain m where m: "name = Some m" "m \<noteq> []" by blast
    have "snd ` set (dict_set f m (fst index)) \<subseteq> fst ` set (dict_set m f (snd index))"
      using grow [of m "fst index"] Cons.prems(2) by auto
    then show ?thesis using Cons.IH [OF rest] m by simp
  next
    case False
    then show ?thesis using Cons.IH [OF rest] Cons.prems(2) by (cases name) auto
  qed
qed simp

lemma add_imports_keys:
  "add_imports stdlib parse index fs g = Inr g' \<Longrightarrow> snd ` set (fst index) \<subseteq> fst ` set g \<Longrightarrow>
     fst ` set g' = fst ` set g"
proof (induction fs arbitrary: g)
  case (Cons f fs)
  have keep: "k \<in> fst ` set g \<Longrightarrow> fst ` set (fold (\<lambda>t g. add_edges k (h t) g) ts g) = fst ` set g" for k h ts g
    by (induction ts arbitrary: g) (auto simp: keys_add)
  show ?case
  proof (cases "map_of (fst index) f")
    case None
    then show ?thesis using Cons by simp
  next
    case (Some importer)
    then have importer: "importer \<in> fst ` set g" using Cons.prems(2) by (force dest: map_of_SomeD)
    show ?thesis
    proof (cases "parse f")
      case (Inl e)
      then show ?thesis using Cons.IH [of g] Cons.prems Some by (simp split: if_splits)
    next
      case (Inr nodes)
      let ?g = "fold (\<lambda>t g. add_edges importer (resolved_import_targets stdlib t (snd index)) g)
          (imported_module_names nodes) g"
      have keys: "fst ` set ?g = fst ` set g" by (rule keep [OF importer])
      then have "snd ` set (fst index) \<subseteq> fst ` set ?g" using Cons.prems(2) by simp
      moreover have "add_imports stdlib parse index fs ?g = Inr g'"
        using Cons.prems(1) Some Inr by (simp only: add_imports.simps option.case sum.case)
      ultimately have "fst ` set g' = fst ` set ?g" by (rule Cons.IH [rotated])
      then show ?thesis using keys by simp
    qed
  qed
qed simp

lemma python_graph_keys:
  assumes "build_python_graph stdlib parse dirs fs = Inr (g, modules)"
  shows "fst ` set g = fst ` set modules"
proof -
  obtain index where "module_index dirs fs ([], []) = Inr index" "snd index = modules"
      "add_imports stdlib parse index fs (map (\<lambda>m. (fst m, [])) (snd index)) = Inr g"
    using assms by (auto simp: build_python_graph_def bindr_Inr)
  note index = this
  let ?start = "map (\<lambda>m. (fst m, [])) (snd index) :: (string \<times> string list) list"
  have start: "fst ` set ?start = fst ` set modules" using index(2) by (simp add: image_image)
  have "snd ` set (fst index) \<subseteq> fst ` set ?start"
    using module_index_keys [OF index(1)] start index(2) by simp
  then show ?thesis using add_imports_keys [OF index(3)] start by simp
qed

section \<open>What the check reports\<close>

definition reports_cycle ::
    "(string \<Rightarrow> string) \<Rightarrow> cycle_request \<Rightarrow> (string \<times> pure_path) list \<Rightarrow> string list \<Rightarrow> finding \<Rightarrow> bool" where
  "reports_cycle sha1 rq modules members f \<longleftrightarrow>
     f_rule_id f = ''cycle.import''
     \<and> f_fingerprint f = cycle_fingerprint sha1 (cy_language rq) members
     \<and> map sp_path (f_primary_location f # f_related_locations f)
       = map (\<lambda>m. relative_text (the (map_of modules m)) (cy_root rq)) members"

lemma spans_of_members:
  assumes "mapr (cycle_span base) (List.map_filter (map_of modules) members) = Inr spans"
    and "set members \<subseteq> fst ` set modules"
  shows "map sp_path spans = map (\<lambda>m. relative_text (the (map_of modules m)) base) members"
proof -
  have "List.map_filter (map_of modules) members = map (\<lambda>m. the (map_of modules m)) members"
    using assms(2) by (induction members) (auto simp: List.map_filter_def map_of_eq_None_iff)
  then have "list_all2 (\<lambda>m s. cycle_span base (the (map_of modules m)) = Inr s) members spans"
    using assms(1) by (simp add: mapr_map mapr_Inr)
  then show ?thesis
    by (induction rule: list_all2_induct) (auto simp: cycle_span_def SourceSpan_init_iff)
qed

lemma python_findings_report:
  "python_cycle_findings sha1 rq modules cs = Inr fs \<Longrightarrow>
     (\<forall>c \<in> set cs. c \<noteq> [] \<and> set c \<subseteq> fst ` set modules) \<Longrightarrow>
     list_all2 (reports_cycle sha1 rq modules) cs fs"
proof (induction cs arbitrary: fs)
  case (Cons c cs)
  from Cons.prems(1) obtain spans where
      spans: "mapr (cycle_span (cy_root rq)) (List.map_filter (map_of modules) c) = Inr spans"
    and rest: "(if spans = [] then python_cycle_findings sha1 rq modules cs
       else bindr (cycle_finding rq (cycle_fingerprint sha1 (cy_language rq) c) ''cycle.import''
                (''import cycle: '' @ import_chain c) ''high'' spans MEASURED) (\<lambda>f.
       bindr (python_cycle_findings sha1 rq modules cs) (\<lambda>fs. Inr (f # fs)))) = Inr fs"
    by (auto simp: bindr_Inr)
  have paths: "map sp_path spans = map (\<lambda>m. relative_text (the (map_of modules m)) (cy_root rq)) c"
    using spans_of_members [OF spans] Cons.prems(2) by simp
  then have "spans \<noteq> []" using Cons.prems(2) by auto
  then obtain f fs' where f: "cycle_finding rq (cycle_fingerprint sha1 (cy_language rq) c) ''cycle.import''
                (''import cycle: '' @ import_chain c) ''high'' spans MEASURED = Inr f"
      and fs: "python_cycle_findings sha1 rq modules cs = Inr fs'" "fs = f # fs'"
    using rest by (auto simp: bindr_Inr)
  have "reports_cycle sha1 rq modules c f"
    using f \<open>spans \<noteq> []\<close> paths
    by (cases spans) (auto simp: cycle_finding_def Finding_init_iff reports_cycle_def)
  then show ?case using Cons.IH [OF fs(1)] Cons.prems(2) fs(2) by simp
qed simp

text \<open>C14: The import cycles reported are exactly the cycles there are: the lists of modules behind the
  findings are disjoint, two modules are in one of them exactly when each imports the other directly
  or through others, and each list gives one finding that points to the files of its modules, in
  whatever order the sets of the graph are iterated over.\<close>

theorem import_cycles_exact:
  assumes "measure_python iter stdlib parse sha1 rq = Inr ob"
    and "build_python_graph stdlib parse [cy_root rq] (cy_files rq) = Inr (g, modules)"
    and "\<And>xs. set (iter xs) = set xs"
  shows "\<exists>cs. distinct (concat cs)
    \<and> (\<forall>x y. (\<exists>c \<in> set cs. x \<in> set c \<and> y \<in> set c) \<longleftrightarrow> (x, y) \<in> (edges g)\<^sup>+ \<and> (y, x) \<in> (edges g)\<^sup>+)
    \<and> list_all2 (reports_cycle sha1 rq modules) cs (ob_findings ob)"
proof -
  let ?cs = "find_cycles_tarjan (ordered iter g)"
  obtain fs where fs: "python_cycle_findings sha1 rq modules ?cs = Inr fs"
      and ob: "cycles_observation rq fs MEASURED [] = Inr ob"
    using assms(1,2) by (auto simp: measure_python_def bindr_Inr)
  have findings: "ob_findings ob = fs"
    using ob by (auto simp: cycles_observation_def bindr_Inr Observation_init_iff)
  have "c \<noteq> [] \<and> set c \<subseteq> fst ` set modules" if c: "c \<in> set ?cs" for c
  proof
    show "set c \<subseteq> fst ` set modules"
    proof
      fix x assume "x \<in> set c"
      then have "(x, x) \<in> (edges g)\<^sup>+" using tarjan_cycle(2) [OF c] edges_ordered [OF assms(3)] by metis
      then show "x \<in> fst ` set modules"
        using edge_source python_graph_keys [OF assms(2)] by (metis tranclD)
    qed
  qed (rule tarjan_cycle(1) [OF c])
  then have "list_all2 (reports_cycle sha1 rq modules) ?cs (ob_findings ob)"
    using python_findings_report [OF fs] findings by simp
  then show ?thesis
    using tarjan_components [of "ordered iter g"] edges_ordered [of iter g, OF assms(3)] by metis
qed

text \<open>The path along which a cycle is shown is one: in the earlier engine's targets the listed modules
  are distinct and each imports the next, the last one the first.\<close>

theorem shown_path_is_cycle:
  "list_all (\<lambda>t. \<exists>nodes. it_metrics t = [(''modules'', str_list nodes)] \<and> distinct nodes
       \<and> cycle_in (edges g) nodes)
     (append_python_cycle_targets base g modules (find_cycles_tarjan g) [] max_reported)"
proof (unfold list_all_iff, intro ballI)
  fix t assume "t \<in> set (append_python_cycle_targets base g modules (find_cycles_tarjan g) [] max_reported)"
  then obtain c where c: "c \<in> set (find_cycles_tarjan g)" "python_cycle_target base g modules c = Some t"
    by (auto simp: append_python_cycle_targets_def List.map_filter_def dest: in_set_takeD)
  let ?nodes = "find_actual_cycle_path (\<lambda>m. m) (Min (set c)) c g"
  have "Min (set c) \<in> set c" using tarjan_cycle(1) [OF c(1)] by simp
  then have "distinct ?nodes \<and> cycle_in (edges g) ?nodes"
    using cycle_path_found [of g c "Min (set c)" "\<lambda>m. m"] tarjan_cycle [OF c(1)]
    by (simp add: component_of_def)
  moreover have "it_metrics t = [(''modules'', str_list ?nodes)]"
    using c(2) by (auto simp: python_cycle_target_def Let_def split: option.splits)
  ultimately show "\<exists>nodes. it_metrics t = [(''modules'', str_list nodes)] \<and> distinct nodes
      \<and> cycle_in (edges g) nodes" by blast
qed

section \<open>Three modules in a circle\<close>

definition circle_file :: "string \<Rightarrow> pure_path" where
  "circle_file name = pure (''/w/'' @ name @ ''.py'')"

definition circle_imports :: "(string \<times> string list) list \<Rightarrow> pure_path \<Rightarrow> ast_node list result" where
  "circle_imports imports f =
     Inr [Import (dict_values (map (\<lambda>p. (circle_file (fst p), snd p)) imports) f)]"

definition circle_request :: "string list \<Rightarrow> cycle_request" where
  "circle_request names = \<lparr>cy_language = ''python'', cy_root = pure ''/w'',
     cy_files = map circle_file names, cy_task_id = ''t'', cy_component_id = []\<rparr>"

definition circle :: "(string \<times> string list) list" where
  "circle = [(''a'', [''b'']), (''b'', [''c'']), (''c'', [''a''])]"

definition measured_circle ::
    "(string list \<Rightarrow> string list) \<Rightarrow> (string \<times> string list) list \<Rightarrow> observation result" where
  "measured_circle iter imports =
     measure_python iter (\<lambda>m. False) (circle_imports imports) (\<lambda>t. t) (circle_request (map fst imports))"

lemma circle_graph:
  "build_python_graph (\<lambda>m. False) (circle_imports circle) [cy_root (circle_request (map fst circle))]
     (cy_files (circle_request (map fst circle)))
   = Inr (circle, map (\<lambda>p. (fst p, circle_file (fst p))) circle)"
  by code_simp

lemma circle_message:
  "case measured_circle (\<lambda>xs. xs) circle of
     Inl e \<Rightarrow> False
   | Inr ob \<Rightarrow> map f_message (ob_findings ob) = [''import cycle: c -> b -> a -> c'']"
  by code_simp

theorem import_cycles_exact_witness:
  "\<exists>ob cs. measured_circle (\<lambda>xs. xs) circle = Inr ob \<and> distinct (concat cs)
    \<and> (\<forall>x y. (\<exists>c \<in> set cs. x \<in> set c \<and> y \<in> set c) = ((x, y) \<in> (edges circle)\<^sup>+ \<and> (y, x) \<in> (edges circle)\<^sup>+))
    \<and> length cs = length (ob_findings ob)"
proof -
  obtain ob where ob: "measured_circle (\<lambda>xs. xs) circle = Inr ob"
    using circle_message by (auto split: sum.splits)
  from import_cycles_exact [OF ob [unfolded measured_circle_def] circle_graph refl] obtain cs
    where cs: "distinct (concat cs)"
      "\<forall>x y. (\<exists>c \<in> set cs. x \<in> set c \<and> y \<in> set c) = ((x, y) \<in> (edges circle)\<^sup>+ \<and> (y, x) \<in> (edges circle)\<^sup>+)"
      "list_all2 (reports_cycle (\<lambda>t. t) (circle_request (map fst circle))
         (map (\<lambda>p. (fst p, circle_file (fst p))) circle)) cs (ob_findings ob)"
    by blast
  have "length cs = length (ob_findings ob)" using cs(3) by (rule list_all2_lengthD)
  then show ?thesis using ob cs(1,2) by blast
qed


definition triangle :: "(string \<times> string list) list" where
  "triangle = [(''a'', [''b'', ''c'']), (''b'', [''a'']), (''c'', [''a''])]"

text \<open>The identity of a cycle depends on the order in which a set is iterated over, which Python does
  not fix from one run to the next for strings: the same three modules give two fingerprints.\<close>

theorem cycle_fingerprint_unstable:
  "map (cycle_fingerprint (\<lambda>t. t) ''python'') (find_cycles_tarjan (ordered (\<lambda>xs. xs) triangle))
     = [''cycle-python:c:b:a'']
   \<and> map (cycle_fingerprint (\<lambda>t. t) ''python'') (find_cycles_tarjan (ordered rev triangle))
     = [''cycle-python:b:c:a'']"
  by code_simp

section \<open>C++ includes\<close>

definition includes_of :: "(pure_path \<Rightarrow> string option) \<Rightarrow> pure_path \<Rightarrow> (string \<times> string \<times> string \<times> string) list" where
  "includes_of read f = (case read f of None \<Rightarrow> [] | Some content \<Rightarrow> find_includes [] content)"

text \<open>The edges the includes of a file stand for: the name must fit exactly one of the files.\<close>

definition include_edge ::
    "(pure_path \<Rightarrow> pure_path) \<Rightarrow> pure_path list \<Rightarrow> pure_path \<Rightarrow> string \<times> string \<times> string \<times> string
     \<Rightarrow> (pure_path \<times> pure_path) set" where
  "include_edge resolve files f m =
     (case matching_includes (fst (snd m)) files of
        [t] \<Rightarrow> if resolve t \<noteq> resolve f then {(resolve f, resolve t)} else {}
      | _ \<Rightarrow> {})"

definition include_edges ::
    "(pure_path \<Rightarrow> pure_path) \<Rightarrow> pure_path list \<Rightarrow> pure_path \<Rightarrow> (string \<times> string \<times> string \<times> string) list
     \<Rightarrow> (pure_path \<times> pure_path) set" where
  "include_edges resolve files f ms = (\<Union>m \<in> set ms. include_edge resolve files f m)"

lemma add_include_edges:
  "edges (cg_graph (add_include resolve files f m cg)) = edges (cg_graph cg) \<union> include_edge resolve files f m"
  by (auto simp: add_include_def include_edge_def resolve_include_def edges_add split: list.splits)

lemma fold_include_edges:
  "edges (cg_graph (fold (add_include resolve files f) ms cg))
     = edges (cg_graph cg) \<union> include_edges resolve files f ms"
  by (induction ms arbitrary: cg) (simp_all add: add_include_edges include_edges_def Un_assoc)

lemma include_edge_source: "fst ` include_edge resolve files f m \<subseteq> {resolve f}"
  by (auto simp: include_edge_def split: list.splits if_splits)

lemma add_cpp_file_edges:
  "edges (cg_graph (add_cpp_file resolve read files f cg))
     = {(x, y) \<in> edges (cg_graph cg). x \<noteq> resolve f} \<union> include_edges resolve files f (includes_of read f)"
  by (cases "read f")
    (simp_all add: add_cpp_file_def Let_def includes_of_def fold_include_edges edges_dict_set include_edges_def)

lemma disjoint_union_singleton: "C \<subseteq> {x} \<Longrightarrow> x \<notin> A \<Longrightarrow> A \<inter> B = {} \<Longrightarrow> A \<inter> (B \<union> C) = {}"
  by blast

lemma cpp_graph_edges:
  "distinct (map resolve fs) \<Longrightarrow> resolve ` set fs \<inter> fst ` edges (cg_graph cg) = {} \<Longrightarrow>
     edges (cg_graph (fold (add_cpp_file resolve read files) fs cg))
       = edges (cg_graph cg) \<union> (\<Union>f \<in> set fs. include_edges resolve files f (includes_of read f))"
proof (induction fs arbitrary: cg)
  case (Cons f fs)
  let ?cg = "add_cpp_file resolve read files f cg"
  have "{(x, y) \<in> edges (cg_graph cg). x \<noteq> resolve f} = edges (cg_graph cg)"
    using Cons.prems(2) by force
  then have edges: "edges (cg_graph ?cg) = edges (cg_graph cg) \<union> include_edges resolve files f (includes_of read f)"
    by (simp add: add_cpp_file_edges)
  have "fst ` include_edges resolve files f (includes_of read f) \<subseteq> {resolve f}"
    using include_edge_source [of resolve files f] by (fastforce simp: include_edges_def)
  moreover have "resolve f \<notin> resolve ` set fs" using Cons.prems(1) by simp
  moreover have "resolve ` set fs \<inter> fst ` edges (cg_graph cg) = {}"
    using Cons.prems(2) by (simp only: list.set image_insert Int_insert_left split: if_splits) simp
  ultimately have "resolve ` set fs \<inter> fst ` edges (cg_graph ?cg) = {}"
    unfolding edges image_Un by (rule disjoint_union_singleton)
  with Cons.prems(1) have "edges (cg_graph (fold (add_cpp_file resolve read files) fs ?cg))
      = edges (cg_graph ?cg) \<union> (\<Union>f \<in> set fs. include_edges resolve files f (includes_of read f))"
    by (intro Cons.IH) simp_all
  then show ?case by (simp add: edges Un_assoc)
qed simp

lemma fold_include_counts:
  "length (cg_diagnostics (fold (add_include resolve files f) ms cg)) + cg_resolved (fold (add_include resolve files f) ms cg)
     = length (cg_diagnostics cg) + cg_resolved cg + length ms"
  by (induction ms arbitrary: cg) (auto simp: add_include_def split: option.splits)

lemma cpp_graph_counts:
  "length (cg_diagnostics (fold (add_cpp_file resolve read files) fs cg))
     + cg_resolved (fold (add_cpp_file resolve read files) fs cg)
     = length (cg_diagnostics cg) + cg_resolved cg + (\<Sum>f \<leftarrow> fs. length (includes_of read f))"
  by (induction fs arbitrary: cg)
    (auto simp: add_cpp_file_def Let_def includes_of_def fold_include_counts split: option.splits)

text \<open>C27: No include edge is guessed and none is lost: the edges of the C++ graph are those of the quoted
  includes whose name fits exactly one project file, a file that includes itself aside, and every
  include was either resolved or noted in a diagnostic.\<close>

theorem include_graph_exact:
  assumes "distinct (map resolve files)"
  shows "edges (cg_graph (build_cpp_graph resolve read files))
      = (\<Union>f \<in> set files. include_edges resolve files f (includes_of read f))
    \<and> length (cg_diagnostics (build_cpp_graph resolve read files))
      + cg_resolved (build_cpp_graph resolve read files) = (\<Sum>f \<leftarrow> files. length (includes_of read f))"
proof
  let ?start = "\<lparr>cg_graph = [], cg_known = [], cg_diagnostics = [], cg_resolved = 0\<rparr> :: cpp_graph"
  have "edges (cg_graph ?start) = {}" by (simp add: edges_def succs_def dict_values_def)
  then show "edges (cg_graph (build_cpp_graph resolve read files))
      = (\<Union>f \<in> set files. include_edges resolve files f (includes_of read f))"
    using cpp_graph_edges [OF assms, of ?start read files] by (simp add: build_cpp_graph_def)
  show "length (cg_diagnostics (build_cpp_graph resolve read files))
      + cg_resolved (build_cpp_graph resolve read files) = (\<Sum>f \<leftarrow> files. length (includes_of read f))"
    using cpp_graph_counts [of resolve read files files ?start] by (simp add: build_cpp_graph_def)
qed

definition header :: "string \<Rightarrow> pure_path" where
  "header name = pure (''/w/'' @ name @ ''.h'')"

definition header_text :: "pure_path \<Rightarrow> string option" where
  "header_text f =
     (if f = header ''a'' then Some (''#include  '' @ [CHR 0x22] @ ''b.h'' @ [CHR 0x22])
      else if f = header ''b'' then Some (''#include '' @ [CHR 0x22] @ ''gone.h'' @ [CHR 0x22])
      else None)"

theorem include_graph_exact_witness:
  "(header ''a'', header ''b'') \<in> edges (cg_graph (build_cpp_graph (\<lambda>p. p) header_text [header ''a'', header ''b'']))
   \<and> length (cg_diagnostics (build_cpp_graph (\<lambda>p. p) header_text [header ''a'', header ''b'']))
     + cg_resolved (build_cpp_graph (\<lambda>p. p) header_text [header ''a'', header ''b'']) = 2"
proof -
  let ?files = "[header ''a'', header ''b'']"
  have "distinct (map (\<lambda>p. p) ?files)" by code_simp
  note exact = include_graph_exact [OF this, of header_text]
  have ne: "includes_of header_text (header ''a'') \<noteq> []" by code_simp
  define m where "m = hd (includes_of header_text (header ''a''))"
  have m: "m \<in> set (includes_of header_text (header ''a''))" using ne by (simp add: m_def)
  have "matching_includes (fst (snd m)) ?files = [header ''b''] \<and> header ''b'' \<noteq> header ''a''"
    unfolding m_def by code_simp
  then have "(header ''a'', header ''b'') \<in> include_edge (\<lambda>p. p) ?files (header ''a'') m"
    by (simp only: include_edge_def list.case if_True simp_thms insertI1)
  then have "(header ''a'', header ''b'') \<in> include_edges (\<lambda>p. p) ?files (header ''a'') (includes_of header_text (header ''a''))"
    unfolding include_edges_def using m by (rule UN_I [rotated])
  then have "(header ''a'', header ''b'') \<in> (\<Union>f \<in> set ?files. include_edges (\<lambda>p. p) ?files f (includes_of header_text f))"
    by (intro UN_I [of "header ''a''"]) (simp_all only: list.set insertI1)
  moreover have "(\<Sum>f \<leftarrow> ?files. length (includes_of header_text f)) = 2" by code_simp
  ultimately show ?thesis
    unfolding exact [THEN conjunct1] exact [THEN conjunct2] by (rule conjI)
qed

end
