(* ===== verification/Snapshot.thy ===== *)
theory Snapshot
  imports Config Results
begin

text \<open>
  Comparing two run results along four axes (src/src/ici/execution/snapshot.py): findings, source
  scope, metrics and the evidence behind the metrics.
\<close>

section \<open>The axes\<close>

record finding_diff =
  fd_added :: "string list"
  fd_resolved :: "string list"
  fd_unchanged :: "string list"

record scope_diff =
  sf_entered :: "string list"
  sf_left :: "string list"
  sf_withheld :: "string list"

record metric_diff =
  md_added :: "string list"
  md_removed :: "string list"
  md_changed_values :: "(string \<times> pyfloat \<times> pyfloat) list"

record evidence_diff =
  ed_weakened :: "(string \<times> string \<times> string) list"
  ed_strengthened :: "(string \<times> string \<times> string) list"

record snapshot_diff =
  sn_findings :: finding_diff
  sn_source_scope :: scope_diff
  sn_metrics :: metric_diff
  sn_evidence :: evidence_diff
  sn_notes :: "string list"

definition findings_changed :: "finding_diff \<Rightarrow> bool" where
  "findings_changed d = (fd_added d \<noteq> [] \<or> fd_resolved d \<noteq> [])"

definition scope_changed :: "scope_diff \<Rightarrow> bool" where
  "scope_changed d = (sf_entered d \<noteq> [] \<or> sf_left d \<noteq> [])"

definition hides_findings :: "scope_diff \<Rightarrow> bool" where
  "hides_findings d = (sf_withheld d \<noteq> [])"

definition metrics_changed :: "metric_diff \<Rightarrow> bool" where
  "metrics_changed d = (md_added d \<noteq> [] \<or> md_removed d \<noteq> [] \<or> md_changed_values d \<noteq> [])"

definition evidence_changed :: "evidence_diff \<Rightarrow> bool" where
  "evidence_changed d = (ed_weakened d \<noteq> [] \<or> ed_strengthened d \<noteq> [])"

definition snapshot_changed :: "snapshot_diff \<Rightarrow> bool" where
  "snapshot_changed d =
     (findings_changed (sn_findings d) \<or> scope_changed (sn_source_scope d)
      \<or> metrics_changed (sn_metrics d) \<or> evidence_changed (sn_evidence d))"

definition comparable :: "snapshot_diff \<Rightarrow> bool" where
  "comparable d = (\<not> hides_findings (sn_source_scope d))"

section \<open>The comparison\<close>

fun evidence_rank :: "evidence_level \<Rightarrow> nat" where
  "evidence_rank MEASURED = 0"
| "evidence_rank ESTIMATED = 1"
| "evidence_rank EV_NOT_APPLICABLE = 2"
| "evidence_rank EV_NOT_RUN = 3"

definition by_fingerprint :: "finding list \<Rightarrow> (string \<times> finding) list" where
  "by_fingerprint fs = dict_of f_fingerprint fs"

definition scope_of_run :: "run_result \<Rightarrow> string list" where
  "scope_of_run r = ss_files (ri_source (rr_identity r))"

text \<open>\<open>sorted(set(a) - set(b))\<close> and \<open>sorted(set(a) & set(b))\<close>.\<close>

definition sorted_minus :: "string list \<Rightarrow> string list \<Rightarrow> string list" where
  "sorted_minus xs ys = sorted_set (filter (\<lambda>x. x \<notin> set ys) xs)"

definition sorted_both :: "string list \<Rightarrow> string list \<Rightarrow> string list" where
  "sorted_both xs ys = sorted_set (filter (\<lambda>x. x \<in> set ys) xs)"

definition split_gone :: "string list \<Rightarrow> (string \<times> finding) list \<Rightarrow> (string \<times> finding) list
     \<Rightarrow> string list \<times> string list" where
  "split_gone scope new old =
     (let gone = filter (\<lambda>p. fst p \<notin> fst ` set new) old;
          seen = (\<lambda>p. sp_path (f_primary_location (snd p)) \<in> set scope) in
      (map fst (filter seen gone), map fst (filter (\<lambda>p. \<not> seen p) gone)))"

definition compare_findings :: "run_result \<Rightarrow> run_result \<Rightarrow> finding_diff \<times> string list" where
  "compare_findings before after =
     (let old = by_fingerprint (rr_findings before); new = by_fingerprint (rr_findings after) in
      case split_gone (scope_of_run after) new old of (resolved, withheld) \<Rightarrow>
      (\<lparr>fd_added = sorted_minus (map fst new) (map fst old), fd_resolved = sort resolved,
        fd_unchanged = sorted_both (map fst old) (map fst new)\<rparr>, sort withheld))"

text \<open>Python's \<open>!=\<close> on floats.\<close>

definition float_differs :: "pyfloat \<Rightarrow> pyfloat \<Rightarrow> bool" where
  "float_differs x y = (x \<noteq> y \<or> x = NaN)"

definition moved_value :: "measurement \<times> measurement \<Rightarrow> (string \<times> pyfloat \<times> pyfloat) option" where
  "moved_value p =
     (if float_differs (m_value (fst p)) (m_value (snd p))
      then Some (m_name (fst p), m_value (fst p), m_value (snd p)) else None)"

definition moved_evidence ::
    "(nat \<Rightarrow> nat \<Rightarrow> bool) \<Rightarrow> measurement \<times> measurement \<Rightarrow> (string \<times> string \<times> string) option" where
  "moved_evidence worse p =
     (if worse (evidence_rank (m_evidence (fst p))) (evidence_rank (m_evidence (snd p)))
      then Some (m_name (fst p), evidence_level_value (m_evidence (fst p)),
                 evidence_level_value (m_evidence (snd p))) else None)"

definition metric_pairs :: "run_result \<Rightarrow> run_result \<Rightarrow> (measurement \<times> measurement) list" where
  "metric_pairs before after =
     (let old = dict_of m_name (rr_metrics before); new = dict_of m_name (rr_metrics after) in
      map (\<lambda>n. (the (map_of old n), the (map_of new n))) (sorted_both (map fst old) (map fst new)))"

definition compare_metrics :: "run_result \<Rightarrow> run_result \<Rightarrow> metric_diff \<times> evidence_diff" where
  "compare_metrics before after =
     (let old = dict_of m_name (rr_metrics before); new = dict_of m_name (rr_metrics after);
          pairs = metric_pairs before after in
      (\<lparr>md_added = sorted_minus (map fst new) (map fst old),
        md_removed = sorted_minus (map fst old) (map fst new),
        md_changed_values = List.map_filter moved_value pairs\<rparr>,
       \<lparr>ed_weakened = List.map_filter (moved_evidence (<)) pairs,
        ed_strengthened = List.map_filter (moved_evidence (>)) pairs\<rparr>))"

definition withheld_note :: string where
  "withheld_note = '' finding(s) from the earlier run are in files the later run did not analyse; they are withheld rather than resolved''"

definition no_scope_note :: string where
  "no_scope_note = ''the later run records no source scope, so no finding can be shown to have been re-examined''"

definition snapshot_notes :: "scope_diff \<Rightarrow> run_result \<Rightarrow> run_result \<Rightarrow> string list" where
  "snapshot_notes scope before after =
     (if sf_withheld scope \<noteq> [] then [show_nat (length (sf_withheld scope)) @ withheld_note] else [])
     @ (if scope_of_run after = [] \<and> (rr_findings before \<noteq> [] \<or> rr_findings after \<noteq> [])
        then [no_scope_note] else [])
     @ (if ri_policy_digest (rr_identity before) \<noteq> ri_policy_digest (rr_identity after)
        then [''the analysis policy differs between the runs''] else [])
     @ (if ri_toolchain_digest (rr_identity before) \<noteq> ri_toolchain_digest (rr_identity after)
        then [''the toolchain differs between the runs''] else [])"

definition compare_snapshots :: "run_result \<Rightarrow> run_result \<Rightarrow> snapshot_diff" where
  "compare_snapshots before after =
     (case compare_findings before after of (findings, withheld) \<Rightarrow>
      let scope = \<lparr>sf_entered = sorted_minus (scope_of_run after) (scope_of_run before),
                   sf_left = sorted_minus (scope_of_run before) (scope_of_run after),
                   sf_withheld = withheld\<rparr> in
      case compare_metrics before after of (metrics, evidence) \<Rightarrow>
      \<lparr>sn_findings = findings, sn_source_scope = scope, sn_metrics = metrics, sn_evidence = evidence,
       sn_notes = snapshot_notes scope before after\<rparr>)"

section \<open>What it says\<close>

lemma set_sorted_minus [simp]: "set (sorted_minus xs ys) = set xs - set ys"
  by (auto simp: sorted_minus_def)

lemma set_sorted_both [simp]: "set (sorted_both xs ys) = set xs \<inter> set ys"
  by (auto simp: sorted_both_def)

text \<open>The finding a fingerprint stands for: the last one reported under it.\<close>

definition reported :: "run_result \<Rightarrow> string \<Rightarrow> finding option" where
  "reported r fp = List.find (\<lambda>f. f_fingerprint f = fp) (rev (rr_findings r))"

lemma find_append: "List.find P (xs @ ys) = (case List.find P xs of None \<Rightarrow> List.find P ys | Some x \<Rightarrow> Some x)"
  by (induction xs) auto

lemma dict_of_find: "map_of (dict_of key xs) k = List.find (\<lambda>x. key x = k) (rev xs)"
  by (induction xs rule: rev_induct) (auto simp: dict_of_def)

lemma dict_of_distinct: "distinct (map fst (dict_of key xs))"
  by (induction xs rule: rev_induct) (auto simp: dict_of_def distinct_dict_set)

lemma dict_of_keys: "fst ` set (dict_of key xs) = key ` set xs"
  by (induction xs rule: rev_induct) (auto simp: dict_of_def)

lemma reported_iff: "map_of (by_fingerprint (rr_findings r)) fp = reported r fp"
  by (simp add: by_fingerprint_def dict_of_find reported_def)

lemma reported_key: "fp \<in> fst ` set (by_fingerprint (rr_findings r)) \<longleftrightarrow> reported r fp \<noteq> None"
  by (simp add: map_of_eq_None_iff flip: reported_iff)

lemma reported_member: "(fp, f) \<in> set (by_fingerprint (rr_findings r)) \<longleftrightarrow> reported r fp = Some f"
  using dict_of_distinct [of f_fingerprint "rr_findings r"]
  by (simp add: by_fingerprint_def flip: reported_iff)

definition in_scope :: "run_result \<Rightarrow> finding \<Rightarrow> bool" where
  "in_scope r f \<longleftrightarrow> sp_path (f_primary_location f) \<in> set (scope_of_run r)"

lemma compare_findings_sets:
  assumes "compare_findings before after = (d, withheld)"
  shows "set (fd_resolved d)
      = {fp. \<exists>f. reported before fp = Some f \<and> reported after fp = None \<and> in_scope after f}"
    "set withheld
      = {fp. \<exists>f. reported before fp = Some f \<and> reported after fp = None \<and> \<not> in_scope after f}"
    "set (fd_unchanged d) = {fp. reported before fp \<noteq> None \<and> reported after fp \<noteq> None}"
    "set (fd_added d) = {fp. reported before fp = None \<and> reported after fp \<noteq> None}"
proof -
  let ?old = "by_fingerprint (rr_findings before)" and ?new = "by_fingerprint (rr_findings after)"
  have d: "d = \<lparr>fd_added = sorted_minus (map fst ?new) (map fst ?old),
      fd_resolved = sort (fst (split_gone (scope_of_run after) ?new ?old)),
      fd_unchanged = sorted_both (map fst ?old) (map fst ?new)\<rparr>"
    and w: "withheld = sort (snd (split_gone (scope_of_run after) ?new ?old))"
    using assms by (simp_all add: compare_findings_def Let_def split: prod.splits)
  have new: "fp \<notin> fst ` set ?new \<longleftrightarrow> reported after fp = None" for fp
    using reported_key by blast
  show "set (fd_resolved d)
      = {fp. \<exists>f. reported before fp = Some f \<and> reported after fp = None \<and> in_scope after f}"
    "set withheld
      = {fp. \<exists>f. reported before fp = Some f \<and> reported after fp = None \<and> \<not> in_scope after f}"
    unfolding d w by (force simp: split_gone_def Let_def new in_scope_def simp flip: reported_member)+
  show "set (fd_unchanged d) = {fp. reported before fp \<noteq> None \<and> reported after fp \<noteq> None}"
    "set (fd_added d) = {fp. reported before fp = None \<and> reported after fp \<noteq> None}"
    unfolding d by (simp_all only: finding_diff.simps set_sorted_both set_sorted_minus set_map set_eq_iff
        Int_iff Diff_iff reported_key mem_Collect_eq not_not) auto
qed

lemma compare_findings_distinct:
  assumes "compare_findings before after = (d, withheld)"
  shows "distinct (fd_added d) \<and> distinct (fd_resolved d) \<and> distinct (fd_unchanged d) \<and> distinct withheld"
proof -
  have "distinct (map fst (filter P (filter Q (by_fingerprint fs))))" for P Q and fs :: "finding list"
    using dict_of_distinct [of f_fingerprint fs] by (auto simp: by_fingerprint_def intro: distinct_map_filter)
  then show ?thesis
    using assms by (auto simp: compare_findings_def split_gone_def Let_def sorted_minus_def sorted_both_def)
qed

lemma compare_snapshots_parts:
  "sn_findings (compare_snapshots b a) = fst (compare_findings b a)"
  "sf_withheld (sn_source_scope (compare_snapshots b a)) = snd (compare_findings b a)"
  "sf_entered (sn_source_scope (compare_snapshots b a)) = sorted_minus (scope_of_run a) (scope_of_run b)"
  "sf_left (sn_source_scope (compare_snapshots b a)) = sorted_minus (scope_of_run b) (scope_of_run a)"
  "sn_metrics (compare_snapshots b a) = fst (compare_metrics b a)"
  "sn_evidence (compare_snapshots b a) = snd (compare_metrics b a)"
  by (simp_all add: compare_snapshots_def Let_def split: prod.splits)

lemma metric_pairs_self: "p \<in> set (metric_pairs r r) \<Longrightarrow> fst p = snd p \<and> fst p \<in> set (rr_metrics r)"
  by (auto simp: metric_pairs_def Let_def dest!: map_of_SomeD dict_of_some)
    (metis dict_of_some image_eqI map_of_eq_None_iff not_None_eq option.sel fst_conv)

end
