(* ===== verification/Snapshot_Properties.thy ===== *)
theory Snapshot_Properties
  imports Snapshot Samples
begin

text \<open>
  The properties of comparing two run results.
\<close>

text \<open>A comparison never calls an unread finding resolved: of the fingerprints the earlier run
  reported, those the later one still reports are unchanged, those gone from a file the later run
  read are resolved and the others withheld; the remaining ones of the later run are added, and the
  four lists share nothing.\<close>

theorem snapshot_partition:
  "set (fd_resolved (sn_findings (compare_snapshots before after)))
     = {fp. \<exists>f. reported before fp = Some f \<and> reported after fp = None \<and> in_scope after f}
   \<and> set (sf_withheld (sn_source_scope (compare_snapshots before after)))
     = {fp. \<exists>f. reported before fp = Some f \<and> reported after fp = None \<and> \<not> in_scope after f}
   \<and> set (fd_unchanged (sn_findings (compare_snapshots before after)))
     = {fp. reported before fp \<noteq> None \<and> reported after fp \<noteq> None}
   \<and> set (fd_added (sn_findings (compare_snapshots before after)))
     = {fp. reported before fp = None \<and> reported after fp \<noteq> None}
   \<and> distinct (fd_resolved (sn_findings (compare_snapshots before after))
       @ sf_withheld (sn_source_scope (compare_snapshots before after))
       @ fd_unchanged (sn_findings (compare_snapshots before after))
       @ fd_added (sn_findings (compare_snapshots before after)))"
proof -
  obtain d w where d: "compare_findings before after = (d, w)" by force
  note sets = compare_findings_sets [OF d]
  have "distinct (fd_resolved d @ w @ fd_unchanged d @ fd_added d)"
    using compare_findings_distinct [OF d] sets by auto
  then show ?thesis using sets d by (simp add: compare_snapshots_parts)
qed

text \<open>A comparison does not ask whether the checks ran: it is the same whatever the later run recorded
  of its checks, its gate, its execution and its limitations, so a finding in a file that is still in
  scope counts as resolved although the check that reported it never finished.\<close>

lemma snapshot_ignores_checks:
  "compare_snapshots before
     (after\<lparr>rr_checks := checks, rr_gate := gate, rr_execution := execution, rr_limitations := limitations\<rparr>)
   = compare_snapshots before after"
  by (simp add: compare_snapshots_def compare_findings_def compare_metrics_def metric_pairs_def
      snapshot_notes_def scope_of_run_def)

text \<open>A valid run compares with itself without a difference.\<close>

lemma snapshot_same:
  assumes "list_all measurement_ok (rr_metrics r)"
  shows "\<not> snapshot_changed (compare_snapshots r r)"
proof -
  have "moved_value p = None \<and> moved_evidence (<) p = None \<and> moved_evidence (>) p = None"
    if "p \<in> set (metric_pairs r r)" for p
    using metric_pairs_self [OF that] assms
    by (auto simp: moved_value_def moved_evidence_def float_differs_def list_all_iff measurement_ok_def)
  then have "List.map_filter moved_value (metric_pairs r r) = []"
      "List.map_filter (moved_evidence (<)) (metric_pairs r r) = []"
      "List.map_filter (moved_evidence (>)) (metric_pairs r r) = []"
    by (auto simp: List.map_filter_def)
  then have "\<not> metrics_changed (fst (compare_metrics r r)) \<and> \<not> evidence_changed (snd (compare_metrics r r))"
    by (simp add: compare_metrics_def Let_def metrics_changed_def evidence_changed_def sorted_minus_def sorted_set_def)
  moreover have "sorted_minus (scope_of_run r) (scope_of_run r) = []"
    by (simp add: sorted_minus_def sorted_set_def)
  moreover have "set (fd_added (fst (compare_findings r r))) = {}" "set (fd_resolved (fst (compare_findings r r))) = {}"
    using compare_findings_sets(1,4) [of r r "fst (compare_findings r r)" "snd (compare_findings r r)"] by auto
  ultimately show ?thesis
    by (simp add: snapshot_changed_def compare_snapshots_parts findings_changed_def scope_changed_def flip: set_empty)
qed

end
