(* ===== verification/Dup_Matching.thy ===== *)
theory Dup_Matching
  imports PyValue "HOL-Library.Word"
begin

text \<open>
  Matching of duplicated code (src/src/ici/analysis/_dup_signal.py and _dup_matching.py): windows of
  normalized lines are grouped by a rolling hash, pairs of equal windows are extended to maximal
  matches, and a budget bounds the work.  The hash of one line, sixteen bytes of a digest, is an
  argument; arithmetic on hashes is that of 128-bit words, as the mask makes it.
\<close>

section \<open>Lines that say something\<close>

definition LITERAL_TOKENS :: "string list" where
  "LITERAL_TOKENS = [''INT_LIT'', ''FLOAT_LIT'', ''COMPLEX_LIT'', ''CHAR_LIT'', ''STRING_LIT'',
     ''RAW_STRING_LIT'', ''BYTES_LIT'', ''RAW_BYTES_LIT'', ''FSTRING_LIT'', ''RAW_FSTRING_LIT'',
     ''False'', ''None'', ''True'', ''false'', ''nullptr'', ''true'']"

definition LOW_INFORMATION_TOKENS :: "string list" where
  "LOW_INFORMATION_TOKENS = [''ID'', ''INT_LIT'', ''FLOAT_LIT'', ''COMPLEX_LIT'', ''CHAR_LIT'',
     ''STRING_LIT'', ''RAW_STRING_LIT'', ''BYTES_LIT'', ''RAW_BYTES_LIT'', ''FSTRING_LIT'',
     ''RAW_FSTRING_LIT'', ''False'', ''None'', ''True'', ''false'', ''nullptr'', ''true'', ''INDENT'',
     ''DEDENT'', ''('', '')'', ''['', '']'', ''{'', ''}'', '','', '';'', '':'', ''.'', ''::'', ''='',
     ''@'', ''*'', ''&'', ''&&'']"

definition LITERAL_PREFIXES :: "string list" where
  "LITERAL_PREFIXES = [''INT_LIT:'', ''FLOAT_LIT:'', ''CHAR_LIT:'', ''STRING_LIT:'', ''RAW_STRING_LIT:'']"

definition starts_with_any :: "string \<Rightarrow> string list \<Rightarrow> bool" where
  "starts_with_any s prefixes = list_ex (startswith s) prefixes"

definition is_literal_token :: "string \<Rightarrow> bool" where
  "is_literal_token value = (value \<in> set LITERAL_TOKENS \<or> starts_with_any value LITERAL_PREFIXES)"

definition informative :: "string \<Rightarrow> bool" where
  "informative item =
     (item \<notin> set LOW_INFORMATION_TOKENS \<and> \<not> starts_with_any item LITERAL_PREFIXES
      \<and> \<not> starts_with_any item [''ERROR_TOKEN('', ''TOKEN_TYPE('', ''UNTERMINATED_''])"

definition line_has_semantic_signal :: "string \<Rightarrow> bool" where
  "line_has_semantic_signal normalized =
     (let tokens = split_char CHR 0x1F normalized in
      2 \<le> length (filter (\<lambda>t. t = ''ID'') tokens) \<and> \<not> list_ex is_literal_token tokens
      \<or> list_ex informative tokens)"

fun signal_sums :: "nat \<Rightarrow> (int \<times> string) list \<Rightarrow> nat list" where
  "signal_sums sum_so_far [] = [sum_so_far]"
| "signal_sums sum_so_far ((line, normalized) # indexed) =
     sum_so_far # signal_sums (sum_so_far + (if line_has_semantic_signal normalized then 1 else 0)) indexed"

definition duplicate_signal_prefix :: "(int \<times> string) list \<Rightarrow> nat list" where
  "duplicate_signal_prefix indexed = signal_sums 0 indexed"

definition has_duplicate_signal :: "nat list \<Rightarrow> nat \<Rightarrow> nat \<Rightarrow> bool" where
  "has_duplicate_signal prefix start extent =
     (if extent = 0 \<or> length prefix \<le> start + extent then False
      else
        (let signal_lines = prefix ! (start + extent) - prefix ! start;
             minimum = max 1 ((extent + 3) div 4);
             required = (if 6 \<le> extent then max 2 minimum else minimum) in
         required \<le> signal_lines))"

section \<open>Files, limits and the budget\<close>

record dup_file =
  df_path :: string
  df_language :: string
  df_raw_lines :: "string list"
  df_indexed :: "(int \<times> string) list"
  df_regions :: "(int \<times> int) list"

record dup_limits =
  dl_window_occurrences :: nat
  dl_same_file_seed_pairs :: nat
  dl_cross_file_pairs :: nat
  dl_cross_file_seed_pairs :: nat
  dl_extension_comparisons :: nat
  dl_raw_matches :: nat

fun limit_value :: "string \<Rightarrow> pyval \<Rightarrow> nat result" where
  "limit_value name (PInt i) =
     (if i < 0 then Inl (ValueError ''{} must be a non-negative integer'' [name]) else Inr (nat i))"
| "limit_value name v = Inl (ValueError ''{} must be a non-negative integer'' [name])"

definition DuplicateMatchLimits_init ::
    "pyval \<Rightarrow> pyval \<Rightarrow> pyval \<Rightarrow> pyval \<Rightarrow> pyval \<Rightarrow> pyval \<Rightarrow> dup_limits result" where
  "DuplicateMatchLimits_init window same cross_pairs cross_seeds extension raw =
     bindr (limit_value ''window_occurrences'' window) (\<lambda>wi.
     bindr (limit_value ''same_file_seed_pairs'' same) (\<lambda>sa.
     bindr (limit_value ''cross_file_pairs'' cross_pairs) (\<lambda>cp.
     bindr (limit_value ''cross_file_seed_pairs'' cross_seeds) (\<lambda>cs.
     bindr (limit_value ''extension_comparisons'' extension) (\<lambda>ex.
     bindr (limit_value ''raw_matches'' raw) (\<lambda>ra.
     Inr \<lparr>dl_window_occurrences = wi, dl_same_file_seed_pairs = sa, dl_cross_file_pairs = cp,
          dl_cross_file_seed_pairs = cs, dl_extension_comparisons = ex, dl_raw_matches = ra\<rparr>))))))"

record clone_match =
  cm_file1 :: nat
  cm_start1 :: int
  cm_end1 :: int
  cm_file2 :: nat
  cm_start2 :: int
  cm_end2 :: int
  cm_size :: nat

definition append_bounded :: "clone_match list \<Rightarrow> clone_match \<Rightarrow> dup_limits \<Rightarrow> clone_match list result" where
  "append_bounded matches m limits =
     raise_if (dl_raw_matches limits < length (matches @ [m]))
       (DuplicateComparisonLimit
          ''Raw duplicate match count exceeds MAX_DUPLICATE_RAW_MATCHES={}'' [show_nat (dl_raw_matches limits)])
     (Inr (matches @ [m]))"

section \<open>Sets of positions as sorted intervals\<close>

text \<open>\<open>bisect\<close> finds where a key belongs in a sorted list: after what is below it.\<close>

definition interval_contains :: "(nat \<times> nat) list \<Rightarrow> nat \<Rightarrow> bool" where
  "interval_contains intervals position =
     (let before = takeWhile (\<lambda>iv. iv \<le> (position, 2 ^ 63 - 1)) intervals in
      before \<noteq> [] \<and> fst (last before) \<le> position \<and> position \<le> snd (last before))"

fun absorb :: "nat \<Rightarrow> nat \<Rightarrow> (nat \<times> nat) list \<Rightarrow> (nat \<times> nat) list" where
  "absorb start stop [] = [(start, stop)]"
| "absorb start stop (iv # intervals) =
     (if fst iv \<le> stop + 1 then absorb (min start (fst iv)) (max stop (snd iv)) intervals
      else (start, stop) # iv # intervals)"

definition add_interval :: "(nat \<times> nat) list \<Rightarrow> nat \<Rightarrow> nat \<Rightarrow> (nat \<times> nat) list" where
  "add_interval intervals start stop =
     (let before = takeWhile (\<lambda>iv. fst iv < start) intervals;
          after = dropWhile (\<lambda>iv. fst iv < start) intervals in
      if before \<noteq> [] \<and> start \<le> snd (last before) + 1
      then butlast before @ absorb (min start (fst (last before))) (max stop (snd (last before))) after
      else before @ absorb start stop after)"

section \<open>Windows\<close>

type_synonym hash = "128 word"

definition ROLLING_HASH_BASE :: hash where
  "ROLLING_HASH_BASE = 0x100000001B3"

definition first_hash :: "hash list \<Rightarrow> hash" where
  "first_hash hs = fold (\<lambda>h rolling. rolling * ROLLING_HASH_BASE + h) hs 0"

fun roll :: "hash \<Rightarrow> hash \<Rightarrow> (hash \<times> hash) list \<Rightarrow> hash list" where
  "roll high_factor rolling [] = []"
| "roll high_factor rolling ((outgoing, incoming) # steps) =
     (let next = (rolling - outgoing * high_factor) * ROLLING_HASH_BASE + incoming in
      next # roll high_factor next steps)"

definition window_hashes :: "(string \<Rightarrow> hash) \<Rightarrow> (int \<times> string) list \<Rightarrow> nat \<Rightarrow> hash list result" where
  "window_hashes record_hash indexed window_size =
     raise_if (window_size = 0) (ValueError ''window_size must be a positive integer'' [])
     (if length indexed < window_size then Inr []
      else
        (let hs = map (\<lambda>p. record_hash (snd p)) indexed;
             first = first_hash (take window_size hs) in
         Inr (first # roll (ROLLING_HASH_BASE ^ (window_size - 1)) first (zip hs (drop window_size hs)))))"

definition validate_match_inputs :: "dup_file list \<Rightarrow> nat \<Rightarrow> unit result" where
  "validate_match_inputs files window_size =
     raise_if (window_size = 0) (ValueError ''window_size must be a positive integer'' [])
    (raise_if (list_ex (\<lambda>f. length (df_regions f) \<noteq> length (df_indexed f)) files)
       (ValueError ''duplicate region count must equal indexed record count'' [])
     (Inr ()))"

text \<open>\<open>stop\<close> is \<open>region_end + 1\<close>, the first position after the current region.\<close>

function region_stop :: "(int \<times> int) list \<Rightarrow> int \<times> int \<Rightarrow> nat \<Rightarrow> nat" where
  "region_stop regions region stop =
     (if stop < length regions \<and> regions ! stop = region then region_stop regions region (Suc stop) else stop)"
  by pat_completeness auto
termination
  by (relation "measure (\<lambda>(regions, region, stop). length regions - stop)") auto

declare region_stop.simps [simp del]

type_synonym window_map = "((string \<times> hash) \<times> (nat \<times> nat) list) list"

fun index_positions ::
    "dup_limits \<Rightarrow> nat \<Rightarrow> dup_file \<Rightarrow> nat list \<Rightarrow> nat \<Rightarrow> nat \<Rightarrow> nat \<Rightarrow> hash list \<Rightarrow> window_map
     \<Rightarrow> window_map result" where
  "index_positions limits i f prefix window_size position stop [] windows = Inr windows"
| "index_positions limits i f prefix window_size position stop (digest # hs) windows =
     (if \<not> has_duplicate_signal prefix position window_size
      then index_positions limits i f prefix window_size (Suc position) stop hs windows
      else
        (let stop' = (if stop \<le> position
                      then region_stop (df_regions f) (df_regions f ! position) (Suc position) else stop) in
         if stop' < position + window_size
         then index_positions limits i f prefix window_size (Suc position) stop' hs windows
         else
           raise_if (dl_window_occurrences limits \<le> length (dict_values windows (df_language f, digest)))
             (DuplicateComparisonLimit
                ''Shared duplicate-window occurrence count exceeds MAX_DUPLICATE_WINDOW_OCCURRENCES={}''
                [show_nat (dl_window_occurrences limits)])
           (index_positions limits i f prefix window_size (Suc position) stop' hs
              (dict_append (df_language f, digest) (i, position) windows))))"

definition index_file_windows ::
    "(string \<Rightarrow> hash) \<Rightarrow> dup_limits \<Rightarrow> nat \<Rightarrow> nat \<Rightarrow> dup_file \<Rightarrow> window_map \<Rightarrow> window_map result" where
  "index_file_windows record_hash limits window_size i f windows =
     (if length (df_indexed f) < window_size then Inr windows
      else
        bindr (window_hashes record_hash (df_indexed f) window_size) (\<lambda>hs.
        index_positions limits i f (duplicate_signal_prefix (df_indexed f)) window_size 0 0 hs windows))"

fun build_window_map ::
    "(string \<Rightarrow> hash) \<Rightarrow> dup_limits \<Rightarrow> nat \<Rightarrow> nat \<Rightarrow> dup_file list \<Rightarrow> window_map \<Rightarrow> window_map result" where
  "build_window_map record_hash limits window_size i [] windows = Inr windows"
| "build_window_map record_hash limits window_size i (f # fs) windows =
     bindr (index_file_windows record_hash limits window_size i f windows)
       (build_window_map record_hash limits window_size (Suc i) fs)"

section \<open>The comparison budget\<close>

record dup_budget =
  bg_same_seed_pairs :: nat
  bg_cross_seed_pairs :: nat
  bg_comparisons :: nat
  bg_cross_file_pairs :: "(nat \<times> nat) list"

definition no_budget_spent :: dup_budget where
  "no_budget_spent = \<lparr>bg_same_seed_pairs = 0, bg_cross_seed_pairs = 0, bg_comparisons = 0,
     bg_cross_file_pairs = []\<rparr>"

type_synonym 'a counted = "dup_budget \<Rightarrow> ('a \<times> dup_budget) result"

definition token_at :: "dup_file list \<Rightarrow> nat \<Rightarrow> nat \<Rightarrow> string" where
  "token_at files i position = snd (df_indexed (files ! i) ! position)"

definition region_at :: "dup_file list \<Rightarrow> nat \<Rightarrow> nat \<Rightarrow> int \<times> int" where
  "region_at files i position = df_regions (files ! i) ! position"

definition tokens_equal ::
    "dup_limits \<Rightarrow> dup_file list \<Rightarrow> nat \<Rightarrow> nat \<Rightarrow> nat \<Rightarrow> nat \<Rightarrow> bool counted" where
  "tokens_equal limits files f1 p1 f2 p2 bg =
     (let spent = bg_comparisons bg + 1 in
      raise_if (dl_extension_comparisons limits < spent)
        (DuplicateComparisonLimit
           ''Duplicate seed extension work exceeds MAX_DUPLICATE_EXTENSION_COMPARISONS={}''
           [show_nat (dl_extension_comparisons limits)])
      (Inr (token_at files f1 p1 = token_at files f2 p2, bg\<lparr>bg_comparisons := spent\<rparr>)))"

definition accepts_seed_pair ::
    "dup_limits \<Rightarrow> nat \<Rightarrow> nat \<Rightarrow> nat \<Rightarrow> nat \<Rightarrow> nat \<Rightarrow> bool counted" where
  "accepts_seed_pair limits window_size f1 s1 f2 s2 bg =
     (if f1 = f2
      then
        (let spent = bg_same_seed_pairs bg + 1 in
         raise_if (dl_same_file_seed_pairs limits < spent)
           (DuplicateComparisonLimit
              ''Duplicate same-file seed pair count exceeds MAX_DUPLICATE_SAME_FILE_SEED_PAIRS={}''
              [show_nat (dl_same_file_seed_pairs limits)])
         (Inr (int window_size \<le> int s2 - int s1, bg\<lparr>bg_same_seed_pairs := spent\<rparr>)))
      else
        (let spent = bg_cross_seed_pairs bg + 1; pairs = List.insert (f1, f2) (bg_cross_file_pairs bg) in
         raise_if (dl_cross_file_seed_pairs limits < spent)
           (DuplicateComparisonLimit
              ''Duplicate cross-file seed pair count exceeds MAX_DUPLICATE_CROSS_FILE_SEED_PAIRS={}''
              [show_nat (dl_cross_file_seed_pairs limits)])
        (raise_if (dl_cross_file_pairs limits < length pairs)
           (DuplicateComparisonLimit
              ''Duplicate cross-file candidate count exceeds MAX_DUPLICATE_CROSS_FILE_PAIRS={}''
              [show_nat (dl_cross_file_pairs limits)])
         (Inr (True, bg\<lparr>bg_cross_seed_pairs := spent, bg_cross_file_pairs := pairs\<rparr>)))))"

text \<open>The pairs of occurrences of a window, in the order of the two nested loops.\<close>

fun occurrence_pairs :: "'a list \<Rightarrow> ('a \<times> 'a) list" where
  "occurrence_pairs [] = []"
| "occurrence_pairs (x # xs) = map (\<lambda>y. (x, y)) xs @ occurrence_pairs xs"

definition seed_pairs :: "window_map \<Rightarrow> ((nat \<times> nat) \<times> nat \<times> nat) list" where
  "seed_pairs windows =
     concat (map (\<lambda>key. occurrence_pairs (dict_values windows key)) (sort (map fst windows)))"

fun seed_is_equal ::
    "dup_limits \<Rightarrow> dup_file list \<Rightarrow> nat \<Rightarrow> nat \<Rightarrow> nat \<Rightarrow> nat \<Rightarrow> nat list \<Rightarrow> bool counted" where
  "seed_is_equal limits files f1 s1 f2 s2 [] bg = Inr (True, bg)"
| "seed_is_equal limits files f1 s1 f2 s2 (k # offsets) bg =
     bindr (tokens_equal limits files f1 (s1 + k) f2 (s2 + k) bg) (\<lambda>(same, bg').
     if same then seed_is_equal limits files f1 s1 f2 s2 offsets bg' else Inr (False, bg'))"

section \<open>Extension\<close>

definition backward_limit :: "nat \<Rightarrow> nat \<Rightarrow> nat \<Rightarrow> nat \<Rightarrow> nat \<Rightarrow> nat" where
  "backward_limit window_size f1 s1 f2 s2 =
     (if f1 = f2 then min (min s1 s2) (nat (int s2 - int s1 - int window_size)) else min s1 s2)"

text \<open>The loop, with the number of steps still allowed.\<close>

fun go_backward ::
    "dup_limits \<Rightarrow> dup_file list \<Rightarrow> nat \<Rightarrow> nat \<Rightarrow> nat \<Rightarrow> nat \<Rightarrow> nat \<Rightarrow> nat \<Rightarrow> nat counted" where
  "go_backward limits files f1 s1 f2 s2 backward 0 bg = Inr (backward, bg)"
| "go_backward limits files f1 s1 f2 s2 backward (Suc allowed) bg =
     (let p1 = s1 - backward - 1; p2 = s2 - backward - 1 in
      if region_at files f1 p1 \<noteq> region_at files f1 s1 \<or> region_at files f2 p2 \<noteq> region_at files f2 s2
      then Inr (backward, bg)
      else
        bindr (tokens_equal limits files f1 p1 f2 p2 bg) (\<lambda>(same, bg').
        if same then go_backward limits files f1 s1 f2 s2 (Suc backward) allowed bg'
        else Inr (backward, bg')))"

definition extend_backward ::
    "dup_limits \<Rightarrow> dup_file list \<Rightarrow> nat \<Rightarrow> nat \<Rightarrow> nat \<Rightarrow> nat \<Rightarrow> nat \<Rightarrow> nat counted" where
  "extend_backward limits files window_size f1 s1 f2 s2 =
     go_backward limits files f1 s1 f2 s2 0 (backward_limit window_size f1 s1 f2 s2)"

definition in_bounds :: "dup_file list \<Rightarrow> nat \<Rightarrow> nat \<Rightarrow> bool" where
  "in_bounds files i position = (position < length (df_indexed (files ! i)))"

definition may_grow :: "dup_file list \<Rightarrow> nat \<Rightarrow> nat \<Rightarrow> nat \<Rightarrow> nat \<Rightarrow> nat \<Rightarrow> bool" where
  "may_grow files f1 s1 f2 s2 extent =
     (in_bounds files f1 (s1 + extent) \<and> in_bounds files f2 (s2 + extent)
      \<and> (f1 = f2 \<longrightarrow> int extent < int s2 - int s1)
      \<and> region_at files f1 (s1 + extent) = region_at files f1 s1
      \<and> region_at files f2 (s2 + extent) = region_at files f2 s2)"

function extend_forward ::
    "dup_limits \<Rightarrow> dup_file list \<Rightarrow> nat \<Rightarrow> nat \<Rightarrow> nat \<Rightarrow> nat \<Rightarrow> nat \<Rightarrow> nat counted" where
  "extend_forward limits files f1 s1 f2 s2 extent bg =
     (if \<not> may_grow files f1 s1 f2 s2 extent then Inr (extent, bg)
      else
        bindr (tokens_equal limits files f1 (s1 + extent) f2 (s2 + extent) bg) (\<lambda>(same, bg').
        if same then extend_forward limits files f1 s1 f2 s2 (Suc extent) bg' else Inr (extent, bg')))"
  by pat_completeness auto
termination
  by (relation "measure (\<lambda>(limits, files, f1, s1, f2, s2, extent, bg).
      length (df_indexed (files ! f1)) - (s1 + extent))") (auto simp: may_grow_def in_bounds_def)

declare extend_forward.simps [simp del]

definition extend_seed ::
    "dup_limits \<Rightarrow> dup_file list \<Rightarrow> nat \<Rightarrow> nat \<Rightarrow> nat \<Rightarrow> nat \<Rightarrow> nat \<Rightarrow> (nat \<times> nat \<times> nat) counted" where
  "extend_seed limits files window_size f1 s1 f2 s2 bg =
     bindr (extend_backward limits files window_size f1 s1 f2 s2 bg) (\<lambda>(backward, bg').
     bindr (extend_forward limits files f1 (s1 - backward) f2 (s2 - backward) (window_size + backward) bg')
       (\<lambda>(extent, bg''). Inr ((s1 - backward, s2 - backward, extent), bg'')))"

section \<open>Matches\<close>

definition line_at :: "dup_file list \<Rightarrow> nat \<Rightarrow> nat \<Rightarrow> int" where
  "line_at files i position = fst (df_indexed (files ! i) ! position)"

definition location_match :: "dup_file list \<Rightarrow> nat \<Rightarrow> nat \<Rightarrow> nat \<Rightarrow> nat \<Rightarrow> nat \<Rightarrow> clone_match" where
  "location_match files f1 start1 f2 start2 extent =
     \<lparr>cm_file1 = f1, cm_start1 = line_at files f1 start1, cm_end1 = line_at files f1 (start1 + extent - 1),
      cm_file2 = f2, cm_start2 = line_at files f2 start2, cm_end2 = line_at files f2 (start2 + extent - 1),
      cm_size = extent\<rparr>"

type_synonym coverage = "nat \<times> nat \<times> int \<Rightarrow> (nat \<times> nat) list"

text \<open>One seed pair: the matches, what they cover by alignment, and the budget.\<close>

definition match_seed ::
    "dup_limits \<Rightarrow> dup_file list \<Rightarrow> nat \<Rightarrow> (nat \<times> nat) \<times> nat \<times> nat \<Rightarrow> clone_match list \<times> coverage
     \<Rightarrow> (clone_match list \<times> coverage) counted" where
  "match_seed limits files window_size seed st bg =
     (case seed of ((f1, s1), (f2, s2)) \<Rightarrow>
      case st of (matches, covered) \<Rightarrow>
      bindr (accepts_seed_pair limits window_size f1 s1 f2 s2 bg) (\<lambda>(accepted, bg1).
      if \<not> accepted then Inr (st, bg1)
      else
        (let alignment = (f1, f2, int s2 - int s1) in
         if interval_contains (covered alignment) s1 then Inr (st, bg1)
         else
           bindr (seed_is_equal limits files f1 s1 f2 s2 [0..<window_size] bg1) (\<lambda>(same, bg2).
           if \<not> same then Inr (st, bg2)
           else
             bindr (extend_seed limits files window_size f1 s1 f2 s2 bg2) (\<lambda>((start1, start2, extent), bg3).
             bindr (append_bounded matches (location_match files f1 start1 f2 start2 extent) limits) (\<lambda>matches'.
             Inr ((matches', covered(alignment :=
                     add_interval (covered alignment) start1 (start1 + extent - 1))), bg3)))))))"

fun match_seeds ::
    "dup_limits \<Rightarrow> dup_file list \<Rightarrow> nat \<Rightarrow> ((nat \<times> nat) \<times> nat \<times> nat) list \<Rightarrow> clone_match list \<times> coverage
     \<Rightarrow> (clone_match list \<times> coverage) counted" where
  "match_seeds limits files window_size [] st bg = Inr (st, bg)"
| "match_seeds limits files window_size (seed # seeds) st bg =
     bindr (match_seed limits files window_size seed st bg) (\<lambda>(st', bg').
     match_seeds limits files window_size seeds st' bg')"

definition find_raw_matches ::
    "(string \<Rightarrow> hash) \<Rightarrow> dup_file list \<Rightarrow> nat \<Rightarrow> dup_limits \<Rightarrow> clone_match list result" where
  "find_raw_matches record_hash files window_size limits =
     bindr (validate_match_inputs files window_size) (\<lambda>_.
     bindr (build_window_map record_hash limits window_size 0 files []) (\<lambda>windows.
     bindr (match_seeds limits files window_size (seed_pairs windows) ([], \<lambda>a. []) no_budget_spent)
       (\<lambda>((matches, covered), bg). Inr matches)))"

definition overlaps :: "clone_match \<Rightarrow> clone_match \<Rightarrow> bool" where
  "overlaps m kept =
     (cm_file1 m = cm_file1 kept \<and> cm_file2 m = cm_file2 kept
      \<and> \<not> (cm_end1 m < cm_start1 kept \<or> cm_end1 kept < cm_start1 m)
      \<and> \<not> (cm_end2 m < cm_start2 kept \<or> cm_end2 kept < cm_start2 m))"

fun keep_matches :: "clone_match list \<Rightarrow> clone_match list \<Rightarrow> clone_match list" where
  "keep_matches filtered [] = filtered"
| "keep_matches filtered (m # ms) =
     keep_matches (if list_ex (overlaps m) filtered then filtered else filtered @ [m]) ms"

definition filter_subsumed_matches :: "clone_match list \<Rightarrow> clone_match list" where
  "filter_subsumed_matches raw = keep_matches [] (sort_key (\<lambda>m. - int (cm_size m)) raw)"

end
