(* ===== verification/Dup_Clustering.thy ===== *)
theory Dup_Clustering
  imports Dup_Matching "HOL-Library.Product_Lexorder"
begin

text \<open>
  From pairwise matches to clone groups (src/src/ici/analysis/_dup_clustering.py).  \<open>iter\<close> is the
  order in which the interpreter iterates over a set of locations.
\<close>

section \<open>Records\<close>

type_synonym location = "nat \<times> int \<times> int"

record clone_group =
  gr_index :: nat
  gr_line_count :: nat
  gr_fingerprint :: string
  gr_language :: string
  gr_snippet :: string
  gr_locations :: "location list"

record duplicate_clustering =
  du_groups :: "clone_group list"
  du_duplicated_positions :: "(nat \<times> int) set"

definition FINGERPRINT_ALGORITHM :: string where
  "FINGERPRINT_ALGORITHM = ''sha256/type2-region-v2''"

section \<open>The graph of matches\<close>

definition loc1 :: "clone_match \<Rightarrow> location" where
  "loc1 m = (cm_file1 m, cm_start1 m, cm_end1 m)"

definition loc2 :: "clone_match \<Rightarrow> location" where
  "loc2 m = (cm_file2 m, cm_start2 m, cm_end2 m)"

type_synonym adjacency_sets = "(location \<times> location list) list"

definition link :: "location \<Rightarrow> location \<Rightarrow> adjacency_sets \<Rightarrow> adjacency_sets" where
  "link a b adjacency = dict_set a (List.insert b (dict_values adjacency a)) adjacency"

definition longest :: "(location \<times> nat) list \<Rightarrow> location \<Rightarrow> nat" where
  "longest lengths loc = (case map_of lengths loc of Some k \<Rightarrow> k | None \<Rightarrow> 0)"

definition note_length :: "location \<Rightarrow> nat \<Rightarrow> (location \<times> nat) list \<Rightarrow> (location \<times> nat) list" where
  "note_length loc k lengths = dict_set loc (max (longest lengths loc) k) lengths"

definition add_match ::
    "clone_match \<Rightarrow> adjacency_sets \<times> (location \<times> nat) list \<Rightarrow> adjacency_sets \<times> (location \<times> nat) list" where
  "add_match m st =
     (case st of (adjacency, lengths) \<Rightarrow>
      (link (loc2 m) (loc1 m) (link (loc1 m) (loc2 m) adjacency),
       note_length (loc2 m) (cm_size m) (note_length (loc1 m) (cm_size m) lengths)))"

section \<open>Components\<close>

text \<open>The unvisited neighbours go on the queue, whose last element is popped next; here it is the head.\<close>

fun push_new :: "location list \<Rightarrow> location list \<times> location list \<Rightarrow> location list \<times> location list" where
  "push_new [] st = st"
| "push_new (n # ns) (visited, queue) =
     push_new ns (if n \<in> set visited then (visited, queue) else (n # visited, n # queue))"

definition unvisited :: "adjacency_sets \<Rightarrow> location list \<Rightarrow> location set" where
  "unvisited adjacency visited = (\<Union>p \<in> set adjacency. set (snd p)) - set visited"

lemma dict_values_covered: "set (dict_values g x) \<subseteq> (\<Union>p \<in> set g. set (snd p))"
proof (cases "map_of g x")
  case (Some vs)
  then have "(x, vs) \<in> set g" by (rule map_of_SomeD)
  then show ?thesis using Some by (force simp: dict_values_def)
qed (simp add: dict_values_def)

lemma push_new_parts:
  "set (fst (push_new ns (visited, queue))) = set visited \<union> set ns"
  "\<exists>new. snd (push_new ns (visited, queue)) = new @ queue \<and> fst (push_new ns (visited, queue)) = new @ visited
     \<and> set new = set ns - set visited \<and> distinct new"
proof -
  have "\<exists>new. snd (push_new ns (visited, queue)) = new @ queue \<and> fst (push_new ns (visited, queue)) = new @ visited
     \<and> set new = set ns - set visited \<and> distinct new" for visited queue
  proof (induction ns arbitrary: visited queue)
    case (Cons n ns)
    show ?case
    proof (cases "n \<in> set visited")
      case True
      then show ?thesis using Cons.IH [of visited queue] by auto
    next
      case False
      obtain new where "snd (push_new ns (n # visited, n # queue)) = new @ n # queue"
          "fst (push_new ns (n # visited, n # queue)) = new @ n # visited"
          "set new = set ns - set (n # visited)" "distinct new"
        using Cons.IH [of "n # visited" "n # queue"] by blast
      then show ?thesis using False by (intro exI [of _ "new @ [n]"]) auto
    qed
  qed simp
  then show "\<exists>new. snd (push_new ns (visited, queue)) = new @ queue \<and> fst (push_new ns (visited, queue)) = new @ visited
     \<and> set new = set ns - set visited \<and> distinct new" .
  then show "set (fst (push_new ns (visited, queue))) = set visited \<union> set ns" by force
qed

text \<open>A bound on the steps left: every neighbour can be pushed once more, and the queue is emptied.\<close>

function collect ::
    "adjacency_sets \<Rightarrow> location list \<Rightarrow> location list \<Rightarrow> location list \<Rightarrow> location list \<times> location list" where
  "collect adjacency visited [] component = (component, visited)"
| "collect adjacency visited (current # queue) component =
     (case push_new (dict_values adjacency current) (visited, queue) of
        (visited', queue') \<Rightarrow> collect adjacency visited' queue' (component @ [current]))"
  by pat_completeness auto
termination
proof (relation "measure (\<lambda>(adjacency, visited, queue, component).
    card (unvisited adjacency visited) + length queue)", goal_cases)
  case (2 adjacency visited current queue component visited' queue')
  obtain new where new: "queue' = new @ queue" "visited' = new @ visited"
      "set new = set (dict_values adjacency current) - set visited" "distinct new"
    using push_new_parts(2) [of "dict_values adjacency current" visited queue]
    unfolding 2 [symmetric] fst_conv snd_conv by blast
  have "set new \<subseteq> unvisited adjacency visited"
    using new(3) dict_values_covered [of adjacency current] by (auto simp: unvisited_def)
  moreover have "unvisited adjacency visited' = unvisited adjacency visited - set new"
    using new(2) by (auto simp: unvisited_def)
  moreover have "finite (unvisited adjacency visited)" by (simp add: unvisited_def)
  ultimately have "card (unvisited adjacency visited') + card (set new) = card (unvisited adjacency visited)"
    by (metis card_Diff_subset card_mono finite_set le_add_diff_inverse2)
  then have "card (unvisited adjacency visited') + length queue' = card (unvisited adjacency visited) + length queue"
    using new(1,4) by (simp add: distinct_card)
  then show ?case by simp
qed simp

fun collect_all ::
    "adjacency_sets \<Rightarrow> location list \<Rightarrow> location list \<Rightarrow> location list list" where
  "collect_all adjacency visited [] = []"
| "collect_all adjacency visited (node # nodes) =
     (if node \<in> set visited then collect_all adjacency visited nodes
      else
        (case collect adjacency (node # visited) [node] [] of (component, visited') \<Rightarrow>
         component # collect_all adjacency visited' nodes))"

section \<open>Groups\<close>

definition place_key :: "dup_file list \<Rightarrow> location \<Rightarrow> string \<times> int \<times> int" where
  "place_key files loc = (df_path (files ! fst loc), snd loc)"

definition group_length :: "(location \<times> nat) list \<Rightarrow> location list \<Rightarrow> nat" where
  "group_length lengths component = Max (longest lengths ` set component)"

definition cluster_key ::
    "dup_file list \<Rightarrow> (location \<times> nat) list \<Rightarrow> location list \<Rightarrow> int \<times> int \<times> (string \<times> int \<times> int) list" where
  "cluster_key files lengths component =
     (- int (group_length lengths component), - int (length component), map (place_key files) component)"

definition sorted_clusters ::
    "dup_file list \<Rightarrow> (location \<times> nat) list \<Rightarrow> location list list \<Rightarrow> location list list" where
  "sorted_clusters files lengths clusters =
     sort_key (cluster_key files lengths) (map (sort_key (place_key files)) clusters)"

definition representative :: "dup_file list \<Rightarrow> (location \<times> nat) list \<Rightarrow> location list \<Rightarrow> location" where
  "representative files lengths component =
     hd (sort_key (\<lambda>loc. (- int (longest lengths loc), place_key files loc)) component)"

definition normalized_region :: "dup_file list \<Rightarrow> location \<Rightarrow> string" where
  "normalized_region files loc =
     (case loc of (f, s, e) \<Rightarrow>
      join [CHR 0x0A] (map snd (filter (\<lambda>p. s \<le> fst p \<and> fst p \<le> e) (df_indexed (files ! f)))))"

definition rstrip :: "string \<Rightarrow> string" where
  "rstrip s = concat (rev (dropWhile is_space (rev (code_points s))))"

definition snippet_at :: "dup_file list \<Rightarrow> location \<Rightarrow> string" where
  "snippet_at files loc =
     (case loc of (f, s, e) \<Rightarrow>
      rstrip (concat (drop (nat (s - 1)) (take (nat e) (df_raw_lines (files ! f))))))"

definition clone_fingerprint ::
    "(string \<Rightarrow> string) \<Rightarrow> dup_file list \<Rightarrow> location \<Rightarrow> string" where
  "clone_fingerprint sha256 files loc =
     sha256 (FINGERPRINT_ALGORITHM @ [CHR 0x00] @ df_language (files ! fst loc) @ [CHR 0x00]
       @ normalized_region files loc)"

definition group_of ::
    "(string \<Rightarrow> string) \<Rightarrow> dup_file list \<Rightarrow> (location \<times> nat) list \<Rightarrow> nat \<Rightarrow> location list \<Rightarrow> clone_group" where
  "group_of sha256 files lengths index component =
     (let rep = representative files lengths component in
      \<lparr>gr_index = index, gr_line_count = group_length lengths component,
       gr_fingerprint = clone_fingerprint sha256 files rep,
       gr_language = df_language (files ! fst rep), gr_snippet = snippet_at files rep,
       gr_locations = component\<rparr>)"

definition code_lines :: "dup_file list \<Rightarrow> nat \<Rightarrow> int set" where
  "code_lines files f = fst ` set (df_indexed (files ! f))"

definition duplicated_in :: "dup_file list \<Rightarrow> location list \<Rightarrow> (nat \<times> int) set" where
  "duplicated_in files component =
     (\<Union>(f, s, e) \<in> set (tl component). Pair f ` {line \<in> code_lines files f. s \<le> line \<and> line \<le> e})"

definition cluster_matches ::
    "(string \<Rightarrow> string) \<Rightarrow> (location list \<Rightarrow> location list) \<Rightarrow> clone_match list \<Rightarrow> dup_file list
     \<Rightarrow> duplicate_clustering" where
  "cluster_matches sha256 iter matches files =
     (case fold add_match matches ([], []) of (adjacency, lengths) \<Rightarrow>
      let clusters = sorted_clusters files lengths
            (collect_all (map (\<lambda>(n, vs). (n, iter vs)) adjacency) [] (sort (map fst adjacency))) in
      \<lparr>du_groups = map (\<lambda>(i, c). group_of sha256 files lengths (Suc i) c) (enumerate 0 clusters),
       du_duplicated_positions = (\<Union>c \<in> set clusters. duplicated_in files c)\<rparr>)"

end
