(* ===== verification/Analysis_Sources.thy ===== *)
theory Analysis_Sources
  imports Paths Import_Graph Events
begin

text \<open>
  The intake of sources for the analyses that read them (src/src/ici/analysis/_source_inputs.py), and
  the stable read of one file (src/src/ici/core/_compile_db_paths.py).  Case folding, the resolution
  of the project root and what the operating system answers are arguments.
\<close>

section \<open>Reading one file\<close>

record file_stat =
  st_regular :: bool
  st_dev :: int
  st_ino :: int
  st_size :: nat
  st_mtime_ns :: int

text \<open>
  What the system answers during one read: \<open>None\<close> is an \<open>OSError\<close>.  A list of chunks is what the
  successive calls of \<open>os.read\<close> return until they return nothing; \<open>op_named\<close> is the file the path
  names at the end, if it still resolves inside the root.
\<close>

record open_file =
  op_before :: "file_stat option"
  op_first :: "string option list"
  op_after :: "file_stat option"
  op_second :: "string option list"
  op_final :: "file_stat option"
  op_named :: "file_stat option"

datatype open_result = Missing | Unopened | Refused string string | Opened open_file

datatype read_error = FileMissing | ReadError string string

type_synonym 'a reading = "read_error + 'a"

definition unreadable :: read_error where
  "unreadable = ReadError ''unreadable'' ''The file could not be read safely.''"

definition too_large :: read_error where
  "too_large = ReadError ''too-large'' ''The file exceeds the bounded input size.''"

definition changed :: "string \<Rightarrow> read_error" where
  "changed message = ReadError ''changed'' message"

definition CHANGED_WHILE_READ :: string where
  "CHANGED_WHILE_READ = ''The file changed while it was being read.''"

definition answered :: "'a option \<Rightarrow> 'a reading" where
  "answered v = (case v of None \<Rightarrow> Inl unreadable | Some x \<Rightarrow> Inr x)"

fun read_payload :: "nat \<Rightarrow> string \<Rightarrow> string option list \<Rightarrow> string reading" where
  "read_payload limit payload [] = raise_if (limit < length payload) too_large (Inr payload)"
| "read_payload limit payload (chunk # chunks) =
     (if limit < length payload then Inl too_large
      else bindr (answered chunk) (\<lambda>c. read_payload limit (payload @ c) chunks))"

definition file_identity :: "file_stat \<Rightarrow> int \<times> int \<times> nat \<times> int" where
  "file_identity st = (st_dev st, st_ino st, st_size st, st_mtime_ns st)"

definition read_opened :: "nat \<Rightarrow> bool \<Rightarrow> open_file \<Rightarrow> string reading" where
  "read_opened limit in_root op =
     bindr (answered (op_before op)) (\<lambda>before.
     raise_if (\<not> st_regular before) (ReadError ''not-file'' ''The selected path is not a regular file.'')
    (raise_if (limit < st_size before) too_large
    (bindr (read_payload limit [] (op_first op)) (\<lambda>payload.
     bindr (answered (op_after op)) (\<lambda>after.
     raise_if (file_identity before \<noteq> file_identity after \<or> length payload \<noteq> st_size after)
       (changed CHANGED_WHILE_READ)
    (bindr (read_payload limit [] (op_second op)) (\<lambda>repeated.
     bindr (answered (op_final op)) (\<lambda>final.
     raise_if (repeated \<noteq> payload \<or> file_identity final \<noteq> file_identity after) (changed CHANGED_WHILE_READ)
    (if \<not> in_root then Inr payload
     else
       (case op_named op of
          None \<Rightarrow> Inl (changed ''The contained file path changed while it was being read.'')
        | Some named \<Rightarrow>
            raise_if (file_identity named \<noteq> file_identity final)
              (changed ''The contained file identity changed while it was being read.'')
            (Inr payload)))))))))))"

definition read_bounded_regular :: "nat \<Rightarrow> bool \<Rightarrow> open_result \<Rightarrow> string reading" where
  "read_bounded_regular limit in_root open_result =
     (case open_result of
        Missing \<Rightarrow> Inl FileMissing
      | Unopened \<Rightarrow> Inl (ReadError ''unreadable'' ''The file could not be opened safely.'')
      | Refused code message \<Rightarrow> Inl (ReadError code message)
      | Opened op \<Rightarrow> read_opened limit in_root op)"

section \<open>Sources\<close>

definition MAX_ANALYSIS_SOURCE_FILES :: int where "MAX_ANALYSIS_SOURCE_FILES = 2048"

definition MAX_ANALYSIS_SOURCE_CANDIDATES :: int where "MAX_ANALYSIS_SOURCE_CANDIDATES = 8192"

definition MAX_ANALYSIS_SOURCE_BYTES :: int where "MAX_ANALYSIS_SOURCE_BYTES = 8 * 1024 * 1024"

definition MAX_ANALYSIS_INVENTORY_BYTES :: int where "MAX_ANALYSIS_INVENTORY_BYTES = 64 * 1024 * 1024"

definition LANGUAGES :: "(string \<times> string) list" where
  "LANGUAGES = [(''.c'', ''cpp''), (''.cc'', ''cpp''), (''.cpp'', ''cpp''), (''.cxx'', ''cpp''),
     (''.h'', ''cpp''), (''.hh'', ''cpp''), (''.hpp'', ''cpp''), (''.hxx'', ''cpp''), (''.moc'', ''cpp''),
     (''.py'', ''python'')]"

definition GENERATED_PARTS :: "string list" where
  "GENERATED_PARTS = [''generated'', ''autogen'']"

definition VENDOR_PARTS :: "string list" where
  "VENDOR_PARTS = [''_deps'', ''deps'', ''extern'', ''external'', ''node_modules'', ''subprojects'',
     ''third-party'', ''third_party'', ''vendor'']"

record analysis_source =
  as_path :: pure_path
  as_file_path :: string
  as_language :: string
  as_text :: string
  as_byte_size :: nat

text \<open>\<open>text.splitlines(keepends=True)\<close>.\<close>

function lines_kept :: "string \<Rightarrow> string \<Rightarrow> string list" where
  "lines_kept cur [] = (if cur = [] then [] else [cur])"
| "lines_kept cur (c # cs) =
     (if break_length (c # cs) = 0 then lines_kept (cur @ [c]) cs
      else (cur @ take (break_length (c # cs)) (c # cs))
             # lines_kept [] (drop (break_length (c # cs) - 1) cs))"
  by pat_completeness auto
termination by (relation "measure (\<lambda>(cur, s). length s)") auto

definition source_lines :: "analysis_source \<Rightarrow> string list" where
  "source_lines source = lines_kept [] (as_text source)"

record excluded_source =
  ex_file_path :: string
  ex_reasons :: "string list"

definition exclusion_reason :: "excluded_source \<Rightarrow> string" where
  "exclusion_reason item = hd (ex_reasons item)"

record source_inventory =
  in_sources :: "analysis_source list"
  in_excluded :: "excluded_source list"
  in_total_bytes :: nat

definition count_reason :: "string \<Rightarrow> (string \<times> nat) list \<Rightarrow> (string \<times> nat) list" where
  "count_reason reason counts =
     dict_set reason ((case map_of counts reason of None \<Rightarrow> 0 | Some n \<Rightarrow> n) + 1) counts"

definition exclusion_counts :: "source_inventory \<Rightarrow> (string \<times> nat) list" where
  "exclusion_counts inventory =
     sort_key fst (fold count_reason (concat (map ex_reasons (in_excluded inventory))) [])"

text \<open>\<open>os.path.abspath\<close> of an absolute path: the root is its own parent.\<close>

fun lexical_names :: "string list \<Rightarrow> string list \<Rightarrow> string list" where
  "lexical_names acc [] = rev acc"
| "lexical_names acc (name # names) =
     (if name = ''..'' then lexical_names (tl acc) names else lexical_names (name # acc) names)"

definition abspath :: "pure_path \<Rightarrow> pure_path" where
  "abspath p = PurePath (path_root p) (lexical_names [] (path_names p))"

definition relative_path :: "pure_path \<Rightarrow> pure_path \<Rightarrow> (pure_path \<times> string) result" where
  "relative_path base source =
     (let candidate = abspath (if absolute source then source else slash base source) in
      case relative_to candidate base of
        None \<Rightarrow>
          Inl (AnalysisSourceError ''outside-project'' ''Selected analysis source is outside the project root'' [])
      | Some relative \<Rightarrow>
          raise_if (path_parts relative = [])
            (AnalysisSourceError ''not-file'' ''Selected analysis source is not a project file'' [])
          (Inr (candidate, path_text relative)))"

definition is_generated :: "string list \<Rightarrow> string \<Rightarrow> bool" where
  "is_generated directories name =
     (list_ex (\<lambda>part. part \<in> set GENERATED_PARTS \<or> endswith part ''_autogen'') directories
      \<or> startswith name ''moc_'' \<or> startswith name ''qrc_'' \<or> startswith name ''ui_''
      \<or> startswith name ''mocs_compilation'' \<or> endswith name ''.moc'')"

definition analysis_exclusion_reasons :: "(string \<Rightarrow> string) \<Rightarrow> string \<Rightarrow> string list" where
  "analysis_exclusion_reasons casefold p =
     (let parts = map casefold (path_parts (pure p));
          directories = butlast parts;
          name = (if parts = [] then [] else last parts) in
      (if list_ex (\<lambda>part. part \<in> set VENDOR_PARTS) directories then [''vendor''] else [])
      @ (if is_generated directories name then [''generated''] else []))"

definition analysis_exclusion_reason :: "(string \<Rightarrow> string) \<Rightarrow> string \<Rightarrow> string option" where
  "analysis_exclusion_reason casefold p =
     (case analysis_exclusion_reasons casefold p of [] \<Rightarrow> None | r # rs \<Rightarrow> Some r)"

fun positive_limit :: "string \<Rightarrow> pyval \<Rightarrow> int result" where
  "positive_limit name (PInt i) =
     (if i \<le> 0 then Inl (AnalysisSourceError ''invalid-limit'' ''{} must be a positive integer'' [name]) else Inr i)"
| "positive_limit name v = Inl (AnalysisSourceError ''invalid-limit'' ''{} must be a positive integer'' [name])"

text \<open>\<open>path.suffix\<close>.\<close>

definition path_suffix :: "pure_path \<Rightarrow> string" where
  "path_suffix p =
     (if path_names p = [] then []
      else drop (length (without_suffix (last (path_names p)))) (last (path_names p)))"

text \<open>Strict UTF-8: which byte strings decode.\<close>

definition byte_between :: "char \<Rightarrow> nat \<Rightarrow> nat \<Rightarrow> bool" where
  "byte_between c low high = (low \<le> (of_char c :: nat) \<and> (of_char c :: nat) \<le> high)"

definition utf8_head :: "string \<Rightarrow> nat" where
  "utf8_head s =
     (case s of
        [] \<Rightarrow> 0
      | c # cs \<Rightarrow>
          let next = (\<lambda>i low high. i < length cs \<and> byte_between (cs ! i) low high) in
          if byte_between c 0 0x7F then 1
          else if byte_between c 0xC2 0xDF \<and> next 0 0x80 0xBF then 2
          else if (byte_between c 0xE0 0xE0 \<and> next 0 0xA0 0xBF
                   \<or> (byte_between c 0xE1 0xEC \<or> byte_between c 0xEE 0xEF) \<and> next 0 0x80 0xBF
                   \<or> byte_between c 0xED 0xED \<and> next 0 0x80 0x9F) \<and> next 1 0x80 0xBF then 3
          else if (byte_between c 0xF0 0xF0 \<and> next 0 0x90 0xBF
                   \<or> byte_between c 0xF1 0xF3 \<and> next 0 0x80 0xBF
                   \<or> byte_between c 0xF4 0xF4 \<and> next 0 0x80 0x8F)
                  \<and> next 1 0x80 0xBF \<and> next 2 0x80 0xBF then 4
          else 0)"

function decodes :: "string \<Rightarrow> bool" where
  "decodes s = (if s = [] then True else if utf8_head s = 0 then False else decodes (drop (utf8_head s) s))"
  by pat_completeness auto
termination by (relation "measure length") auto

declare decodes.simps [simp del]

section \<open>The inventory\<close>

text \<open>The selected candidates, each path once.\<close>

fun select_candidates ::
    "pure_path \<Rightarrow> int \<Rightarrow> (pure_path \<times> string) list \<Rightarrow> pure_path list \<Rightarrow> (pure_path \<times> string) list result" where
  "select_candidates base max_candidates selected [] = Inr selected"
| "select_candidates base max_candidates selected (source # paths) =
     bindr (relative_path base source) (\<lambda>(candidate, relative).
     if relative \<in> snd ` set selected then select_candidates base max_candidates selected paths
     else
       raise_if (max_candidates < int (length (selected @ [(candidate, relative)])))
         (AnalysisSourceError ''too-many-candidates''
            ''Analysis source candidate count exceeds the bounded limit ({})'' [show_int max_candidates])
         (select_candidates base max_candidates (selected @ [(candidate, relative)]) paths))"

record source_limits =
  sl_files :: int
  sl_candidates :: int
  sl_file_bytes :: int
  sl_total_bytes :: int

definition read_source ::
    "(pure_path \<Rightarrow> open_result) \<Rightarrow> source_limits \<Rightarrow> pure_path \<Rightarrow> string result" where
  "read_source opened limits candidate =
     (case read_bounded_regular (nat (sl_file_bytes limits)) True (opened candidate) of
        Inr payload \<Rightarrow> Inr payload
      | Inl FileMissing \<Rightarrow>
          Inl (AnalysisSourceError ''missing'' ''Analysis source disappeared before it could be read'' [])
      | Inl (ReadError code message) \<Rightarrow>
          Inl (AnalysisSourceError code ''Analysis source could not be read safely: {}'' [message]))"

definition blocked_reasons :: "(string \<Rightarrow> string) \<Rightarrow> bool \<Rightarrow> bool \<Rightarrow> string \<Rightarrow> string list" where
  "blocked_reasons casefold include_generated include_vendor relative =
     filter (\<lambda>reason. reason = ''generated'' \<and> \<not> include_generated \<or> reason = ''vendor'' \<and> \<not> include_vendor)
       (analysis_exclusion_reasons casefold relative)"

fun take_sources ::
    "(string \<Rightarrow> string) \<Rightarrow> (pure_path \<Rightarrow> open_result) \<Rightarrow> bool \<Rightarrow> bool \<Rightarrow> source_limits
     \<Rightarrow> source_inventory \<Rightarrow> (pure_path \<times> string) list \<Rightarrow> source_inventory result" where
  "take_sources casefold opened include_generated include_vendor limits taken [] = Inr taken"
| "take_sources casefold opened include_generated include_vendor limits taken ((candidate, relative) # selected) =
     (let blocked = blocked_reasons casefold include_generated include_vendor relative in
      if blocked \<noteq> []
      then take_sources casefold opened include_generated include_vendor limits
             (taken\<lparr>in_excluded := in_excluded taken @ [\<lparr>ex_file_path = relative, ex_reasons = blocked\<rparr>]\<rparr>) selected
      else
        raise_if (sl_files limits \<le> int (length (in_sources taken)))
          (AnalysisSourceError ''too-many-files''
             ''Owned analysis source count exceeds the bounded limit ({})'' [show_int (sl_files limits)])
        (case map_of LANGUAGES (casefold (path_suffix candidate)) of
           None \<Rightarrow>
             Inl (AnalysisSourceError ''unsupported-language'' ''Unsupported analysis source type: {}''
               [if path_suffix candidate = [] then ''<none>'' else path_suffix candidate])
         | Some language \<Rightarrow>
             bindr (read_source opened limits candidate) (\<lambda>payload.
             let total_bytes = in_total_bytes taken + length payload in
             raise_if (sl_total_bytes limits < int total_bytes)
               (AnalysisSourceError ''inventory-too-large''
                  ''Analysis source inventory exceeds the bounded limit ({} bytes)''
                  [show_int (sl_total_bytes limits)])
            (raise_if (\<not> decodes payload)
               (AnalysisSourceError ''invalid-utf8'' ''Analysis source is not valid UTF-8'' [])
            (raise_if (CHR 0x00 \<in> set payload)
               (AnalysisSourceError ''invalid-text'' ''Analysis source contains a NUL character'' [])
            (take_sources casefold opened include_generated include_vendor limits
               (taken\<lparr>in_sources := in_sources taken @ [\<lparr>as_path = candidate, as_file_path = relative,
                       as_language = language, as_text = payload, as_byte_size = length payload\<rparr>],
                    in_total_bytes := total_bytes\<rparr>) selected))))))"

definition source_limits_of :: "pyval \<Rightarrow> pyval \<Rightarrow> pyval \<Rightarrow> pyval \<Rightarrow> source_limits result" where
  "source_limits_of max_files max_candidates max_file_bytes max_total_bytes =
     bindr (positive_limit ''max_files'' max_files) (\<lambda>fs.
     bindr (positive_limit ''max_candidates'' max_candidates) (\<lambda>cs.
     bindr (positive_limit ''max_file_bytes'' max_file_bytes) (\<lambda>fb.
     bindr (positive_limit ''max_total_bytes'' max_total_bytes) (\<lambda>tb.
     Inr \<lparr>sl_files = fs, sl_candidates = cs, sl_file_bytes = fb, sl_total_bytes = tb\<rparr>))))"

definition read_analysis_sources ::
    "(string \<Rightarrow> string) \<Rightarrow> (pure_path \<Rightarrow> pure_path result) \<Rightarrow> (pure_path \<Rightarrow> open_result) \<Rightarrow> bool \<Rightarrow> bool
     \<Rightarrow> pyval \<Rightarrow> pyval \<Rightarrow> pyval \<Rightarrow> pyval \<Rightarrow> pure_path \<Rightarrow> pure_path list \<Rightarrow> source_inventory result" where
  "read_analysis_sources casefold resolve opened include_generated include_vendor
       max_files max_candidates max_file_bytes max_total_bytes base paths =
     bindr (source_limits_of max_files max_candidates max_file_bytes max_total_bytes) (\<lambda>limits.
     bindr (resolve base) (\<lambda>project_root.
     bindr (select_candidates project_root (sl_candidates limits) [] paths) (\<lambda>selected.
     take_sources casefold opened include_generated include_vendor limits
       \<lparr>in_sources = [], in_excluded = [], in_total_bytes = 0\<rparr> (sort_key snd selected))))"

end
