(* ===== verification/Cpp_Lexer.thy ===== *)
theory Cpp_Lexer
  imports PyValue
begin

text \<open>
  The C++ lexer of duplicate detection (src/src/ici/analysis/_cpp_dup_tokenization.py).  A text is
  the list of its characters, each the bytes of one code point; a position in it is what has been
  consumed.  What the interpreter knows of Unicode is a record of functions.
\<close>

section \<open>Characters\<close>

record unicode =
  un_alpha :: "string \<Rightarrow> bool"
  un_alnum :: "string \<Rightarrow> bool"
  un_is_upper :: "string \<Rightarrow> bool"
  un_upper :: "string \<Rightarrow> string"

type_synonym cpp_text = "string list"

definition LF :: string where
  "LF = [CHR 0x0A]"

definition CR :: string where
  "CR = [CHR 0x0D]"

definition BACKSLASH :: string where
  "BACKSLASH = [CHR 0x5C]"

text \<open>\<open>text.startswith(s, index)\<close> for an ASCII string.\<close>

definition at_text :: "string \<Rightarrow> cpp_text \<Rightarrow> bool" where
  "at_text s cs = (take (length s) cs = map (\<lambda>c. [c]) s)"

lemma at_text_length: "at_text s cs \<Longrightarrow> length s \<le> length cs"
  unfolding at_text_def by (metis length_map length_take min.cobounded1)

text \<open>\<open>text.find(s, index)\<close>, counted from the index.\<close>

fun find_text :: "cpp_text \<Rightarrow> cpp_text \<Rightarrow> nat option" where
  "find_text s [] = (if s = [] then Some 0 else None)"
| "find_text s (c # cs) =
     (if take (length s) (c # cs) = s then Some 0
      else (case find_text s cs of None \<Rightarrow> None | Some n \<Rightarrow> Some (Suc n)))"

definition identifier_start :: "unicode \<Rightarrow> string \<Rightarrow> bool" where
  "identifier_start un c = (c = ''_'' \<or> un_alpha un c)"

definition identifier_continue :: "unicode \<Rightarrow> string \<Rightarrow> bool" where
  "identifier_continue un c = (c = ''_'' \<or> un_alnum un c)"

text \<open>How many characters an identifier takes.\<close>

definition consume_identifier :: "unicode \<Rightarrow> cpp_text \<Rightarrow> nat" where
  "consume_identifier un cs = Suc (length (takeWhile (identifier_continue un) (tl cs)))"

section \<open>Tables\<close>

definition CPP_KEYWORDS :: "string list" where
  "CPP_KEYWORDS = [''alignas'', ''alignof'', ''and'', ''and_eq'', ''asm'', ''atomic_cancel'',
     ''atomic_commit'', ''atomic_noexcept'', ''auto'', ''bitand'', ''bitor'', ''bool'', ''break'',
     ''case'', ''catch'', ''char'', ''char8_t'', ''char16_t'', ''char32_t'', ''class'', ''compl'',
     ''concept'', ''const'', ''consteval'', ''constexpr'', ''constinit'', ''const_cast'', ''continue'',
     ''co_await'', ''co_return'', ''co_yield'', ''decltype'', ''default'', ''delete'', ''do'',
     ''double'', ''dynamic_cast'', ''else'', ''enum'', ''explicit'', ''export'', ''extern'', ''false'',
     ''final'', ''float'', ''for'', ''friend'', ''goto'', ''if'', ''import'', ''inline'', ''int'',
     ''long'', ''module'', ''mutable'', ''namespace'', ''new'', ''noexcept'', ''not'', ''not_eq'',
     ''nullptr'', ''operator'', ''or'', ''or_eq'', ''override'', ''private'', ''protected'',
     ''public'', ''reflexpr'', ''register'', ''reinterpret_cast'', ''requires'', ''return'', ''short'',
     ''signed'', ''sizeof'', ''static'', ''static_assert'', ''static_cast'', ''struct'', ''switch'',
     ''synchronized'', ''template'', ''this'', ''thread_local'', ''throw'', ''true'', ''try'',
     ''typedef'', ''typeid'', ''typename'', ''union'', ''unsigned'', ''using'', ''virtual'', ''void'',
     ''volatile'', ''wchar_t'', ''while'', ''xor'', ''xor_eq'']"

definition CPP_ATTRIBUTES :: "string list" where
  "CPP_ATTRIBUTES = [''assume'', ''carries_dependency'', ''deprecated'', ''fallthrough'', ''likely'',
     ''maybe_unused'', ''no_unique_address'', ''nodiscard'', ''noreturn'', ''unlikely'']"

definition QT_EXACT_IDENTIFIERS :: "string list" where
  "QT_EXACT_IDENTIFIERS = [''CONSTANT'', ''DESIGNABLE'', ''FINAL'', ''NOTIFY'', ''READ'', ''REQUIRED'',
     ''RESET'', ''REVISION'', ''SCRIPTABLE'', ''STORED'', ''USER'', ''WRITE'', ''QByteArrayLiteral'',
     ''QLatin1Char'', ''QLatin1String'', ''QStringLiteral'', ''Qt'', ''connect'', ''disconnect'',
     ''emit'', ''foreach'', ''forever'', ''invokeMethod'', ''qOverload'', ''qRegisterMetaType'',
     ''qobject_cast'', ''qvariant_cast'', ''signals'', ''slots'']"

definition DECLARATION_PREFIXES :: "string list" where
  "DECLARATION_PREFIXES = [''ID'', ''auto'', ''bool'', ''char'', ''char8_t'', ''char16_t'',
     ''char32_t'', ''double'', ''float'', ''int'', ''long'', ''short'', ''signed'', ''unsigned'',
     ''void'', ''wchar_t'', ''*'', ''&'', ''&&'', ''>'', '']'']"

definition PUNCTUATORS :: "string list" where
  "PUNCTUATORS = [''%:%:'', ''<=>'', ''>>='', ''<<='', ''->*'', ''...'', ''::'', ''.*'', ''->'',
     ''++'', ''--'', ''<<'', ''>>'', ''<='', ''>='', ''=='', ''!='', ''&&'', ''||'', ''*='', ''/='',
     ''%='', ''+='', ''-='', ''&='', ''^='', ''|='', ''##'', ''<%'', ''%>'', ''<:'', '':>'', ''%:'']"

definition DIGRAPHS :: "(string \<times> string) list" where
  "DIGRAPHS = [(''<%'', ''{''), (''%>'', ''}''), (''<:'', ''[''), ('':>'', '']''), (''%:'', ''#''),
     (''%:%:'', ''##'')]"

definition RAW_PREFIXES :: "string list" where
  "RAW_PREFIXES = [''u8R'' @ [CHR 0x22], ''uR'' @ [CHR 0x22], ''UR'' @ [CHR 0x22], ''LR'' @ [CHR 0x22], ''R'' @ [CHR 0x22]]"

section \<open>Identifiers\<close>

definition semantic_identifier :: "(string \<Rightarrow> string) \<Rightarrow> string \<Rightarrow> string" where
  "semantic_identifier sha256 identifier =
     (if length (code_points identifier) \<le> 128 then ''NAME('' @ identifier @ '')''
      else ''NAME_SHA256('' @ sha256 identifier @ '')'')"

definition macro_char :: "char \<Rightarrow> bool" where
  "macro_char c = (let n = (of_char c :: nat) in 65 \<le> n \<and> n \<le> 90 \<or> 48 \<le> n \<and> n \<le> 57 \<or> c = CHR ''_'')"

text \<open>\<open>(?:Q|QT|QML)_[A-Z0-9_]+\<close>.\<close>

definition qt_macro :: "string \<Rightarrow> bool" where
  "qt_macro identifier =
     list_ex (\<lambda>p. startswith identifier p \<and> drop (length p) identifier \<noteq> []
                \<and> list_all macro_char (drop (length p) identifier)) [''Q_'', ''QT_'', ''QML_'']"

definition kept_spelling :: "string \<Rightarrow> bool" where
  "kept_spelling identifier =
     (identifier \<in> set CPP_KEYWORDS \<or> identifier \<in> set CPP_ATTRIBUTES
      \<or> identifier \<in> set QT_EXACT_IDENTIFIERS \<or> qt_macro identifier)"

definition identifier_token ::
    "unicode \<Rightarrow> (string \<Rightarrow> string) \<Rightarrow> string \<Rightarrow> string \<Rightarrow> string \<Rightarrow> string" where
  "identifier_token un sha256 identifier previous following =
     (let points = code_points identifier;
          declaration_name = (following = ''('' \<and>
            (previous \<in> set DECLARATION_PREFIXES \<or> startswith previous ''NAME(''
             \<or> startswith previous ''NAME_SHA256('')) in
      if kept_spelling identifier then identifier
      else if previous \<in> {''.'', ''.*'', ''->'', ''->*'', ''::'', ''case'', ''goto''}
              \<or> following = ''::'' \<or> following = ''('' \<and> \<not> declaration_name
              \<or> 1 < length points \<and> un_is_upper un (hd points) \<and> identifier = un_upper un identifier
      then semantic_identifier sha256 identifier
      else ''ID'')"

text \<open>The next character that is neither space nor comment, or \<open>::\<close>, or nothing.\<close>

function following_syntax :: "cpp_text \<Rightarrow> string" where
  "following_syntax cs =
     (let ds = dropWhile is_space cs in
      if at_text ''//'' ds
      then (case find_text [LF] (drop 2 ds) of None \<Rightarrow> [] | Some n \<Rightarrow> following_syntax (drop (2 + n + 1) ds))
      else if at_text ''/*'' ds
      then (case find_text [''*'', ''/''] (drop 2 ds) of None \<Rightarrow> [] | Some n \<Rightarrow> following_syntax (drop (2 + n + 2) ds))
      else if at_text ''::'' ds then ''::''
      else if ds = [] then [] else hd ds)"
  by pat_completeness auto
termination
proof (relation "measure length", goal_cases)
  case (2 cs ds n)
  then show ?case using length_dropWhile_le [of is_space cs] at_text_length [of "''//''" ds] by simp
next
  case (3 cs ds n)
  then show ?case using length_dropWhile_le [of is_space cs] at_text_length [of "''/*''" ds] by simp
qed simp

declare following_syntax.simps [simp del]

section \<open>Literals\<close>

text \<open>How many characters a literal takes, and its token.\<close>

definition literal_suffix :: "unicode \<Rightarrow> cpp_text \<Rightarrow> nat \<times> string" where
  "literal_suffix un cs =
     (if cs \<noteq> [] \<and> identifier_start un (hd cs)
      then (consume_identifier un cs, concat (take (consume_identifier un cs) cs))
      else (0, []))"

definition with_suffix :: "string \<Rightarrow> string \<Rightarrow> string" where
  "with_suffix kind suffix = (if suffix = [] then kind else kind @ '':UDL('' @ suffix @ '')'')"

definition consume_raw_literal :: "unicode \<Rightarrow> cpp_text \<Rightarrow> (nat \<times> string) option" where
  "consume_raw_literal un cs =
     (case List.find (\<lambda>p. at_text p cs) RAW_PREFIXES of
        None \<Rightarrow> None
      | Some prefix \<Rightarrow>
          let inner = drop (length prefix) cs in
          (case find_text [''(''] (take 17 inner) of
             None \<Rightarrow> None
           | Some opening \<Rightarrow>
               let delimiter = take opening inner;
                   closing = ['')''] @ delimiter @ [[CHR 0x22]] in
               if list_ex (\<lambda>c. is_space c \<or> c = ''('' \<or> c = '')'' \<or> c = BACKSLASH) delimiter then None
               else
                 (case find_text closing (drop (opening + 1) inner) of
                    None \<Rightarrow> Some (length cs, ''UNTERMINATED_RAW_STRING_LIT'')
                  | Some n \<Rightarrow>
                      let stop = length prefix + opening + 1 + n + length closing in
                      (case literal_suffix un (drop stop cs) of
                         (k, suffix) \<Rightarrow> Some (stop + k, with_suffix ''RAW_STRING_LIT'' suffix)))))"

definition STRING_PREFIXES :: "string list" where
  "STRING_PREFIXES = [''u8'' @ [CHR 0x22], ''u8'' @ [CHR 0x27], ''u'' @ [CHR 0x22], ''u'' @ [CHR 0x27], ''U'' @ [CHR 0x22],
     ''U'' @ [CHR 0x27], ''L'' @ [CHR 0x22], ''L'' @ [CHR 0x27], [CHR 0x22], [CHR 0x27]]"

text \<open>The loop over the characters of a literal, \<open>consumed\<close> of them so far.\<close>

fun literal_body :: "unicode \<Rightarrow> string \<Rightarrow> string \<Rightarrow> nat \<Rightarrow> cpp_text \<Rightarrow> nat \<times> string" where
  "literal_body un quote kind consumed [] = (consumed, ''UNTERMINATED_'' @ kind)"
| "literal_body un quote kind consumed (c # cs) =
     (if c = BACKSLASH
      then (case cs of
              [] \<Rightarrow> (Suc consumed, ''UNTERMINATED_'' @ kind)
            | d # ds \<Rightarrow> literal_body un quote kind (consumed + 2) ds)
      else if c = quote
      then (case literal_suffix un cs of (k, suffix) \<Rightarrow> (Suc consumed + k, with_suffix kind suffix))
      else if c = LF then (consumed, ''UNTERMINATED_'' @ kind)
      else literal_body un quote kind (Suc consumed) cs)"

definition consume_ordinary_literal :: "unicode \<Rightarrow> cpp_text \<Rightarrow> (nat \<times> string) option" where
  "consume_ordinary_literal un cs =
     (case List.find (\<lambda>p. at_text p cs) STRING_PREFIXES of
        None \<Rightarrow> None
      | Some prefix \<Rightarrow>
          let quote = [last prefix];
              kind = (if last prefix = CHR 0x22 then ''STRING_LIT'' else ''CHAR_LIT'') in
          Some (literal_body un quote kind (length prefix) (drop (length prefix) cs)))"

definition consume_literal :: "unicode \<Rightarrow> cpp_text \<Rightarrow> (nat \<times> string) option" where
  "consume_literal un cs =
     (case consume_raw_literal un cs of Some r \<Rightarrow> Some r | None \<Rightarrow> consume_ordinary_literal un cs)"

section \<open>Numbers\<close>

definition digit_in :: "(nat \<times> nat) list \<Rightarrow> string \<Rightarrow> bool" where
  "digit_in ranges s =
     (case s of [c] \<Rightarrow> list_ex (\<lambda>(low, high). low \<le> (of_char c :: nat) \<and> (of_char c :: nat) \<le> high) ranges
      | _ \<Rightarrow> False)"

definition dec_digit :: "string \<Rightarrow> bool" where "dec_digit = digit_in [(48, 57)]"

definition hex_digit :: "string \<Rightarrow> bool" where "hex_digit = digit_in [(48, 57), (65, 70), (97, 102)]"

definition bin_digit :: "string \<Rightarrow> bool" where "bin_digit = digit_in [(48, 49)]"

text \<open>\<open>(?:'?[digits])*\<close> and \<open>[digits](?:'?[digits])*\<close>: how many characters, 0 for no match of the latter.\<close>

fun more_digits :: "(string \<Rightarrow> bool) \<Rightarrow> cpp_text \<Rightarrow> nat" where
  "more_digits P [] = 0"
| "more_digits P (c # cs) =
     (if P c then Suc (more_digits P cs)
      else if c = [CHR 0x27]
      then (case cs of [] \<Rightarrow> 0 | d # ds \<Rightarrow> if P d then Suc (Suc (more_digits P ds)) else 0)
      else 0)"

definition digits :: "(string \<Rightarrow> bool) \<Rightarrow> cpp_text \<Rightarrow> nat" where
  "digits P cs = (if cs \<noteq> [] \<and> P (hd cs) then Suc (more_digits P (tl cs)) else 0)"

text \<open>\<open>[letters][+-]?[0-9](?:'?[0-9])*\<close>.\<close>

definition exponent :: "string list \<Rightarrow> cpp_text \<Rightarrow> nat" where
  "exponent letters cs =
     (if cs = [] \<or> hd cs \<notin> set letters then 0
      else
        (let sign = (if tl cs \<noteq> [] \<and> hd (tl cs) \<in> {''+'', ''-''} then 1 else 0);
             n = digits dec_digit (drop (1 + sign) cs) in
         if n = 0 then 0 else 1 + sign + n))"

text \<open>The five alternatives of the number in their order; 0 is no match.\<close>

definition hex_number :: "cpp_text \<Rightarrow> nat" where
  "hex_number cs =
     (if \<not> (at_text ''0x'' cs \<or> at_text ''0X'' cs) \<or> digits hex_digit (drop 2 cs) = 0 then 0
      else
        (let n = 2 + digits hex_digit (drop 2 cs);
             m = (if at_text ''.'' (drop n cs) then n + 1 + digits hex_digit (drop (n + 1) cs) else n) in
         m + exponent [''p'', ''P''] (drop m cs)))"

definition bin_number :: "cpp_text \<Rightarrow> nat" where
  "bin_number cs =
     (if \<not> (at_text ''0b'' cs \<or> at_text ''0B'' cs) \<or> digits bin_digit (drop 2 cs) = 0 then 0
      else 2 + digits bin_digit (drop 2 cs))"

definition point_number :: "cpp_text \<Rightarrow> nat" where
  "point_number cs =
     (let n = digits dec_digit cs;
          m = (if 0 < n
               then (if at_text ''.'' (drop n cs) then n + 1 + digits dec_digit (drop (n + 1) cs) else 0)
               else if at_text ''.'' cs \<and> 0 < digits dec_digit (drop 1 cs) then 1 + digits dec_digit (drop 1 cs)
               else 0) in
      if m = 0 then 0 else m + exponent [''e'', ''E''] (drop m cs))"

definition exponent_number :: "cpp_text \<Rightarrow> nat" where
  "exponent_number cs =
     (let n = digits dec_digit cs; e = exponent [''e'', ''E''] (drop n cs) in
      if n = 0 \<or> e = 0 then 0 else n + e)"

definition number_core :: "cpp_text \<Rightarrow> nat" where
  "number_core cs =
     (if hex_number cs \<noteq> 0 then hex_number cs
      else if bin_number cs \<noteq> 0 then bin_number cs
      else if point_number cs \<noteq> 0 then point_number cs
      else if exponent_number cs \<noteq> 0 then exponent_number cs
      else digits dec_digit cs)"

definition ascii_letter :: "string \<Rightarrow> bool" where "ascii_letter = digit_in [(65, 90), (97, 122), (95, 95)]"

definition ascii_word :: "string \<Rightarrow> bool" where "ascii_word = digit_in [(65, 90), (97, 122), (95, 95), (48, 57)]"

definition number_suffix :: "cpp_text \<Rightarrow> nat" where
  "number_suffix cs =
     (if cs \<noteq> [] \<and> ascii_letter (hd cs) then Suc (length (takeWhile ascii_word (tl cs))) else 0)"

definition number_token :: "cpp_text \<Rightarrow> cpp_text \<Rightarrow> string" where
  "number_token core suffix =
     (let is_float = (''.'' \<in> set core
            \<or> (''e'' \<in> set core \<or> ''E'' \<in> set core) \<and> \<not> (at_text ''0x'' core \<or> at_text ''0X'' core)
            \<or> ''p'' \<in> set core \<or> ''P'' \<in> set core) in
      with_suffix (if is_float then ''FLOAT_LIT'' else ''INT_LIT'') (concat suffix))"

definition consume_number :: "cpp_text \<Rightarrow> (nat \<times> string) option" where
  "consume_number cs =
     (let n = number_core cs; k = number_suffix (drop n cs) in
      if n = 0 then None else Some (n + k, number_token (take n cs) (take k (drop n cs))))"

end
