(* ===== verification/Cpp_Tokens.thy ===== *)
theory Cpp_Tokens
  imports Cpp_Lexer
begin

text \<open>
  Tokens and directives by physical line (src/src/ici/analysis/_cpp_dup_tokenization.py): splicing,
  the tokenizer's loop and the scan for preprocessor directives.
\<close>

section \<open>Splicing\<close>

text \<open>\<open>text.replace("\r\n", "\n").replace("\r", "\n")\<close>.\<close>

fun newlines :: "cpp_text \<Rightarrow> cpp_text" where
  "newlines [] = []"
| "newlines [c] = [if c = CR then LF else c]"
| "newlines (c # d # cs) =
     (if c = CR then LF # (if d = LF then newlines cs else newlines (d # cs)) else c # newlines (d # cs))"

record spliced_source =
  sp_text :: cpp_text
  sp_line_starts :: "nat list"
  sp_last_line :: nat

text \<open>The code raises for an offset outside the text; it only asks for offsets of lexemes, which are
  inside (lemma \<open>lex_value\<close> of Cpp_Properties).\<close>

definition line_at_offset :: "spliced_source \<Rightarrow> nat \<Rightarrow> nat" where
  "line_at_offset sp offset = length (takeWhile (\<lambda>s. s \<le> offset) (sp_line_starts sp))"

text \<open>The spliced text and where each physical line after the first starts in it.\<close>

fun splice_from :: "nat \<Rightarrow> cpp_text \<Rightarrow> cpp_text \<times> nat list" where
  "splice_from offset [] = ([], [])"
| "splice_from offset [c] = ([c], if c = LF then [Suc offset] else [])"
| "splice_from offset (c # d # cs) =
     (if c = BACKSLASH \<and> d = LF
      then (case splice_from offset cs of (t, starts) \<Rightarrow> (t, offset # starts))
      else (case splice_from (Suc offset) (d # cs) of
              (t, starts) \<Rightarrow> (c # t, if c = LF then Suc offset # starts else starts)))"

definition splice_cpp_source :: "cpp_text \<Rightarrow> spliced_source" where
  "splice_cpp_source cs =
     (case splice_from 0 cs of
        (t, starts) \<Rightarrow>
          \<lparr>sp_text = t, sp_line_starts = 0 # starts,
           sp_last_line = (if cs = [] then 0 else length starts + (if last cs = LF then 0 else 1))\<rparr>)"

section \<open>The next lexeme\<close>

text \<open>A block comment says whether it spans lines.\<close>

datatype lexeme =
    Newline
  | Blank
  | Directive
  | LineComment
  | BlockComment bool
  | OpenComment
  | Token string

definition consume_directive :: "cpp_text \<Rightarrow> nat" where
  "consume_directive cs = (case find_text [LF] cs of None \<Rightarrow> length cs | Some n \<Rightarrow> Suc n)"

definition starts_directive :: "cpp_text \<Rightarrow> bool" where
  "starts_directive cs = (at_text ''#'' cs \<or> at_text ''%:'' cs)"

definition line_comment_length :: "cpp_text \<Rightarrow> nat" where
  "line_comment_length cs = (case find_text [LF] (drop 2 cs) of None \<Rightarrow> length cs | Some n \<Rightarrow> 2 + n)"

definition block_comment_length :: "cpp_text \<Rightarrow> nat option" where
  "block_comment_length cs =
     (case find_text [''*'', ''/''] (drop 2 cs) of None \<Rightarrow> None | Some n \<Rightarrow> Some (2 + n + 2))"

definition punctuator :: "cpp_text \<Rightarrow> string" where
  "punctuator cs = (case List.find (\<lambda>p. at_text p cs) PUNCTUATORS of None \<Rightarrow> hd cs | Some p \<Rightarrow> p)"

definition punctuator_length :: "cpp_text \<Rightarrow> nat" where
  "punctuator_length cs = (case List.find (\<lambda>p. at_text p cs) PUNCTUATORS of None \<Rightarrow> 1 | Some p \<Rightarrow> length p)"

definition canonical_punctuator :: "string \<Rightarrow> string" where
  "canonical_punctuator p = (case map_of DIGRAPHS p of None \<Rightarrow> p | Some q \<Rightarrow> q)"

definition next_token ::
    "unicode \<Rightarrow> (string \<Rightarrow> string) \<Rightarrow> string \<Rightarrow> cpp_text \<Rightarrow> nat \<times> string" where
  "next_token un sha256 previous cs =
     (case consume_literal un cs of
        Some r \<Rightarrow> r
      | None \<Rightarrow>
          (case consume_number cs of
             Some r \<Rightarrow> r
           | None \<Rightarrow>
               if identifier_start un (hd cs)
               then
                 (let n = consume_identifier un cs in
                  (n, identifier_token un sha256 (concat (take n cs)) previous (following_syntax (drop n cs))))
               else (punctuator_length cs, canonical_punctuator (punctuator cs))))"

text \<open>The branches of the tokenizer's loop: how many characters they take, and what they are.\<close>

definition next_lexeme ::
    "unicode \<Rightarrow> (string \<Rightarrow> string) \<Rightarrow> bool \<Rightarrow> string \<Rightarrow> cpp_text \<Rightarrow> nat \<times> lexeme" where
  "next_lexeme un sha256 at_line_prefix previous cs =
     (if hd cs = LF then (1, Newline)
      else if is_space (hd cs) then (1, Blank)
      else if at_line_prefix \<and> starts_directive cs then (consume_directive cs, Directive)
      else if at_text ''//'' cs then (line_comment_length cs, LineComment)
      else if at_text ''/*'' cs
      then (case block_comment_length cs of
              None \<Rightarrow> (length cs, OpenComment)
            | Some n \<Rightarrow> (n, BlockComment (LF \<in> set (take n cs))))
      else (case next_token un sha256 previous cs of (n, t) \<Rightarrow> (n, Token t)))"

lemma literal_body_length: "consumed \<le> fst (literal_body un quote kind consumed cs)"
proof (induction un quote kind consumed cs rule: literal_body.induct)
  case (2 un quote kind consumed c cs)
  show ?case
  proof (cases "c = BACKSLASH")
    case True
    then show ?thesis using 2(1) by (cases cs) (auto intro: Suc_leD [OF Suc_leD])
  next
    case False
    then show ?thesis using 2(2) by (auto intro: Suc_leD split: prod.split)
  qed
qed simp

lemma RAW_PREFIXES_nonempty: "p \<in> set RAW_PREFIXES \<Longrightarrow> 0 < length p"
  and STRING_PREFIXES_nonempty: "p \<in> set STRING_PREFIXES \<Longrightarrow> 0 < length p"
  and PUNCTUATORS_nonempty: "p \<in> set PUNCTUATORS \<Longrightarrow> 0 < length p"
  by (auto simp: RAW_PREFIXES_def STRING_PREFIXES_def PUNCTUATORS_def)

lemma find_member: "List.find P xs = Some x \<Longrightarrow> x \<in> set xs \<and> P x"
  by (induction xs) (auto split: if_splits)

lemma consume_literal_length:
  assumes "consume_literal un cs = Some (n, t)" "cs \<noteq> []"
  shows "0 < n"
proof (cases "consume_raw_literal un cs")
  case None
  then obtain prefix where "List.find (\<lambda>p. at_text p cs) STRING_PREFIXES = Some prefix"
      "n = fst (literal_body un [last prefix] (if last prefix = CHR 0x22 then ''STRING_LIT'' else ''CHAR_LIT'')
             (length prefix) (drop (length prefix) cs))"
    using assms(1) by (auto simp: consume_literal_def consume_ordinary_literal_def Let_def split: option.splits)
  then show ?thesis
    using literal_body_length STRING_PREFIXES_nonempty find_member by (metis le_zero_eq neq0_conv)
next
  case (Some r)
  then show ?thesis
    using assms by (auto simp: consume_literal_def consume_raw_literal_def Let_def
        split: option.splits if_splits prod.splits)
qed

lemma next_token_length:
  assumes "next_token un sha256 previous cs = (n, t)" "cs \<noteq> []"
  shows "0 < n"
proof (cases "consume_literal un cs")
  case (Some r)
  then show ?thesis using assms consume_literal_length by (simp add: next_token_def)
next
  case None
  note no_literal = None
  show ?thesis
  proof (cases "consume_number cs")
    case (Some r)
    then show ?thesis using assms(1) None by (auto simp: next_token_def consume_number_def Let_def split: if_splits)
  next
    case None
    then show ?thesis
      using assms(1) no_literal PUNCTUATORS_nonempty find_member
      by (fastforce simp: next_token_def consume_identifier_def punctuator_length_def Let_def
          split: if_splits option.splits)
  qed
qed

lemma next_lexeme_length:
  assumes "next_lexeme un sha256 at_line_prefix previous cs = (n, k)" "cs \<noteq> []"
  shows "0 < n"
  using assms next_token_length [OF _ assms(2)]
  by (auto simp: next_lexeme_def consume_directive_def line_comment_length_def block_comment_length_def
      split: if_splits option.splits prod.splits)

section \<open>The tokenizer\<close>

text \<open>The loop; each token with its line, in order.\<close>

function lex ::
    "unicode \<Rightarrow> (string \<Rightarrow> string) \<Rightarrow> spliced_source \<Rightarrow> int \<Rightarrow> int \<Rightarrow> nat \<Rightarrow> bool \<Rightarrow> string \<Rightarrow> cpp_text
     \<Rightarrow> (nat \<times> string) list result" where
  "lex un sha256 sp limit token_count index at_line_prefix previous [] = Inr []"
| "lex un sha256 sp limit token_count index at_line_prefix previous (c # cs) =
     (case next_lexeme un sha256 at_line_prefix previous (c # cs) of
        (n, kind) \<Rightarrow>
          let rest = drop n (c # cs) in
          (case kind of
             Newline \<Rightarrow> lex un sha256 sp limit token_count (index + n) True previous rest
           | Blank \<Rightarrow> lex un sha256 sp limit token_count (index + n) at_line_prefix previous rest
           | Directive \<Rightarrow> lex un sha256 sp limit token_count (index + n) True [] rest
           | LineComment \<Rightarrow> lex un sha256 sp limit token_count (index + n) at_line_prefix previous rest
           | BlockComment spans \<Rightarrow>
               lex un sha256 sp limit token_count (index + n) (spans \<or> at_line_prefix) previous rest
           | OpenComment \<Rightarrow>
               raise_if (limit < token_count + 1)
                 (ValueError ''max_tokens={} exceeded while tokenizing C++ source'' [show_int limit])
                 (Inr [(line_at_offset sp index, ''UNTERMINATED_BLOCK_COMMENT'')])
           | Token t \<Rightarrow>
               raise_if (limit < token_count + 1)
                 (ValueError ''max_tokens={} exceeded while tokenizing C++ source'' [show_int limit])
                 (bindr (lex un sha256 sp limit (token_count + 1) (index + n) False t rest) (\<lambda>ts.
                  Inr ((line_at_offset sp index, t) # ts)))))"
  by pat_completeness auto
termination
  by (relation "measure (\<lambda>(un, sha256, sp, limit, token_count, index, at_line_prefix, previous, cs). length cs)")
    (auto dest: next_lexeme_length [OF sym])

definition MAX_CPP_DUPLICATE_TOKENS :: int where
  "MAX_CPP_DUPLICATE_TOKENS = 500000"

definition TOKEN_SEPARATOR :: string where
  "TOKEN_SEPARATOR = [CHR 0x1F]"

text \<open>\<open>by_line\<close> and its items in order.\<close>

definition tokens_by_line :: "(nat \<times> string) list \<Rightarrow> (nat \<times> string list) list" where
  "tokens_by_line ts = fold (\<lambda>(line, t). dict_append line t) ts []"

definition grouped_lines :: "(nat \<times> string) list \<Rightarrow> (int \<times> string) list" where
  "grouped_lines ts =
     map (\<lambda>(line, tokens). (int line, join TOKEN_SEPARATOR tokens)) (sort_key fst (tokens_by_line ts))"

definition cpp_token_limit :: "pyval \<Rightarrow> int result" where
  "cpp_token_limit max_tokens =
     (case max_tokens of
        PNone \<Rightarrow> Inr MAX_CPP_DUPLICATE_TOKENS
      | PInt i \<Rightarrow> raise_if (i \<le> 0) (ValueError ''max_tokens must be a positive integer'' []) (Inr i)
      | _ \<Rightarrow> Inl (ValueError ''max_tokens must be a positive integer'' []))"

definition tokenize_cpp_lines ::
    "unicode \<Rightarrow> (string \<Rightarrow> string) \<Rightarrow> pyval \<Rightarrow> pyval \<Rightarrow> (int \<times> string) list result" where
  "tokenize_cpp_lines un sha256 source max_tokens =
     (case source of
        PStr s \<Rightarrow>
          raise_if (CHR 0x00 \<in> set s) (ValueError ''C++ source must not contain a null byte'' [])
            (bindr (cpp_token_limit max_tokens) (\<lambda>limit.
             let sp = splice_cpp_source (newlines (code_points s)) in
             bindr (lex un sha256 sp limit 0 0 True [] (sp_text sp)) (\<lambda>ts. Inr (grouped_lines ts))))
      | _ \<Rightarrow> Inl (TypeErr ''C++ source must be text'' []))"

section \<open>Directive lines\<close>

text \<open>The scan's branches: a literal is passed over, anything else is one character.\<close>

definition next_scanned :: "unicode \<Rightarrow> bool \<Rightarrow> cpp_text \<Rightarrow> nat \<times> lexeme" where
  "next_scanned un at_line_prefix cs =
     (if hd cs = LF then (1, Newline)
      else if is_space (hd cs) then (1, Blank)
      else if at_line_prefix \<and> starts_directive cs then (consume_directive cs, Directive)
      else if at_text ''//'' cs then (line_comment_length cs, LineComment)
      else if at_text ''/*'' cs
      then (let n = (case block_comment_length cs of None \<Rightarrow> length cs | Some n \<Rightarrow> n) in
            (n, BlockComment (LF \<in> set (take n cs))))
      else (case consume_literal un cs of Some (n, t) \<Rightarrow> (n, Token t) | None \<Rightarrow> (1, Token [])))"

lemma next_scanned_length:
  assumes "next_scanned un at_line_prefix cs = (n, k)" "cs \<noteq> []"
  shows "0 < n"
  using assms consume_literal_length [OF _ assms(2)]
  by (auto simp: next_scanned_def consume_directive_def line_comment_length_def block_comment_length_def Let_def
      split: if_splits option.splits prod.splits)

definition directive_span :: "spliced_source \<Rightarrow> nat \<Rightarrow> nat \<Rightarrow> int list" where
  "directive_span sp start stop =
     (let start_line = line_at_offset sp start;
          end_line = line_at_offset sp (stop - 1);
          last_line = (if stop = length (sp_text sp) \<and> (sp_text sp = [] \<or> last (sp_text sp) \<noteq> LF)
                       then max end_line (sp_last_line sp) else end_line) in
      [int start_line..int last_line])"

function scan_directives :: "unicode \<Rightarrow> spliced_source \<Rightarrow> nat \<Rightarrow> bool \<Rightarrow> cpp_text \<Rightarrow> int list" where
  "scan_directives un sp index at_line_prefix [] = []"
| "scan_directives un sp index at_line_prefix (c # cs) =
     (case next_scanned un at_line_prefix (c # cs) of
        (n, kind) \<Rightarrow>
          let rest = drop n (c # cs) in
          (case kind of
             Newline \<Rightarrow> scan_directives un sp (index + n) True rest
           | Directive \<Rightarrow> directive_span sp index (index + n) @ scan_directives un sp (index + n) True rest
           | BlockComment spans \<Rightarrow> scan_directives un sp (index + n) (spans \<or> at_line_prefix) rest
           | Token t \<Rightarrow> scan_directives un sp (index + n) False rest
           | _ \<Rightarrow> scan_directives un sp (index + n) at_line_prefix rest))"
  by pat_completeness auto
termination
  by (relation "measure (\<lambda>(un, sp, index, at_line_prefix, cs). length cs)")
    (auto dest: next_scanned_length [OF sym])

definition cpp_directive_lines :: "unicode \<Rightarrow> pyval \<Rightarrow> int list result" where
  "cpp_directive_lines un source =
     (case source of
        PStr s \<Rightarrow>
          raise_if (CHR 0x00 \<in> set s) (ValueError ''C++ source must not contain a null byte'' [])
            (let sp = splice_cpp_source (newlines (code_points s)) in
             Inr (scan_directives un sp 0 True (sp_text sp)))
      | _ \<Rightarrow> Inl (TypeErr ''C++ source must be text'' []))"

end
