(* ===== verification/Dup_Check.thy ===== *)
theory Dup_Check
  imports Dup_Clustering Analysis_Sources Cpp_Tokens Observations
begin

text \<open>
  The duplicate check of a component (src/src/ici/languages/duplicates.py) and the regions its
  matches stay within (src/src/ici/analysis/_dup_regions.py).  The tokenizer and the parser of Python
  and the spans of C++ functions are arguments.
\<close>

section \<open>Regions\<close>

text \<open>A scope from one line to another, with its number.\<close>

type_synonym scope = "int \<times> int \<times> int"

text \<open>\<open>bisect_right\<close> on the sorted barriers: how many are at or before the line.\<close>

definition segment_for :: "int \<Rightarrow> int list \<Rightarrow> int" where
  "segment_for line barriers = int (length (takeWhile (\<lambda>b. b \<le> line) barriers))"

text \<open>The heap of active scopes, of which only the least is ever looked at, as a sorted list.\<close>

fun push_scopes :: "int \<Rightarrow> scope list \<Rightarrow> scope list \<Rightarrow> scope list \<times> scope list" where
  "push_scopes line active [] = (active, [])"
| "push_scopes line active ((start, stop, candidate_scope) # intervals) =
     (if start \<le> line then push_scopes line (insort (stop - start, stop, candidate_scope) active) intervals
      else (active, (start, stop, candidate_scope) # intervals))"

definition pop_ended :: "int \<Rightarrow> scope list \<Rightarrow> scope list" where
  "pop_ended line active = dropWhile (\<lambda>s. fst (snd s) < line) active"

definition top_scope :: "scope list \<Rightarrow> int" where
  "top_scope active = (case active of [] \<Rightarrow> 0 | s # ss \<Rightarrow> snd (snd s))"

fun project_lines :: "int list \<Rightarrow> scope list \<Rightarrow> scope list \<Rightarrow> int list \<Rightarrow> (int \<times> int) list" where
  "project_lines barriers active intervals [] = []"
| "project_lines barriers active intervals (line # lines) =
     (case push_scopes line active intervals of
        (pushed, remaining) \<Rightarrow>
          let kept = pop_ended line pushed in
          (top_scope kept, segment_for line barriers) # project_lines barriers kept remaining lines)"

definition project_regions :: "int list \<Rightarrow> scope list \<Rightarrow> int list \<Rightarrow> (int \<times> int) list" where
  "project_regions lines intervals barriers =
     project_lines (sorted_set barriers) [] (sort intervals) lines"

text \<open>The nodes of the syntax tree that matter, in the order of \<open>ast.walk\<close>.\<close>

datatype region_node =
    ScopeNode int "int list" int
  | ImportNode int int

fun intervals_and_barriers :: "int \<Rightarrow> region_node list \<Rightarrow> scope list \<times> int list" where
  "intervals_and_barriers scope [] = ([], [])"
| "intervals_and_barriers scope (ScopeNode line decorators stop # nodes) =
     (case intervals_and_barriers (scope + 1) nodes of
        (intervals, barriers) \<Rightarrow> ((Min (set (line # decorators)), stop, scope + 1) # intervals, barriers))"
| "intervals_and_barriers scope (ImportNode start stop # nodes) =
     (case intervals_and_barriers scope nodes of
        (intervals, barriers) \<Rightarrow> (intervals, [start..stop] @ barriers))"

definition python_intervals_and_barriers ::
    "(string \<Rightarrow> region_node list option) \<Rightarrow> string \<Rightarrow> (scope list \<times> int list) result" where
  "python_intervals_and_barriers parse source =
     (case parse source of
        None \<Rightarrow> Inl (ValueError ''Python syntax could not be parsed for duplicate-region boundaries'' [])
      | Some nodes \<Rightarrow> Inr (intervals_and_barriers 0 nodes))"

definition python_duplicate_regions ::
    "(string \<Rightarrow> region_node list option) \<Rightarrow> string \<Rightarrow> int list \<Rightarrow> (int \<times> int) list result" where
  "python_duplicate_regions parse source lines =
     bindr (python_intervals_and_barriers parse source) (\<lambda>(intervals, barriers).
     Inr (project_regions lines intervals barriers))"

text \<open>The spans of functions; none when they cannot be found.\<close>

definition cpp_intervals :: "(int \<times> int) list option \<Rightarrow> scope list" where
  "cpp_intervals spans =
     (case spans of
        None \<Rightarrow> []
      | Some ss \<Rightarrow>
          map (\<lambda>(i, start, stop). (start, stop, int i))
            (filter (\<lambda>(i, start, stop). start \<le> stop) (enumerate 1 ss)))"

definition cpp_duplicate_regions ::
    "unicode \<Rightarrow> (string list \<Rightarrow> (int \<times> int) list option) \<Rightarrow> string \<Rightarrow> int list
     \<Rightarrow> (int \<times> int) list result" where
  "cpp_duplicate_regions un function_spans source lines =
     bindr (cpp_directive_lines un (PStr source)) (\<lambda>directives.
     Inr (project_regions lines (cpp_intervals (function_spans (splitlines source))) directives))"

section \<open>Indexing the sources\<close>

definition DUP_PROVIDER :: string where
  "DUP_PROVIDER = ''ici.dup''"

definition WINDOW_SIZE :: nat where
  "WINDOW_SIZE = 6"

definition DUP_LIMITS :: dup_limits where
  "DUP_LIMITS = \<lparr>dl_window_occurrences = 2048, dl_same_file_seed_pairs = 100000,
     dl_cross_file_pairs = 20000, dl_cross_file_seed_pairs = 250000,
     dl_extension_comparisons = 5000000, dl_raw_matches = 10000\<rparr>"

definition MAX_NORMALIZED_CHARS :: nat where
  "MAX_NORMALIZED_CHARS = 128 * 1024 * 1024"

definition MAX_INDEXED_RECORDS :: nat where
  "MAX_INDEXED_RECORDS = 500000"

record dup_request =
  dr_language :: string
  dr_root :: pure_path
  dr_files :: "pure_path list"
  dr_task_id :: string
  dr_component_id :: string

text \<open>The lines of a source with their tokens, and the region of each.\<close>

record lexers =
  lx_unicode :: unicode
  lx_cpp_spans :: "string list \<Rightarrow> (int \<times> int) list option"
  lx_python :: "string \<Rightarrow> (int \<times> string) list result"
  lx_python_tree :: "string \<Rightarrow> region_node list option"

definition index_source ::
    "lexers \<Rightarrow> (string \<Rightarrow> string) \<Rightarrow> analysis_source \<Rightarrow> ((int \<times> string) list \<times> (int \<times> int) list) result" where
  "index_source lexers sha256 source =
     (let code = as_text source in
      if as_language source = ''cpp''
      then
        bindr (tokenize_cpp_lines (lx_unicode lexers) sha256 (PStr code) PNone) (\<lambda>indexed.
        bindr (cpp_duplicate_regions (lx_unicode lexers) (lx_cpp_spans lexers) code (map fst indexed)) (\<lambda>regions.
        Inr (indexed, regions)))
      else
        bindr (lx_python lexers code) (\<lambda>indexed.
        bindr (python_duplicate_regions (lx_python_tree lexers) code (map fst indexed)) (\<lambda>regions.
        Inr (indexed, regions))))"

definition lexical_failure :: "analysis_source \<Rightarrow> exn \<Rightarrow> exn" where
  "lexical_failure source error =
     (if is_value_error error
      then ValueError ''{}: lexical normalization failed: {}'' [as_file_path source, exn_text error] else error)"

definition normalized_length :: "(int \<times> string) list \<Rightarrow> nat" where
  "normalized_length indexed = sum_list (map (\<lambda>e. length (code_points (snd e))) indexed)"

fun index_sources ::
    "lexers \<Rightarrow> (string \<Rightarrow> string) \<Rightarrow> nat \<Rightarrow> dup_file list \<Rightarrow> analysis_source list \<Rightarrow> dup_file list result" where
  "index_sources lexers sha256 normalized_chars files [] = Inr files"
| "index_sources lexers sha256 normalized_chars files (source # sources) =
     bindr (case index_source lexers sha256 source of Inl e \<Rightarrow> Inl (lexical_failure source e) | Inr r \<Rightarrow> Inr r)
       (\<lambda>(indexed, regions).
     let chars = normalized_chars + normalized_length indexed;
         files' = files @ [\<lparr>df_path = as_file_path source, df_language = as_language source,
                            df_raw_lines = source_lines source, df_indexed = indexed, df_regions = regions\<rparr>] in
     raise_if (MAX_NORMALIZED_CHARS < chars)
       (ValueError ''normalized duplicate input exceeds the bounded limit'' [])
    (raise_if (MAX_INDEXED_RECORDS < sum_list (map (\<lambda>f. length (df_indexed f)) files'))
       (ValueError ''indexed duplicate records exceed the bounded limit'' [])
     (index_sources lexers sha256 chars files' sources)))"

section \<open>The check\<close>

definition dup_finding ::
    "(string \<Rightarrow> string) \<Rightarrow> dup_request \<Rightarrow> clone_group \<Rightarrow> string \<Rightarrow> int \<Rightarrow> int \<Rightarrow> finding result" where
  "dup_finding sha256 rq g path start stop =
     bindr (SourceSpan_init (PStr path) (PInt start) (PInt stop) PNone PNone (PStr [])) (\<lambda>span.
     Finding_init
       (PStr (''sha256:'' @ sha256 (join [CHR 0x00] [DUP_PROVIDER, gr_fingerprint g, path, show_int start, show_int stop])))
       (PStr ''dup.type2-clone'')
       (PStr (''duplicate block ('' @ show_nat (gr_line_count g) @ '' lines, group #'' @ show_nat (gr_index g)
              @ '') shared across '' @ show_nat (length (gr_locations g)) @ '' locations''))
       (PStr ''medium'') (PStr ''high'') span (PStr DUP_PROVIDER) (PStr []) (PStr []) (PStr []) (PTuple []) []
       (if dr_component_id rq = [] then PNone else PStr (dr_component_id rq)) PNone PNone
       (PStr (dr_task_id rq)) MEASURED no_suppression (PTuple []))"

definition dup_observation ::
    "dup_request \<Rightarrow> task_state \<Rightarrow> finding list \<Rightarrow> measurement list \<Rightarrow> string list \<Rightarrow> observation result" where
  "dup_observation rq state findings measurements limitations =
     Observation_init (PStr (dr_task_id rq)) (PStr DUP_PROVIDER) state findings measurements PNone PNone
       (PBool False) (PBool False) PNone (PTuple []) (strs limitations)"

definition dup_measurements :: "nat \<Rightarrow> nat \<Rightarrow> pyval \<Rightarrow> pyval \<Rightarrow> measurement list result" where
  "dup_measurements group_count duplicated numerator denominator =
     bindr (Measurement_init (PStr ''clone_groups'') (PInt (int group_count)) (PStr ''groups'') PNone PNone MEASURED) (\<lambda>gs.
     bindr (Measurement_init (PStr ''duplicated_lines'') (PInt (int duplicated)) (PStr ''lines'')
              numerator denominator MEASURED) (\<lambda>ds.
     Inr [gs, ds]))"

definition semantic_limitation :: string where
  "semantic_limitation = ''AST-shape semantic clustering is not carried yet '' @ em_dash
     @ '' matches are lexical Type-2 clones only''"

definition dup_limitations :: "dup_request \<Rightarrow> source_inventory \<Rightarrow> string list" where
  "dup_limitations rq inventory =
     map (\<lambda>item. ''excluded '' @ ex_file_path item @ '': '' @ exclusion_reason item) (in_excluded inventory)
     @ (if dr_language rq = ''python'' then [semantic_limitation] else [])"

text \<open>One finding per place of each group.\<close>

definition group_findings ::
    "(string \<Rightarrow> string) \<Rightarrow> dup_request \<Rightarrow> dup_file list \<Rightarrow> clone_group list \<Rightarrow> finding list result" where
  "group_findings sha256 rq files groups =
     mapr (\<lambda>(g, loc). dup_finding sha256 rq g (df_path (files ! fst loc)) (fst (snd loc)) (snd (snd loc)))
       (concat (map (\<lambda>g. map (Pair g) (gr_locations g)) groups))"

definition match_and_cluster ::
    "(string \<Rightarrow> hash) \<Rightarrow> (string \<Rightarrow> string) \<Rightarrow> (location list \<Rightarrow> location list) \<Rightarrow> dup_file list
     \<Rightarrow> duplicate_clustering result" where
  "match_and_cluster record_hash sha256 iter files =
     bindr (find_raw_matches record_hash files WINDOW_SIZE DUP_LIMITS) (\<lambda>raw.
     Inr (cluster_matches sha256 iter (filter_subsumed_matches raw) files))"

definition report_duplicates ::
    "(string \<Rightarrow> string) \<Rightarrow> dup_request \<Rightarrow> string list \<Rightarrow> dup_file list \<Rightarrow> duplicate_clustering
     \<Rightarrow> observation result" where
  "report_duplicates sha256 rq limitations files clustering =
     (let duplicated = card (du_duplicated_positions clustering);
          total_code_lines = sum_list (map (\<lambda>f. length (df_indexed f)) files) in
      bindr (group_findings sha256 rq files (du_groups clustering)) (\<lambda>findings.
      bindr (dup_measurements (length (du_groups clustering)) duplicated (PInt (int duplicated))
               (if total_code_lines = 0 then PNone else PInt (int total_code_lines))) (\<lambda>ms.
      dup_observation rq SUCCEEDED findings ms limitations)))"

definition scan_sources ::
    "lexers \<Rightarrow> (string \<Rightarrow> hash) \<Rightarrow> (string \<Rightarrow> string) \<Rightarrow> (location list \<Rightarrow> location list) \<Rightarrow> dup_request
     \<Rightarrow> string list \<Rightarrow> analysis_source list \<Rightarrow> observation result" where
  "scan_sources lexers record_hash sha256 iter rq limitations sources =
     (case index_sources lexers sha256 0 [] (sort_key as_file_path sources) of
        Inl e \<Rightarrow> if is_value_error e then dup_observation rq FAILED [] [] [exn_text e] else Inl e
      | Inr files \<Rightarrow>
          (case match_and_cluster record_hash sha256 iter files of
             Inl (DuplicateComparisonLimit t args) \<Rightarrow>
               dup_observation rq FAILED [] []
                 [''duplicate comparison limit exceeded: '' @ exn_text (DuplicateComparisonLimit t args)]
           | Inl e \<Rightarrow> Inl e
           | Inr clustering \<Rightarrow> report_duplicates sha256 rq limitations files clustering))"

definition measure_duplicates ::
    "(string \<Rightarrow> string) \<Rightarrow> (pure_path \<Rightarrow> pure_path result) \<Rightarrow> (pure_path \<Rightarrow> open_result) \<Rightarrow> lexers
     \<Rightarrow> (string \<Rightarrow> hash) \<Rightarrow> (string \<Rightarrow> string) \<Rightarrow> (location list \<Rightarrow> location list) \<Rightarrow> dup_request
     \<Rightarrow> observation result" where
  "measure_duplicates casefold resolve opened lexers record_hash sha256 iter rq =
     (case read_analysis_sources casefold resolve opened False False (PInt MAX_ANALYSIS_SOURCE_FILES)
             (PInt MAX_ANALYSIS_SOURCE_CANDIDATES) (PInt MAX_ANALYSIS_SOURCE_BYTES)
             (PInt MAX_ANALYSIS_INVENTORY_BYTES) (dr_root rq) (dr_files rq) of
        Inl (AnalysisSourceError code t args) \<Rightarrow>
          dup_observation rq FAILED [] [] [code @ '': '' @ fill t args]
      | Inl e \<Rightarrow> Inl e
      | Inr inventory \<Rightarrow>
          (let limitations = dup_limitations rq inventory in
           if in_sources inventory = []
           then
             bindr (dup_measurements 0 0 PNone PNone) (\<lambda>ms.
             dup_observation rq SUCCEEDED [] ms
               (if limitations = [] then [''no owned source files''] else limitations))
           else scan_sources lexers record_hash sha256 iter rq limitations (in_sources inventory)))"

end
