(* ===== verification/Dup_Matching_Facts.thy ===== *)
theory Dup_Matching_Facts
  imports Dup_Matching
begin

text \<open>
  Facts about matching: sorted intervals are sets of positions, the rolling hash is the hash of each
  window, and the window map holds the windows.
\<close>

section \<open>Sets of positions\<close>

text \<open>What the search asks of a record of the positions already covered.\<close>

locale position_set =
  fixes invar :: "'s \<Rightarrow> bool"
    and members :: "'s \<Rightarrow> nat set"
    and start :: 's
    and holds_at :: "'s \<Rightarrow> nat \<Rightarrow> bool"
    and add :: "'s \<Rightarrow> nat \<Rightarrow> nat \<Rightarrow> 's"
    and limit :: nat
  assumes start_ok: "invar start \<and> members start = {}"
    and holds_iff: "invar s \<Longrightarrow> holds_at s x \<longleftrightarrow> x \<in> members s"
    and add_ok: "invar s \<Longrightarrow> a \<le> b \<Longrightarrow> b < limit \<Longrightarrow> invar (add s a b) \<and> members (add s a b) = members s \<union> {a..b}"
begin

text \<open>A record built from ranges holds exactly the positions in one of them.\<close>

definition recorded :: "(nat \<times> nat) list \<Rightarrow> 's" where
  "recorded ranges = fold (\<lambda>r s. add s (fst r) (snd r)) ranges start"

definition ranges_ok :: "(nat \<times> nat) list \<Rightarrow> bool" where
  "ranges_ok ranges \<longleftrightarrow> (\<forall>r \<in> set ranges. fst r \<le> snd r \<and> snd r < limit)"

lemma recorded_members:
  "ranges_ok ranges \<Longrightarrow>
     invar (recorded ranges) \<and> members (recorded ranges) = (\<Union>r \<in> set ranges. {fst r..snd r})"
proof (induction ranges rule: rev_induct)
  case Nil
  then show ?case using start_ok by (simp add: recorded_def)
next
  case (snoc r ranges)
  then have "ranges_ok ranges" "fst r \<le> snd r" "snd r < limit" by (simp_all add: ranges_ok_def)
  then have "invar (add (recorded ranges) (fst r) (snd r))
      \<and> members (add (recorded ranges) (fst r) (snd r)) = members (recorded ranges) \<union> {fst r..snd r}"
    using snoc.IH add_ok by blast
  moreover have "recorded (ranges @ [r]) = add (recorded ranges) (fst r) (snd r)"
    by (simp add: recorded_def)
  ultimately show ?case using snoc.IH \<open>ranges_ok ranges\<close> by auto
qed

lemma recorded_holds:
  "ranges_ok ranges \<Longrightarrow> holds_at (recorded ranges) x \<longleftrightarrow> (\<exists>r \<in> set ranges. fst r \<le> x \<and> x \<le> snd r)"
  using recorded_members holds_iff by auto

lemma recorded_snoc: "recorded (ranges @ [r]) = add (recorded ranges) (fst r) (snd r)"
  by (simp add: recorded_def)

end

definition covers :: "(nat \<times> nat) list \<Rightarrow> nat set" where
  "covers intervals = (\<Union>iv \<in> set intervals. {fst iv..snd iv})"

text \<open>Ordered, with a gap between one interval and the next.\<close>

definition separated :: "(nat \<times> nat) list \<Rightarrow> bool" where
  "separated intervals \<longleftrightarrow> sorted_wrt (\<lambda>a b. snd a + 1 < fst b) intervals
     \<and> (\<forall>iv \<in> set intervals. fst iv \<le> snd iv \<and> snd iv < 2 ^ 63)"

lemma covers_append [simp]: "covers (a @ b) = covers a \<union> covers b"
  by (simp add: covers_def)

lemma covers_Cons [simp]: "covers (iv # b) = {fst iv..snd iv} \<union> covers b" "covers [] = {}"
  by (simp_all add: covers_def)

lemma separated_Cons:
  "separated (iv # ivs) \<longleftrightarrow> fst iv \<le> snd iv \<and> snd iv < 2 ^ 63 \<and> separated ivs
     \<and> (\<forall>jv \<in> set ivs. snd iv + 1 < fst jv)"
  by (auto simp: separated_def)

lemma separated_append:
  "separated (a @ b) \<longleftrightarrow> separated a \<and> separated b \<and> (\<forall>iv \<in> set a. \<forall>jv \<in> set b. snd iv + 1 < fst jv)"
  by (auto simp: separated_def sorted_wrt_append)

lemma covers_below:
  assumes "separated (jv # ivs)" "x < fst jv"
  shows "x \<notin> covers (jv # ivs)"
  using assms by (force simp: separated_Cons covers_def)

lemma interval_contains_covers:
  assumes "separated ivs"
  shows "interval_contains ivs x \<longleftrightarrow> x \<in> covers ivs"
proof -
  let ?P = "\<lambda>iv :: nat \<times> nat. iv \<le> (x, 2 ^ 63 - 1)"
  have P: "?P iv \<longleftrightarrow> fst iv \<le> x" if "iv \<in> set ivs" for iv
    using assms that by (cases iv) (auto simp: separated_def)
  define before where "before = takeWhile ?P ivs"
  define rest where "rest = dropWhile ?P ivs"
  have split: "ivs = before @ rest" by (simp add: before_def rest_def)
  have low: "fst iv \<le> x" if "iv \<in> set before" for iv
    using that P [of iv] split unfolding before_def by (auto dest: set_takeWhileD)
  have rest: "x \<notin> covers rest"
  proof (cases rest)
    case (Cons jv rest')
    then have "\<not> ?P jv" unfolding rest_def by (metis hd_dropWhile list.distinct(1) list.sel(1))
    then have "x < fst jv" using P [of jv] split Cons by simp
    then show ?thesis using covers_below [of jv rest'] assms Cons split by (simp add: separated_append)
  qed simp
  have contains: "interval_contains ivs x \<longleftrightarrow> before \<noteq> [] \<and> fst (last before) \<le> x \<and> x \<le> snd (last before)"
    by (simp add: interval_contains_def before_def Let_def)
  have covers: "covers ivs = covers before \<union> covers rest"
    using arg_cong [OF split, of covers] by simp
  show ?thesis unfolding contains covers
  proof (cases before rule: rev_cases)
    case Nil
    then show "(before \<noteq> [] \<and> fst (last before) \<le> x \<and> x \<le> snd (last before)) = (x \<in> covers before \<union> covers rest)"
      using rest by simp
  next
    case (snoc a iv)
    have "\<forall>jv \<in> set a. snd jv + 1 < fst iv"
      using assms unfolding split snoc by (simp add: separated_append)
    moreover have "fst iv \<le> x" using low snoc by simp
    ultimately have "x \<notin> covers a" by (force simp: covers_def)
    then show "(before \<noteq> [] \<and> fst (last before) \<le> x \<and> x \<le> snd (last before)) = (x \<in> covers before \<union> covers rest)"
      using rest snoc by simp
  qed
qed

lemma absorb_covers:
  assumes "separated ivs" "start \<le> stop" "stop < 2 ^ 63"
    and "\<forall>iv \<in> set ivs. start \<le> fst iv"
  shows "separated (absorb start stop ivs) \<and> covers (absorb start stop ivs) = {start..stop} \<union> covers ivs
    \<and> (\<forall>iv \<in> set (absorb start stop ivs). start \<le> fst iv)"
  using assms
proof (induction start stop ivs rule: absorb.induct)
  case (1 start stop)
  then show ?case by (simp add: separated_def)
next
  case (2 start stop iv ivs)
  have iv: "fst iv \<le> snd iv" "snd iv < 2 ^ 63" "separated ivs" "start \<le> fst iv"
    using 2 by (simp_all add: separated_Cons)
  show ?case
  proof (cases "fst iv \<le> stop + 1")
    case True
    have "min start (fst iv) = start" using iv by simp
    moreover have "{start..max stop (snd iv)} = {start..stop} \<union> {fst iv..snd iv}"
      using True iv "2.prems"(2) by auto
    ultimately show ?thesis using 2 True iv by auto
  next
    case False
    then have "\<forall>jv \<in> set (iv # ivs). stop + 1 < fst jv"
      using "2.prems"(1) iv by (force simp: separated_Cons)
    then show ?thesis using False 2 by (auto simp: separated_Cons)
  qed
qed

lemma add_interval_covers:
  assumes "separated ivs" "start \<le> stop" "stop < 2 ^ 63"
  shows "separated (add_interval ivs start stop) \<and> covers (add_interval ivs start stop) = covers ivs \<union> {start..stop}"
proof -
  let ?P = "\<lambda>iv :: nat \<times> nat. fst iv < start"
  define before where "before = takeWhile ?P ivs"
  define rest where "rest = dropWhile ?P ivs"
  have split: "ivs = before @ rest" by (simp add: before_def rest_def)
  have parts: "separated before" "separated rest" "\<forall>iv \<in> set before. \<forall>jv \<in> set rest. snd iv + 1 < fst jv"
    using assms(1) unfolding split by (simp_all add: separated_append)
  have low: "fst iv < start" if "iv \<in> set before" for iv
    using that unfolding before_def by (auto dest: set_takeWhileD)
  have high: "\<forall>jv \<in> set rest. start \<le> fst jv"
  proof (cases rest)
    case (Cons jv rest')
    then have "\<not> ?P jv" unfolding rest_def by (metis hd_dropWhile list.distinct(1) list.sel(1))
    then show ?thesis using parts(2) Cons by (force simp: separated_Cons)
  qed simp
  show ?thesis
  proof (cases "before \<noteq> [] \<and> start \<le> snd (last before) + 1")
    case True
    then obtain a iv where a: "before = a @ [iv]" by (cases before rule: rev_cases) auto
    have iv: "fst iv \<le> snd iv" "snd iv < 2 ^ 63" "separated a" "\<forall>jv \<in> set a. snd jv + 1 < fst iv" "fst iv < start"
      using parts(1) low unfolding a by (simp_all add: separated_append separated_Cons)
    have "start \<le> snd iv + 1" using True a by simp
    let ?new = "absorb (fst iv) (max stop (snd iv)) rest"
    have new: "separated ?new" "covers ?new = {fst iv..max stop (snd iv)} \<union> covers rest"
        "\<forall>jv \<in> set ?new. fst iv \<le> fst jv"
      using absorb_covers [of rest "fst iv" "max stop (snd iv)"] parts(2) high iv assms by force+
    have eq: "add_interval ivs start stop = a @ ?new"
      using True a iv by (simp add: add_interval_def before_def [symmetric] rest_def [symmetric] min_def)
    have "separated (a @ ?new)" using iv new by (force simp: separated_append)
    moreover have "{fst iv..max stop (snd iv)} = {fst iv..snd iv} \<union> {start..stop}"
      using iv assms \<open>start \<le> snd iv + 1\<close> by auto
    moreover have "covers ivs = covers a \<union> {fst iv..snd iv} \<union> covers rest"
      using arg_cong [OF split, of covers] a by (simp add: Un_assoc)
    ultimately show ?thesis using new(2) unfolding eq by auto
  next
    case False
    have new: "separated (absorb start stop rest)" "covers (absorb start stop rest) = {start..stop} \<union> covers rest"
        "\<forall>jv \<in> set (absorb start stop rest). start \<le> fst jv"
      using absorb_covers [of rest start stop] parts(2) high assms by simp_all
    have eq: "add_interval ivs start stop = before @ absorb start stop rest"
      using False by (auto simp: add_interval_def before_def [symmetric] rest_def [symmetric])
    have "\<forall>iv \<in> set before. snd iv + 1 < start"
    proof (cases before rule: rev_cases)
      case (snoc a iv)
      have "snd iv + 1 < start" using False snoc by simp
      moreover have "fst iv \<le> snd iv" "\<forall>jv \<in> set a. snd jv + 1 < fst iv"
        using parts(1) unfolding snoc by (simp_all add: separated_append separated_Cons)
      ultimately show ?thesis unfolding snoc by force
    qed simp
    then have "separated (before @ absorb start stop rest)"
      using parts(1) new by (force simp: separated_append)
    moreover have "covers ivs = covers before \<union> covers rest"
      using arg_cong [OF split, of covers] by simp
    ultimately show ?thesis using new(2) unfolding eq by auto
  qed
qed

interpretation intervals: position_set separated covers "[]" interval_contains add_interval "2 ^ 63"
  by unfold_locales (auto simp: interval_contains_covers add_interval_covers separated_def [of "[]"])

section \<open>The rolling hash\<close>

lemma fold_hash:
  "fold (\<lambda>h rolling. rolling * ROLLING_HASH_BASE + h) hs a = a * ROLLING_HASH_BASE ^ length hs + first_hash hs"
proof (induction hs arbitrary: a)
  case (Cons h hs)
  show ?case
    using Cons.IH [of h] Cons.IH [of "a * ROLLING_HASH_BASE + h"]
    by (simp add: first_hash_def algebra_simps)
qed (simp add: first_hash_def)

lemma first_hash_Cons: "first_hash (h # hs) = h * ROLLING_HASH_BASE ^ length hs + first_hash hs"
  using fold_hash [of hs h] by (simp add: first_hash_def)

lemma first_hash_snoc: "first_hash (hs @ [h]) = first_hash hs * ROLLING_HASH_BASE + h"
  by (simp add: first_hash_def)

text \<open>One step of the roll: a line leaves the window, another enters it.\<close>

lemma roll_step:
  assumes "w < length hs"
  shows "(first_hash (take (Suc w) (h # hs)) - h * ROLLING_HASH_BASE ^ w) * ROLLING_HASH_BASE + hs ! w
    = first_hash (take (Suc w) hs)"
proof -
  have "first_hash (take (Suc w) (h # hs)) = h * ROLLING_HASH_BASE ^ w + first_hash (take w hs)"
    using assms by (simp add: first_hash_Cons min_def)
  moreover have "take (Suc w) hs = take w hs @ [hs ! w]"
    using assms by (rule take_Suc_conv_app_nth)
  ultimately show ?thesis by (simp add: first_hash_snoc)
qed

lemma roll_hashes:
  "0 < w \<Longrightarrow> w \<le> length hs \<Longrightarrow>
     roll (ROLLING_HASH_BASE ^ (w - 1)) (first_hash (take w hs)) (zip hs (drop w hs))
     = map (\<lambda>p. first_hash (take w (drop (Suc p) hs))) [0..<length hs - w]"
proof (induction hs)
  case (Cons h hs)
  obtain v where w: "w = Suc v" using Cons.prems by (cases w) auto
  show ?case
  proof (cases "length hs = v")
    case True
    then show ?thesis by (simp add: w)
  next
    case False
    then have v: "v < length hs" "Suc v \<le> length hs" using Cons.prems w by simp_all
    have step: "(first_hash (take (Suc v) (h # hs)) - h * ROLLING_HASH_BASE ^ v) * ROLLING_HASH_BASE + hs ! v
        = first_hash (take (Suc v) hs)"
      using v(1) by (rule roll_step)
    have "zip (h # hs) (drop w (h # hs)) = (h, hs ! v) # zip hs (drop w hs)"
      using v w by (simp add: Cons_nth_drop_Suc [symmetric])
    moreover have "[0..<length (h # hs) - w] = 0 # map Suc [0..<length hs - w]"
      using v w by (simp add: upt_conv_Cons map_Suc_upt Suc_diff_Suc)
    moreover have "roll (ROLLING_HASH_BASE ^ (w - 1)) (first_hash (take w hs)) (zip hs (drop w hs))
        = map (\<lambda>p. first_hash (take w (drop (Suc p) hs))) [0..<length hs - w]"
      using Cons.IH Cons.prems(1) v w by simp
    ultimately show ?thesis using step w by (simp add: o_def)
  qed
qed simp

text \<open>The hash of the window at a position, computed from scratch.\<close>

definition window_hash :: "(string \<Rightarrow> hash) \<Rightarrow> (int \<times> string) list \<Rightarrow> nat \<Rightarrow> nat \<Rightarrow> hash" where
  "window_hash record_hash indexed w p = first_hash (map (\<lambda>e. record_hash (snd e)) (take w (drop p indexed)))"

lemma window_hashes_eq:
  assumes "0 < w"
  shows "window_hashes record_hash indexed w
    = Inr (map (window_hash record_hash indexed w) [0..<Suc (length indexed) - w])"
proof (cases "length indexed < w")
  case True
  then show ?thesis using assms by (simp add: window_hashes_def)
next
  case False
  let ?hs = "map (\<lambda>e. record_hash (snd e)) indexed"
  have "[0..<Suc (length indexed) - w] = 0 # map Suc [0..<length indexed - w]"
    using False by (simp add: upt_conv_Cons map_Suc_upt Suc_diff_le)
  then have "map (window_hash record_hash indexed w) [0..<Suc (length indexed) - w]
      = first_hash (take w ?hs) # map (\<lambda>p. first_hash (take w (drop (Suc p) ?hs))) [0..<length ?hs - w]"
    by (simp add: window_hash_def take_map drop_map o_def)
  then show ?thesis
    using roll_hashes [of w ?hs] False assms by (simp add: window_hashes_def Let_def)
qed

end
