(* ===== verification/Dup_Window_Facts.thy ===== *)
theory Dup_Window_Facts
  imports Dup_Matching_Facts "HOL-Library.Product_Lexorder"
begin

text \<open>
  The window map holds, under the language and hash of each window worth matching, its places in
  order; the seed pairs are the pairs of places with one key.
\<close>

section \<open>Windows worth matching\<close>

text \<open>A window inside one region of a file, with enough lines that say something.\<close>

definition good_window :: "dup_file \<Rightarrow> nat \<Rightarrow> nat \<Rightarrow> bool" where
  "good_window f w p \<longleftrightarrow> p + w \<le> length (df_indexed f)
     \<and> has_duplicate_signal (duplicate_signal_prefix (df_indexed f)) p w
     \<and> (\<forall>k < w. df_regions f ! (p + k) = df_regions f ! p)"

definition window_key :: "(string \<Rightarrow> hash) \<Rightarrow> dup_file \<Rightarrow> nat \<Rightarrow> nat \<Rightarrow> string \<times> hash" where
  "window_key record_hash f w p = (df_language f, window_hash record_hash (df_indexed f) w p)"

lemma region_stop_spec:
  "stop \<le> length regions \<Longrightarrow>
     stop \<le> region_stop regions region stop \<and> region_stop regions region stop \<le> length regions
     \<and> (\<forall>k. stop \<le> k \<and> k < region_stop regions region stop \<longrightarrow> regions ! k = region)
     \<and> (region_stop regions region stop < length regions \<longrightarrow> regions ! region_stop regions region stop \<noteq> region)"
proof (induction regions region stop rule: region_stop.induct)
  case (1 regions region stop)
  show ?case
  proof (cases "stop < length regions \<and> regions ! stop = region")
    case True
    then have eq: "region_stop regions region stop = region_stop regions region (Suc stop)"
      by (simp add: region_stop.simps)
    have "k = stop \<or> Suc stop \<le> k" if "stop \<le> k" for k using that by auto
    then show ?thesis using 1 True unfolding eq by (metis Suc_leD Suc_leI)
  next
    case False
    then have eq: "region_stop regions region stop = stop" by (subst region_stop.simps) auto
    show ?thesis using False 1 unfolding eq by auto
  qed
qed

text \<open>\<open>stop\<close> is where the region at the position ends, if the position is before it.\<close>

definition run_end :: "(int \<times> int) list \<Rightarrow> nat \<Rightarrow> nat \<Rightarrow> bool" where
  "run_end regions p stop \<longleftrightarrow> stop \<le> length regions
     \<and> (p < stop \<longrightarrow> (\<forall>k. p \<le> k \<and> k < stop \<longrightarrow> regions ! k = regions ! p)
          \<and> (stop < length regions \<longrightarrow> regions ! stop \<noteq> regions ! p))"

lemma run_end_Suc: "run_end regions p stop \<Longrightarrow> run_end regions (Suc p) stop"
  unfolding run_end_def by (metis Suc_leD Suc_lessD le_refl less_imp_le_nat)

lemma run_end_next:
  assumes "run_end regions p stop" "p < length regions"
  defines "stop' \<equiv> if stop \<le> p then region_stop regions (regions ! p) (Suc p) else stop"
  shows "run_end regions p stop' \<and> p < stop'"
proof (cases "stop \<le> p")
  case True
  define r where "r = region_stop regions (regions ! p) (Suc p)"
  have r: "Suc p \<le> r" "r \<le> length regions" "\<forall>k. Suc p \<le> k \<and> k < r \<longrightarrow> regions ! k = regions ! p"
      "r < length regions \<longrightarrow> regions ! r \<noteq> regions ! p"
    using region_stop_spec [of "Suc p" regions "regions ! p"] assms(2) unfolding r_def by auto
  have "regions ! k = regions ! p" if "p \<le> k" "k < r" for k
    using r(3) that by (cases "k = p") auto
  then have "run_end regions p r" using r(2,4) unfolding run_end_def by blast
  moreover have "stop' = r" using True by (simp add: stop'_def r_def)
  ultimately show ?thesis using r(1) by simp
qed (use assms in auto)

lemma run_end_window:
  assumes "run_end regions p stop" "p < stop" "p + w \<le> length regions"
  shows "p + w \<le> stop \<longleftrightarrow> (\<forall>k < w. regions ! (p + k) = regions ! p)"
proof
  assume *: "p + w \<le> stop"
  have same: "\<forall>k. p \<le> k \<and> k < stop \<longrightarrow> regions ! k = regions ! p"
    using assms(1,2) unfolding run_end_def by blast
  show "\<forall>k < w. regions ! (p + k) = regions ! p"
  proof (intro allI impI)
    fix k assume "k < w"
    then show "regions ! (p + k) = regions ! p" using * by (intro same [rule_format]) simp
  qed
next
  assume *: "\<forall>k < w. regions ! (p + k) = regions ! p"
  show "p + w \<le> stop"
  proof (rule ccontr)
    assume "\<not> ?thesis"
    then have "stop - p < w" "stop < length regions" using assms by auto
    moreover have "regions ! stop \<noteq> regions ! p"
      using assms(1,2) \<open>stop < length regions\<close> unfolding run_end_def by blast
    moreover have "p + (stop - p) = stop" using assms(2) by simp
    ultimately show False using * by metis
  qed
qed

section \<open>The window map\<close>

definition places :: "(string \<Rightarrow> hash) \<Rightarrow> nat \<Rightarrow> string \<times> hash \<Rightarrow> nat \<Rightarrow> dup_file \<Rightarrow> nat \<Rightarrow> nat \<Rightarrow> (nat \<times> nat) list" where
  "places record_hash w key i f p q =
     map (Pair i) (filter (\<lambda>p. good_window f w p \<and> key = window_key record_hash f w p) [p..<q])"

lemma index_positions_values:
  assumes "0 < w" "length (df_regions f) = length (df_indexed f)" "p \<le> q" "q + w \<le> Suc (length (df_indexed f))"
    "run_end (df_regions f) p stop"
    "index_positions limits i f (duplicate_signal_prefix (df_indexed f)) w p stop
       (map (window_hash record_hash (df_indexed f) w) [p..<q]) windows = Inr windows'"
  shows "dict_values windows' key = dict_values windows key @ places record_hash w key i f p q"
  using assms
proof (induction "q - p" arbitrary: p stop windows)
  case 0
  then show ?case by (simp add: places_def)
next
  case (Suc n)
  let ?prefix = "duplicate_signal_prefix (df_indexed f)"
  let ?h = "window_hash record_hash (df_indexed f) w"
  have p: "p < q" "[p..<q] = p # [Suc p..<q]" using Suc.hyps(2) by (simp_all add: upt_conv_Cons)
  have here: "places record_hash w key i f p q
      = (if good_window f w p \<and> key = window_key record_hash f w p then [(i, p)] else [])
        @ places record_hash w key i f (Suc p) q"
    by (simp add: places_def p(2))
  have IH: "dict_values windows' key = dict_values ws key @ places record_hash w key i f (Suc p) q"
    if "run_end (df_regions f) (Suc p) stop'"
      "index_positions limits i f ?prefix w (Suc p) stop' (map ?h [Suc p..<q]) ws = Inr windows'" for stop' ws
    using Suc.hyps(1) [of "Suc p" stop' ws] Suc.hyps(2) Suc.prems(1,2,4) p(1) that by simp
  define stop' where "stop' = (if stop \<le> p then region_stop (df_regions f) (df_regions f ! p) (Suc p) else stop)"
  have stop': "run_end (df_regions f) p stop'" "p < stop'"
    using run_end_next [of "df_regions f" p stop] Suc.prems p(1) unfolding stop'_def by auto
  have window: "p + w \<le> stop' \<longleftrightarrow> (\<forall>k < w. df_regions f ! (p + k) = df_regions f ! p)"
    using run_end_window [OF stop', of w] Suc.prems p(1) by simp
  have step: "index_positions limits i f ?prefix w p stop (?h p # map ?h [Suc p..<q]) windows = Inr windows'"
    using Suc.prems(6) by (simp add: p(2))
  show ?case
  proof (cases "has_duplicate_signal ?prefix p w")
    case False
    then have "\<not> good_window f w p" by (simp add: good_window_def)
    then show ?thesis using False step IH [OF run_end_Suc [OF Suc.prems(5)]] here by simp
  next
    case True
    show ?thesis
    proof (cases "stop' < p + w")
      case far: True
      then have "\<not> good_window f w p" using window by (auto simp: good_window_def)
      moreover have "index_positions limits i f ?prefix w (Suc p) stop' (map ?h [Suc p..<q]) windows = Inr windows'"
        using step True far by (simp add: stop'_def [symmetric])
      ultimately show ?thesis using IH [OF run_end_Suc [OF stop'(1)]] here by simp
    next
      case False
      then have good: "good_window f w p"
        using window True Suc.prems(4) p(1) by (auto simp: good_window_def)
      have "index_positions limits i f ?prefix w (Suc p) stop' (map ?h [Suc p..<q])
          (dict_append (df_language f, ?h p) (i, p) windows) = Inr windows'"
        using step True False by (simp add: stop'_def [symmetric] result_iff)
      then have "dict_values windows' key
          = dict_values (dict_append (df_language f, ?h p) (i, p) windows) key @ places record_hash w key i f (Suc p) q"
        by (rule IH [OF run_end_Suc [OF stop'(1)]])
      then show ?thesis using good here by (auto simp: dict_values_append window_key_def)
    qed
  qed
qed

definition file_places :: "(string \<Rightarrow> hash) \<Rightarrow> nat \<Rightarrow> string \<times> hash \<Rightarrow> nat \<Rightarrow> dup_file \<Rightarrow> (nat \<times> nat) list" where
  "file_places record_hash w key i f = places record_hash w key i f 0 (Suc (length (df_indexed f)) - w)"

lemma index_file_values:
  assumes "0 < w" "length (df_regions f) = length (df_indexed f)"
    "index_file_windows record_hash limits w i f windows = Inr windows'"
  shows "dict_values windows' key = dict_values windows key @ file_places record_hash w key i f"
proof (cases "length (df_indexed f) < w")
  case True
  then show ?thesis using assms by (simp add: index_file_windows_def file_places_def places_def)
next
  case False
  then show ?thesis
    using assms index_positions_values [of w f 0 "Suc (length (df_indexed f)) - w" 0 limits i record_hash windows windows' key]
    by (simp add: index_file_windows_def window_hashes_eq file_places_def run_end_def)
qed

fun all_places :: "(string \<Rightarrow> hash) \<Rightarrow> nat \<Rightarrow> string \<times> hash \<Rightarrow> nat \<Rightarrow> dup_file list \<Rightarrow> (nat \<times> nat) list" where
  "all_places record_hash w key i [] = []"
| "all_places record_hash w key i (f # fs) =
     file_places record_hash w key i f @ all_places record_hash w key (Suc i) fs"

lemma build_window_values:
  assumes "0 < w" "\<forall>f \<in> set fs. length (df_regions f) = length (df_indexed f)"
    "build_window_map record_hash limits w i fs windows = Inr windows'"
  shows "dict_values windows' key = dict_values windows key @ all_places record_hash w key i fs"
  using assms(2,3)
proof (induction fs arbitrary: i windows)
  case (Cons f fs)
  obtain ws where ws: "index_file_windows record_hash limits w i f windows = Inr ws"
      "build_window_map record_hash limits w (Suc i) fs ws = Inr windows'"
    using Cons.prems(2) by (auto simp: result_iff)
  then show ?case
    using index_file_values [OF assms(1) _ ws(1), of key] Cons.IH [OF _ ws(2)] Cons.prems(1) by simp
qed simp

lemma set_places:
  "(j, p) \<in> set (file_places record_hash w key i f) \<longleftrightarrow>
     j = i \<and> good_window f w p \<and> key = window_key record_hash f w p"
  by (auto simp: file_places_def places_def good_window_def)

lemma set_all_places:
  "(j, p) \<in> set (all_places record_hash w key i fs) \<longleftrightarrow>
     i \<le> j \<and> j < i + length fs \<and> good_window (fs ! (j - i)) w p
     \<and> key = window_key record_hash (fs ! (j - i)) w p"
proof (induction fs arbitrary: i)
  case (Cons f fs)
  show ?case
  proof (cases "i < j")
    case True
    then have "(f # fs) ! (j - i) = fs ! (j - Suc i)" by (cases "j - i") (auto simp: diff_Suc)
    then show ?thesis using True Cons.IH [of "Suc i"] by (auto simp: set_places)
  next
    case False
    then show ?thesis using Cons.IH [of "Suc i"] by (auto simp: set_places)
  qed
qed simp

lemma sorted_file_places: "sorted_wrt (<) (file_places record_hash w key i f)"
proof -
  have "sorted_wrt (<) (filter P [p..<q])" for P and p q :: nat
    by (simp add: sorted_wrt_filter)
  then show ?thesis unfolding file_places_def places_def sorted_wrt_map by (simp add: less_prod_def)
qed

lemma sorted_all_places: "sorted_wrt (<) (all_places record_hash w key i fs)"
proof (induction fs arbitrary: i)
  case (Cons f fs)
  have "x < y" if "x \<in> set (file_places record_hash w key i f)" "y \<in> set (all_places record_hash w key (Suc i) fs)" for x y
  proof -
    have "fst x = i" using that(1) set_places [of "fst x" "snd x"] by simp
    moreover have "Suc i \<le> fst y" using that(2) set_all_places [of "fst y" "snd y"] by simp
    ultimately show ?thesis by (simp add: less_prod_def)
  qed
  then show ?case using Cons.IH sorted_file_places by (simp add: sorted_wrt_append)
qed simp

section \<open>Seed pairs\<close>

lemma occurrence_pairs_sorted:
  fixes xs :: "'a :: linorder list"
  assumes "sorted_wrt (<) xs"
  shows "(x, y) \<in> set (occurrence_pairs xs) \<longleftrightarrow> x \<in> set xs \<and> y \<in> set xs \<and> x < y"
  using assms by (induction xs) auto

text \<open>The first place of a pair comes first.\<close>

lemma seed_pairs_members:
  assumes "0 < w" "\<forall>f \<in> set files. length (df_regions f) = length (df_indexed f)"
    "build_window_map record_hash limits w 0 files [] = Inr windows"
  shows "((f1, p1), (f2, p2)) \<in> set (seed_pairs windows) \<longleftrightarrow>
    f1 < length files \<and> f2 < length files \<and> (f1, p1) < (f2, p2)
    \<and> good_window (files ! f1) w p1 \<and> good_window (files ! f2) w p2
    \<and> window_key record_hash (files ! f1) w p1 = window_key record_hash (files ! f2) w p2"
proof -
  have vals: "dict_values windows key = all_places record_hash w key 0 files" for key
    using build_window_values [OF assms] by (simp add: dict_values_def)
  have known: "key \<in> fst ` set windows" if "dict_values windows key \<noteq> []" for key
    using that by (auto simp: dict_values_def dest: map_of_SomeD split: option.splits intro: rev_image_eqI)
  have "((f1, p1), (f2, p2)) \<in> set (seed_pairs windows) \<longleftrightarrow>
      (\<exists>key \<in> fst ` set windows. (f1, p1) \<in> set (dict_values windows key)
         \<and> (f2, p2) \<in> set (dict_values windows key) \<and> (f1, p1) < (f2, p2))"
    unfolding seed_pairs_def
    by (simp add: vals occurrence_pairs_sorted [OF sorted_all_places])
  also have "\<dots> \<longleftrightarrow> (\<exists>key. (f1, p1) \<in> set (dict_values windows key)
         \<and> (f2, p2) \<in> set (dict_values windows key) \<and> (f1, p1) < (f2, p2))"
    using known by (metis empty_iff empty_set)
  also have "\<dots> \<longleftrightarrow> f1 < length files \<and> f2 < length files \<and> (f1, p1) < (f2, p2)
    \<and> good_window (files ! f1) w p1 \<and> good_window (files ! f2) w p2
    \<and> window_key record_hash (files ! f1) w p1 = window_key record_hash (files ! f2) w p2"
    unfolding vals set_all_places add_0 diff_zero by (simp only: le0 simp_thms) blast
  finally show ?thesis .
qed

end
