(* ===== verification/Dup_Match_Facts.thy ===== *)
theory Dup_Match_Facts
  imports Dup_Window_Facts
begin

text \<open>
  What the search finds: maximal runs of equal lines, each within one region of its two files, and,
  between two files, all of those that contain a window worth matching.
\<close>

section \<open>Clones\<close>

text \<open>The \<open>n\<close> lines from \<open>s1\<close> and from \<open>s2\<close> are the same, each within one region, and do not overlap.\<close>

definition exact_clone :: "dup_file list \<Rightarrow> nat \<Rightarrow> nat \<Rightarrow> nat \<Rightarrow> nat \<Rightarrow> nat \<Rightarrow> bool" where
  "exact_clone files f1 s1 f2 s2 n \<longleftrightarrow>
     f1 < length files \<and> f2 < length files \<and> df_language (files ! f1) = df_language (files ! f2)
     \<and> (f1 < f2 \<or> f1 = f2 \<and> s1 + n \<le> s2)
     \<and> s1 + n \<le> length (df_indexed (files ! f1)) \<and> s2 + n \<le> length (df_indexed (files ! f2))
     \<and> (\<forall>k < n. token_at files f1 (s1 + k) = token_at files f2 (s2 + k)
          \<and> region_at files f1 (s1 + k) = region_at files f1 s1
          \<and> region_at files f2 (s2 + k) = region_at files f2 s2)"

text \<open>It cannot be made longer by a line, at either end.\<close>

definition maximal_clone :: "dup_file list \<Rightarrow> nat \<Rightarrow> nat \<Rightarrow> nat \<Rightarrow> nat \<Rightarrow> nat \<Rightarrow> bool" where
  "maximal_clone files f1 s1 f2 s2 n \<longleftrightarrow>
     exact_clone files f1 s1 f2 s2 n \<and> \<not> exact_clone files f1 s1 f2 s2 (Suc n)
     \<and> \<not> (0 < s1 \<and> 0 < s2 \<and> exact_clone files f1 (s1 - 1) f2 (s2 - 1) (Suc n))"

lemma clone_at:
  "exact_clone files f1 s1 f2 s2 n \<Longrightarrow> s1 \<le> x \<Longrightarrow> x < s1 + n \<Longrightarrow>
     token_at files f1 x = token_at files f2 (s2 + (x - s1))
     \<and> region_at files f1 x = region_at files f1 s1 \<and> region_at files f2 (s2 + (x - s1)) = region_at files f2 s2"
  unfolding exact_clone_def by (metis le_add_diff_inverse nat_add_left_cancel_less)

lemma exact_cloneI:
  assumes "f1 < length files" "f2 < length files" "df_language (files ! f1) = df_language (files ! f2)"
    "f1 < f2 \<or> f1 = f2 \<and> s1 + n \<le> s2"
    "s1 + n \<le> length (df_indexed (files ! f1))" "s2 + n \<le> length (df_indexed (files ! f2))"
    "\<And>k. k < n \<Longrightarrow> token_at files f1 (s1 + k) = token_at files f2 (s2 + k)
        \<and> region_at files f1 (s1 + k) = region_at files f1 s1
        \<and> region_at files f2 (s2 + k) = region_at files f2 s2"
  shows "exact_clone files f1 s1 f2 s2 n"
  using assms unfolding exact_clone_def by blast

lemma exact_clone_Suc:
  "exact_clone files f1 s1 f2 s2 (Suc n) \<longleftrightarrow>
     exact_clone files f1 s1 f2 s2 n \<and> (n = 0 \<or> may_grow files f1 s1 f2 s2 n)
     \<and> s1 + n < length (df_indexed (files ! f1)) \<and> s2 + n < length (df_indexed (files ! f2))
     \<and> (f1 = f2 \<longrightarrow> s1 + n < s2) \<and> token_at files f1 (s1 + n) = token_at files f2 (s2 + n)"
  unfolding exact_clone_def may_grow_def in_bounds_def less_Suc_eq by auto

lemma exact_clone_back:
  assumes clone: "exact_clone files f1 s1 f2 s2 n" and n: "0 < n" and s: "0 < s1" "0 < s2"
    and same: "token_at files f1 (s1 - 1) = token_at files f2 (s2 - 1)"
      "region_at files f1 (s1 - 1) = region_at files f1 s1" "region_at files f2 (s2 - 1) = region_at files f2 s2"
    and apart: "f1 = f2 \<Longrightarrow> s1 + n < s2"
  shows "exact_clone files f1 (s1 - 1) f2 (s2 - 1) (Suc n)"
proof (rule exact_cloneI)
  fix k assume k: "k < Suc n"
  show "token_at files f1 (s1 - 1 + k) = token_at files f2 (s2 - 1 + k)
        \<and> region_at files f1 (s1 - 1 + k) = region_at files f1 (s1 - 1)
        \<and> region_at files f2 (s2 - 1 + k) = region_at files f2 (s2 - 1)"
  proof (cases k)
    case (Suc j)
    then have "s1 - 1 + k = s1 + j" "s2 - 1 + k = s2 + j" "j < n" using s k by simp_all
    then show ?thesis using clone same unfolding exact_clone_def by metis
  qed (use same in simp)
qed (use clone s apart in \<open>auto simp: exact_clone_def\<close>)

lemma clone_back_parts:
  assumes "exact_clone files f1 (s1 - 1) f2 (s2 - 1) (Suc n)" "0 < n" "0 < s1" "0 < s2"
  shows "token_at files f1 (s1 - 1) = token_at files f2 (s2 - 1)
    \<and> region_at files f1 (s1 - 1) = region_at files f1 s1 \<and> region_at files f2 (s2 - 1) = region_at files f2 s2
    \<and> (f1 = f2 \<longrightarrow> s1 + n < s2)"
  using clone_at [OF assms(1), of "s1 - 1"] clone_at [OF assms(1), of s1] assms
  by (auto simp: exact_clone_def)

section \<open>Counted comparisons\<close>

lemma tokens_equal_value:
  "tokens_equal limits files f1 p1 f2 p2 bg = Inr (b, bg') \<Longrightarrow> b \<longleftrightarrow> token_at files f1 p1 = token_at files f2 p2"
  by (auto simp: tokens_equal_def Let_def result_iff)

lemma seed_is_equal_value:
  "seed_is_equal limits files f1 s1 f2 s2 offsets bg = Inr (b, bg') \<Longrightarrow>
     b \<longleftrightarrow> (\<forall>k \<in> set offsets. token_at files f1 (s1 + k) = token_at files f2 (s2 + k))"
proof (induction offsets arbitrary: bg)
  case (Cons k offsets)
  obtain same bg1 where step: "tokens_equal limits files f1 (s1 + k) f2 (s2 + k) bg = Inr (same, bg1)"
      "(if same then seed_is_equal limits files f1 s1 f2 s2 offsets bg1 else Inr (False, bg1)) = Inr (b, bg')"
    using Cons.prems by (auto simp: result_iff)
  show ?case
  proof (cases same)
    case True
    then show ?thesis using Cons.IH step tokens_equal_value [OF step(1)] by auto
  next
    case False
    then show ?thesis using step tokens_equal_value [OF step(1)] by auto
  qed
qed simp

definition same_before :: "dup_file list \<Rightarrow> nat \<Rightarrow> nat \<Rightarrow> nat \<Rightarrow> nat \<Rightarrow> nat \<Rightarrow> bool" where
  "same_before files f1 s1 f2 s2 k \<longleftrightarrow>
     region_at files f1 (s1 - k - 1) = region_at files f1 s1
     \<and> region_at files f2 (s2 - k - 1) = region_at files f2 s2
     \<and> token_at files f1 (s1 - k - 1) = token_at files f2 (s2 - k - 1)"

lemma go_backward_value:
  "go_backward limits files f1 s1 f2 s2 b allowed bg = Inr (b', bg') \<Longrightarrow>
     b \<le> b' \<and> b' \<le> b + allowed \<and> (\<forall>k. b \<le> k \<and> k < b' \<longrightarrow> same_before files f1 s1 f2 s2 k)
     \<and> (b' < b + allowed \<longrightarrow> \<not> same_before files f1 s1 f2 s2 b')"
proof (induction allowed arbitrary: b bg)
  case (Suc allowed)
  let ?regions = "region_at files f1 (s1 - b - 1) = region_at files f1 s1
     \<and> region_at files f2 (s2 - b - 1) = region_at files f2 s2"
  show ?case
  proof (cases ?regions)
    case False
    then show ?thesis using Suc.prems by (auto simp: same_before_def Let_def)
  next
    case True
    then obtain same bg1 where step: "tokens_equal limits files f1 (s1 - b - 1) f2 (s2 - b - 1) bg = Inr (same, bg1)"
        "(if same then go_backward limits files f1 s1 f2 s2 (Suc b) allowed bg1 else Inr (b, bg1)) = Inr (b', bg')"
      using Suc.prems by (auto simp: result_iff Let_def)
    have here: "same_before files f1 s1 f2 s2 b \<longleftrightarrow> same"
      using True tokens_equal_value [OF step(1)] by (simp add: same_before_def)
    show ?thesis
    proof (cases same)
      case True
      then have "go_backward limits files f1 s1 f2 s2 (Suc b) allowed bg1 = Inr (b', bg')"
        using step(2) by simp
      note Suc.IH [OF this]
      then have IH: "Suc b \<le> b'" "b' \<le> Suc b + allowed"
          "\<And>k. Suc b \<le> k \<Longrightarrow> k < b' \<Longrightarrow> same_before files f1 s1 f2 s2 k"
          "b' < Suc b + allowed \<Longrightarrow> \<not> same_before files f1 s1 f2 s2 b'"
        by blast+
      have "same_before files f1 s1 f2 s2 k" if "b \<le> k" "k < b'" for k
        using IH(3) [of k] here True that by (cases "k = b") auto
      then show ?thesis using IH(1,2,4) by simp
    next
      case False
      then show ?thesis using step(2) here by auto
    qed
  qed
qed auto

lemma extend_forward_value:
  "extend_forward limits files f1 s1 f2 s2 n bg = Inr (n', bg') \<Longrightarrow>
     0 < n \<Longrightarrow> exact_clone files f1 s1 f2 s2 n \<Longrightarrow>
     n \<le> n' \<and> exact_clone files f1 s1 f2 s2 n' \<and> \<not> exact_clone files f1 s1 f2 s2 (Suc n')"
proof (induction "length (df_indexed (files ! f1)) - (s1 + n)" arbitrary: n bg rule: less_induct)
  case less
  show ?case
  proof (cases "may_grow files f1 s1 f2 s2 n")
    case False
    then have "n' = n" using less.prems(1) by (simp add: extend_forward.simps)
    then show ?thesis using False less.prems(2,3) by (simp add: exact_clone_Suc)
  next
    case True
    then obtain same bg1 where step: "tokens_equal limits files f1 (s1 + n) f2 (s2 + n) bg = Inr (same, bg1)"
        "(if same then extend_forward limits files f1 s1 f2 s2 (Suc n) bg1 else Inr (n, bg1)) = Inr (n', bg')"
      using less.prems(1) by (subst (asm) extend_forward.simps) (auto simp: result_iff)
    have next_clone: "exact_clone files f1 s1 f2 s2 (Suc n) \<longleftrightarrow> same"
      using True less.prems(2,3) tokens_equal_value [OF step(1)]
      by (auto simp: exact_clone_Suc may_grow_def in_bounds_def)
    show ?thesis
    proof (cases same)
      case True
      have "s1 + n < length (df_indexed (files ! f1))"
        using \<open>may_grow files f1 s1 f2 s2 n\<close> by (simp add: may_grow_def in_bounds_def)
      then have "Suc n \<le> n' \<and> exact_clone files f1 s1 f2 s2 n' \<and> \<not> exact_clone files f1 s1 f2 s2 (Suc n')"
        using less.hyps [of "Suc n" bg1] step(2) True next_clone by simp
      then show ?thesis by (meson Suc_leD)
    next
      case False
      then show ?thesis using step(2) next_clone less.prems(3) by auto
    qed
  qed
qed

lemma back_clone:
  assumes "exact_clone files f1 s1 f2 s2 w" "0 < w" "b \<le> s1" "b \<le> s2" "f1 = f2 \<longrightarrow> s1 + w + b \<le> s2"
    "\<forall>k < b. same_before files f1 s1 f2 s2 k"
  shows "exact_clone files f1 (s1 - b) f2 (s2 - b) (w + b)
    \<and> region_at files f1 (s1 - b) = region_at files f1 s1 \<and> region_at files f2 (s2 - b) = region_at files f2 s2"
  using assms(3-6)
proof (induction b)
  case 0
  then show ?case using assms(1) by simp
next
  case (Suc b)
  then have IH: "exact_clone files f1 (s1 - b) f2 (s2 - b) (w + b)"
      "region_at files f1 (s1 - b) = region_at files f1 s1" "region_at files f2 (s2 - b) = region_at files f2 s2"
    using Suc.IH by (auto dest: Suc_leD)
  have here: "same_before files f1 s1 f2 s2 b" using Suc.prems by simp
  have "exact_clone files f1 (s1 - b - 1) f2 (s2 - b - 1) (Suc (w + b))"
  proof (rule exact_clone_back [OF IH(1)])
    show "token_at files f1 (s1 - b - 1) = token_at files f2 (s2 - b - 1)"
      using here unfolding same_before_def by blast
    show "region_at files f1 (s1 - b - 1) = region_at files f1 (s1 - b)"
      using here unfolding same_before_def IH(2) by blast
    show "region_at files f2 (s2 - b - 1) = region_at files f2 (s2 - b)"
      using here unfolding same_before_def IH(3) by blast
    show "s1 - b + (w + b) < s2 - b" if "f1 = f2" using Suc.prems(1-3) that by simp
  qed (use assms(2) Suc.prems in auto)
  then show ?case using here by (simp add: same_before_def)
qed

text \<open>A seed grows into a maximal clone that contains it.\<close>

lemma extend_seed_value:
  assumes "extend_seed limits files w f1 p1 f2 p2 bg = Inr ((s1, s2, n), bg')"
    and clone: "exact_clone files f1 p1 f2 p2 w" "0 < w"
  shows "maximal_clone files f1 s1 f2 s2 n \<and> s1 \<le> p1 \<and> p1 + w \<le> s1 + n \<and> int p2 - int p1 = int s2 - int s1"
proof -
  obtain b bg1 where b: "extend_backward limits files w f1 p1 f2 p2 bg = Inr (b, bg1)"
      "extend_forward limits files f1 (p1 - b) f2 (p2 - b) (w + b) bg1 = Inr (n, bg')"
      "s1 = p1 - b" "s2 = p2 - b"
    using assms(1) by (auto simp: extend_seed_def result_iff)
  define allowed where "allowed = backward_limit w f1 p1 f2 p2"
  have steps: "b \<le> allowed" "\<forall>k < b. same_before files f1 p1 f2 p2 k"
      "b < allowed \<longrightarrow> \<not> same_before files f1 p1 f2 p2 b"
    using go_backward_value [OF b(1) [unfolded extend_backward_def]] by (simp_all add: allowed_def)
  have limit: "allowed \<le> p1" "allowed \<le> p2" "f1 = f2 \<longrightarrow> p1 + w + allowed \<le> p2"
    using clone(1) by (auto simp: allowed_def backward_limit_def exact_clone_def)
  have apart: "s1 + (w + b) < s2" if "f1 = f2" "b < allowed"
    using limit that b(3,4) by simp
  have grown: "exact_clone files f1 s1 f2 s2 (w + b)"
      "region_at files f1 s1 = region_at files f1 p1" "region_at files f2 s2 = region_at files f2 p2"
    using back_clone [OF clone, of b] steps limit unfolding b(3,4) by auto
  have full: "w + b \<le> n" "exact_clone files f1 s1 f2 s2 n" "\<not> exact_clone files f1 s1 f2 s2 (Suc n)"
    using extend_forward_value [OF b(2)] clone(2) grown(1) unfolding b(3,4) by auto
  have "\<not> exact_clone files f1 (s1 - 1) f2 (s2 - 1) (Suc n)" if s: "0 < s1" "0 < s2"
  proof
    assume *: "exact_clone files f1 (s1 - 1) f2 (s2 - 1) (Suc n)"
    have parts: "token_at files f1 (s1 - 1) = token_at files f2 (s2 - 1)"
        "region_at files f1 (s1 - 1) = region_at files f1 s1" "region_at files f2 (s2 - 1) = region_at files f2 s2"
        "f1 = f2 \<longrightarrow> s1 + n < s2"
      using clone_back_parts [OF * _ s] full(1) clone(2) by auto
    then have "same_before files f1 p1 f2 p2 b"
      using grown(2,3) unfolding same_before_def b(3,4) by simp
    then have "b = allowed" using steps by auto
    then have "f1 = f2" "allowed = nat (int p2 - int p1 - int w)"
      using s unfolding b(3,4) allowed_def backward_limit_def by (auto simp: min_def split: if_splits)
    then have "s1 + (w + b) = s2" using limit \<open>b = allowed\<close> unfolding b(3,4) by auto
    then show False using parts(4) full(1) \<open>f1 = f2\<close> by simp
  qed
  then show ?thesis
    using full limit steps(1) clone(1) unfolding maximal_clone_def b(3,4) by auto
qed

end
