(* ===== verification/Dup_Search_Facts.thy ===== *)
theory Dup_Search_Facts
  imports Dup_Match_Facts
begin

text \<open>
  The search over all seed pairs: what it has found, what it has covered, and that no equal pair of
  windows is left uncovered.
\<close>

section \<open>What has been found\<close>

type_synonym clone = "nat \<times> nat \<times> nat \<times> nat \<times> nat"

definition clone_place :: "dup_file list \<Rightarrow> clone \<Rightarrow> clone_match" where
  "clone_place files g = (case g of (f1, s1, f2, s2, n) \<Rightarrow> location_match files f1 s1 f2 s2 n)"

text \<open>A maximal clone with a window worth matching in it.\<close>

definition found :: "dup_file list \<Rightarrow> nat \<Rightarrow> clone \<Rightarrow> bool" where
  "found files w g =
     (case g of (f1, s1, f2, s2, n) \<Rightarrow>
      maximal_clone files f1 s1 f2 s2 n \<and> (\<exists>k. k + w \<le> n \<and> good_window (files ! f1) w (s1 + k)))"

definition alignment_of :: "clone \<Rightarrow> nat \<times> nat \<times> int" where
  "alignment_of g = (case g of (f1, s1, f2, s2, n) \<Rightarrow> (f1, f2, int s2 - int s1))"

definition clone_range :: "clone \<Rightarrow> nat \<times> nat" where
  "clone_range g = (case g of (f1, s1, f2, s2, n) \<Rightarrow> (s1, s1 + n - 1))"

definition aligned_ranges :: "nat \<times> nat \<times> int \<Rightarrow> clone list \<Rightarrow> (nat \<times> nat) list" where
  "aligned_ranges al gs = map clone_range (filter (\<lambda>g. alignment_of g = al) gs)"

definition search_state :: "dup_file list \<Rightarrow> nat \<Rightarrow> clone list \<Rightarrow> clone_match list \<times> coverage \<Rightarrow> bool" where
  "search_state files w gs st \<longleftrightarrow>
     fst st = map (clone_place files) gs \<and> (\<forall>g \<in> set gs. found files w g)
     \<and> (\<forall>al. snd st al = intervals.recorded (aligned_ranges al gs))"

definition covered_by :: "clone list \<Rightarrow> nat \<Rightarrow> nat \<Rightarrow> nat \<Rightarrow> nat \<Rightarrow> bool" where
  "covered_by gs f1 p1 f2 p2 \<longleftrightarrow>
     (\<exists>g \<in> set gs. alignment_of g = (f1, f2, int p2 - int p1) \<and> fst (clone_range g) \<le> p1 \<and> p1 \<le> snd (clone_range g))"

text \<open>The bound on a position in the code's interval keys.\<close>

definition short_files :: "dup_file list \<Rightarrow> bool" where
  "short_files files = list_all (\<lambda>f. length (df_indexed f) < 2 ^ 63) files"

lemma found_range:
  assumes "found files w (f1, s1, f2, s2, n)" "0 < w" "short_files files"
  shows "s1 \<le> s1 + n - 1 \<and> s1 + n - 1 < 2 ^ 63"
proof -
  have "w \<le> n" "s1 + n \<le> length (df_indexed (files ! f1))" "f1 < length files"
    using assms(1) by (auto simp: found_def maximal_clone_def exact_clone_def)
  moreover from this have "length (df_indexed (files ! f1)) < 2 ^ 63"
    using assms(3) by (simp add: short_files_def list_all_length)
  ultimately show ?thesis using assms(2) by linarith
qed

lemma ranges_ok_found:
  assumes "\<forall>g \<in> set gs. found files w g" "0 < w" "short_files files"
  shows "intervals.ranges_ok (aligned_ranges al gs)"
proof -
  have "fst (clone_range g) \<le> snd (clone_range g) \<and> snd (clone_range g) < 2 ^ 63" if "g \<in> set gs" for g
    using found_range [of files w] assms that by (cases g) (auto simp: clone_range_def)
  then show ?thesis unfolding intervals.ranges_ok_def aligned_ranges_def by auto
qed

lemma covered_iff:
  assumes "search_state files w gs st" "0 < w" "short_files files"
  shows "interval_contains (snd st (f1, f2, int p2 - int p1)) p1 \<longleftrightarrow> covered_by gs f1 p1 f2 p2"
proof -
  have "\<forall>g \<in> set gs. found files w g"
    and eq: "snd st (f1, f2, int p2 - int p1) = intervals.recorded (aligned_ranges (f1, f2, int p2 - int p1) gs)"
    using assms(1) by (simp_all add: search_state_def)
  from intervals.recorded_holds [OF ranges_ok_found [OF this(1) assms(2,3)]]
  show ?thesis unfolding eq covered_by_def aligned_ranges_def set_map set_filter by blast
qed

lemma search_state_snoc:
  assumes "search_state files w gs (matches, covered)" "found files w g"
  shows "search_state files w (gs @ [g])
    (matches @ [clone_place files g],
     covered(alignment_of g := add_interval (covered (alignment_of g)) (fst (clone_range g)) (snd (clone_range g))))"
proof -
  have "intervals.recorded (aligned_ranges al (gs @ [g]))
      = (if al = alignment_of g
         then add_interval (intervals.recorded (aligned_ranges al gs)) (fst (clone_range g)) (snd (clone_range g))
         else intervals.recorded (aligned_ranges al gs))" for al
    by (cases "al = alignment_of g") (simp_all add: aligned_ranges_def intervals.recorded_snoc)
  then show ?thesis using assms unfolding search_state_def by (simp del: split_paired_All)
qed

section \<open>One seed pair\<close>

text \<open>The seed pairs that ought to be covered: equal windows, apart if in one file.\<close>

definition equal_windows :: "dup_file list \<Rightarrow> nat \<Rightarrow> nat \<Rightarrow> nat \<Rightarrow> nat \<Rightarrow> nat \<Rightarrow> bool" where
  "equal_windows files w f1 p1 f2 p2 \<longleftrightarrow>
     (f1 = f2 \<longrightarrow> p1 + w \<le> p2) \<and> (\<forall>k < w. token_at files f1 (p1 + k) = token_at files f2 (p2 + k))"

definition seed_ok :: "dup_file list \<Rightarrow> nat \<Rightarrow> nat \<Rightarrow> nat \<Rightarrow> nat \<Rightarrow> nat \<Rightarrow> bool" where
  "seed_ok files w f1 p1 f2 p2 \<longleftrightarrow>
     f1 < length files \<and> f2 < length files \<and> f1 \<le> f2 \<and> df_language (files ! f1) = df_language (files ! f2)
     \<and> good_window (files ! f1) w p1 \<and> good_window (files ! f2) w p2"

lemma seed_clone:
  assumes "seed_ok files w f1 p1 f2 p2" "equal_windows files w f1 p1 f2 p2"
  shows "exact_clone files f1 p1 f2 p2 w"
proof (rule exact_cloneI)
  show "f1 < f2 \<or> f1 = f2 \<and> p1 + w \<le> p2"
    using assms by (auto simp: seed_ok_def equal_windows_def)
qed (use assms in \<open>simp_all add: seed_ok_def equal_windows_def good_window_def region_at_def\<close>)

lemma accepts_seed_pair_value:
  "accepts_seed_pair limits w f1 p1 f2 p2 bg = Inr (b, bg') \<Longrightarrow> b \<longleftrightarrow> (f1 = f2 \<longrightarrow> p1 + w \<le> p2)"
  by (auto simp: accepts_seed_pair_def Let_def result_iff split: if_splits)

lemma nothing_new:
  assumes "search_state files w gs st" "st' = st"
    "equal_windows files w f1 p1 f2 p2 \<longrightarrow> covered_by gs f1 p1 f2 p2"
  shows "\<exists>new. search_state files w (gs @ new) st'
    \<and> (equal_windows files w f1 p1 f2 p2 \<longrightarrow> covered_by (gs @ new) f1 p1 f2 p2)"
  using assms by (intro exI [of _ "[]"]) simp

lemma match_seed_spec:
  assumes run: "match_seed limits files w ((f1, p1), (f2, p2)) st bg = Inr (st', bg')"
    and st: "search_state files w gs st" and w: "0 < w" "short_files files"
    and ok: "seed_ok files w f1 p1 f2 p2"
  shows "\<exists>new. search_state files w (gs @ new) st'
    \<and> (equal_windows files w f1 p1 f2 p2 \<longrightarrow> covered_by (gs @ new) f1 p1 f2 p2)"
proof -
  obtain matches covered where sp: "st = (matches, covered)" by (cases st)
  let ?al = "(f1, f2, int p2 - int p1)"
  obtain accepted bg1 where accepted: "accepts_seed_pair limits w f1 p1 f2 p2 bg = Inr (accepted, bg1)"
    using run unfolding match_seed_def sp by (auto simp: result_iff)
  note apart = accepts_seed_pair_value [OF accepted]
  show ?thesis
  proof (cases "accepted \<and> \<not> interval_contains (covered ?al) p1")
    case False
    then have "st' = st" using run accepted unfolding match_seed_def sp by (auto simp: Let_def split: if_splits)
    moreover have "equal_windows files w f1 p1 f2 p2 \<longrightarrow> covered_by gs f1 p1 f2 p2"
      using False apart covered_iff [OF st w, of f1 f2 p2 p1] by (auto simp: equal_windows_def sp)
    ultimately show ?thesis by (rule nothing_new [OF st])
  next
    case True
    then obtain same bg2 where same: "seed_is_equal limits files f1 p1 f2 p2 [0..<w] bg1 = Inr (same, bg2)"
      using run accepted unfolding match_seed_def sp by (auto simp: result_iff Let_def)
    note equal = seed_is_equal_value [OF same]
    show ?thesis
    proof (cases same)
      case False
      then have "st' = st" using run accepted True same unfolding match_seed_def sp by (auto simp: Let_def)
      moreover have "\<not> equal_windows files w f1 p1 f2 p2" using False equal by (auto simp: equal_windows_def)
      ultimately show ?thesis using nothing_new [OF st] by blast
    next
      case eq: True
      then have "equal_windows files w f1 p1 f2 p2" using True apart equal by (simp add: equal_windows_def)
      then have clone: "exact_clone files f1 p1 f2 p2 w" by (rule seed_clone [OF ok])
      obtain s1 s2 n bg3 where grown: "extend_seed limits files w f1 p1 f2 p2 bg2 = Inr ((s1, s2, n), bg3)"
          "st' = (matches @ [location_match files f1 s1 f2 s2 n],
                  covered(?al := add_interval (covered ?al) s1 (s1 + n - 1)))"
        using run accepted True same eq unfolding match_seed_def sp
        by (auto simp: result_iff append_bounded_def Let_def)
      note maximal = extend_seed_value [OF grown(1) clone w(1)]
      define g where "g = (f1, s1, f2, s2, n)"
      have "found files w g"
        using maximal ok unfolding found_def g_def seed_ok_def
        by (auto intro!: exI [of _ "p1 - s1"])
      moreover have g: "clone_range g = (s1, s1 + n - 1)" "alignment_of g = ?al"
          "clone_place files g = location_match files f1 s1 f2 s2 n"
        using maximal by (simp_all add: g_def clone_range_def alignment_of_def clone_place_def)
      ultimately have "search_state files w (gs @ [g]) st'"
        using search_state_snoc [of files w gs matches covered g] st unfolding grown(2) sp by simp
      moreover have "covered_by (gs @ [g]) f1 p1 f2 p2"
        using g maximal w(1) by (auto simp: covered_by_def)
      ultimately show ?thesis by blast
    qed
  qed
qed

lemma covered_by_append: "covered_by gs f1 p1 f2 p2 \<Longrightarrow> covered_by (gs @ new) f1 p1 f2 p2"
  by (auto simp: covered_by_def)

lemma match_seeds_spec:
  assumes "0 < w" "short_files files"
  shows "match_seeds limits files w seeds st bg = Inr (st', bg') \<Longrightarrow> search_state files w gs st \<Longrightarrow>
    \<forall>((f1, p1), (f2, p2)) \<in> set seeds. seed_ok files w f1 p1 f2 p2 \<Longrightarrow>
    \<exists>new. search_state files w (gs @ new) st'
      \<and> (\<forall>((f1, p1), (f2, p2)) \<in> set seeds. equal_windows files w f1 p1 f2 p2 \<longrightarrow> covered_by (gs @ new) f1 p1 f2 p2)"
proof (induction seeds arbitrary: st bg gs)
  case Nil
  then show ?case by (intro exI [of _ "[]"]) simp
next
  case (Cons seed seeds)
  obtain f1 p1 f2 p2 where seed: "seed = ((f1, p1), (f2, p2))" by (metis surj_pair)
  obtain st1 bg1 where step: "match_seed limits files w seed st bg = Inr (st1, bg1)"
      "match_seeds limits files w seeds st1 bg1 = Inr (st', bg')"
    using Cons.prems(1) by (auto simp: result_iff)
  obtain new where new: "search_state files w (gs @ new) st1"
      "equal_windows files w f1 p1 f2 p2 \<longrightarrow> covered_by (gs @ new) f1 p1 f2 p2"
    using match_seed_spec [OF step(1) [unfolded seed] Cons.prems(2) assms] Cons.prems(3) seed by auto
  obtain later where later: "search_state files w ((gs @ new) @ later) st'"
      "\<forall>((f1, p1), (f2, p2)) \<in> set seeds. equal_windows files w f1 p1 f2 p2 \<longrightarrow> covered_by ((gs @ new) @ later) f1 p1 f2 p2"
    using Cons.IH [OF step(2) new(1)] Cons.prems(3) by auto
  have "equal_windows files w f1 p1 f2 p2 \<longrightarrow> covered_by ((gs @ new) @ later) f1 p1 f2 p2"
    using new(2) covered_by_append by blast
  then show ?case using later unfolding seed by (intro exI [of _ "new @ later"]) simp
qed

section \<open>The whole search\<close>

lemma find_raw_matches_spec:
  assumes run: "find_raw_matches record_hash files w limits = Inr matches" and short: "short_files files"
  shows "0 < w \<and> (\<exists>gs. matches = map (clone_place files) gs \<and> (\<forall>g \<in> set gs. found files w g)
    \<and> (\<forall>f1 p1 f2 p2. seed_ok files w f1 p1 f2 p2 \<longrightarrow> (f1, p1) < (f2, p2) \<longrightarrow> equal_windows files w f1 p1 f2 p2 \<longrightarrow>
         window_key record_hash (files ! f1) w p1 = window_key record_hash (files ! f2) w p2 \<longrightarrow>
         covered_by gs f1 p1 f2 p2))"
proof -
  obtain windows covered bg where w: "0 < w"
    and regions: "\<forall>f \<in> set files. length (df_regions f) = length (df_indexed f)"
    and build: "build_window_map record_hash limits w 0 files [] = Inr windows"
    and search: "match_seeds limits files w (seed_pairs windows) ([], \<lambda>a. []) no_budget_spent = Inr ((matches, covered), bg)"
    using run by (auto simp: find_raw_matches_def validate_match_inputs_def result_iff list_ex_iff)
  note seeds = seed_pairs_members [OF w regions build]
  have "search_state files w [] ([], \<lambda>a. [])"
    by (simp add: search_state_def aligned_ranges_def intervals.recorded_def)
  moreover have "\<forall>((f1, p1), (f2, p2)) \<in> set (seed_pairs windows). seed_ok files w f1 p1 f2 p2"
    using seeds by (auto simp: seed_ok_def less_prod_def window_key_def)
  ultimately obtain gs where gs: "search_state files w gs (matches, covered)"
      "\<forall>((f1, p1), (f2, p2)) \<in> set (seed_pairs windows). equal_windows files w f1 p1 f2 p2 \<longrightarrow> covered_by gs f1 p1 f2 p2"
    using match_seeds_spec [OF w short search, of "[]"] by auto
  have "covered_by gs f1 p1 f2 p2"
    if "seed_ok files w f1 p1 f2 p2" "(f1, p1) < (f2, p2)" "equal_windows files w f1 p1 f2 p2"
      "window_key record_hash (files ! f1) w p1 = window_key record_hash (files ! f2) w p2" for f1 p1 f2 p2
  proof -
    have "((f1, p1), (f2, p2)) \<in> set (seed_pairs windows)"
      using that unfolding seeds seed_ok_def by blast
    then show ?thesis using gs(2) that(3) by auto
  qed
  then show ?thesis using w gs(1) unfolding search_state_def by auto
qed

text \<open>Equal windows have equal keys, whatever the hash.\<close>

lemma equal_windows_key:
  assumes "seed_ok files w f1 p1 f2 p2" "equal_windows files w f1 p1 f2 p2"
  shows "window_key record_hash (files ! f1) w p1 = window_key record_hash (files ! f2) w p2"
proof -
  have "p1 + w \<le> length (df_indexed (files ! f1))" "p2 + w \<le> length (df_indexed (files ! f2))"
    using assms(1) by (auto simp: seed_ok_def good_window_def)
  moreover have "\<forall>k < w. snd (df_indexed (files ! f1) ! (p1 + k)) = snd (df_indexed (files ! f2) ! (p2 + k))"
    using assms(2) by (simp add: equal_windows_def token_at_def)
  ultimately have "map (\<lambda>e. record_hash (snd e)) (take w (drop p1 (df_indexed (files ! f1))))
      = map (\<lambda>e. record_hash (snd e)) (take w (drop p2 (df_indexed (files ! f2))))"
    by (intro nth_equalityI) auto
  then show ?thesis using assms(1) by (simp add: window_key_def window_hash_def seed_ok_def)
qed

end
