(* ===== verification/Dup_Cluster_Facts.thy ===== *)
theory Dup_Cluster_Facts
  imports Dup_Clustering
begin

text \<open>
  The groups are the connected components of the matches, put in an order that depends on neither
  the order of the matches nor the order in which sets are iterated over.
\<close>

section \<open>The graph\<close>

text \<open>Two places are linked when a match pairs them, in either direction.\<close>

definition match_links :: "clone_match list \<Rightarrow> (location \<times> location) set" where
  "match_links ms = (\<Union>m \<in> set ms. {(loc1 m, loc2 m), (loc2 m, loc1 m)})"

definition match_places :: "clone_match list \<Rightarrow> location set" where
  "match_places ms = loc1 ` set ms \<union> loc2 ` set ms"

lemma match_links_sym: "sym (match_links ms)"
  by (auto simp: match_links_def sym_def)

lemma match_links_places: "match_links ms \<subseteq> match_places ms \<times> match_places ms"
  by (auto simp: match_links_def match_places_def)

lemma match_links_simps:
  "match_links [] = {}" "match_links (m # ms) = {(loc1 m, loc2 m), (loc2 m, loc1 m)} \<union> match_links ms"
  "match_places [] = {}" "match_places (m # ms) = {loc1 m, loc2 m} \<union> match_places ms"
  by (auto simp: match_links_def match_places_def)

definition links_of :: "adjacency_sets \<Rightarrow> (location \<times> location) set" where
  "links_of adjacency = {(x, y). y \<in> set (dict_values adjacency x)}"

lemma dict_values_dict_set: "dict_values (dict_set k v d) x = (if x = k then v else dict_values d x)"
  by (simp add: dict_values_def)

lemma links_of_link: "links_of (link a b adjacency) = insert (a, b) (links_of adjacency)"
  by (simp add: links_of_def link_def dict_values_dict_set set_eq_iff split: if_splits del: split_paired_All) auto

lemma keys_link:
  "fst ` set (link a b adjacency) = insert a (fst ` set adjacency)"
  "distinct (map fst adjacency) \<Longrightarrow> distinct (map fst (link a b adjacency))"
  by (simp_all add: link_def distinct_dict_set)

lemma add_match_pair:
  "add_match m (adjacency, lengths) =
     (link (loc2 m) (loc1 m) (link (loc1 m) (loc2 m) adjacency),
      note_length (loc2 m) (cm_size m) (note_length (loc1 m) (cm_size m) lengths))"
  by (simp add: add_match_def)

lemma fold_add_match:
  "links_of (fst (fold add_match ms (adjacency, lengths))) = links_of adjacency \<union> match_links ms
   \<and> fst ` set (fst (fold add_match ms (adjacency, lengths))) = fst ` set adjacency \<union> match_places ms
   \<and> (distinct (map fst adjacency) \<longrightarrow> distinct (map fst (fst (fold add_match ms (adjacency, lengths)))))"
proof (induction ms arbitrary: adjacency lengths)
  case Nil
  then show ?case by (simp add: match_links_simps)
next
  case (Cons m ms)
  show ?case
    using Cons.IH [of "link (loc2 m) (loc1 m) (link (loc1 m) (loc2 m) adjacency)"
        "note_length (loc2 m) (cm_size m) (note_length (loc1 m) (cm_size m) lengths)"]
    by (auto simp: add_match_pair links_of_link keys_link match_links_simps)
qed

text \<open>The length of a place is that of the longest match it is in.\<close>

definition place_length :: "clone_match list \<Rightarrow> location \<Rightarrow> nat" where
  "place_length ms loc = Max (insert 0 (cm_size ` {m \<in> set ms. loc = loc1 m \<or> loc = loc2 m}))"

lemma longest_note: "longest (note_length loc k lengths) x = (if x = loc then max (longest lengths x) k else longest lengths x)"
  by (simp add: longest_def note_length_def)

lemma fold_longest:
  "longest (snd (fold add_match ms (adjacency, lengths))) x = max (longest lengths x) (place_length ms x)"
proof (induction ms arbitrary: adjacency lengths)
  case Nil
  then show ?case by (simp add: place_length_def)
next
  case (Cons m ms)
  have "place_length (m # ms) x = (if x = loc1 m \<or> x = loc2 m then max (cm_size m) (place_length ms x) else place_length ms x)"
  proof (cases "x = loc1 m \<or> x = loc2 m")
    case True
    have "{m' \<in> set (m # ms). x = loc1 m' \<or> x = loc2 m'} = insert m {m' \<in> set ms. x = loc1 m' \<or> x = loc2 m'}"
      using True by auto
    then have "place_length (m # ms) x = Max (insert 0 (insert (cm_size m) (cm_size ` {m' \<in> set ms. x = loc1 m' \<or> x = loc2 m'})))"
      unfolding place_length_def by (simp only: image_insert)
    also have "\<dots> = max (cm_size m) (place_length ms x)"
      unfolding place_length_def by (subst insert_commute, subst Max_insert) auto
    finally show ?thesis using True by simp
  next
    case False
    then have "{m' \<in> set (m # ms). x = loc1 m' \<or> x = loc2 m'} = {m' \<in> set ms. x = loc1 m' \<or> x = loc2 m'}" by auto
    then show ?thesis using False by (simp add: place_length_def)
  qed
  moreover have "longest (snd (fold add_match (m # ms) (adjacency, lengths))) x
      = max (longest (note_length (loc2 m) (cm_size m) (note_length (loc1 m) (cm_size m) lengths)) x) (place_length ms x)"
    by (simp add: add_match_pair Cons.IH)
  moreover have "longest (note_length (loc2 m) (cm_size m) (note_length (loc1 m) (cm_size m) lengths)) x
      = (if x = loc1 m \<or> x = loc2 m then max (longest lengths x) (cm_size m) else longest lengths x)"
    by (simp add: longest_note)
  ultimately show ?case by (simp add: max.assoc)
qed

lemma place_length_cong: "set ms = set ms' \<Longrightarrow> place_length ms = place_length ms'"
  by (simp add: place_length_def fun_eq_iff)

section \<open>Components\<close>

text \<open>What holds while a component is collected from \<open>node\<close>, \<open>before\<close> being visited already.\<close>

definition collecting ::
    "adjacency_sets \<Rightarrow> location set \<Rightarrow> location \<Rightarrow> location list \<Rightarrow> location list \<Rightarrow> location list \<Rightarrow> bool" where
  "collecting adjacency before node visited queue component \<longleftrightarrow>
     set visited = before \<union> set component \<union> set queue \<and> (set component \<union> set queue) \<inter> before = {}
     \<and> distinct (component @ queue) \<and> node \<in> set component \<union> set queue
     \<and> set component \<union> set queue \<subseteq> (links_of adjacency)\<^sup>* `` {node}
     \<and> links_of adjacency `` set component \<subseteq> set visited"

lemma collecting_step:
  assumes c: "collecting adjacency before node visited (current # queue) component"
    and push: "push_new (dict_values adjacency current) (visited, queue) = (visited', queue')"
  shows "collecting adjacency before node visited' queue' (component @ [current])"
proof -
  obtain new where new: "queue' = new @ queue" "visited' = new @ visited"
      "set new = set (dict_values adjacency current) - set visited" "distinct new"
    using push_new_parts(2) [of "dict_values adjacency current" visited queue]
    unfolding push fst_conv snd_conv by blast
  have next_links: "links_of adjacency `` {current} = set (dict_values adjacency current)"
    by (auto simp: links_of_def)
  have reach: "current \<in> (links_of adjacency)\<^sup>* `` {node}" using c by (auto simp: collecting_def)
  have "set new \<subseteq> (links_of adjacency)\<^sup>* `` {node}"
  proof
    fix y assume "y \<in> set new"
    then have "(current, y) \<in> links_of adjacency" using new(3) by (simp add: links_of_def)
    then show "y \<in> (links_of adjacency)\<^sup>* `` {node}" using reach by (auto intro: rtrancl_into_rtrancl)
  qed
  moreover have "set (dict_values adjacency current) \<subseteq> set visited'" using new(2,3) by auto
  moreover have "set new \<inter> set visited = {}" using new(3) by auto
  ultimately show ?thesis
    using c new(1,2,4) next_links unfolding collecting_def by (auto simp: Image_Un)
qed

lemma collect_collects:
  "collecting adjacency before node visited queue component \<Longrightarrow>
     collect adjacency visited queue component = (c, visited') \<Longrightarrow>
     collecting adjacency before node visited' [] c"
proof (induction adjacency visited queue component rule: collect.induct)
  case (2 adjacency visited current queue component)
  obtain v q where push: "push_new (dict_values adjacency current) (visited, queue) = (v, q)" by fastforce
  show ?case
    using 2(1) [OF push [symmetric] collecting_step [OF 2(2) push]] 2(3) push by simp
qed simp

text \<open>A set of visited places that the links do not leave.\<close>

definition closed_places :: "adjacency_sets \<Rightarrow> location set \<Rightarrow> bool" where
  "closed_places adjacency vs \<longleftrightarrow> links_of adjacency `` vs \<subseteq> vs"

lemma closed_reach: "closed_places adjacency vs \<Longrightarrow> x \<in> vs \<Longrightarrow> (x, y) \<in> (links_of adjacency)\<^sup>* \<Longrightarrow> y \<in> vs"
  by (rotate_tac 2, induction rule: rtrancl_induct) (auto simp: closed_places_def)

lemma collect_component:
  assumes sym: "sym (links_of adjacency)" and closed: "closed_places adjacency (set visited)"
    and node: "node \<notin> set visited"
    and run: "collect adjacency (node # visited) [node] [] = (c, visited')"
  shows "set c = (links_of adjacency)\<^sup>* `` {node} \<and> distinct c \<and> set visited' = set visited \<union> set c
    \<and> closed_places adjacency (set visited') \<and> set c \<inter> set visited = {}"
proof -
  have "collecting adjacency (set visited) node (node # visited) [node] []"
    using node by (auto simp: collecting_def)
  note fin = collect_collects [OF this run]
  have parts: "set visited' = set visited \<union> set c" "set c \<inter> set visited = {}" "distinct c" "node \<in> set c"
      "set c \<subseteq> (links_of adjacency)\<^sup>* `` {node}" "links_of adjacency `` set c \<subseteq> set visited'"
    using fin by (auto simp: collecting_def)
  have inside: "links_of adjacency `` set c \<subseteq> set c"
  proof
    fix y assume "y \<in> links_of adjacency `` set c"
    then obtain x where x: "x \<in> set c" "(x, y) \<in> links_of adjacency" by auto
    then have "(y, x) \<in> links_of adjacency" using sym by (auto dest: symD)
    then have "y \<notin> set visited" using closed x(1) parts(2) by (auto simp: closed_places_def)
    moreover have "y \<in> set visited'" using parts(6) x by auto
    ultimately show "y \<in> set c" using parts(1) by auto
  qed
  have "(links_of adjacency)\<^sup>* `` {node} \<subseteq> set c"
  proof
    fix y assume "y \<in> (links_of adjacency)\<^sup>* `` {node}"
    then have "(node, y) \<in> (links_of adjacency)\<^sup>*" by simp
    then show "y \<in> set c"
      using closed_reach [of adjacency "set c" node y] inside parts(4) by (simp add: closed_places_def)
  qed
  moreover have "closed_places adjacency (set visited')"
    using inside closed parts(1) by (auto simp: closed_places_def)
  ultimately show ?thesis using parts by blast
qed

lemma collect_all_components:
  assumes sym: "sym (links_of adjacency)"
  shows "closed_places adjacency (set visited) \<Longrightarrow>
    set ` set (collect_all adjacency visited nodes)
      = {(links_of adjacency)\<^sup>* `` {x} | x. x \<in> set nodes - set visited}
    \<and> (\<forall>c \<in> set (collect_all adjacency visited nodes). distinct c \<and> set c \<inter> set visited = {})
    \<and> distinct (map set (collect_all adjacency visited nodes))"
proof (induction nodes arbitrary: visited)
  case (Cons node nodes)
  show ?case
  proof (cases "node \<in> set visited")
    case True
    then have "set (node # nodes) - set visited = set nodes - set visited" by auto
    then show ?thesis using Cons True by simp
  next
    case False
    obtain c visited' where run: "collect adjacency (node # visited) [node] [] = (c, visited')" by fastforce
    have c: "set c = (links_of adjacency)\<^sup>* `` {node}" "distinct c" "set visited' = set visited \<union> set c"
        "closed_places adjacency (set visited')" "set c \<inter> set visited = {}"
      using collect_component [OF sym Cons.prems False run] by auto
    note IH = Cons.IH [OF c(4)]
    have same: "(links_of adjacency)\<^sup>* `` {x} = set c" if "x \<in> set c" for x
    proof -
      have "(node, x) \<in> (links_of adjacency)\<^sup>*" "(x, node) \<in> (links_of adjacency)\<^sup>*"
        using that c(1) sym_rtrancl [OF sym] by (auto dest: symD)
      then show ?thesis unfolding c(1) by (auto intro: rtrancl_trans)
    qed
    have node: "node \<in> set c" using c(1) by simp
    have "{(links_of adjacency)\<^sup>* `` {x} | x. x \<in> set (node # nodes) - set visited}
        = insert (set c) {(links_of adjacency)\<^sup>* `` {x} | x. x \<in> set nodes - set visited'}"
      (is "?A = insert _ ?B")
    proof
      show "?A \<subseteq> insert (set c) ?B"
      proof
        fix a assume "a \<in> ?A"
        then obtain x where x: "a = (links_of adjacency)\<^sup>* `` {x}" "x \<in> set (node # nodes)" "x \<notin> set visited"
          by blast
        show "a \<in> insert (set c) ?B"
        proof (cases "x \<in> set c")
          case True
          then show ?thesis using same x(1) by blast
        next
          case False
          then have "x \<in> set nodes - set visited'" using x node c(3) by auto
          then show ?thesis using x(1) by blast
        qed
      qed
      have "set c \<in> ?A" using c(1) False by (intro CollectI exI [of _ node]) simp
      moreover have "?B \<subseteq> ?A" using c(3) by (intro Collect_mono) auto
      ultimately show "insert (set c) ?B \<subseteq> ?A" by blast
    qed
    moreover have "set c \<notin> set ` set (collect_all adjacency visited' nodes)"
      using IH node c(3) by auto
    ultimately show ?thesis using IH c False run by (auto simp: image_insert)
  qed
qed simp

section \<open>The groups\<close>

definition iterates :: "(location list \<Rightarrow> location list) \<Rightarrow> bool" where
  "iterates iter \<longleftrightarrow> (\<forall>vs. set (iter vs) = set vs)"

definition match_graph ::
    "(location list \<Rightarrow> location list) \<Rightarrow> clone_match list \<Rightarrow> adjacency_sets" where
  "match_graph iter ms = map (\<lambda>(n, vs). (n, iter vs)) (fst (fold add_match ms ([], [])))"

definition match_lengths :: "clone_match list \<Rightarrow> (location \<times> nat) list" where
  "match_lengths ms = snd (fold add_match ms ([], []))"

definition match_components :: "(location list \<Rightarrow> location list) \<Rightarrow> clone_match list \<Rightarrow> location list list" where
  "match_components iter ms =
     collect_all (match_graph iter ms) [] (sort (map fst (fst (fold add_match ms ([], [])))))"

lemma links_of_match_graph:
  assumes "iterates iter"
  shows "links_of (match_graph iter ms) = match_links ms"
proof -
  have "set (dict_values (map (\<lambda>(n, vs). (n, iter vs)) d) x) = set (dict_values d x)" for d :: adjacency_sets and x
    using assms by (induction d) (auto simp: dict_values_def iterates_def)
  then have "links_of (match_graph iter ms) = links_of (fst (fold add_match ms ([], [])))"
    by (simp add: links_of_def match_graph_def)
  moreover have "links_of [] = {}" by (simp add: links_of_def dict_values_def)
  ultimately show ?thesis using fold_add_match [of ms "[]" "[]"] by simp
qed

lemma match_components_spec:
  assumes "iterates iter"
  shows "set ` set (match_components iter ms) = {(match_links ms)\<^sup>* `` {x} | x. x \<in> match_places ms}"
    "\<forall>c \<in> set (match_components iter ms). distinct c" "distinct (map set (match_components iter ms))"
proof -
  let ?g = "match_graph iter ms" and ?nodes = "sort (map fst (fst (fold add_match ms ([], []))))"
  have links: "links_of ?g = match_links ms" by (rule links_of_match_graph [OF assms])
  have nodes: "set ?nodes = match_places ms" using fold_add_match [of ms "[]" "[]"] by simp
  have "sym (links_of ?g)" "closed_places ?g (set [])"
    using match_links_sym by (simp_all add: links closed_places_def)
  note all = collect_all_components [OF this, of ?nodes]
  show "set ` set (match_components iter ms) = {(match_links ms)\<^sup>* `` {x} | x. x \<in> match_places ms}"
    using all unfolding match_components_def links nodes by simp
  show "\<forall>c \<in> set (match_components iter ms). distinct c" "distinct (map set (match_components iter ms))"
    using all unfolding match_components_def by simp_all
qed

lemma reach_places:
  assumes "x \<in> match_places ms"
  shows "(match_links ms)\<^sup>* `` {x} \<subseteq> match_places ms"
proof
  fix y assume "y \<in> (match_links ms)\<^sup>* `` {x}"
  then have "(x, y) \<in> (match_links ms)\<^sup>*" by simp
  then show "y \<in> match_places ms"
    using assms match_links_places by (induction rule: rtrancl_induct) auto
qed

lemma match_lengths_longest: "longest (match_lengths ms) = place_length ms"
proof -
  have "longest [] x = 0" for x by (simp add: longest_def)
  then show ?thesis by (simp add: fun_eq_iff match_lengths_def fold_longest del: split_paired_All)
qed

lemma cluster_matches_alt:
  "cluster_matches sha256 iter ms files =
     (let clusters = sorted_clusters files (match_lengths ms) (match_components iter ms) in
      \<lparr>du_groups = map (\<lambda>(i, c). group_of sha256 files (match_lengths ms) (Suc i) c) (enumerate 0 clusters),
       du_duplicated_positions = (\<Union>c \<in> set clusters. duplicated_in files c)\<rparr>)"
  by (simp add: cluster_matches_def match_lengths_def match_components_def match_graph_def case_prod_beta)

text \<open>A list sorted by a key that tells its members apart is determined by its members.\<close>

lemma sort_key_unique:
  assumes "set xs = set ys" "distinct xs" "distinct ys" "inj_on f (set xs)"
  shows "sort_key f xs = sort_key f ys"
  by (rule map_sorted_distinct_set_unique [of f]) (use assms in \<open>auto simp: distinct_map\<close>)

lemma sorted_clusters_unique:
  assumes same: "set ` set cs = set ` set ds"
    and cs: "\<forall>c \<in> set cs. distinct c" "distinct (map set cs)" and ds: "\<forall>c \<in> set ds. distinct c" "distinct (map set ds)"
    and inj: "inj_on (place_key files) P" "\<Union> (set ` set cs) \<subseteq> P"
  shows "sorted_clusters files lengths cs = sorted_clusters files lengths ds"
proof -
  let ?s = "sort_key (place_key files)"
  have eq: "?s c = ?s d" if "c \<in> set cs \<union> set ds" "d \<in> set cs \<union> set ds" "set c = set d" for c d
  proof -
    have "set c \<in> set ` set cs" using that(1) same by auto
    then have "set c \<subseteq> P" using inj(2) by blast
    then show ?thesis
      using that cs(1) ds(1) inj(1) by (intro sort_key_unique) (auto intro: inj_on_subset)
  qed
  have members: "set (map ?s cs) = set (map ?s ds)"
  proof (intro set_eqI iffI)
    fix x assume "x \<in> set (map ?s cs)"
    then obtain c where c: "c \<in> set cs" "x = ?s c" by auto
    then obtain d where "d \<in> set ds" "set c = set d" using same by blast
    then show "x \<in> set (map ?s ds)" using eq [of c d] c by auto
  next
    fix x assume "x \<in> set (map ?s ds)"
    then obtain c where c: "c \<in> set ds" "x = ?s c" by auto
    then obtain d where "d \<in> set cs" "set c = set d" using same by blast
    then show "x \<in> set (map ?s cs)" using eq [of c d] c by auto
  qed
  have dist: "distinct (map ?s xs)" if "distinct (map set xs)" for xs
  proof -
    have "map set (map ?s xs) = map set xs" by simp
    then show ?thesis using that distinct_map [of set "map ?s xs"] by metis
  qed
  have "inj_on (map (place_key files)) (set (map ?s cs))"
  proof (rule inj_onI)
    fix a b assume ab: "a \<in> set (map ?s cs)" "b \<in> set (map ?s cs)" "map (place_key files) a = map (place_key files) b"
    then have "set a \<subseteq> P" "set b \<subseteq> P" using inj(2) by fastforce+
    then show "a = b" using map_inj_on [OF ab(3)] inj(1) by (meson inj_on_subset le_sup_iff)
  qed
  then have "inj_on (cluster_key files lengths) (set (map ?s cs))"
    by (auto simp: inj_on_def cluster_key_def)
  then show ?thesis
    unfolding sorted_clusters_def using members dist cs(2) ds(2) by (intro sort_key_unique) auto
qed

lemma sorted_clusters_set:
  "set ` set (sorted_clusters files lengths cs) = set ` set cs"
  "distinct (map set cs) \<Longrightarrow> distinct (map set (sorted_clusters files lengths cs))"
proof -
  show "set ` set (sorted_clusters files lengths cs) = set ` set cs"
    by (auto simp: sorted_clusters_def image_iff)
  assume "distinct (map set cs)"
  then have "distinct (map set (map (sort_key (place_key files)) cs))" by (simp add: o_def)
  then show "distinct (map set (sorted_clusters files lengths cs))"
    by (simp add: sorted_clusters_def distinct_map del: map_map)
qed

lemma longest_groups:
  assumes "longest lengths = longest lengths'"
  shows "sorted_clusters files lengths cs = sorted_clusters files lengths' cs"
    "group_of sha256 files lengths i c = group_of sha256 files lengths' i c"
proof -
  have "group_length lengths = group_length lengths'"
    by (simp add: fun_eq_iff group_length_def assms)
  then show "sorted_clusters files lengths cs = sorted_clusters files lengths' cs"
    "group_of sha256 files lengths i c = group_of sha256 files lengths' i c"
    by (simp_all add: sorted_clusters_def cluster_key_def [abs_def] group_of_def representative_def assms)
qed

definition valid_places :: "clone_match list \<Rightarrow> dup_file list \<Rightarrow> bool" where
  "valid_places ms files =
     (distinct (map df_path files)
      \<and> list_all (\<lambda>m. cm_file1 m < length files \<and> cm_file2 m < length files) ms)"

lemma place_key_inj:
  assumes "valid_places ms files"
  shows "inj_on (place_key files) (match_places ms)"
proof (rule inj_onI)
  fix x y assume xy: "x \<in> match_places ms" "y \<in> match_places ms" "place_key files x = place_key files y"
  have known: "fst z < length files" if "z \<in> match_places ms" for z
    using that assms by (auto simp: match_places_def valid_places_def list_all_iff loc1_def loc2_def)
  have "df_path (files ! fst x) = df_path (files ! fst y)" "snd x = snd y"
    using xy(3) by (simp_all add: place_key_def)
  moreover have "fst x = fst y"
    using nth_eq_iff_index_eq [of "map df_path files" "fst x" "fst y"] known xy(1,2) calculation(1) assms
    by (simp add: valid_places_def)
  ultimately show "x = y" by (simp add: prod_eq_iff)
qed

end
