(* ===== verification/Dup_Properties.thy ===== *)
theory Dup_Properties
  imports Dup_Search_Facts Dup_Cluster_Facts
begin

text \<open>
  Properties of duplicate detection: the rolling hash, the search for matches, the choice among them,
  and the groups made of them.
\<close>

section \<open>The signal of a window depends on its lines alone\<close>

lemma signal_sums_length [simp]: "length (signal_sums k indexed) = Suc (length indexed)"
  by (induction k indexed rule: signal_sums.induct) auto

lemma signal_sums_nth:
  "i \<le> length indexed \<Longrightarrow>
     signal_sums k indexed ! i = k + length (filter (\<lambda>e. line_has_semantic_signal (snd e)) (take i indexed))"
proof (induction k indexed arbitrary: i rule: signal_sums.induct)
  case (2 k line normalized indexed)
  then show ?case by (cases i) auto
qed simp

lemma signal_count:
  assumes "p + n \<le> length indexed"
  shows "duplicate_signal_prefix indexed ! (p + n) - duplicate_signal_prefix indexed ! p
    = length (filter line_has_semantic_signal (map snd (take n (drop p indexed))))"
proof -
  have "take (p + n) indexed = take p indexed @ take n (drop p indexed)" by (rule take_add)
  then show ?thesis
    using assms by (simp add: duplicate_signal_prefix_def signal_sums_nth filter_map o_def)
qed

lemma has_signal_cong:
  assumes "p + n \<le> length indexed" "q + n \<le> length indexed'"
    "map snd (take n (drop p indexed)) = map snd (take n (drop q indexed'))"
  shows "has_duplicate_signal (duplicate_signal_prefix indexed) p n
    = has_duplicate_signal (duplicate_signal_prefix indexed') q n"
  using assms by (simp add: has_duplicate_signal_def signal_count)
    (simp add: duplicate_signal_prefix_def)

lemma good_window_clone:
  assumes clone: "exact_clone files f1 s1 f2 s2 n" and k: "k + w \<le> n"
    and good: "good_window (files ! f1) w (s1 + k)"
  shows "good_window (files ! f2) w (s2 + k) \<and> equal_windows files w f1 (s1 + k) f2 (s2 + k)"
proof -
  have at: "token_at files f1 (s1 + j) = token_at files f2 (s2 + j)
      \<and> region_at files f2 (s2 + j) = region_at files f2 s2" if "j < n" for j
    using clone that unfolding exact_clone_def by blast
  have len: "s1 + n \<le> length (df_indexed (files ! f1))" "s2 + n \<le> length (df_indexed (files ! f2))"
      "f1 = f2 \<longrightarrow> s1 + n \<le> s2"
    using clone by (auto simp: exact_clone_def)
  have "map snd (take w (drop (s1 + k) (df_indexed (files ! f1))))
      = map snd (take w (drop (s2 + k) (df_indexed (files ! f2))))"
    using at len k by (intro nth_equalityI) (auto simp: token_at_def add.assoc)
  then have "has_duplicate_signal (duplicate_signal_prefix (df_indexed (files ! f2))) (s2 + k) w"
    using good len k has_signal_cong [of "s1 + k" w "df_indexed (files ! f1)" "s2 + k" "df_indexed (files ! f2)"]
    by (simp add: good_window_def)
  moreover have "df_regions (files ! f2) ! (s2 + k + j) = df_regions (files ! f2) ! (s2 + k)" if "j < w" for j
    using at [of "k + j"] at [of k] that k by (simp add: region_at_def add.assoc)
  moreover have "token_at files f1 (s1 + k + j) = token_at files f2 (s2 + k + j)" if "j < w" for j
    using at [of "k + j"] that k by (simp add: add.assoc)
  moreover have "f1 = f2 \<longrightarrow> s1 + k + w \<le> s2 + k" using len(3) k by linarith
  ultimately show ?thesis using len k by (simp add: good_window_def equal_windows_def)
qed

section \<open>Maximal clones of two files on one alignment are the same or apart\<close>

lemma clone_extends_left:
  assumes A: "exact_clone files f1 s1 f2 s2 n" and B: "exact_clone files f1 t1 f2 t2 m"
    and al: "s1 + t2 = s2 + t1" and apart: "f1 \<noteq> f2" and at: "t1 < s1" "s1 < t1 + m" and n: "0 < n"
  shows "0 < s2 \<and> exact_clone files f1 (s1 - 1) f2 (s2 - 1) (Suc n)"
proof -
  have s2: "0 < s2" using al at by simp
  note here = clone_at [OF B, of "s1 - 1"] clone_at [OF B, of s1]
  have "t2 + (s1 - 1 - t1) = s2 - 1" "t2 + (s1 - t1) = s2" using al at by simp_all
  then have "exact_clone files f1 (s1 - 1) f2 (s2 - 1) (Suc n)"
    using here at s2 apart by (intro exact_clone_back [OF A n]) simp_all
  then show ?thesis using s2 by simp
qed

lemma clone_extends_right:
  assumes A: "exact_clone files f1 s1 f2 s2 n" and B: "exact_clone files f1 t1 f2 t2 m"
    and al: "s1 + t2 = s2 + t1" and apart: "f1 \<noteq> f2" and at: "t1 < s1 + n" "s1 + n < t1 + m" and n: "0 < n"
  shows "exact_clone files f1 s1 f2 s2 (Suc n)"
proof (rule exact_cloneI)
  fix k assume k: "k < Suc n"
  show "token_at files f1 (s1 + k) = token_at files f2 (s2 + k)
        \<and> region_at files f1 (s1 + k) = region_at files f1 s1 \<and> region_at files f2 (s2 + k) = region_at files f2 s2"
  proof (cases "k = n")
    case False
    then show ?thesis using k A unfolding exact_clone_def by simp
  next
    case True
    have B1: "token_at files f1 (s1 + n) = token_at files f2 (s2 + n)"
        "region_at files f1 (s1 + n) = region_at files f1 t1" "region_at files f2 (s2 + n) = region_at files f2 t2"
    proof -
      have "t2 + (s1 + n - t1) = s2 + n" using al at by simp
      then show "token_at files f1 (s1 + n) = token_at files f2 (s2 + n)"
          "region_at files f1 (s1 + n) = region_at files f1 t1" "region_at files f2 (s2 + n) = region_at files f2 t2"
        using clone_at [OF B, of "s1 + n"] at by auto
    qed
    have "t2 + (s1 + n - 1 - t1) = s2 + n - 1" using al at by simp
    then have B2: "region_at files f1 (s1 + n - 1) = region_at files f1 t1"
        "region_at files f2 (s2 + n - 1) = region_at files f2 t2"
      using clone_at [OF B, of "s1 + n - 1"] at by auto
    have "s2 + (s1 + n - 1 - s1) = s2 + n - 1" using n by simp
    then have "region_at files f1 (s1 + n - 1) = region_at files f1 s1"
        "region_at files f2 (s2 + n - 1) = region_at files f2 s2"
      using clone_at [OF A, of "s1 + n - 1"] n by auto
    then show ?thesis using B1 B2 True by simp
  qed
qed (use A B al apart at in \<open>auto simp: exact_clone_def\<close>)

lemma maximal_clone_unique:
  assumes A: "maximal_clone files f1 s1 f2 s2 n" and B: "maximal_clone files f1 t1 f2 t2 m"
    and al: "s1 + t2 = s2 + t1" and apart: "f1 \<noteq> f2"
    and x: "s1 \<le> x" "x < s1 + n" "t1 \<le> x" "x < t1 + m"
  shows "s1 = t1 \<and> s2 = t2 \<and> n = m"
proof -
  have AB: "exact_clone files f1 s1 f2 s2 n" "exact_clone files f1 t1 f2 t2 m"
    using A B by (simp_all add: maximal_clone_def)
  have "\<not> t1 < s1"
    using clone_extends_left [OF AB al apart] A x unfolding maximal_clone_def by auto
  moreover have "\<not> s1 < t1"
    using clone_extends_left [OF AB(2,1) _ apart] B al x unfolding maximal_clone_def by auto
  ultimately have s: "s1 = t1" "s2 = t2" using al by simp_all
  have "\<not> s1 + n < t1 + m"
    using clone_extends_right [OF AB al apart] A x s unfolding maximal_clone_def by auto
  moreover have "\<not> t1 + m < s1 + n"
    using clone_extends_right [OF AB(2,1) _ apart] B al x s unfolding maximal_clone_def by auto
  ultimately show ?thesis using s by simp
qed

section \<open>The search\<close>

text \<open>C26: The rolling hash of each window is the hash of its lines computed afresh, on 128-bit words
  with wrap-around.\<close>

theorem rolling_hash_is_window_hash:
  "0 < w \<Longrightarrow> window_hashes record_hash indexed w
     = Inr (map (\<lambda>p. first_hash (map (\<lambda>e. record_hash (snd e)) (take w (drop p indexed))))
              [0..<Suc (length indexed) - w])"
  unfolding window_hashes_eq window_hash_def by (rule refl)

theorem rolling_hash_is_window_hash_witness:
  "window_hashes (\<lambda>s. of_nat (2 ^ 127 + length s)) [(1, ''ab''), (2, ''c''), (3, ''def'')] 2
     = Inr (map (\<lambda>p. first_hash (map (\<lambda>e. of_nat (2 ^ 127 + length (snd e)))
              (take 2 (drop p [(1 :: int, ''ab''), (2, ''c''), (3, ''def'')]))))
            [0..<Suc (length [(1 :: int, ''ab''), (2, ''c''), (3, ''def'')]) - 2])"
  by (rule rolling_hash_is_window_hash) (rule pos2)

text \<open>C25: Whatever the search reports is a maximal clone: the same lines at two places of one
  language, each within one region, not overlapping, that no line can be added to, with a window
  that says enough; each is reported with its first and last line at both places.\<close>

theorem matches_are_maximal_clones:
  assumes "find_raw_matches record_hash files w limits = Inr matches" "short_files files" "m \<in> set matches"
  shows "\<exists>f1 s1 f2 s2 n. m = location_match files f1 s1 f2 s2 n \<and> maximal_clone files f1 s1 f2 s2 n
    \<and> (\<exists>k. k + w \<le> n \<and> good_window (files ! f1) w (s1 + k))"
proof -
  obtain g where "m = clone_place files g" "found files w g"
    using find_raw_matches_spec [OF assms(1,2)] assms(3) by auto
  moreover obtain f1 s1 f2 s2 n where "g = (f1, s1, f2, s2, n)" by (cases g)
  ultimately show ?thesis by (simp add: clone_place_def found_def) blast
qed

text \<open>C15: Between two files the search is exact: it reports all maximal clones that contain a window
  worth matching, whatever the hash function; a collision neither hides a clone nor makes one up.\<close>

theorem cross_file_matches_exact:
  assumes run: "find_raw_matches record_hash files w limits = Inr matches" and short: "short_files files"
    and f: "f1 \<noteq> f2"
  shows "(m \<in> set matches \<and> cm_file1 m = f1 \<and> cm_file2 m = f2) \<longleftrightarrow>
    (\<exists>s1 s2 n. m = location_match files f1 s1 f2 s2 n \<and> maximal_clone files f1 s1 f2 s2 n
       \<and> (\<exists>k. k + w \<le> n \<and> good_window (files ! f1) w (s1 + k)))"
proof
  assume "m \<in> set matches \<and> cm_file1 m = f1 \<and> cm_file2 m = f2"
  then show "\<exists>s1 s2 n. m = location_match files f1 s1 f2 s2 n \<and> maximal_clone files f1 s1 f2 s2 n
       \<and> (\<exists>k. k + w \<le> n \<and> good_window (files ! f1) w (s1 + k))"
    using find_raw_matches_spec [OF run short] by (fastforce simp: clone_place_def found_def location_match_def)
next
  assume "\<exists>s1 s2 n. m = location_match files f1 s1 f2 s2 n \<and> maximal_clone files f1 s1 f2 s2 n
       \<and> (\<exists>k. k + w \<le> n \<and> good_window (files ! f1) w (s1 + k))"
  then obtain s1 s2 n k where m: "m = location_match files f1 s1 f2 s2 n" "maximal_clone files f1 s1 f2 s2 n"
      "k + w \<le> n" "good_window (files ! f1) w (s1 + k)" by blast
  have clone: "exact_clone files f1 s1 f2 s2 n" using m(2) by (simp add: maximal_clone_def)
  note other = good_window_clone [OF clone m(3,4)]
  obtain gs where w: "0 < w" and gs: "matches = map (clone_place files) gs" "\<forall>g \<in> set gs. found files w g"
    and complete: "\<And>p1 p2. seed_ok files w f1 p1 f2 p2 \<Longrightarrow> (f1, p1) < (f2, p2) \<Longrightarrow>
      equal_windows files w f1 p1 f2 p2 \<Longrightarrow>
      window_key record_hash (files ! f1) w p1 = window_key record_hash (files ! f2) w p2 \<Longrightarrow>
      covered_by gs f1 p1 f2 p2"
    using find_raw_matches_spec [OF run short] by blast
  have seed: "seed_ok files w f1 (s1 + k) f2 (s2 + k)"
    using clone m(4) other f by (auto simp: seed_ok_def exact_clone_def)
  have "(f1, s1 + k) < (f2, s2 + k)" using clone f by (auto simp: exact_clone_def less_prod_def)
  then have "covered_by gs f1 (s1 + k) f2 (s2 + k)"
    using complete [OF seed] other equal_windows_key [OF seed] by blast
  then obtain t1 t2 l where g: "(f1, t1, f2, t2, l) \<in> set gs" "int t2 - int t1 = int (s2 + k) - int (s1 + k)"
      "t1 \<le> s1 + k" "s1 + k \<le> t1 + l - 1"
    by (auto simp: covered_by_def alignment_of_def clone_range_def)
  have t: "maximal_clone files f1 t1 f2 t2 l" "0 < l"
    using gs(2) g(1) w by (auto simp: found_def)
  have "s1 = t1 \<and> s2 = t2 \<and> n = l"
    using g t(2) m(3) w by (intro maximal_clone_unique [OF m(2) t(1) _ f, of "s1 + k"]) auto
  then have "m = clone_place files (f1, t1, f2, t2, l)" using m(1) by (simp add: clone_place_def)
  then have "m \<in> set matches" using gs(1) g(1) by simp
  moreover have "cm_file1 m = f1 \<and> cm_file2 m = f2" by (simp add: m(1) location_match_def)
  ultimately show "m \<in> set matches \<and> cm_file1 m = f1 \<and> cm_file2 m = f2" by simp
qed



definition dup_sample :: "dup_file list" where
  "dup_sample =
     [\<lparr>df_path = ''a.py'', df_language = ''python'', df_raw_lines = [],
       df_indexed = [(1, ''def''), (2, ''return'')], df_regions = [(0, 9), (0, 9)]\<rparr>,
      \<lparr>df_path = ''b.py'', df_language = ''python'', df_raw_lines = [],
       df_indexed = [(4, ''def''), (6, ''return'')], df_regions = [(1, 8), (1, 8)]\<rparr>]"

definition dup_limits_sample :: dup_limits where
  "dup_limits_sample = \<lparr>dl_window_occurrences = 9, dl_same_file_seed_pairs = 9, dl_cross_file_pairs = 9,
     dl_cross_file_seed_pairs = 9, dl_extension_comparisons = 9, dl_raw_matches = 9\<rparr>"

lemma dup_sample_signal:
  "duplicate_signal_prefix [(1, ''def''), (2, ''return'')] = [0, Suc 0, 2]"
  "duplicate_signal_prefix [(4, ''def''), (6, ''return'')] = [0, Suc 0, 2]"
  "has_duplicate_signal [0, Suc 0, 2] 0 2"
  by code_simp+

lemma dup_sample_windows:
  "build_window_map (\<lambda>s. 0) dup_limits_sample 2 0 dup_sample []
     = Inr [((''python'', 0), [(0, 0), (1, 0)])]"
  by (simp add: dup_sample_def dup_sample_signal index_file_windows_def window_hashes_def first_hash_def
      dup_limits_sample_def region_stop.simps dict_values_def)

lemma dup_sample_run:
  "find_raw_matches (\<lambda>s. 0) dup_sample 2 dup_limits_sample
     = Inr [location_match dup_sample 0 0 1 0 2]"
  unfolding find_raw_matches_def dup_sample_windows
  by (simp add: seed_pairs_def dict_values_def validate_match_inputs_def match_seed_def accepts_seed_pair_def
      interval_contains_def tokens_equal_def token_at_def extend_seed_def extend_backward_def backward_limit_def
      extend_forward.simps may_grow_def in_bounds_def append_bounded_def no_budget_spent_def
      dup_limits_sample_def dup_sample_def numeral_2_eq_2)

lemma dup_sample_short: "short_files dup_sample"
  by (simp add: dup_sample_def short_files_def)

lemma dup_sample_good: "good_window (dup_sample ! 0) 2 0"
proof -
  have "[(0, 9), (0, 9)] ! k = ((0 :: int), (9 :: int))" if "k < 2" for k
    using that by (auto simp: less_2_cases_iff)
  then show ?thesis by (simp add: dup_sample_def good_window_def dup_sample_signal)
qed

theorem matches_are_maximal_clones_witness:
  "\<exists>f1 s1 f2 s2 n. location_match dup_sample 0 0 1 0 2 = location_match dup_sample f1 s1 f2 s2 n
    \<and> maximal_clone dup_sample f1 s1 f2 s2 n
    \<and> (\<exists>k. k + 2 \<le> n \<and> good_window (dup_sample ! f1) 2 (s1 + k))"
  by (rule matches_are_maximal_clones [OF dup_sample_run dup_sample_short]) simp

theorem cross_file_matches_exact_witness:
  "(location_match dup_sample 0 0 1 0 2 \<in> set [location_match dup_sample 0 0 1 0 2]
      \<and> cm_file1 (location_match dup_sample 0 0 1 0 2) = 0 \<and> cm_file2 (location_match dup_sample 0 0 1 0 2) = 1) \<longleftrightarrow>
    (\<exists>s1 s2 n. location_match dup_sample 0 0 1 0 2 = location_match dup_sample 0 s1 1 s2 n
       \<and> maximal_clone dup_sample 0 s1 1 s2 n
       \<and> (\<exists>k. k + 2 \<le> n \<and> good_window (dup_sample ! 0) 2 (s1 + k)))"
  by (rule cross_file_matches_exact [OF dup_sample_run dup_sample_short]) simp

definition dup_repeat :: "dup_file list" where
  "dup_repeat =
     [\<lparr>df_path = ''a.py'', df_language = ''python'', df_raw_lines = [],
       df_indexed = [(1, ''def''), (2, ''return''), (4, ''def''), (5, ''return'')],
       df_regions = [(0, 9), (0, 9), (0, 9), (0, 9)]\<rparr>]"

lemma dup_repeat_signal:
  "duplicate_signal_prefix [(1, ''def''), (2, ''return''), (4, ''def''), (5, ''return'')] = [0, Suc 0, 2, 3, 4]"
  "has_duplicate_signal [0, Suc 0, 2, 3, 4] 0 2" "has_duplicate_signal [0, Suc 0, 2, 3, 4] (Suc 0) 2"
  "has_duplicate_signal [0, Suc 0, 2, 3, 4] (Suc (Suc 0)) 2" "has_duplicate_signal [0, Suc 0, 2, 3, 4] 2 2"
  by code_simp+

lemma dup_repeat_windows:
  "build_window_map (\<lambda>s. 0) dup_limits_sample 2 0 dup_repeat []
     = Inr [((''python'', 0), [(0, 0), (0, 1), (0, 2)])]"
  by (simp add: dup_repeat_def dup_repeat_signal index_file_windows_def window_hashes_def first_hash_def
      dup_limits_sample_def region_stop.simps dict_values_def)

lemma dup_repeat_run:
  "find_raw_matches (\<lambda>s. 0) dup_repeat 2 dup_limits_sample
     = Inr [location_match dup_repeat 0 0 0 2 2]"
  unfolding find_raw_matches_def dup_repeat_windows
  by (simp add: seed_pairs_def dict_values_def validate_match_inputs_def match_seed_def accepts_seed_pair_def
      interval_contains_def tokens_equal_def token_at_def extend_seed_def extend_backward_def backward_limit_def
      extend_forward.simps may_grow_def in_bounds_def append_bounded_def no_budget_spent_def
      dup_limits_sample_def dup_repeat_def numeral_2_eq_2)

lemma dup_repeat_good: "good_window (dup_repeat ! 0) 2 0" "good_window (dup_repeat ! 0) 2 2"
proof -
  have "[(0, 9), (0, 9), (0, 9), (0, 9)] ! k = ((0 :: int), (9 :: int))" if "k < 4" for k
    using that by (auto simp: less_Suc_eq eval_nat_numeral)
  moreover have "[(0, 9), (0, 9)] ! k = ((0 :: int), (9 :: int))" if "k < 2" for k
    using that by (auto simp: less_2_cases_iff)
  ultimately show "good_window (dup_repeat ! 0) 2 0" "good_window (dup_repeat ! 0) 2 2"
    by (simp_all add: dup_repeat_def good_window_def dup_repeat_signal)
qed


section \<open>The choice among matches\<close>

definition well_kept :: "clone_match list \<Rightarrow> clone_match list \<Rightarrow> bool" where
  "well_kept raw kept \<longleftrightarrow>
     set kept \<subseteq> set raw \<and> sorted_wrt (\<lambda>a b. cm_size b \<le> cm_size a \<and> \<not> overlaps b a) kept
     \<and> (\<forall>m \<in> set raw. m \<in> set kept \<or> (\<exists>k \<in> set kept. overlaps m k \<and> cm_size m \<le> cm_size k))"

lemma keep_matches_well_kept:
  assumes "well_kept seen filtered" "sorted_wrt (\<lambda>a b. cm_size b \<le> cm_size a) (seen @ ms)"
  shows "well_kept (seen @ ms) (keep_matches filtered ms)"
  using assms
proof (induction ms arbitrary: seen filtered)
  case (Cons m ms)
  have smaller: "cm_size m \<le> cm_size k" if "k \<in> set filtered" for k
    using that Cons.prems by (auto simp: well_kept_def sorted_wrt_append)
  show ?case
  proof (cases "list_ex (overlaps m) filtered")
    case True
    then have "well_kept (seen @ [m]) filtered"
      using Cons.prems(1) smaller by (auto simp: well_kept_def list_ex_iff)
    then show ?thesis using Cons.IH [of "seen @ [m]" filtered] Cons.prems(2) True by simp
  next
    case False
    then have "well_kept (seen @ [m]) (filtered @ [m])"
      using Cons.prems(1) smaller by (auto simp: well_kept_def list_ex_iff sorted_wrt_append)
    then show ?thesis using Cons.IH [of "seen @ [m]" "filtered @ [m]"] Cons.prems(2) False by simp
  qed
qed simp

lemma filter_well_kept: "well_kept raw (filter_subsumed_matches raw)"
proof -
  let ?s = "sort_key (\<lambda>m. - int (cm_size m)) raw"
  have "sorted_wrt (\<lambda>a b. cm_size b \<le> cm_size a) ?s"
    using sorted_sort_key [of "\<lambda>m. - int (cm_size m)" raw] by (simp add: sorted_map)
  then have "well_kept ([] @ ?s) (keep_matches [] ?s)"
    by (intro keep_matches_well_kept) (simp_all add: well_kept_def)
  then show ?thesis by (simp add: well_kept_def filter_subsumed_matches_def)
qed

text \<open>Of the raw matches those kept are in order of falling length, no kept match overlaps an
  earlier one at both places, and a match is dropped only if one at least as long was kept that it
  overlaps at both places.\<close>

theorem kept_matches_do_not_overlap:
  "set (filter_subsumed_matches raw) \<subseteq> set raw
   \<and> sorted_wrt (\<lambda>a b. cm_size b \<le> cm_size a \<and> \<not> overlaps b a) (filter_subsumed_matches raw)
   \<and> (\<forall>m \<in> set raw. m \<in> set (filter_subsumed_matches raw)
        \<or> (\<exists>k \<in> set (filter_subsumed_matches raw). overlaps m k \<and> cm_size m \<le> cm_size k))"
  using filter_well_kept [of raw] by (simp add: well_kept_def)

definition match_sample :: "nat \<Rightarrow> int \<Rightarrow> nat \<Rightarrow> int \<Rightarrow> nat \<Rightarrow> clone_match" where
  "match_sample f1 s1 f2 s2 n =
     \<lparr>cm_file1 = f1, cm_start1 = s1, cm_end1 = s1 + int n - 1,
      cm_file2 = f2, cm_start2 = s2, cm_end2 = s2 + int n - 1, cm_size = n\<rparr>"

lemma kept_sample:
  "filter_subsumed_matches [match_sample 0 1 1 1 6, match_sample 0 3 1 2 8, match_sample 0 20 1 1 6]
     = [match_sample 0 3 1 2 8, match_sample 0 20 1 1 6]"
  by (simp add: filter_subsumed_matches_def match_sample_def overlaps_def)

theorem kept_matches_do_not_overlap_witness:
  "match_sample 0 1 1 1 6 \<in> set [match_sample 0 3 1 2 8, match_sample 0 20 1 1 6]
   \<or> (\<exists>k \<in> set [match_sample 0 3 1 2 8, match_sample 0 20 1 1 6].
        overlaps (match_sample 0 1 1 1 6) k \<and> cm_size (match_sample 0 1 1 1 6) \<le> cm_size k)"
  using kept_matches_do_not_overlap
    [of "[match_sample 0 1 1 1 6, match_sample 0 3 1 2 8, match_sample 0 20 1 1 6]"]
  unfolding kept_sample by simp

section \<open>The groups\<close>

lemma groups_clusters:
  "map gr_locations (du_groups (cluster_matches sha256 iter ms files))
     = sorted_clusters files (match_lengths ms) (match_components iter ms)"
  "map gr_index (du_groups (cluster_matches sha256 iter ms files))
     = [1..<Suc (length (du_groups (cluster_matches sha256 iter ms files)))]"
proof -
  let ?cs = "sorted_clusters files (match_lengths ms) (match_components iter ms)"
  have groups: "du_groups (cluster_matches sha256 iter ms files)
      = map (\<lambda>(i, c). group_of sha256 files (match_lengths ms) (Suc i) c) (enumerate 0 ?cs)"
    by (simp add: cluster_matches_alt Let_def)
  have "gr_locations (case p of (i, c) \<Rightarrow> group_of sha256 files l (Suc i) c) = snd p" for l p
    by (cases p) (simp add: group_of_def Let_def)
  then show "map gr_locations (du_groups (cluster_matches sha256 iter ms files)) = ?cs"
    unfolding groups map_map o_def by simp
  have "gr_index (case p of (i, c) \<Rightarrow> group_of sha256 files l (Suc i) c) = Suc (fst p)" for l p
    by (cases p) (simp add: group_of_def Let_def)
  moreover have "map (\<lambda>p. Suc (fst p)) (enumerate 0 cs) = [1..<Suc (length cs)]" for cs :: "location list list"
  proof -
    have "map (\<lambda>p. Suc (fst p)) (enumerate 0 cs) = map Suc (map fst (enumerate 0 cs))"
      by (simp only: map_map o_def)
    then show ?thesis by (simp only: map_fst_enumerate map_Suc_upt add_0 One_nat_def)
  qed
  ultimately show "map gr_index (du_groups (cluster_matches sha256 iter ms files))
     = [1..<Suc (length (du_groups (cluster_matches sha256 iter ms files)))]"
    unfolding groups map_map o_def by (simp only: length_map length_enumerate)
qed

lemma group_line_count:
  assumes "g \<in> set (du_groups (cluster_matches sha256 iter ms files))"
  shows "gr_line_count g = Max (place_length ms ` set (gr_locations g))"
  using assms
  by (auto simp: cluster_matches_alt Let_def group_of_def group_length_def match_lengths_longest)

text \<open>C16: The groups are the connected components of the matches: two places are in one group exactly
  if a chain of matches joins them, every place of a match is in one group, and no two groups share a
  place.  They are numbered from one, the longest first, each with its places in order of path and
  lines.\<close>

theorem groups_are_components:
  assumes "iterates iter"
  shows "(\<lambda>g. set (gr_locations g)) ` set (du_groups (cluster_matches sha256 iter ms files))
      = {(match_links ms)\<^sup>* `` {x} | x. x \<in> match_places ms}
    \<and> distinct (map (\<lambda>g. set (gr_locations g)) (du_groups (cluster_matches sha256 iter ms files)))
    \<and> (\<forall>g \<in> set (du_groups (cluster_matches sha256 iter ms files)).
         distinct (gr_locations g) \<and> sorted (map (place_key files) (gr_locations g))
         \<and> gr_line_count g = Max (place_length ms ` set (gr_locations g)))
    \<and> sorted_wrt (\<lambda>g h. gr_line_count h \<le> gr_line_count g) (du_groups (cluster_matches sha256 iter ms files))
    \<and> map gr_index (du_groups (cluster_matches sha256 iter ms files))
      = [1..<Suc (length (du_groups (cluster_matches sha256 iter ms files)))]"
proof -
  let ?gs = "du_groups (cluster_matches sha256 iter ms files)"
  let ?cs = "match_components iter ms"
  let ?sc = "sorted_clusters files (match_lengths ms) ?cs"
  have locs: "map gr_locations ?gs = ?sc" by (rule groups_clusters)
  note spec = match_components_spec [OF assms, of ms]
  have sets: "map (\<lambda>g. set (gr_locations g)) ?gs = map set ?sc"
    unfolding locs [symmetric] by simp
  have "(\<lambda>g. set (gr_locations g)) ` set ?gs = set ` set ?sc"
    using arg_cong [OF sets, of set] by simp
  then have 1: "(\<lambda>g. set (gr_locations g)) ` set ?gs = {(match_links ms)\<^sup>* `` {x} | x. x \<in> match_places ms}"
    by (simp add: sorted_clusters_set spec(1))
  have 2: "distinct (map (\<lambda>g. set (gr_locations g)) ?gs)"
    unfolding sets using spec(3) by (rule sorted_clusters_set)
  have 3: "distinct (gr_locations g) \<and> sorted (map (place_key files) (gr_locations g))
      \<and> gr_line_count g = Max (place_length ms ` set (gr_locations g))" if that: "g \<in> set ?gs" for g
  proof -
    have "gr_locations g \<in> set ?sc" using that unfolding locs [symmetric] by simp
    then show ?thesis
      using spec(2) group_line_count [OF that] by (auto simp: sorted_clusters_def)
  qed
  have "sorted (map (cluster_key files (match_lengths ms)) ?sc)"
    by (simp add: sorted_clusters_def)
  then have "sorted_wrt (\<lambda>g h. cluster_key files (match_lengths ms) (gr_locations g)
      \<le> cluster_key files (match_lengths ms) (gr_locations h)) ?gs"
    unfolding locs [symmetric] by (simp add: sorted_map)
  then have 4: "sorted_wrt (\<lambda>g h. gr_line_count h \<le> gr_line_count g) ?gs"
    by (rule sorted_wrt_mono_rel [rotated])
      (auto simp: cluster_key_def group_line_count group_length_def match_lengths_longest)
  show ?thesis
    by (rule conjI [OF 1 conjI [OF 2 conjI [OF ballI [OF 3] conjI [OF 4 groups_clusters(2)]]]])
qed

definition chain_sample :: "clone_match list" where
  "chain_sample = [match_sample 0 1 1 1 6, match_sample 1 1 1 20 7, match_sample 0 40 1 40 9]"

lemma iterates_id: "iterates (\<lambda>vs. vs)" and iterates_rev: "iterates rev"
  by (simp_all add: iterates_def)

lemma chain_sample_valid: "valid_places chain_sample dup_sample"
  by (simp add: valid_places_def chain_sample_def match_sample_def dup_sample_def)

theorem groups_are_components_witness:
  "(\<lambda>g. set (gr_locations g)) ` set (du_groups (cluster_matches (\<lambda>s. s) rev chain_sample dup_sample))
     = {(match_links chain_sample)\<^sup>* `` {x} | x. x \<in> match_places chain_sample}"
  using groups_are_components [OF iterates_rev, of "\<lambda>s. s" chain_sample dup_sample]
  by (rule conjunct1)

text \<open>C17: The groups do not depend on the order of the matches, on repeated matches, or on the order in
  which the interpreter iterates over a set, as long as the files have different paths.\<close>

theorem grouping_ignores_order:
  assumes "iterates iter" "iterates iter'" "set ms = set ms'" "valid_places ms files"
  shows "cluster_matches sha256 iter ms files = cluster_matches sha256 iter' ms' files"
proof -
  have same: "match_links ms = match_links ms'" "match_places ms = match_places ms'"
    using assms(3) by (simp_all add: match_links_def match_places_def)
  note A = match_components_spec [OF assms(1), of ms] and B = match_components_spec [OF assms(2), of ms']
  have "\<Union> (set ` set (match_components iter ms)) \<subseteq> match_places ms"
    unfolding A(1) using reach_places by blast
  then have 1: "sorted_clusters files (match_lengths ms) (match_components iter ms)
      = sorted_clusters files (match_lengths ms) (match_components iter' ms')"
    by (intro sorted_clusters_unique [OF _ A(2,3) B(2,3) place_key_inj [OF assms(4)]])
      (simp_all only: A(1) B(1) same)
  have lengths: "longest (match_lengths ms) = longest (match_lengths ms')"
    unfolding match_lengths_longest by (rule place_length_cong [OF assms(3)])
  note L = longest_groups [OF lengths]
  show ?thesis unfolding cluster_matches_alt 1 unfolding L by (rule refl)
qed

theorem grouping_ignores_order_witness:
  "cluster_matches (\<lambda>s. s) (\<lambda>vs. vs) chain_sample dup_sample
     = cluster_matches (\<lambda>s. s) rev (rev chain_sample @ chain_sample) dup_sample"
  by (rule grouping_ignores_order [OF iterates_id iterates_rev _ chain_sample_valid]) simp

lemma duplicated_positions_bounded:
  assumes "iterates iter" "valid_places ms files"
  shows "du_duplicated_positions (cluster_matches sha256 iter ms files)
      \<subseteq> {(f, line). f < length files \<and> line \<in> code_lines files f}
    \<and> card (du_duplicated_positions (cluster_matches sha256 iter ms files))
      \<le> sum_list (map (\<lambda>f. length (df_indexed f)) files)"
proof -
  let ?D = "du_duplicated_positions (cluster_matches sha256 iter ms files)"
  let ?C = "SIGMA f : {..<length files}. code_lines files f"
  have known: "fst loc < length files" if "c \<in> set (match_components iter ms)" "loc \<in> set c" for c loc
  proof -
    have "set c \<in> {(match_links ms)\<^sup>* `` {x} | x. x \<in> match_places ms}"
      using that(1) match_components_spec(1) [OF assms(1), of ms] by blast
    then have "loc \<in> match_places ms" using that(2) reach_places by blast
    then show ?thesis
      using assms(2) by (auto simp: match_places_def valid_places_def list_all_iff loc1_def loc2_def)
  qed
  have "?D \<subseteq> ?C"
  proof
    fix p assume "p \<in> ?D"
    then obtain c where c: "c \<in> set (sorted_clusters files (match_lengths ms) (match_components iter ms))"
        "p \<in> duplicated_in files c"
      by (auto simp: cluster_matches_alt Let_def)
    have "set c \<in> set ` set (sorted_clusters files (match_lengths ms) (match_components iter ms))" using c(1) by simp
    then obtain d where d: "d \<in> set (match_components iter ms)" "set c = set d"
      unfolding sorted_clusters_set by blast
    obtain f s e where loc: "(f, s, e) \<in> set (tl c)" "fst p = f" "snd p \<in> code_lines files f"
      using c(2) by (auto simp: duplicated_in_def)
    have "(f, s, e) \<in> set d" using list.set_sel(2) [of c "(f, s, e)"] loc(1) d(2) by (cases c) auto
    then show "p \<in> ?C" using known [OF d(1)] loc(2,3) by (cases p) auto
  qed
  moreover have "finite ?C" by (simp add: code_lines_def)
  moreover have "card ?C \<le> sum_list (map (\<lambda>f. length (df_indexed f)) files)"
  proof -
    have "card ?C = (\<Sum>f < length files. card (code_lines files f))"
      by (simp add: code_lines_def)
    also have "\<dots> \<le> (\<Sum>f < length files. length (df_indexed (files ! f)))"
      by (intro sum_mono) (simp add: code_lines_def card_image_le [THEN le_trans] card_length)
    also have "\<dots> = sum_list (map (\<lambda>f. length (df_indexed f)) files)"
      by (simp add: sum_list_sum_nth atLeast0LessThan)
    finally show ?thesis .
  qed
  ultimately show ?thesis using card_mono [of ?C ?D] by auto
qed

text \<open>Every duplicated line is a code line of its file, so no more lines are counted as duplicated
  than there are code lines in all the files.\<close>

theorem duplicated_lines_bounded:
  assumes "iterates iter" "valid_places ms files"
  shows "du_duplicated_positions (cluster_matches sha256 iter ms files)
      \<subseteq> {(f, line). f < length files \<and> line \<in> code_lines files f}
    \<and> card (du_duplicated_positions (cluster_matches sha256 iter ms files))
      \<le> sum_list (map (\<lambda>f. length (df_indexed f)) files)"
  by (rule duplicated_positions_bounded [OF assms])

theorem duplicated_lines_bounded_witness:
  "card (du_duplicated_positions (cluster_matches (\<lambda>s. s) (\<lambda>vs. vs) chain_sample dup_sample)) \<le> 4"
  using duplicated_lines_bounded [OF iterates_id chain_sample_valid, of "\<lambda>s. s"] by (simp add: dup_sample_def)

end
