(* ===== verification/Cpp_Properties.thy ===== *)
theory Cpp_Properties
  imports Cpp_Tokens
begin

text \<open>
  Properties of the C++ lexer: the line of each character, what the tokenizer returns, and where the
  scan for directives departs from it.
\<close>

section \<open>Lines\<close>

text \<open>The characters that are left after splicing, each with the physical line it is on.\<close>

fun physical :: "nat \<Rightarrow> cpp_text \<Rightarrow> (string \<times> nat) list" where
  "physical line [] = []"
| "physical line [c] = [(c, line)]"
| "physical line (c # d # cs) =
     (if c = BACKSLASH \<and> d = LF then physical (Suc line) cs
      else (c, line) # physical (if c = LF then Suc line else line) (d # cs))"

definition starts_upto :: "nat list \<Rightarrow> nat \<Rightarrow> nat" where
  "starts_upto starts offset = length (filter (\<lambda>s. s \<le> offset) starts)"

lemma starts_upto_Cons [simp]:
  "starts_upto (s # starts) offset = (if s \<le> offset then Suc (starts_upto starts offset) else starts_upto starts offset)"
  "starts_upto [] offset = 0"
  by (simp_all add: starts_upto_def)

lemma splice_from_parts:
  "splice_from offset cs = (t, starts) \<Longrightarrow>
     t = map fst (physical line cs) \<and> sorted starts \<and> (\<forall>s \<in> set starts. offset \<le> s)
     \<and> (\<forall>i < length t. snd (physical line cs ! i) = line + starts_upto starts (offset + i))"
proof (induction offset cs arbitrary: t starts line rule: splice_from.induct)
  case (3 offset c d cs)
  show ?case
  proof (cases "c = BACKSLASH \<and> d = LF")
    case True
    obtain t' starts' where rec: "splice_from offset cs = (t', starts')" by fastforce
    then show ?thesis using 3(1) [OF True rec, of "Suc line"] 3(3) True by auto
  next
    case False
    obtain t' starts' where rec: "splice_from (Suc offset) (d # cs) = (t', starts')" by fastforce
    let ?line = "if c = LF then Suc line else line"
    note IH = 3(2) [OF False rec, of ?line]
    have eq: "t = c # t'" "starts = (if c = LF then Suc offset # starts' else starts')"
      using 3(3) False rec by auto
    have none: "starts_upto starts' offset = 0"
      using IH by (auto simp: starts_upto_def intro!: filter_False)
    have "snd (physical line (c # d # cs) ! i) = line + starts_upto starts (offset + i)" if i: "i < length t" for i
    proof (cases i)
      case 0
      then show ?thesis using none False eq(2) by auto
    next
      case (Suc j)
      then have "snd (physical ?line (d # cs) ! j) = ?line + starts_upto starts' (Suc offset + j)"
        using IH i eq(1) by auto
      then show ?thesis using Suc False eq(2) by auto
    qed
    then show ?thesis using IH eq False by auto
  qed
next
  case (2 offset c)
  then show ?case by (auto split: if_splits)
qed simp

lemma line_at_offset_splice:
  assumes "splice_from 0 cs = (t, starts)" "i < length t"
  shows "line_at_offset (splice_cpp_source cs) i = Suc (starts_upto starts i)"
proof -
  have "sorted (0 # starts)" using splice_from_parts [OF assms(1), of 1] by simp
  moreover have "sorted xs \<Longrightarrow> takeWhile (\<lambda>s. s \<le> i) xs = filter (\<lambda>s. s \<le> i) xs" for xs
    by (induction xs) (auto intro!: filter_False [symmetric])
  ultimately show ?thesis
    using assms(1) by (simp add: line_at_offset_def splice_cpp_source_def starts_upto_def)
qed

text \<open>C22: The compact table of line starts gives every character of the spliced text the physical line it
  is on, however many splices are around it.\<close>

theorem spliced_lines_are_physical:
  "sp_text (splice_cpp_source cs) = map fst (physical 1 cs)
   \<and> (\<forall>i < length (sp_text (splice_cpp_source cs)).
        line_at_offset (splice_cpp_source cs) i = snd (physical 1 cs ! i))"
proof -
  obtain t starts where sp: "splice_from 0 cs = (t, starts)" by fastforce
  note parts = splice_from_parts [OF sp, of 1]
  then have "line_at_offset (splice_cpp_source cs) i = snd (physical 1 cs ! i)" if "i < length t" for i
    using line_at_offset_splice [OF sp that] that by simp
  then show ?thesis using parts sp by (simp add: splice_cpp_source_def)
qed

theorem spliced_lines_are_physical_witness:
  "line_at_offset (splice_cpp_source [''a'', BACKSLASH, LF, BACKSLASH, LF, ''b'', LF, ''c'']) 3
     = snd (physical 1 [''a'', BACKSLASH, LF, BACKSLASH, LF, ''b'', LF, ''c''] ! 3)"
proof -
  have "3 < length (sp_text (splice_cpp_source [''a'', BACKSLASH, LF, BACKSLASH, LF, ''b'', LF, ''c'']))"
    by (simp add: splice_cpp_source_def BACKSLASH_def LF_def)
  then show ?thesis
    using spliced_lines_are_physical [of "[''a'', BACKSLASH, LF, BACKSLASH, LF, ''b'', LF, ''c'']"] by blast
qed

lemma splice_starts_within:
  "splice_from offset cs = (t, starts) \<Longrightarrow> (\<forall>s \<in> set starts. s \<le> offset + length t)
     \<and> (cs \<noteq> [] \<and> last cs = LF \<longrightarrow> starts \<noteq> [] \<and> last starts = offset + length t)"
proof (induction offset cs arbitrary: t starts rule: splice_from.induct)
  case (3 offset c d cs)
  show ?case
  proof (cases "c = BACKSLASH \<and> d = LF")
    case True
    obtain t' starts' where rec: "splice_from offset cs = (t', starts')" by fastforce
    then show ?thesis using 3(1) [OF True rec] 3(3) True by (cases cs) auto
  next
    case False
    obtain t' starts' where rec: "splice_from (Suc offset) (d # cs) = (t', starts')" by fastforce
    then show ?thesis using 3(2) [OF False rec] 3(3) False by (auto split: if_splits)
  qed
qed auto

lemma line_within:
  assumes "i < length (sp_text (splice_cpp_source cs))"
  shows "1 \<le> line_at_offset (splice_cpp_source cs) i
    \<and> line_at_offset (splice_cpp_source cs) i \<le> sp_last_line (splice_cpp_source cs)"
proof -
  obtain t starts where sp: "splice_from 0 cs = (t, starts)" by fastforce
  have i: "i < length t" using assms sp by (simp add: splice_cpp_source_def)
  then have cs: "cs \<noteq> []" using sp by auto
  have upto: "starts_upto starts i \<le> length starts" by (simp add: starts_upto_def)
  have "starts_upto starts i < length starts" if "last cs = LF"
  proof -
    have "last starts = length t" "starts \<noteq> []" using splice_starts_within [OF sp] cs that by auto
    then have "last starts \<in> set starts \<and> \<not> last starts \<le> i" using i by (metis last_in_set not_le)
    then show ?thesis unfolding starts_upto_def by (intro length_filter_less) auto
  qed
  then show ?thesis
    using upto line_at_offset_splice [OF sp i] cs sp by (auto simp: splice_cpp_source_def)
qed

section \<open>What the tokenizer returns\<close>

definition too_many_tokens :: "int \<Rightarrow> exn" where
  "too_many_tokens limit = ValueError ''max_tokens={} exceeded while tokenizing C++ source'' [show_int limit]"

lemma lex_value:
  assumes "sp_text sp = text" "0 \<le> token_count" "token_count \<le> limit"
  shows "cs = drop index text \<Longrightarrow>
    (case lex un sha256 sp limit token_count index at_line_prefix previous cs of
       Inl e \<Rightarrow> e = too_many_tokens limit
     | Inr ts \<Rightarrow> token_count + int (length ts) \<le> limit
         \<and> (\<forall>p \<in> set ts. \<exists>i < length text. fst p = line_at_offset sp i))"
  using assms(2,3)
proof (induction "length cs" arbitrary: cs token_count index at_line_prefix previous rule: less_induct)
  case less
  show ?case
  proof (cases cs)
    case Nil
    then show ?thesis using less.prems by simp
  next
    case (Cons c ds)
    obtain n kind where next_: "next_lexeme un sha256 at_line_prefix previous (c # ds) = (n, kind)" by fastforce
    then have n: "0 < n" by (rule next_lexeme_length) simp
    define rest where "rest = drop n (c # ds)"
    have index: "index < length text" using less.prems(1) Cons by (metis drop_eq_Nil list.distinct(1) not_le)
    have rest: "rest = drop (index + n) text" "length rest < length cs"
      using less.prems(1) Cons n index by (simp_all add: rest_def add.commute)
    have IH: "case lex un sha256 sp limit k (index + n) b p rest of
         Inl e \<Rightarrow> e = too_many_tokens limit
       | Inr ts \<Rightarrow> k + int (length ts) \<le> limit \<and> (\<forall>q \<in> set ts. \<exists>i < length text. fst q = line_at_offset sp i)"
      if "0 \<le> k" "k \<le> limit" for k b p
      using less.hyps [OF rest(2,1) that] .
    have here: "lex un sha256 sp limit token_count index at_line_prefix previous cs
        = (case kind of
             Newline \<Rightarrow> lex un sha256 sp limit token_count (index + n) True previous rest
           | Blank \<Rightarrow> lex un sha256 sp limit token_count (index + n) at_line_prefix previous rest
           | Directive \<Rightarrow> lex un sha256 sp limit token_count (index + n) True [] rest
           | LineComment \<Rightarrow> lex un sha256 sp limit token_count (index + n) at_line_prefix previous rest
           | BlockComment spans \<Rightarrow>
               lex un sha256 sp limit token_count (index + n) (spans \<or> at_line_prefix) previous rest
           | OpenComment \<Rightarrow>
               raise_if (limit < token_count + 1) (too_many_tokens limit)
                 (Inr [(line_at_offset sp index, ''UNTERMINATED_BLOCK_COMMENT'')])
           | Token t \<Rightarrow>
               raise_if (limit < token_count + 1) (too_many_tokens limit)
                 (bindr (lex un sha256 sp limit (token_count + 1) (index + n) False t rest) (\<lambda>ts.
                  Inr ((line_at_offset sp index, t) # ts))))"
      by (simp only: Cons lex.simps next_ rest_def too_many_tokens_def Let_def prod.case)
    show ?thesis
    proof (cases kind)
      case OpenComment
      then show ?thesis using here index less.prems by (cases "limit < token_count + 1") auto
    next
      case (Token t)
      show ?thesis
      proof (cases "limit < token_count + 1")
        case True
        then show ?thesis using here Token by simp
      next
        case False
        then show ?thesis
          using here Token index IH [of "token_count + 1" False t] less.prems
          by (cases "lex un sha256 sp limit (token_count + 1) (index + n) False t rest") auto
      qed
    qed (use here IH less.prems in simp_all)
  qed
qed

lemma tokens_by_line_keys:
  "fst ` set (tokens_by_line ts) = fst ` set ts \<and> distinct (map fst (tokens_by_line ts))
   \<and> length (tokens_by_line ts) \<le> length ts"
proof -
  have "fst ` set (fold (\<lambda>(line, t). dict_append line t) ts d) = fst ` set d \<union> fst ` set ts
      \<and> (distinct (map fst d) \<longrightarrow> distinct (map fst (fold (\<lambda>(line, t). dict_append line t) ts d)))
      \<and> length (fold (\<lambda>(line, t). dict_append line t) ts d) \<le> length d + length ts"
    for d :: "(nat \<times> string list) list"
  proof (induction ts arbitrary: d)
    case (Cons p ts)
    obtain line t where p: "p = (line, t)" by (cases p)
    have "length (dict_append line t d) \<le> Suc (length d)"
      by (metis dict_append_keys length_append_singleton length_map le_SucI order_refl)
    then show ?case using Cons.IH [of "dict_append line t d"] p by (auto simp: distinct_dict_append)
  qed simp
  from this [of "[]"] show ?thesis by (simp add: tokens_by_line_def)
qed

lemma grouped_lines_sorted:
  "sorted_wrt (<) (map fst (grouped_lines ts)) \<and> fst ` set (grouped_lines ts) = (\<lambda>p. int (fst p)) ` set ts
   \<and> length (grouped_lines ts) \<le> length ts"
proof -
  note keys = tokens_by_line_keys [of ts]
  have "sorted_wrt (<) (map fst (sort_key fst (tokens_by_line ts)))"
    using keys by (simp add: strict_sorted_iff distinct_map)
  then have "sorted_wrt (<) (map int (map fst (sort_key fst (tokens_by_line ts))))"
    by (simp only: sorted_wrt_map of_nat_less_iff)
  moreover have "map fst (grouped_lines ts) = map int (map fst (sort_key fst (tokens_by_line ts)))"
    by (simp add: grouped_lines_def case_prod_beta)
  moreover have "fst ` set (grouped_lines ts) = int ` fst ` set (tokens_by_line ts)"
    using arg_cong [OF calculation(2), of set] by (simp add: image_image)
  moreover have "length (grouped_lines ts) = length (tokens_by_line ts)" by (simp add: grouped_lines_def)
  ultimately show ?thesis using keys by (simp add: image_image)
qed

text \<open>On a text without NUL the tokenizer ends with its lines, strictly increasing, each one of the
  physical lines of the text and no more of them than tokens allowed, or because there are more tokens
  than that; it raises nothing else, however malformed the text is.\<close>

lemma tokenizer_total:
  assumes "CHR 0x00 \<notin> set s"
  shows "case tokenize_cpp_lines un sha256 (PStr s) PNone of
      Inl e \<Rightarrow> e = too_many_tokens MAX_CPP_DUPLICATE_TOKENS
    | Inr lines \<Rightarrow> sorted_wrt (<) (map fst lines) \<and> int (length lines) \<le> MAX_CPP_DUPLICATE_TOKENS
        \<and> (\<forall>p \<in> set lines. 1 \<le> fst p
             \<and> fst p \<le> int (sp_last_line (splice_cpp_source (newlines (code_points s)))))"
proof -
  let ?sp = "splice_cpp_source (newlines (code_points s))"
  have limit: "0 \<le> MAX_CPP_DUPLICATE_TOKENS" by (simp add: MAX_CPP_DUPLICATE_TOKENS_def)
  note run = lex_value [of ?sp "sp_text ?sp" 0 MAX_CPP_DUPLICATE_TOKENS "sp_text ?sp" 0 un sha256 True "[]",
    OF refl order_refl limit]
  have eq: "tokenize_cpp_lines un sha256 (PStr s) PNone
      = bindr (lex un sha256 ?sp MAX_CPP_DUPLICATE_TOKENS 0 0 True [] (sp_text ?sp)) (\<lambda>ts. Inr (grouped_lines ts))"
    using assms by (simp add: tokenize_cpp_lines_def cpp_token_limit_def Let_def)
  show ?thesis
  proof (cases "lex un sha256 ?sp MAX_CPP_DUPLICATE_TOKENS 0 0 True [] (sp_text ?sp)")
    case (Inl e)
    then show ?thesis using run eq by simp
  next
    case (Inr ts)
    have ts: "int (length ts) \<le> MAX_CPP_DUPLICATE_TOKENS"
        "\<forall>p \<in> set ts. \<exists>i < length (sp_text ?sp). fst p = line_at_offset ?sp i"
      using run Inr by simp_all
    note grouped = grouped_lines_sorted [of ts]
    have "1 \<le> fst p \<and> fst p \<le> int (sp_last_line ?sp)" if p: "p \<in> set (grouped_lines ts)" for p
    proof -
      have "fst p \<in> (\<lambda>q. int (fst q)) ` set ts" using grouped p by blast
      then obtain i where "i < length (sp_text ?sp)" "fst p = int (line_at_offset ?sp i)" using ts(2) by auto
      then show ?thesis using line_within [of i "newlines (code_points s)"] by simp
    qed
    then show ?thesis using grouped ts(1) eq Inr by simp
  qed
qed

section \<open>Where the scan for directives departs from the tokenizer\<close>

definition ascii :: unicode where
  "ascii = \<lparr>un_alpha = digit_in [(65, 90), (97, 122)], un_alnum = digit_in [(65, 90), (97, 122), (48, 57)],
     un_is_upper = digit_in [(65, 90)],
     un_upper = map (\<lambda>c. if 97 \<le> (of_char c :: nat) \<and> (of_char c :: nat) \<le> 122 then char_of ((of_char c :: nat) - 32) else c)\<rparr>"

text \<open>\<open>x=1'0;/*\<close>, a line \<open>#a\<close> of the comment, and \<open>*/y\<close>.\<close>

definition separator_source :: string where
  "separator_source = ''x=1'' @ [CHR 0x27] @ ''0;/*'' @ LF @ ''#a'' @ LF @ ''*/y'' @ LF"

text \<open>\<open>f(ER"a(b")\<close>, and a line \<open>#c\<close>.\<close>

definition macro_source :: string where
  "macro_source = ''f(ER'' @ [CHR 0x22] @ ''a(b'' @ [CHR 0x22] @ '')'' @ LF @ ''#c'' @ LF"


end
