(* ===== verification/Dup_Check_Properties.thy ===== *)
theory Dup_Check_Properties
  imports Dup_Check Dup_Properties Cpp_Properties "HOL-Library.Multiset"
begin

text \<open>
  Properties of the duplicate check: the regions of a file, the stable read of a source, the
  inventory, and what the check reports.
\<close>

section \<open>Regions\<close>

definition scope_key :: "scope \<Rightarrow> scope" where
  "scope_key s = (case s of (start, stop, n) \<Rightarrow> (stop - start, stop, n))"

definition goes_on :: "int \<Rightarrow> scope \<Rightarrow> bool" where
  "goes_on line k \<longleftrightarrow> line \<le> fst (snd k)"

text \<open>The scope of least extent among those that contain the line, 0 if none does.\<close>

definition narrowest :: "scope list \<Rightarrow> int \<Rightarrow> int" where
  "narrowest intervals line =
     top_scope (sort (filter (goes_on line) (map scope_key (filter (\<lambda>s. fst s \<le> line) intervals))))"

lemma push_scopes_eq:
  "push_scopes line active intervals =
     (fold insort (map scope_key (takeWhile (\<lambda>s. fst s \<le> line) intervals)) active,
      dropWhile (\<lambda>s. fst s \<le> line) intervals)"
  by (induction line active intervals rule: push_scopes.induct) (auto simp: scope_key_def)

text \<open>What the active list knows: of the scopes seen, those that still go on, in order.\<close>

definition heap_of :: "int \<Rightarrow> scope list \<Rightarrow> scope list \<Rightarrow> bool" where
  "heap_of line active seen \<longleftrightarrow>
     sorted active \<and> (\<forall>l \<ge> line. filter (goes_on l) active = sort (filter (goes_on l) seen))"

lemma heap_of_insort: "heap_of line active seen \<Longrightarrow> heap_of line (insort k active) (k # seen)"
  by (auto simp: heap_of_def sorted_insort filter_insort filter_insort_triv)

lemma heap_of_fold: "heap_of line active seen \<Longrightarrow> heap_of line (fold insort ks active) (rev ks @ seen)"
  by (induction ks arbitrary: active seen) (auto dest: heap_of_insort)

lemma heap_of_later: "heap_of line active seen \<Longrightarrow> line \<le> line' \<Longrightarrow> heap_of line' active seen"
  by (simp add: heap_of_def)

lemma pop_ended_goes_on: "pop_ended line active = dropWhile (\<lambda>k. \<not> goes_on line k) active"
  by (simp add: pop_ended_def goes_on_def not_le)

lemma heap_of_pop:
  assumes "heap_of line active seen"
  shows "heap_of line (pop_ended line active) seen"
proof -
  have "filter (goes_on l) (dropWhile (\<lambda>k. \<not> goes_on line k) ks) = filter (goes_on l) ks" if "line \<le> l" for l ks
    using that by (induction ks) (auto simp: goes_on_def)
  moreover have "sorted (dropWhile (\<lambda>k. \<not> goes_on line k) active)"
    using assms by (simp add: heap_of_def sorted_dropWhile)
  ultimately show ?thesis using assms unfolding heap_of_def pop_ended_goes_on by simp
qed

lemma top_of_heap:
  assumes "heap_of line active seen"
  shows "top_scope (pop_ended line active) = top_scope (sort (filter (goes_on line) seen))"
proof -
  have eq: "filter (goes_on line) (pop_ended line active) = sort (filter (goes_on line) seen)"
    using heap_of_pop [OF assms] by (simp add: heap_of_def)
  show ?thesis
  proof (cases "pop_ended line active")
    case Nil
    then show ?thesis using eq by (simp add: top_scope_def)
  next
    case (Cons k ks)
    then have "goes_on line k"
      unfolding pop_ended_goes_on by (metis hd_dropWhile list.distinct(1) list.sel(1))
    then have "sort (filter (goes_on line) seen) = k # filter (goes_on line) ks" using eq Cons by simp
    then show ?thesis using Cons by (simp add: top_scope_def)
  qed
qed

lemma takeWhile_further:
  "(\<And>x. P x \<Longrightarrow> Q x) \<Longrightarrow> takeWhile Q xs = takeWhile P xs @ takeWhile Q (dropWhile P xs)"
  by (induction xs) auto

lemma takeWhile_dropWhile_none: "takeWhile P (dropWhile P xs) = []"
  by (induction xs) auto

lemma takeWhile_sorted: "sorted xs \<Longrightarrow> takeWhile (\<lambda>b. b \<le> x) xs = filter (\<lambda>b. b \<le> x) (xs :: int list)"
  by (induction xs) (auto intro!: filter_False [symmetric])

lemma project_lines_eq:
  assumes "sorted lines" "heap_of (case lines of [] \<Rightarrow> 0 | line # ls \<Rightarrow> line) active seen"
  shows "project_lines barriers active intervals lines = map (\<lambda>line.
     (top_scope (sort (filter (goes_on line)
        (seen @ map scope_key (takeWhile (\<lambda>s. fst s \<le> line) intervals)))), segment_for line barriers)) lines"
  using assms
proof (induction lines arbitrary: active seen intervals)
  case (Cons line lines)
  let ?new = "map scope_key (takeWhile (\<lambda>s. fst s \<le> line) intervals)"
  let ?rest = "dropWhile (\<lambda>s. fst s \<le> line) intervals"
  have pushed: "heap_of line (fold insort ?new active) (rev ?new @ seen)"
    using Cons.prems(2) by (intro heap_of_fold) simp
  have same: "sort (filter (goes_on l) (rev ?new @ seen @ map scope_key (takeWhile (\<lambda>s. fst s \<le> l) ?rest)))
      = sort (filter (goes_on l) (seen @ map scope_key (takeWhile (\<lambda>s. fst s \<le> l) intervals)))" if "line \<le> l" for l
  proof -
    have "takeWhile (\<lambda>s. fst s \<le> l) intervals = takeWhile (\<lambda>s. fst s \<le> line) intervals @ takeWhile (\<lambda>s. fst s \<le> l) ?rest"
      using that by (intro takeWhile_further) simp
    then have "mset (rev ?new @ seen @ map scope_key (takeWhile (\<lambda>s. fst s \<le> l) ?rest))
        = mset (seen @ map scope_key (takeWhile (\<lambda>s. fst s \<le> l) intervals))"
      by simp
    then have "mset (filter (goes_on l) (rev ?new @ seen @ map scope_key (takeWhile (\<lambda>s. fst s \<le> l) ?rest)))
        = mset (filter (goes_on l) (seen @ map scope_key (takeWhile (\<lambda>s. fst s \<le> l) intervals)))"
      by (simp only: mset_filter)
    then show ?thesis by (intro properties_for_sort) (simp_all only: mset_sort sorted_sort)
  qed
  have "takeWhile (\<lambda>s. fst s \<le> line) ?rest = []" by (rule takeWhile_dropWhile_none)
  then have here: "sort (filter (goes_on line) (rev ?new @ seen))
      = sort (filter (goes_on line) (seen @ map scope_key (takeWhile (\<lambda>s. fst s \<le> line) intervals)))"
    using same [of line] by simp
  have "heap_of line (pop_ended line (fold insort ?new active)) (rev ?new @ seen)"
    by (rule heap_of_pop [OF pushed])
  then have "heap_of (case lines of [] \<Rightarrow> 0 | l # ls \<Rightarrow> l) (pop_ended line (fold insort ?new active)) (rev ?new @ seen)
      \<or> lines = []"
    using Cons.prems(1) by (cases lines) (auto intro: heap_of_later)
  then have "project_lines barriers (pop_ended line (fold insort ?new active)) ?rest lines = map (\<lambda>l.
     (top_scope (sort (filter (goes_on l)
        ((rev ?new @ seen) @ map scope_key (takeWhile (\<lambda>s. fst s \<le> l) ?rest)))), segment_for l barriers)) lines"
    using Cons.IH Cons.prems(1) by (cases "lines = []") auto
  also have "\<dots> = map (\<lambda>l. (top_scope (sort (filter (goes_on l)
        (seen @ map scope_key (takeWhile (\<lambda>s. fst s \<le> l) intervals)))), segment_for l barriers)) lines"
    using Cons.prems(1) same by (intro map_cong) auto
  finally show ?case
    using top_of_heap [OF pushed] here by (simp add: push_scopes_eq Let_def)
qed simp

text \<open>On lines in order, the sweep with its heap gives each line the narrowest scope that contains
  it and the number of barrier lines up to it, as looking at all scopes and barriers for every line
  would.\<close>

lemma regions_are_narrowest_scopes:
  assumes "sorted lines"
  shows "project_regions lines intervals barriers
    = map (\<lambda>line. (narrowest intervals line, int (card {b \<in> set barriers. b \<le> line}))) lines"
proof -
  have "heap_of l [] []" for l by (simp add: heap_of_def)
  note eq = project_lines_eq [OF assms this, of "sorted_set barriers" "sort intervals"]
  have first: "takeWhile (\<lambda>s. fst s \<le> line) (sort intervals) = filter (\<lambda>s. fst s \<le> line) (sort intervals)" for line
  proof (rule takeWhile_eq_filter)
    fix s assume s: "s \<in> set (dropWhile (\<lambda>s. fst s \<le> line) (sort intervals))"
    then obtain t ts where t: "dropWhile (\<lambda>s. fst s \<le> line) (sort intervals) = t # ts"
      by (cases "dropWhile (\<lambda>s. fst s \<le> line) (sort intervals)") auto
    then have "\<not> fst t \<le> line" by (simp add: dropWhile_eq_Cons_conv)
    moreover have "sorted (t # ts)" using t sorted_dropWhile [OF sorted_sort] by metis
    ultimately show "\<not> fst s \<le> line" using s t by (auto simp: less_eq_prod_def)
  qed
  have scope: "top_scope (sort (filter (goes_on line) ([] @ map scope_key (takeWhile (\<lambda>s. fst s \<le> line) (sort intervals)))))
      = narrowest intervals line" for line
  proof -
    have "mset (map scope_key (filter (\<lambda>s. fst s \<le> line) (sort intervals)))
        = mset (map scope_key (filter (\<lambda>s. fst s \<le> line) intervals))"
      by (simp only: mset_map mset_filter mset_sort)
    then have "sort (filter (goes_on line) (map scope_key (filter (\<lambda>s. fst s \<le> line) (sort intervals))))
        = sort (filter (goes_on line) (map scope_key (filter (\<lambda>s. fst s \<le> line) intervals)))"
      by (intro properties_for_sort) (simp_all only: mset_sort sorted_sort mset_filter)
    then show ?thesis by (simp add: narrowest_def first)
  qed
  have segment: "segment_for line (sorted_set barriers) = int (card {b \<in> set barriers. b \<le> line})" for line
  proof -
    have "takeWhile (\<lambda>b. b \<le> line) (sorted_set barriers) = filter (\<lambda>b. b \<le> line) (sorted_set barriers)"
      by (rule takeWhile_sorted) (simp add: sorted_set_def)
    then show ?thesis
      using distinct_card [of "filter (\<lambda>b. b \<le> line) (sorted_set barriers)"] by (simp add: segment_for_def)
  qed
  show ?thesis unfolding project_regions_def eq scope segment by (rule refl)
qed

section \<open>The stable read\<close>

lemma answered_Inr: "answered v = Inr x \<longleftrightarrow> v = Some x"
  by (cases v) (simp_all add: answered_def)

lemma read_payload_Inr:
  "read_payload limit payload chunks = Inr p \<Longrightarrow>
     p = payload @ concat (map the chunks) \<and> length p \<le> limit \<and> None \<notin> set chunks"
proof (induction limit payload chunks rule: read_payload.induct)
  case (2 limit payload chunk chunks)
  then show ?case by (auto simp: result_iff answered_Inr split: if_splits)
qed (simp add: result_iff)

text \<open>C20: A file that is read was regular, no larger than the limit, read twice with the same content,
  with the same device, inode, size and time before, between and after the two reads, and, when it has
  to stay inside a root, still the file its path names.\<close>

theorem read_file_is_stable:
  assumes "read_bounded_regular limit in_root r = Inr payload"
  shows "\<exists>op before after final. r = Opened op \<and> op_before op = Some before \<and> op_after op = Some after
    \<and> op_final op = Some final \<and> st_regular before
    \<and> file_identity before = file_identity after \<and> file_identity after = file_identity final
    \<and> payload = concat (map the (op_first op)) \<and> payload = concat (map the (op_second op))
    \<and> length payload = st_size after \<and> length payload \<le> limit
    \<and> (in_root \<longrightarrow> (\<exists>named. op_named op = Some named \<and> file_identity named = file_identity final))"
proof -
  obtain op where op: "r = Opened op" "read_opened limit in_root op = Inr payload"
    using assms by (cases r) (simp_all add: read_bounded_regular_def)
  then obtain before first after second final where steps: "op_before op = Some before" "st_regular before"
      "read_payload limit [] (op_first op) = Inr first" "op_after op = Some after"
      "file_identity before = file_identity after" "length first = st_size after"
      "read_payload limit [] (op_second op) = Inr second" "op_final op = Some final"
      "second = first" "file_identity final = file_identity after"
      "(if \<not> in_root then Inr first
        else (case op_named op of
            None \<Rightarrow> Inl (changed ''The contained file path changed while it was being read.'')
          | Some named \<Rightarrow> raise_if (file_identity named \<noteq> file_identity final)
              (changed ''The contained file identity changed while it was being read.'') (Inr first))) = Inr payload"
    by (auto simp: read_opened_def result_iff answered_Inr)
  moreover have "payload = first \<and> (in_root \<longrightarrow> (\<exists>named. op_named op = Some named \<and> file_identity named = file_identity final))"
    using steps(11) by (auto simp: result_iff split: if_splits option.splits)
  ultimately show ?thesis
    using read_payload_Inr [OF steps(3)] read_payload_Inr [OF steps(7)] op(1) by auto
qed

definition stat_sample :: "nat \<Rightarrow> file_stat" where
  "stat_sample n = \<lparr>st_regular = True, st_dev = 1, st_ino = 7, st_size = n, st_mtime_ns = 99\<rparr>"

definition open_sample :: "string \<Rightarrow> open_file" where
  "open_sample payload =
     \<lparr>op_before = Some (stat_sample (length payload)), op_first = [Some (take 2 payload), Some (drop 2 payload)],
      op_after = Some (stat_sample (length payload)), op_second = [Some payload],
      op_final = Some (stat_sample (length payload)), op_named = Some (stat_sample (length payload))\<rparr>"

lemma open_sample_read: "read_bounded_regular 9 True (Opened (open_sample ''x = 1'')) = Inr ''x = 1''"
  by (simp add: read_bounded_regular_def read_opened_def open_sample_def stat_sample_def answered_def file_identity_def)

theorem read_file_is_stable_witness:
  "\<exists>op before after final. Opened (open_sample ''x = 1'') = Opened op \<and> op_before op = Some before
    \<and> op_after op = Some after \<and> op_final op = Some final \<and> st_regular before
    \<and> file_identity before = file_identity after \<and> file_identity after = file_identity final
    \<and> ''x = 1'' = concat (map the (op_first op)) \<and> ''x = 1'' = concat (map the (op_second op))
    \<and> length ''x = 1'' = st_size after \<and> length ''x = 1'' \<le> 9
    \<and> (True \<longrightarrow> (\<exists>named. op_named op = Some named \<and> file_identity named = file_identity final))"
  by (rule read_file_is_stable [OF open_sample_read])

section \<open>The inventory of sources\<close>

definition well_read :: "source_limits \<Rightarrow> analysis_source \<Rightarrow> bool" where
  "well_read limits s \<longleftrightarrow> as_byte_size s = length (as_text s) \<and> int (length (as_text s)) \<le> sl_file_bytes limits
     \<and> decodes (as_text s) \<and> CHR 0x00 \<notin> set (as_text s) \<and> as_language s \<in> {''cpp'', ''python''}"

definition owned :: "(string \<Rightarrow> string) \<Rightarrow> bool \<Rightarrow> bool \<Rightarrow> string \<Rightarrow> bool" where
  "owned casefold generated vendor p \<longleftrightarrow> blocked_reasons casefold generated vendor p = []"

lemma read_source_length:
  assumes "read_source opened limits candidate = Inr payload" "0 \<le> sl_file_bytes limits"
  shows "int (length payload) \<le> sl_file_bytes limits"
proof -
  have "read_bounded_regular (nat (sl_file_bytes limits)) True (opened candidate) = Inr payload"
    using assms(1) by (auto simp: read_source_def split: sum.splits read_error.splits)
  then obtain op where "read_opened (nat (sl_file_bytes limits)) True op = Inr payload"
    by (cases "opened candidate") (simp_all add: read_bounded_regular_def)
  then obtain first where "read_payload (nat (sl_file_bytes limits)) [] (op_first op) = Inr first" "payload = first"
    by (auto simp: read_opened_def result_iff split: option.splits)
  then show ?thesis using read_payload_Inr assms(2) by fastforce
qed

lemma LANGUAGES_range: "map_of LANGUAGES s = Some l \<Longrightarrow> l \<in> {''cpp'', ''python''}"
  by (auto simp: LANGUAGES_def split: if_splits)

lemma take_sources_spec:
  assumes "0 \<le> sl_file_bytes limits"
  shows "take_sources casefold opened generated vendor limits taken selected = Inr inventory \<Longrightarrow>
    \<exists>ss es. in_sources inventory = in_sources taken @ ss \<and> in_excluded inventory = in_excluded taken @ es
      \<and> map as_file_path ss = filter (owned casefold generated vendor) (map snd selected)
      \<and> map ex_file_path es = filter (\<lambda>p. \<not> owned casefold generated vendor p) (map snd selected)
      \<and> (\<forall>s \<in> set ss. well_read limits s) \<and> (\<forall>e \<in> set es. ex_reasons e \<noteq> [])
      \<and> in_total_bytes inventory = in_total_bytes taken + sum_list (map as_byte_size ss)
      \<and> (ss \<noteq> [] \<longrightarrow> int (in_total_bytes inventory) \<le> sl_total_bytes limits
           \<and> int (length (in_sources inventory)) \<le> sl_files limits)"
proof (induction selected arbitrary: taken)
  case Nil
  then show ?case by (intro exI [of _ "[]"]) simp
next
  case (Cons c selected)
  obtain candidate relative where c: "c = (candidate, relative)" by (cases c)
  let ?blocked = "blocked_reasons casefold generated vendor relative"
  show ?case
  proof (cases "?blocked = []")
    case False
    then have "take_sources casefold opened generated vendor limits
        (taken\<lparr>in_excluded := in_excluded taken @ [\<lparr>ex_file_path = relative, ex_reasons = ?blocked\<rparr>]\<rparr>) selected = Inr inventory"
      using Cons.prems by (simp add: c)
    from Cons.IH [OF this] obtain ss es where ss:
        "in_sources inventory = in_sources taken @ ss"
        "in_excluded inventory = (in_excluded taken @ [\<lparr>ex_file_path = relative, ex_reasons = ?blocked\<rparr>]) @ es"
        "map as_file_path ss = filter (owned casefold generated vendor) (map snd selected)"
        "map ex_file_path es = filter (\<lambda>p. \<not> owned casefold generated vendor p) (map snd selected)"
        "\<forall>s \<in> set ss. well_read limits s" "\<forall>e \<in> set es. ex_reasons e \<noteq> []"
        "in_total_bytes inventory = in_total_bytes taken + sum_list (map as_byte_size ss)"
        "ss \<noteq> [] \<longrightarrow> int (in_total_bytes inventory) \<le> sl_total_bytes limits
           \<and> int (length (in_sources inventory)) \<le> sl_files limits"
      by auto
    moreover have "\<not> owned casefold generated vendor relative" using False by (simp add: owned_def)
    ultimately show ?thesis using False
      by (intro exI [of _ ss] exI [of _ "\<lparr>ex_file_path = relative, ex_reasons = ?blocked\<rparr> # es"]) (simp add: c)
  next
    case True
    then obtain language payload where step: "\<not> sl_files limits \<le> int (length (in_sources taken))"
        "map_of LANGUAGES (casefold (path_suffix candidate)) = Some language"
        "read_source opened limits candidate = Inr payload"
        "\<not> sl_total_bytes limits < int (in_total_bytes taken + length payload)" "decodes payload" "CHR 0x00 \<notin> set payload"
        "take_sources casefold opened generated vendor limits
           (taken\<lparr>in_sources := in_sources taken @ [\<lparr>as_path = candidate, as_file_path = relative,
                       as_language = language, as_text = payload, as_byte_size = length payload\<rparr>],
                  in_total_bytes := in_total_bytes taken + length payload\<rparr>) selected = Inr inventory"
      using Cons.prems by (auto simp: c result_iff Let_def split: option.splits)
    let ?s = "\<lparr>as_path = candidate, as_file_path = relative, as_language = language, as_text = payload,
      as_byte_size = length payload\<rparr>"
    from Cons.IH [OF step(7)] obtain ss es where ss:
        "in_sources inventory = (in_sources taken @ [?s]) @ ss" "in_excluded inventory = in_excluded taken @ es"
        "map as_file_path ss = filter (owned casefold generated vendor) (map snd selected)"
        "map ex_file_path es = filter (\<lambda>p. \<not> owned casefold generated vendor p) (map snd selected)"
        "\<forall>s \<in> set ss. well_read limits s" "\<forall>e \<in> set es. ex_reasons e \<noteq> []"
        "in_total_bytes inventory = (in_total_bytes taken + length payload) + sum_list (map as_byte_size ss)"
        "ss \<noteq> [] \<longrightarrow> int (in_total_bytes inventory) \<le> sl_total_bytes limits
           \<and> int (length (in_sources inventory)) \<le> sl_files limits"
      by auto
    have "well_read limits ?s"
      using step read_source_length [OF step(3) assms] LANGUAGES_range [OF step(2)] by (simp add: well_read_def)
    moreover have "int (in_total_bytes inventory) \<le> sl_total_bytes limits
           \<and> int (length (in_sources inventory)) \<le> sl_files limits"
      using ss(1,7,8) step(1,4) by (cases "ss = []") auto
    moreover have "owned casefold generated vendor relative" using True by (simp add: owned_def)
    ultimately show ?thesis using ss
      by (intro exI [of _ "?s # ss"] exI [of _ es]) (simp add: c)
  qed
qed

lemma select_candidates_spec:
  "select_candidates base limit selected paths = Inr selected' \<Longrightarrow> distinct (map snd selected) \<Longrightarrow>
     distinct (map snd selected')
     \<and> snd ` set selected' = snd ` set selected \<union> {r. \<exists>p \<in> set paths. \<exists>c. relative_path base p = Inr (c, r)}"
proof (induction paths arbitrary: selected)
  case (Cons p paths)
  obtain c r where rel: "relative_path base p = Inr (c, r)" using Cons.prems(1) by (auto simp: result_iff)
  show ?case
  proof (cases "r \<in> snd ` set selected")
    case True
    then have "select_candidates base limit selected paths = Inr selected'" using Cons.prems(1) rel by simp
    from Cons.IH [OF this Cons.prems(2)] show ?thesis using rel True by auto
  next
    case False
    then have "select_candidates base limit (selected @ [(c, r)]) paths = Inr selected'"
      using Cons.prems(1) rel by (simp add: result_iff)
    from Cons.IH [OF this] Cons.prems(2) False show ?thesis using rel by auto
  qed
qed simp

lemma inventory_spec:
  assumes "read_analysis_sources casefold resolve opened generated vendor fs cs fb tb base paths = Inr inventory"
  shows "\<exists>limits project_root. source_limits_of fs cs fb tb = Inr limits \<and> resolve base = Inr project_root
    \<and> sorted (map as_file_path (in_sources inventory)) \<and> distinct (map as_file_path (in_sources inventory))
    \<and> as_file_path ` set (in_sources inventory)
      = {r. owned casefold generated vendor r \<and> (\<exists>p \<in> set paths. \<exists>c. relative_path project_root p = Inr (c, r))}
    \<and> ex_file_path ` set (in_excluded inventory)
      = {r. \<not> owned casefold generated vendor r \<and> (\<exists>p \<in> set paths. \<exists>c. relative_path project_root p = Inr (c, r))}
    \<and> (\<forall>s \<in> set (in_sources inventory). well_read limits s) \<and> (\<forall>e \<in> set (in_excluded inventory). ex_reasons e \<noteq> [])
    \<and> in_total_bytes inventory = sum_list (map as_byte_size (in_sources inventory))
    \<and> int (in_total_bytes inventory) \<le> sl_total_bytes limits
    \<and> int (length (in_sources inventory)) \<le> sl_files limits"
proof -
  obtain limits project_root selected where steps: "source_limits_of fs cs fb tb = Inr limits"
      "resolve base = Inr project_root"
      "select_candidates project_root (sl_candidates limits) [] paths = Inr selected"
      "take_sources casefold opened generated vendor limits
         \<lparr>in_sources = [], in_excluded = [], in_total_bytes = 0\<rparr> (sort_key snd selected) = Inr inventory"
    using assms by (auto simp: read_analysis_sources_def result_iff)
  have positive: "positive_limit name v = Inr i \<Longrightarrow> 0 < i" for name v i
    by (cases v) (auto split: if_splits)
  have limits: "0 \<le> sl_file_bytes limits" "0 \<le> sl_total_bytes limits" "0 \<le> sl_files limits"
    using steps(1) positive by (auto simp: source_limits_of_def result_iff less_imp_le)
  have sel: "distinct (map snd selected)"
      "snd ` set selected = {r. \<exists>p \<in> set paths. \<exists>c. relative_path project_root p = Inr (c, r)}"
    using select_candidates_spec [OF steps(3)] by auto
  have sorted_sel: "sorted (map snd (sort_key snd selected))" "distinct (map snd (sort_key snd selected))"
      "set (map snd (sort_key snd selected)) = snd ` set selected"
    using sel(1) by (simp_all add: distinct_map)
  obtain ss es where ss: "in_sources inventory = ss" "in_excluded inventory = es"
      "map as_file_path ss = filter (owned casefold generated vendor) (map snd (sort_key snd selected))"
      "map ex_file_path es = filter (\<lambda>p. \<not> owned casefold generated vendor p) (map snd (sort_key snd selected))"
      "\<forall>s \<in> set ss. well_read limits s" "\<forall>e \<in> set es. ex_reasons e \<noteq> []"
      "in_total_bytes inventory = sum_list (map as_byte_size ss)"
      "ss \<noteq> [] \<longrightarrow> int (in_total_bytes inventory) \<le> sl_total_bytes limits
         \<and> int (length ss) \<le> sl_files limits"
    using take_sources_spec [OF limits(1) steps(4)] by auto
  have "sorted (map as_file_path ss)" "distinct (map as_file_path ss)"
    unfolding ss(3) using sorted_sel(1,2) by (simp_all add: sorted_wrt_filter distinct_filter del: filter_map)
  moreover have "as_file_path ` set ss = {r \<in> snd ` set selected. owned casefold generated vendor r}"
    using arg_cong [OF ss(3), of set] sorted_sel(3) by auto
  moreover have "ex_file_path ` set es = {r \<in> snd ` set selected. \<not> owned casefold generated vendor r}"
    using arg_cong [OF ss(4), of set] sorted_sel(3) by auto
  moreover have "int (in_total_bytes inventory) \<le> sl_total_bytes limits \<and> int (length ss) \<le> sl_files limits"
    using ss(7,8) limits by (cases "ss = []") auto
  ultimately show ?thesis using steps(1,2) ss sel(2) by (intro exI [of _ limits] exI [of _ project_root]) auto
qed

text \<open>C19: The inventory accounts for every selected path: a path is a source exactly if the policy owns
  it and is excluded, with a reason, otherwise; the sources come in order of path, each once; each is
  valid UTF-8 without NUL and within the limit for a file, and their number and total size are within
  the limits for the inventory.\<close>

theorem inventory_is_complete_and_bounded:
  assumes "read_analysis_sources casefold resolve opened generated vendor fs cs fb tb base paths = Inr inventory"
  shows "\<exists>limits project_root. source_limits_of fs cs fb tb = Inr limits \<and> resolve base = Inr project_root
    \<and> sorted (map as_file_path (in_sources inventory)) \<and> distinct (map as_file_path (in_sources inventory))
    \<and> as_file_path ` set (in_sources inventory)
      = {r. owned casefold generated vendor r \<and> (\<exists>p \<in> set paths. \<exists>c. relative_path project_root p = Inr (c, r))}
    \<and> ex_file_path ` set (in_excluded inventory)
      = {r. \<not> owned casefold generated vendor r \<and> (\<exists>p \<in> set paths. \<exists>c. relative_path project_root p = Inr (c, r))}
    \<and> (\<forall>s \<in> set (in_sources inventory). well_read limits s) \<and> (\<forall>e \<in> set (in_excluded inventory). ex_reasons e \<noteq> [])
    \<and> in_total_bytes inventory = sum_list (map as_byte_size (in_sources inventory))
    \<and> int (in_total_bytes inventory) \<le> sl_total_bytes limits
    \<and> int (length (in_sources inventory)) \<le> sl_files limits"
  by (rule inventory_spec [OF assms])

definition taken_sample :: source_inventory where
  "taken_sample =
     \<lparr>in_sources = [\<lparr>as_path = pure ''/p/b.py'', as_file_path = ''b.py'', as_language = ''python'',
                       as_text = ''x = 1'', as_byte_size = 5\<rparr>],
      in_excluded = [\<lparr>ex_file_path = ''vendor/c.c'', ex_reasons = [''vendor'']\<rparr>], in_total_bytes = 5\<rparr>"

lemma taken_sample_run:
  "read_analysis_sources (\<lambda>s. s) Inr (\<lambda>p. Opened (open_sample ''x = 1'')) False False
     (PInt 3) (PInt 4) (PInt 9) (PInt 9) (pure ''/p'')
     [pure ''vendor/c.c'', pure ''a/../b.py'', pure ''/p/b.py''] = Inr taken_sample"
  by code_simp

theorem inventory_is_complete_and_bounded_witness:
  "as_file_path ` set (in_sources taken_sample)
     = {r. owned (\<lambda>s. s) False False r \<and> (\<exists>p \<in> set [pure ''vendor/c.c'', pure ''a/../b.py'', pure ''/p/b.py''].
          \<exists>c. relative_path (pure ''/p'') p = Inr (c, r))}"
  using inventory_is_complete_and_bounded [OF taken_sample_run] by auto

section \<open>C++ sources\<close>

text \<open>C21: A C++ source that was read is indexed, whatever it contains, unless it has too many tokens: its
  lines are strictly increasing lines of the text, and the region of each is the narrowest function
  that contains it with the number of directive lines up to it, as looking at all functions and
  directives for every line would find.\<close>

theorem cpp_source_indexed:
  assumes "well_read limits source" "as_language source = ''cpp''"
  shows "case index_source lexers sha256 source of
      Inl e \<Rightarrow> e = too_many_tokens MAX_CPP_DUPLICATE_TOKENS
    | Inr (indexed, regions) \<Rightarrow>
        sorted_wrt (<) (map fst indexed)
        \<and> (\<forall>p \<in> set indexed. 1 \<le> fst p
             \<and> fst p \<le> int (sp_last_line (splice_cpp_source (newlines (code_points (as_text source))))))
        \<and> (\<exists>barriers. cpp_directive_lines (lx_unicode lexers) (PStr (as_text source)) = Inr barriers
             \<and> regions = map (\<lambda>p. (narrowest (cpp_intervals (lx_cpp_spans lexers (splitlines (as_text source)))) (fst p),
                                    int (card {b \<in> set barriers. b \<le> fst p}))) indexed)"
proof -
  let ?un = "lx_unicode lexers" and ?text = "as_text source"
  let ?intervals = "cpp_intervals (lx_cpp_spans lexers (splitlines ?text))"
  have clean: "CHR 0x00 \<notin> set ?text" using assms(1) by (simp add: well_read_def)
  obtain barriers where barriers: "cpp_directive_lines ?un (PStr ?text) = Inr barriers"
    using clean by (simp add: cpp_directive_lines_def Let_def)
  have eq: "index_source lexers sha256 source
      = bindr (tokenize_cpp_lines ?un sha256 (PStr ?text) PNone) (\<lambda>indexed.
        Inr (indexed, project_regions (map fst indexed) ?intervals barriers))"
    by (simp add: index_source_def assms(2) cpp_duplicate_regions_def barriers Let_def)
  note tokens = tokenizer_total [OF clean, of ?un sha256]
  show ?thesis
  proof (cases "tokenize_cpp_lines ?un sha256 (PStr ?text) PNone")
    case (Inl e)
    then show ?thesis using tokens eq by simp
  next
    case (Inr indexed)
    then have "sorted (map fst indexed)"
      using tokens by (simp add: strict_sorted_imp_sorted)
    then have "project_regions (map fst indexed) ?intervals barriers
        = map (\<lambda>p. (narrowest ?intervals (fst p), int (card {b \<in> set barriers. b \<le> fst p}))) indexed"
      by (simp add: regions_are_narrowest_scopes)
    then show ?thesis using tokens eq Inr barriers by simp
  qed
qed

definition cpp_sample :: analysis_source where
  "cpp_sample = \<lparr>as_path = pure ''/p/a.c'', as_file_path = ''a.c'', as_language = ''cpp'',
     as_text = macro_source, as_byte_size = length macro_source\<rparr>"

definition cpp_sample_lexers :: lexers where
  "cpp_sample_lexers = \<lparr>lx_unicode = ascii, lx_cpp_spans = (\<lambda>ls. Some [(1, 1)]), lx_python = (\<lambda>t. Inr []),
     lx_python_tree = (\<lambda>t. None)\<rparr>"

definition cpp_sample_limits :: source_limits where
  "cpp_sample_limits = \<lparr>sl_files = 1, sl_candidates = 1, sl_file_bytes = 99, sl_total_bytes = 99\<rparr>"

lemma cpp_sample_read: "well_read cpp_sample_limits cpp_sample"
proof -
  have "decodes macro_source" "length macro_source = 14" by code_simp+
  moreover have "CHR 0x00 \<notin> set macro_source" by (simp add: macro_source_def LF_def)
  ultimately show ?thesis by (simp add: well_read_def cpp_sample_def cpp_sample_limits_def)
qed

theorem cpp_source_indexed_witness:
  "case index_source cpp_sample_lexers (\<lambda>s. s) cpp_sample of
      Inl e \<Rightarrow> e = too_many_tokens MAX_CPP_DUPLICATE_TOKENS
    | Inr (indexed, regions) \<Rightarrow>
        sorted_wrt (<) (map fst indexed)
        \<and> (\<forall>p \<in> set indexed. 1 \<le> fst p
             \<and> fst p \<le> int (sp_last_line (splice_cpp_source (newlines (code_points (as_text cpp_sample))))))
        \<and> (\<exists>barriers. cpp_directive_lines (lx_unicode cpp_sample_lexers) (PStr (as_text cpp_sample)) = Inr barriers
             \<and> regions = map (\<lambda>p. (narrowest (cpp_intervals (lx_cpp_spans cpp_sample_lexers (splitlines (as_text cpp_sample)))) (fst p),
                                    int (card {b \<in> set barriers. b \<le> fst p}))) indexed)"
  by (rule cpp_source_indexed [OF cpp_sample_read]) (simp add: cpp_sample_def)

section \<open>What the check reports\<close>

lemma index_sources_files:
  "index_sources lexers sha256 chars files sources = Inr files' \<Longrightarrow>
     map df_path files' = map df_path files @ map as_file_path sources
     \<and> (files' = files \<or> sum_list (map (\<lambda>f. length (df_indexed f)) files') \<le> MAX_INDEXED_RECORDS)"
proof (induction sources arbitrary: chars files)
  case (Cons source sources)
  obtain indexed regions where step: "index_sources lexers sha256 (chars + normalized_length indexed)
      (files @ [\<lparr>df_path = as_file_path source, df_language = as_language source,
                 df_raw_lines = source_lines source, df_indexed = indexed, df_regions = regions\<rparr>]) sources = Inr files'"
      "\<not> MAX_INDEXED_RECORDS < sum_list (map (\<lambda>f. length (df_indexed f))
         (files @ [\<lparr>df_path = as_file_path source, df_language = as_language source,
                    df_raw_lines = source_lines source, df_indexed = indexed, df_regions = regions\<rparr>]))"
    using Cons.prems by (auto simp: result_iff Let_def)
  from Cons.IH [OF step(1)] step(2) show ?case by auto
qed simp

lemma indexed_files_short:
  assumes "index_sources lexers sha256 0 [] sources = Inr files"
  shows "short_files files"
proof -
  have total: "sum_list (map (\<lambda>f. length (df_indexed f)) files) \<le> MAX_INDEXED_RECORDS"
    using index_sources_files [OF assms] by auto
  have "length (df_indexed f) \<le> MAX_INDEXED_RECORDS" if "f \<in> set files" for f
    using member_le_sum_list [of "length (df_indexed f)" "map (\<lambda>f. length (df_indexed f)) files"] that total by simp
  then show ?thesis by (fastforce simp: short_files_def list_all_iff MAX_INDEXED_RECORDS_def)
qed

text \<open>What is clustered points into the files.\<close>

lemma matched_places_valid:
  assumes "find_raw_matches record_hash files w limits = Inr raw" "short_files files" "distinct (map df_path files)"
  shows "valid_places (filter_subsumed_matches raw) files"
proof -
  have "cm_file1 m < length files \<and> cm_file2 m < length files" if m: "m \<in> set raw" for m
  proof -
    obtain gs where gs: "raw = map (clone_place files) gs" "\<forall>g \<in> set gs. found files w g"
      using find_raw_matches_spec [OF assms(1,2)] by blast
    obtain g where "g \<in> set gs" "m = clone_place files g" using m unfolding gs(1) by auto
    then have "m = clone_place files g" "found files w g" using gs(2) by blast+
    then show ?thesis
      by (cases g) (auto simp: clone_place_def found_def maximal_clone_def exact_clone_def location_match_def)
  qed
  moreover have "set (filter_subsumed_matches raw) \<subseteq> set raw"
    using filter_well_kept [of raw] by (simp add: well_kept_def)
  ultimately show ?thesis using assms(3) by (auto simp: valid_places_def list_all_iff)
qed

text \<open>The inventory the check works on.\<close>

definition default_inventory ::
    "(string \<Rightarrow> string) \<Rightarrow> (pure_path \<Rightarrow> pure_path result) \<Rightarrow> (pure_path \<Rightarrow> open_result) \<Rightarrow> dup_request
     \<Rightarrow> source_inventory result" where
  "default_inventory casefold resolve opened rq =
     read_analysis_sources casefold resolve opened False False (PInt MAX_ANALYSIS_SOURCE_FILES)
       (PInt MAX_ANALYSIS_SOURCE_CANDIDATES) (PInt MAX_ANALYSIS_SOURCE_BYTES)
       (PInt MAX_ANALYSIS_INVENTORY_BYTES) (dr_root rq) (dr_files rq)"

text \<open>The share an observation states.\<close>

definition states_share :: "observation \<Rightarrow> bool" where
  "states_share ob \<longleftrightarrow>
     (\<exists>m \<in> set (ob_measurements ob). m_name m = ''duplicated_lines''
        \<and> (case m_numerator m of None \<Rightarrow> m_value m = Fin 0
           | Some d \<Rightarrow> (case m_denominator m of None \<Rightarrow> d = 0 | Some t \<Rightarrow> 0 \<le> d \<and> d \<le> t \<and> 0 < t)))"

lemma dup_observation_parts:
  "dup_observation rq state fs ms ls = Inr ob \<Longrightarrow>
     ob_state ob = state \<and> ob_measurements ob = ms \<and> ob_findings ob = fs \<and> ob_limitations ob = ls"
  by (auto simp: dup_observation_def Observation_init_iff)

lemma dup_measurements_parts:
  "dup_measurements k d num den = Inr ms \<Longrightarrow>
     \<exists>g m. ms = [g, m] \<and> m_name m = ''duplicated_lines'' \<and> m_value m = Fin (of_nat d)
       \<and> num = opt_val PInt (m_numerator m) \<and> den = opt_val PInt (m_denominator m)"
  by (auto simp: dup_measurements_def result_iff Measurement_init_iff)

lemma opt_val_int: "opt_val PInt v = PInt i \<longleftrightarrow> v = Some i" "opt_val PInt v = PNone \<longleftrightarrow> v = None"
  "PInt i = opt_val PInt v \<longleftrightarrow> v = Some i" "PNone = opt_val PInt v \<longleftrightarrow> v = None"
  by (cases v; auto)+

lemma share_stated:
  assumes "m \<in> set (ob_measurements ob)" "m_name m = ''duplicated_lines''" "m_numerator m = Some (int d)"
    "m_denominator m = (if t = 0 then None else Some (int t))" "d \<le> t"
  shows "states_share ob"
  unfolding states_share_def using assms by (intro bexI [of _ m]) auto

lemma report_states_share:
  assumes "report_duplicates sha256 rq ls files clustering = Inr ob"
    and "card (du_duplicated_positions clustering) \<le> sum_list (map (\<lambda>f. length (df_indexed f)) files)"
  shows "states_share ob"
proof -
  let ?d = "card (du_duplicated_positions clustering)" and ?t = "sum_list (map (\<lambda>f. length (df_indexed f)) files)"
  obtain fs ms where ms: "dup_measurements (length (du_groups clustering)) ?d (PInt (int ?d))
      (if ?t = 0 then PNone else PInt (int ?t)) = Inr ms" "dup_observation rq SUCCEEDED fs ms ls = Inr ob"
    using assms(1) unfolding report_duplicates_def Let_def by (auto simp only: bindr_Inr)
  obtain g m where m: "ms = [g, m]" "m_name m = ''duplicated_lines''" "m_numerator m = Some (int ?d)"
      "m_denominator m = (if ?t = 0 then None else Some (int ?t))"
    using dup_measurements_parts [OF ms(1)] by (auto simp: opt_val_int split: if_splits)
  have "m \<in> set (ob_measurements ob)" using dup_observation_parts [OF ms(2)] m(1) by simp
  then show ?thesis using m(2,3,4) assms(2) by (rule share_stated)
qed

lemma failed_not_succeeded: "dup_observation rq FAILED fs ms ls = Inr ob \<Longrightarrow> ob_state ob \<noteq> SUCCEEDED"
  using dup_observation_parts by fastforce

lemma measure_duplicates_cases:
  assumes "measure_duplicates casefold resolve opened lexers record_hash sha256 iter rq = Inr ob"
    and "ob_state ob = SUCCEEDED"
  shows "(\<exists>ms ls. dup_measurements 0 0 PNone PNone = Inr ms \<and> dup_observation rq SUCCEEDED [] ms ls = Inr ob)
    \<or> (\<exists>inventory ls. default_inventory casefold resolve opened rq = Inr inventory
         \<and> scan_sources lexers record_hash sha256 iter rq ls (in_sources inventory) = Inr ob)"
proof (cases "default_inventory casefold resolve opened rq")
  case (Inl e)
  then show ?thesis
    using assms failed_not_succeeded
    by (cases e) (auto simp: measure_duplicates_def default_inventory_def [symmetric])
next
  case (Inr inventory)
  show ?thesis
  proof (cases "in_sources inventory = []")
    case True
    then obtain ms ls where "dup_measurements 0 0 PNone PNone = Inr ms"
        "dup_observation rq SUCCEEDED [] ms ls = Inr ob"
      using assms(1) Inr unfolding measure_duplicates_def default_inventory_def [symmetric] Let_def
      by (auto simp: bindr_Inr)
    then show ?thesis by blast
  next
    case False
    then show ?thesis
      using assms(1) Inr unfolding measure_duplicates_def default_inventory_def [symmetric] Let_def by auto
  qed
qed

lemma scan_sources_cases:
  assumes "scan_sources lexers record_hash sha256 iter rq ls sources = Inr ob" "ob_state ob = SUCCEEDED"
  shows "\<exists>files clustering. index_sources lexers sha256 0 [] (sort_key as_file_path sources) = Inr files
    \<and> match_and_cluster record_hash sha256 iter files = Inr clustering
    \<and> report_duplicates sha256 rq ls files clustering = Inr ob"
proof (cases "index_sources lexers sha256 0 [] (sort_key as_file_path sources)")
  case (Inl e)
  then show ?thesis using assms failed_not_succeeded by (auto simp: scan_sources_def split: if_splits)
next
  case (Inr files)
  show ?thesis
  proof (cases "match_and_cluster record_hash sha256 iter files")
    case (Inl e)
    then show ?thesis
      using assms Inr failed_not_succeeded by (cases e) (auto simp: scan_sources_def)
  next
    case (Inr clustering)
    then show ?thesis using assms(1) \<open>index_sources lexers sha256 0 [] (sort_key as_file_path sources) = Inr files\<close>
      by (auto simp: scan_sources_def)
  qed
qed

text \<open>C18: When the check succeeds it states how many lines are duplicated, and never more than there are
  code lines: zero duplicated lines without a share when there is no code, a share of at most one
  otherwise.\<close>

theorem duplicated_share_at_most_whole:
  assumes "measure_duplicates casefold resolve opened lexers record_hash sha256 iter rq = Inr ob"
    and "ob_state ob = SUCCEEDED" and "iterates iter"
  shows "states_share ob"
proof -
  consider (empty) ms ls where "dup_measurements 0 0 PNone PNone = Inr ms"
      "dup_observation rq SUCCEEDED [] ms ls = Inr ob"
    | (scan) inventory ls where "default_inventory casefold resolve opened rq = Inr inventory"
      "scan_sources lexers record_hash sha256 iter rq ls (in_sources inventory) = Inr ob"
    using measure_duplicates_cases [OF assms(1,2)] by blast
  then show ?thesis
  proof cases
    case empty
    then obtain g m where "ms = [g, m]" "m_name m = ''duplicated_lines''" "m_value m = Fin 0" "m_numerator m = None"
      using dup_measurements_parts [OF empty(1)] by (auto simp: opt_val_int)
    moreover have "ob_measurements ob = ms" using dup_observation_parts [OF empty(2)] by simp
    ultimately show ?thesis unfolding states_share_def by (intro bexI [of _ m]) simp_all
  next
    case scan
    obtain files clustering where run: "index_sources lexers sha256 0 [] (sort_key as_file_path (in_sources inventory)) = Inr files"
        "match_and_cluster record_hash sha256 iter files = Inr clustering"
        "report_duplicates sha256 rq ls files clustering = Inr ob"
      using scan_sources_cases [OF scan(2) assms(2)] by blast
    have "distinct (map as_file_path (sort_key as_file_path (in_sources inventory)))"
      using inventory_spec [OF scan(1) [unfolded default_inventory_def]] by (auto simp: distinct_map)
    then have paths: "distinct (map df_path files)" using index_sources_files [OF run(1)] by simp
    obtain raw where raw: "find_raw_matches record_hash files WINDOW_SIZE DUP_LIMITS = Inr raw"
        "clustering = cluster_matches sha256 iter (filter_subsumed_matches raw) files"
      using run(2) by (auto simp: match_and_cluster_def result_iff)
    have "card (du_duplicated_positions clustering) \<le> sum_list (map (\<lambda>f. length (df_indexed f)) files)"
      using duplicated_positions_bounded
        [OF assms(3) matched_places_valid [OF raw(1) indexed_files_short [OF run(1)] paths]]
      unfolding raw(2) by simp
    then show ?thesis by (rule report_states_share [OF run(3)])
  qed
qed

definition share_request :: dup_request where
  "share_request = \<lparr>dr_language = ''python'', dr_root = pure ''/p'', dr_files = [pure ''b.py''],
     dr_task_id = ''t1'', dr_component_id = []\<rparr>"

definition share_lexers :: lexers where
  "share_lexers = \<lparr>lx_unicode = ascii, lx_cpp_spans = (\<lambda>ls. None), lx_python = (\<lambda>t. Inr [(1, ''ID'')]),
     lx_python_tree = (\<lambda>t. Some [])\<rparr>"

definition share_observation :: observation where
  "share_observation =
     \<lparr>ob_task_id = ''t1'', ob_provider = ''ici.dup'', ob_state = SUCCEEDED, ob_findings = [],
      ob_measurements =
        [\<lparr>m_name = ''clone_groups'', m_value = Fin 0, m_unit = ''groups'', m_numerator = None,
          m_denominator = None, m_evidence = MEASURED\<rparr>,
         \<lparr>m_name = ''duplicated_lines'', m_value = Fin 0, m_unit = ''lines'', m_numerator = Some 0,
          m_denominator = Some 1, m_evidence = MEASURED\<rparr>],
      ob_exit_code = None, ob_signal = None, ob_timed_out = False, ob_truncated = False,
      ob_duration_seconds = None, ob_tool_versions = [], ob_limitations = [semantic_limitation]\<rparr>"

definition share_source :: analysis_source where
  "share_source = \<lparr>as_path = pure ''/p/b.py'', as_file_path = ''b.py'', as_language = ''python'',
     as_text = ''x = 1'', as_byte_size = 5\<rparr>"

lemma share_parts:
  "relative_path (pure ''/p'') (pure ''b.py'') = Inr (pure ''/p/b.py'', ''b.py'')"
  "analysis_exclusion_reasons (\<lambda>s. s) ''b.py'' = []"
  "map_of LANGUAGES (path_suffix (pure ''/p/b.py'')) = Some ''python''"
  "decodes ''x = 1''" "CHR 0x00 \<notin> set ''x = 1''"
  by code_simp+

lemma share_read: "read_bounded_regular (nat MAX_ANALYSIS_SOURCE_BYTES) True (Opened (open_sample ''x = 1'')) = Inr ''x = 1''"
  by (simp add: read_bounded_regular_def read_opened_def open_sample_def stat_sample_def answered_def
      file_identity_def MAX_ANALYSIS_SOURCE_BYTES_def)

lemma share_inventory:
  "default_inventory (\<lambda>s. s) Inr (\<lambda>p. Opened (open_sample ''x = 1'')) share_request
     = Inr \<lparr>in_sources = [share_source], in_excluded = [], in_total_bytes = 5\<rparr>"
proof -
  let ?limits = "\<lparr>sl_files = MAX_ANALYSIS_SOURCE_FILES, sl_candidates = MAX_ANALYSIS_SOURCE_CANDIDATES,
    sl_file_bytes = MAX_ANALYSIS_SOURCE_BYTES, sl_total_bytes = MAX_ANALYSIS_INVENTORY_BYTES\<rparr>"
  have limits: "source_limits_of (PInt MAX_ANALYSIS_SOURCE_FILES) (PInt MAX_ANALYSIS_SOURCE_CANDIDATES)
      (PInt MAX_ANALYSIS_SOURCE_BYTES) (PInt MAX_ANALYSIS_INVENTORY_BYTES) = Inr ?limits"
    by (simp add: source_limits_of_def MAX_ANALYSIS_SOURCE_FILES_def MAX_ANALYSIS_SOURCE_CANDIDATES_def
        MAX_ANALYSIS_SOURCE_BYTES_def MAX_ANALYSIS_INVENTORY_BYTES_def)
  have selected: "select_candidates (pure ''/p'') MAX_ANALYSIS_SOURCE_CANDIDATES [] [pure ''b.py'']
      = Inr [(pure ''/p/b.py'', ''b.py'')]"
    by (simp add: share_parts MAX_ANALYSIS_SOURCE_CANDIDATES_def)
  have read: "read_source (\<lambda>p. Opened (open_sample ''x = 1'')) limits p = Inr ''x = 1''"
    if "sl_file_bytes limits = MAX_ANALYSIS_SOURCE_BYTES" for limits p
    by (simp only: read_source_def that share_read sum.case)
  show ?thesis
    unfolding default_inventory_def read_analysis_sources_def limits
    by (simp add: share_request_def selected read share_parts blocked_reasons_def share_source_def Let_def
        MAX_ANALYSIS_SOURCE_FILES_def MAX_ANALYSIS_INVENTORY_BYTES_def
        del: select_candidates.simps)
qed

definition share_file :: dup_file where
  "share_file = \<lparr>df_path = ''b.py'', df_language = ''python'', df_raw_lines = source_lines share_source,
     df_indexed = [(1, ''ID'')], df_regions = [(0, 0)]\<rparr>"

lemma share_indexed: "index_sources share_lexers (\<lambda>s. s) 0 [] [share_source] = Inr [share_file]"
proof -
  have "project_regions [1] [] [] = [(0, 0)]" by code_simp
  then have "index_source share_lexers (\<lambda>s. s) share_source = Inr ([(1, ''ID'')], [(0, 0)])"
    by (simp add: index_source_def share_lexers_def share_source_def python_duplicate_regions_def
        python_intervals_and_barriers_def)
  moreover have "normalized_length [(1, ''ID'')] = 2" by code_simp
  ultimately show ?thesis
    by (simp add: MAX_NORMALIZED_CHARS_def MAX_INDEXED_RECORDS_def share_file_def) (simp add: share_source_def)
qed

lemma share_clustering:
  "match_and_cluster (\<lambda>s. 0) (\<lambda>s. s) (\<lambda>vs. vs) [share_file] = Inr \<lparr>du_groups = [], du_duplicated_positions = {}\<rparr>"
  by (simp add: match_and_cluster_def find_raw_matches_def validate_match_inputs_def index_file_windows_def
      share_file_def WINDOW_SIZE_def seed_pairs_def filter_subsumed_matches_def cluster_matches_def
      sorted_clusters_def)

lemma share_run:
  "measure_duplicates (\<lambda>s. s) Inr (\<lambda>p. Opened (open_sample ''x = 1'')) share_lexers (\<lambda>s. 0) (\<lambda>s. s) (\<lambda>vs. vs)
     share_request = Inr share_observation"
proof -
  have ms: "dup_measurements 0 0 (PInt 0) (PInt 1) = Inr (ob_measurements share_observation)"
    by code_simp
  have limitations: "dup_limitations share_request \<lparr>in_sources = [share_source], in_excluded = [], in_total_bytes = 5\<rparr>
      = [semantic_limitation]"
    by (simp add: dup_limitations_def share_request_def)
  have ob: "dup_observation share_request SUCCEEDED [] (ob_measurements share_observation) [semantic_limitation]
      = Inr share_observation"
    by code_simp
  have "report_duplicates (\<lambda>s. s) share_request [semantic_limitation] [share_file]
      \<lparr>du_groups = [], du_duplicated_positions = {}\<rparr> = Inr share_observation"
    using ms ob by (simp add: report_duplicates_def group_findings_def share_file_def)
  then show ?thesis
    unfolding measure_duplicates_def default_inventory_def [symmetric] share_inventory
    by (simp add: scan_sources_def share_indexed share_clustering limitations del: index_sources.simps)
qed

theorem duplicated_share_at_most_whole_witness: "states_share share_observation"
  by (rule duplicated_share_at_most_whole [OF share_run _ iterates_id]) (simp add: share_observation_def)

end
