(* ===== verification/Spec2Isabelle.thy ===== *)
theory Spec2Isabelle
  imports Domain_Properties Planning_Properties Execution_Properties Verdict_Properties
    Composition_Properties Production_Properties Cycle_Properties Snapshot_Properties
    Dup_Check_Properties
begin

text \<open>
  ici checks the components of a workspace with linters, compilers and test runners, and says
  whether the code passes.  A run reads the declared configuration, selects the checks of each
  component, plans their work, arranges the work as a graph, executes it, and folds the
  observations into a run result whose gate is PASS, FAIL or INCOMPLETE.  This development models
  that core, from the data it exchanges to the verdict and the stored report.

  \<^bold>\<open>How the code is modelled.\<close>  A frozen dataclass is a record; its \<open>__post_init__\<close> is the function
  \<open>C_init\<close> into \<open>exn + C\<close>, and \<open>C_init_iff\<close> says which records it builds.  Exceptions are values
  of \<open>exn\<close> (theory Prelude) with the class, the message template and its arguments.  Values whose
  type Python does not fix (documents, constructor arguments) are \<open>pyval\<close> (theory PyValue).
  Strings are UTF-8 bytes.  Loops are recursive functions with their accumulators.  What the
  program is handed from outside (the JSON reader, hashes, float formatting and rounding, the file
  system, a spawned process, a provider's parser) is an argument of the definitions that use it.

  \<^bold>\<open>The parts.\<close>
  \<^item> Validation, Enums, Codec: domain/_validation.py, enums.py, _codec.py.
  \<^item> Findings, Observations, Results: the records of domain/finding.py, observation.py,
    check_record.py, result.py and their invariants (\<open>finding_ok\<close>, \<open>observation_ok\<close>,
    \<open>run_result_ok\<close>).
  \<^item> Json, Serialization, Round_Trips: domain/serialization.py; \<open>wire_x x\<close> is what is left of a
    record on the wire.  The locale \<open>transport\<close> proves each round trip once, for documents handed
    over directly and through JSON text.
  \<^item> Events: domain/events.py and eventstream.py.
  \<^item> Tasks, Cycles, Workspaces: domain/tasks.py and workspace.py with its cycle search.
  \<^item> Process: execution/process.py, cancellation.py, adapters/providers/base.py.
  \<^item> Cache: execution/cache.py, with the interface \<open>evidence_store\<close>.
  \<^item> Config: layers, origins, the local overlay and the composition of a component's checks
    (config/origin.py, layers.py, overlay.py, errors.py).  Paths: config/paths.py.  Documents:
    config/documents.py and the effective values.  Composition, Components: config/composition.py;
    a function that appends to the problem list returns its value with the problems it adds.
    Composition_Facts and Inline_Files: what an anchored path names, and the simulation of an
    inline component by one in its own file.
  \<^item> Selection: languages/checks.py, application/plan.py and selection.py.
  \<^item> Graph, Graph_Facts: application/graph.py; \<open>must_block\<close> is the specification of its refusals.
  \<^item> Schedule, Schedule_Facts, Locks: application/schedule.py.  \<open>run_graph\<close> attempts the units of a
    layer one after the other, with the observations of earlier layers; the pool and the resource
    locks are the step relation \<open>lock_step\<close>.  The locale \<open>reusing\<close> extends \<open>evidence_store\<close> by
    what the scheduler needs of a cache; both are interpreted on the model of the cache.
  \<^item> Attribution, Suppressions, Verify: application/finding_identity.py, suppressions.py and
    verify.py; \<open>verify\<close> is composed of \<open>build_graph\<close>, \<open>run_graph\<close> and \<open>verdict\<close>.
  \<^item> Baseline: application/baseline.py; \<open>delta_of\<close> is the delta \<open>compare\<close> returns.
  \<^item> Request: application/request.py; \<open>covers\<close> is the specification of required coverage.
  \<^item> Tem, Report: application/tem.py and report.py.  Identity: application/identity.py.
  \<^item> Filesystem: directories, files and links as the execution modules use them.  Outputs,
    Production: execution/outputs.py, manifest.py and production.py, as actions on a disk that
    keeps every state another process could have seen; Production_Facts, Production_Runs: what
    each action leaves on it.
  \<^item> Strong_Components, Cycle_Paths, Import_Graph, Cycle_Check: analysis/cycles.py and
    languages/cycles.py.  \<open>explore\<close> is the loop of Tarjan's algorithm, one neighbour a step;
    Strong_Components_Facts holds its invariant.
  \<^item> Snapshot: execution/snapshot.py.
  \<^item> Dup_Matching, Dup_Clustering, Dup_Check: analysis/_dup_signal.py, _dup_matching.py,
    _dup_clustering.py, _dup_regions.py and languages/duplicates.py.  Hashes are 128-bit words, as
    the mask makes them.  Dup_Matching_Facts states a set of positions as a locale, which the sorted
    intervals of the search interpret; Dup_Window_Facts, Dup_Match_Facts and Dup_Search_Facts hold
    what windows, extended seeds and the whole search are, Dup_Cluster_Facts the graph of matches.
  \<^item> Cpp_Lexer, Cpp_Tokens: analysis/_cpp_dup_tokenization.py.  A text is the list of its
    characters and an index is what is left of it; \<open>next_lexeme\<close> is the body of the tokenizer's
    loop, \<open>next_scanned\<close> that of the scan for directives.  What the interpreter knows of Unicode is
    the record \<open>unicode\<close>.  Cpp_Properties: what both return.
  \<^item> Analysis_Sources: analysis/_source_inputs.py and the bounded read of
    core/_compile_db_paths.py, over what the system answers to each call; of a read error the
    code and the message are kept, not the file it also names.
  \<^bold>\<open>What the lemmas show.\<close>  Constructors accept exactly the records that satisfy their invariant;
  readers return valid records and invert writers; a built graph serves or refuses every planned
  check once, has layers, and its refusals are the least set closed under missing inputs; a run
  gives one observation for each check, none of them a success without its inputs; units at work
  share no resource key and a layer whose tasks name no key twice ends; a cache keeps its bound
  and answers with complete evidence only; a gate passes on complete evidence only, suppressions
  mark and never remove, a baseline comparison partitions the findings, and an assembled report is
  valid and can be stored; promoted output verifies, a manifest is published whole or not at all,
  and a prepared output stays below its root.  The properties stand in Domain_Properties,
  Planning_Properties, Execution_Properties, Verdict_Properties,
  Composition_Properties, Production_Properties, Cycle_Properties, Snapshot_Properties,
  Dup_Properties, Cpp_Properties,
  Dup_Check_Properties and here, each with a witness on the data of
  Samples, Run_Samples and Verdict_Samples.

  \<^bold>\<open>Termination and bounds.\<close>  The graph loops shrink a list, the cycle search shrinks
  the set of unvisited nodes, the line splitter its input.  The only bound is \<open>links\<close>, the links
  one path resolution follows, as the kernel bounds them: the properties hold for each bound.  \<open>max_parallel\<close> bounds the active
  units of a layer (\<open>pool_size\<close>).

  \<^bold>\<open>Not modelled.\<close>  The language packs' providers and parsers, the analyses other than cycles
  and duplicates, the engines and reports
  of the earlier command line, the readers of TOML documents, reading /proc and signalling process
  groups, the viewer and the build scripts: they are input and output, third-party formats or
  code outside the path above.  Timing enters only as the outcome of a process; the callbacks of
  the scheduler only observe.
\<close>

section \<open>Documents\<close>

text \<open>C37: Every valid run result survives being written and read back: the reader accepts what the
  writer wrote and returns the same result up to the details of suppressions that are not in
  force, and writing it again gives the same document.\<close>

theorem run_result_roundtrip:
  assumes "run_result_ok r"
  shows "run_result_from_dict (run_result_to_dict r) = Inr (wire_run_result r)
    \<and> run_result_to_dict (wire_run_result r) = run_result_to_dict r"
  using assms by (simp add: run_result_codec.dec_enc run_result_codec.enc_norm)

theorem run_result_roundtrip_witness:
  "run_result_from_dict (run_result_to_dict sample_run) = Inr (wire_run_result sample_run)"
  using run_result_roundtrip [of sample_run] by simp

text \<open>C36: Whatever document a run result is read from, the result satisfies the whole invariant of the
  envelope; in particular a passing result finished its required work, was not cancelled, blocked
  nothing, reports no violation, and its exit code is 0.\<close>

theorem read_result_valid:
  assumes "run_result_from_dict v = Inr r"
  shows "run_result_ok r \<and> (ga_selected (rr_gate r) = PASS \<longrightarrow>
    ex_required_complete (rr_execution r) \<and> \<not> ex_cancelled (rr_execution r)
    \<and> ex_blocked_task_ids (rr_execution r) = [] \<and> \<not> ga_has_violations (rr_gate r)
    \<and> exit_code (rr_gate r) = 0)"
  using run_result_read_ok [OF assms] passing_run_complete by (auto simp: exit_code_def)

theorem read_result_valid_witness:
  "run_result_ok (wire_run_result sample_run)"
  using read_result_valid [of "run_result_to_dict sample_run" "wire_run_result sample_run"]
  by (simp add: run_result_codec.dec_enc)

end
